(* ===== verification/Prelude.thy ===== *)
theory Prelude
  imports Complex_Main
begin

text \<open>
  Shared vocabulary of the development: the transaction monad every service
  operation is written in, its decomposition rules, and generic lemmas on tables
  (rows kept in insertion order), on maps and on sums over rows.

  A transaction takes the database, and either fails with an error, in which case
  the caller keeps the database it had (the rollback of \<^verbatim>\<open>prisma.$transaction\<close>), or returns
  a value together with the new database.
\<close>

named_theorems tx_simps \<open>unfolding rules of the transaction combinators\<close>
named_theorems effect \<open>what a successful operation did to the database\<close>
named_theorems table_simps \<open>lookups and counts after a row update\<close>

section \<open>Transactions\<close>

type_synonym ('e, 's, 'a) tx = "'s \<Rightarrow> 'e + ('a \<times> 's)"

definition tx_return :: "'a \<Rightarrow> ('e, 's, 'a) tx" where
  "tx_return a = (\<lambda>s. Inr (a, s))"

definition tx_throw :: "'e \<Rightarrow> ('e, 's, 'a) tx" where
  "tx_throw e = (\<lambda>s. Inl e)"

definition tx_bind :: "('e, 's, 'a) tx \<Rightarrow> ('a \<Rightarrow> ('e, 's, 'b) tx) \<Rightarrow> ('e, 's, 'b) tx" where
  "tx_bind m f = (\<lambda>s. case m s of Inl e \<Rightarrow> Inl e | Inr (a, s') \<Rightarrow> f a s')"

definition tx_read :: "('s \<Rightarrow> 'a) \<Rightarrow> ('e, 's, 'a) tx" where
  "tx_read f = (\<lambda>s. Inr (f s, s))"

definition tx_modify :: "('s \<Rightarrow> 's) \<Rightarrow> ('e, 's, unit) tx" where
  "tx_modify f = (\<lambda>s. Inr ((), f s))"

text \<open>\<open>if (!b) throw e\<close>.\<close>

definition tx_guard :: "bool \<Rightarrow> 'e \<Rightarrow> ('e, 's, unit) tx" where
  "tx_guard b e = (if b then tx_return () else tx_throw e)"

text \<open>\<open>if (x === null) throw e\<close>, keeping the value otherwise.\<close>

definition tx_some :: "'a option \<Rightarrow> 'e \<Rightarrow> ('e, 's, 'a) tx" where
  "tx_some x e = (case x of None \<Rightarrow> tx_throw e | Some a \<Rightarrow> tx_return a)"

text \<open>A \<open>for\<close> loop over a list with an accumulator, stopping at the first error.\<close>

fun tx_fold :: "('a \<Rightarrow> 'b \<Rightarrow> ('e, 's, 'b) tx) \<Rightarrow> 'a list \<Rightarrow> 'b \<Rightarrow> ('e, 's, 'b) tx" where
  "tx_fold f [] b = tx_return b"
| "tx_fold f (x # xs) b = tx_bind (f x b) (\<lambda>b'. tx_fold f xs b')"

text \<open>The state a caller is left with: the new one on success, its own on an error.\<close>

definition commit :: "'s \<Rightarrow> 'e + ('a \<times> 's) \<Rightarrow> 's" where
  "commit s r = (case r of Inl e \<Rightarrow> s | Inr (a, s') \<Rightarrow> s')"

lemma tx_return_Inr [tx_simps]: "tx_return a s = Inr (b, s') \<longleftrightarrow> b = a \<and> s' = s"
  by (auto simp: tx_return_def)

lemma tx_return_app [simp]: "tx_return a s = Inr (a, s)"
  by (simp add: tx_return_def)

lemma tx_throw_Inr [tx_simps]: "tx_throw e s = Inr r \<longleftrightarrow> False"
  by (simp add: tx_throw_def)

lemma tx_throw_app [simp]: "tx_throw e s = Inl e"
  by (simp add: tx_throw_def)

lemma tx_bind_Inr [tx_simps]:
  "tx_bind m f s = Inr r \<longleftrightarrow> (\<exists>a s1. m s = Inr (a, s1) \<and> f a s1 = Inr r)"
  by (auto simp: tx_bind_def split: sum.splits prod.splits)

lemma tx_bind_Inl:
  "tx_bind m f s = Inl e \<longleftrightarrow> m s = Inl e \<or> (\<exists>a s1. m s = Inr (a, s1) \<and> f a s1 = Inl e)"
  by (auto simp: tx_bind_def split: sum.splits prod.splits)

lemma tx_bind_InrI: "m s = Inr (a, s1) \<Longrightarrow> tx_bind m f s = f a s1"
  by (simp add: tx_bind_def)

lemma tx_bind_InlI: "m s = Inl e \<Longrightarrow> tx_bind m f s = Inl e"
  by (simp add: tx_bind_def)

lemma tx_bind_return [simp]: "tx_bind (tx_return a) f = f a"
  by (simp add: tx_bind_def tx_return_def)

lemma tx_bind_throw [simp]: "tx_bind (tx_throw e) f = tx_throw e"
  by (simp add: tx_bind_def tx_throw_def)

lemma tx_read_app [simp]: "tx_read f s = Inr (f s, s)"
  by (simp add: tx_read_def)

lemma tx_modify_app [simp]: "tx_modify f s = Inr ((), f s)"
  by (simp add: tx_modify_def)

lemma tx_bind_read [simp]: "tx_bind (tx_read f) g s = g (f s) s"
  by (simp add: tx_bind_def)

lemma tx_bind_modify [simp]: "tx_bind (tx_modify f) g s = g () (f s)"
  by (simp add: tx_bind_def)

lemma tx_guard_Inr [tx_simps]: "tx_guard b e s = Inr (u, s') \<longleftrightarrow> b \<and> s' = s"
  by (auto simp: tx_guard_def tx_simps)

lemma tx_guard_True [simp]: "tx_guard True e = tx_return ()"
  by (simp add: tx_guard_def)

lemma tx_guard_False [simp]: "tx_guard False e = tx_throw e"
  by (simp add: tx_guard_def)

lemma tx_some_Inr [tx_simps]: "tx_some x e s = Inr (a, s') \<longleftrightarrow> x = Some a \<and> s' = s"
  by (cases x) (auto simp: tx_some_def tx_simps)

lemma tx_some_Some [simp]: "tx_some (Some a) e = tx_return a"
  by (simp add: tx_some_def)

lemma tx_some_None [simp]: "tx_some None e = tx_throw e"
  by (simp add: tx_some_def)

lemma commit_Inl [simp]: "commit s (Inl e) = s"
  by (simp add: commit_def)

lemma commit_Inr [simp]: "commit s (Inr (a, s')) = s'"
  by (simp add: commit_def)

text \<open>
  \<open>tx_rel R m\<close>: every successful run of \<open>m\<close> relates its start and its end by \<open>R\<close>. For a
  reflexive and transitive \<open>R\<close> it composes along the code, which is how frame
  conditions, append-only tables and invariants are carried through an operation.
\<close>

definition tx_rel :: "('s \<Rightarrow> 's \<Rightarrow> bool) \<Rightarrow> ('e, 's, 'a) tx \<Rightarrow> bool" where
  "tx_rel R m \<longleftrightarrow> (\<forall>s a s'. m s = Inr (a, s') \<longrightarrow> R s s')"

lemma tx_relI: "(\<And>s a s'. m s = Inr (a, s') \<Longrightarrow> R s s') \<Longrightarrow> tx_rel R m"
  by (auto simp: tx_rel_def)

lemma tx_relD: "tx_rel R m \<Longrightarrow> m s = Inr (a, s') \<Longrightarrow> R s s'"
  by (auto simp: tx_rel_def)

lemma tx_rel_return: "reflp R \<Longrightarrow> tx_rel R (tx_return a)"
  by (auto simp: tx_rel_def tx_simps reflp_def)

lemma tx_rel_throw: "tx_rel R (tx_throw e)"
  by (auto simp: tx_rel_def)

lemma tx_rel_read: "reflp R \<Longrightarrow> tx_rel R (tx_read f)"
  by (auto simp: tx_rel_def reflp_def)

lemma tx_rel_guard: "reflp R \<Longrightarrow> tx_rel R (tx_guard b e)"
  by (auto simp: tx_rel_def tx_simps reflp_def)

lemma tx_rel_some: "reflp R \<Longrightarrow> tx_rel R (tx_some x e)"
  by (auto simp: tx_rel_def tx_simps reflp_def)

lemma tx_rel_bind:
  "transp R \<Longrightarrow> tx_rel R m \<Longrightarrow> (\<And>a. tx_rel R (f a)) \<Longrightarrow> tx_rel R (tx_bind m f)"
  unfolding tx_rel_def tx_bind_Inr by (metis transpD)

lemma tx_rel_modify: "(\<And>s. R s (f s)) \<Longrightarrow> tx_rel R (tx_modify f)"
  by (auto simp: tx_rel_def)

lemma tx_rel_if: "tx_rel R m \<Longrightarrow> tx_rel R n \<Longrightarrow> tx_rel R (if b then m else n)"
  by simp

lemma tx_rel_option:
  "tx_rel R m \<Longrightarrow> (\<And>x. tx_rel R (f x)) \<Longrightarrow> tx_rel R (case v of None \<Rightarrow> m | Some x \<Rightarrow> f x)"
  by (cases v) auto

lemma tx_rel_fold:
  "reflp R \<Longrightarrow> transp R \<Longrightarrow> (\<And>x b. tx_rel R (f x b)) \<Longrightarrow> tx_rel R (tx_fold f xs b)"
  by (induction xs arbitrary: b) (auto intro: tx_rel_return tx_rel_bind)

lemmas tx_rel_rules =
  tx_rel_return tx_rel_throw tx_rel_read tx_rel_guard tx_rel_some tx_rel_bind
  tx_rel_if tx_rel_option tx_rel_fold

text \<open>
  The weakest precondition of a transaction for partial correctness: what must hold for every
  successful run to end in \<open>Q\<close>. The equations below push it through the code, so that a
  proof about an operation is left with what its guards say.
\<close>

named_theorems wp_simps \<open>weakest preconditions of the combinators and of the primitive operations\<close>

definition tx_wp :: "('e, 's, 'a) tx \<Rightarrow> ('a \<Rightarrow> 's \<Rightarrow> bool) \<Rightarrow> 's \<Rightarrow> bool" where
  "tx_wp m Q s = (case m s of Inl e \<Rightarrow> True | Inr (a, s') \<Rightarrow> Q a s')"

lemma tx_wpI: "(\<And>a s'. m s = Inr (a, s') \<Longrightarrow> Q a s') \<Longrightarrow> tx_wp m Q s"
  by (auto simp: tx_wp_def split: sum.splits)

lemma tx_wpD: "tx_wp m Q s \<Longrightarrow> m s = Inr (a, s') \<Longrightarrow> Q a s'"
  by (simp add: tx_wp_def)

lemma tx_wp_mono: "tx_wp m P s \<Longrightarrow> (\<And>a s'. P a s' \<Longrightarrow> Q a s') \<Longrightarrow> tx_wp m Q s"
  by (auto simp: tx_wp_def split: sum.splits prod.splits)

lemma tx_wp_rel: "tx_rel R m \<Longrightarrow> (\<And>a s'. R s s' \<Longrightarrow> Q a s') \<Longrightarrow> tx_wp m Q s"
  by (auto simp: tx_wp_def tx_rel_def split: sum.splits prod.splits)

lemma wp_return [wp_simps]: "tx_wp (tx_return a) Q = (\<lambda>s. Q a s)"
  by (rule ext) (simp add: tx_wp_def)

lemma wp_throw [wp_simps]: "tx_wp (tx_throw e) Q = (\<lambda>s. True)"
  by (rule ext) (simp add: tx_wp_def)

lemma wp_bind [wp_simps]: "tx_wp (tx_bind m f) Q = (\<lambda>s. tx_wp m (\<lambda>a. tx_wp (f a) Q) s)"
  by (rule ext) (simp add: tx_wp_def tx_bind_def split: sum.splits prod.splits)

lemma wp_read [wp_simps]: "tx_wp (tx_read f) Q = (\<lambda>s. Q (f s) s)"
  by (rule ext) (simp add: tx_wp_def)

lemma wp_modify [wp_simps]: "tx_wp (tx_modify f) Q = (\<lambda>s. Q () (f s))"
  by (rule ext) (simp add: tx_wp_def)

lemma wp_guard [wp_simps]: "tx_wp (tx_guard b e) Q = (\<lambda>s. (b \<longrightarrow> Q () s))"
  by (rule ext) (simp add: tx_wp_def tx_guard_def)

lemma wp_some [wp_simps]: "tx_wp (tx_some x e) Q = (\<lambda>s. (\<forall>a. x = Some a \<longrightarrow> Q a s))"
  by (rule ext) (cases x; simp add: tx_wp_def)

lemma wp_if [wp_simps]: "tx_wp (if b then m else n) Q = (\<lambda>s. (if b then tx_wp m Q s else tx_wp n Q s))"
  by (rule ext) simp

lemma wp_option [wp_simps]:
  "tx_wp (case v of None \<Rightarrow> m | Some x \<Rightarrow> f x) Q = (\<lambda>s. (case v of None \<Rightarrow> tx_wp m Q s | Some x \<Rightarrow> tx_wp (f x) Q s))"
  by (rule ext) (cases v; simp)

text \<open>
  That a transaction goes through. With the weakest precondition it gives total correctness:
  \<open>tx_ok m s\<close> and \<open>tx_wp m Q s\<close> together say that \<open>m\<close> succeeds and ends in \<open>Q\<close>.
\<close>

named_theorems ok_simps \<open>when the combinators and the primitive operations go through\<close>

definition tx_ok :: "('e, 's, 'a) tx \<Rightarrow> 's \<Rightarrow> bool" where
  "tx_ok m s = (case m s of Inl e \<Rightarrow> False | Inr r \<Rightarrow> True)"

lemma tx_ok_iff: "tx_ok m s \<longleftrightarrow> (\<exists>a s'. m s = Inr (a, s'))"
  by (auto simp: tx_ok_def split: sum.splits)

lemma tx_total: "tx_ok m s \<Longrightarrow> tx_wp m Q s \<Longrightarrow> \<exists>a s'. m s = Inr (a, s') \<and> Q a s'"
  by (auto simp: tx_ok_iff dest: tx_wpD)

lemma ok_return [ok_simps]: "tx_ok (tx_return a) s"
  by (simp add: tx_ok_iff)

lemma ok_throw [ok_simps]: "\<not> tx_ok (tx_throw e) s"
  by (simp add: tx_ok_iff)

lemma ok_bind [ok_simps]: "tx_ok (tx_bind m f) s \<longleftrightarrow> tx_ok m s \<and> tx_wp m (\<lambda>a. tx_ok (f a)) s"
  by (auto simp: tx_ok_def tx_wp_def tx_bind_def split: sum.splits prod.splits)

lemma ok_read [ok_simps]: "tx_ok (tx_read f) s"
  by (simp add: tx_ok_iff)

lemma ok_modify [ok_simps]: "tx_ok (tx_modify f) s"
  by (simp add: tx_ok_iff)

lemma ok_guard [ok_simps]: "tx_ok (tx_guard b e) s \<longleftrightarrow> b"
  by (simp add: tx_ok_def tx_guard_def)

lemma ok_some [ok_simps]: "tx_ok (tx_some x e) s \<longleftrightarrow> x \<noteq> None"
  by (cases x) (simp_all add: tx_ok_def)

lemma ok_if [ok_simps]: "tx_ok (if b then m else n) s \<longleftrightarrow> (if b then tx_ok m s else tx_ok n s)"
  by simp

lemma ok_option [ok_simps]:
  "tx_ok (case v of None \<Rightarrow> m | Some x \<Rightarrow> f x) s \<longleftrightarrow> (case v of None \<Rightarrow> tx_ok m s | Some x \<Rightarrow> tx_ok (f x) s)"
  by (cases v) simp_all

text \<open>A successful result whose value satisfies \<open>p\<close>.\<close>

definition returns_such :: "('a \<Rightarrow> bool) \<Rightarrow> 'e + ('a \<times> 's) \<Rightarrow> bool" where
  "returns_such p r = (case r of Inl e \<Rightarrow> False | Inr (a, s) \<Rightarrow> p a)"

lemma returns_suchD: "returns_such p r \<Longrightarrow> \<exists>a s. r = Inr (a, s) \<and> p a"
  by (auto simp: returns_such_def split: sum.splits prod.splits)

section \<open>Runs of a service\<close>

text \<open>
  A run of a service: operations in order, a failing one leaving the state as it was. The
  contract of a service is an invariant every successful operation keeps.
\<close>

fun run_ops :: "('o \<Rightarrow> ('e, 's, 'a) tx) \<Rightarrow> 'o list \<Rightarrow> 's \<Rightarrow> 's" where
  "run_ops step [] s = s"
| "run_ops step (x # xs) s = run_ops step xs (commit s (step x s))"

locale service =
  fixes step :: "'o \<Rightarrow> ('e, 's, 'a) tx" and inv :: "'s \<Rightarrow> bool"
  assumes step_inv: "step x s = Inr (a, s') \<Longrightarrow> inv s \<Longrightarrow> inv s'"
begin

lemma commit_inv: "inv s \<Longrightarrow> inv (commit s (step x s))"
proof (cases "step x s")
  case (Inr r)
  then show "inv s \<Longrightarrow> inv (commit s (step x s))" using step_inv [of x s] by (cases r) simp
qed simp

lemma run_inv: "inv s \<Longrightarrow> inv (run_ops step xs s)"
  by (induction xs arbitrary: s) (auto intro: commit_inv)

lemma run_append: "run_ops step (xs @ ys) s = run_ops step ys (run_ops step xs s)"
  by (induction xs arbitrary: s) simp_all

end

text \<open>A service whose successful operations also relate the two states, transitively.\<close>

locale monotone_service = service step inv
  for step :: "'o \<Rightarrow> ('e, 's, 'a) tx" and inv :: "'s \<Rightarrow> bool" +
  fixes rel :: "'s \<Rightarrow> 's \<Rightarrow> bool"
  assumes step_rel: "step x s = Inr (b, s') \<Longrightarrow> inv s \<Longrightarrow> rel s s'"
    and rel_refl: "rel s s" and rel_trans: "rel s s1 \<Longrightarrow> rel s1 s2 \<Longrightarrow> rel s s2"
begin

lemma run_rel: "inv s \<Longrightarrow> rel s (run_ops step xs s)"
proof (induction xs arbitrary: s)
  case Nil
  then show ?case by (simp add: rel_refl)
next
  case (Cons x xs)
  have "rel s (commit s (step x s))"
  proof (cases "step x s")
    case (Inl e)
    then show ?thesis by (simp add: rel_refl)
  next
    case (Inr r)
    then show ?thesis using step_rel [of x s] Cons.prems by (cases r) simp
  qed
  then show ?case using Cons commit_inv rel_trans by force
qed

end

section \<open>Tables\<close>

text \<open>
  A table is the list of its rows in insertion order. \<open>update_where\<close> is
  \<^verbatim>\<open>tx.<table>.update\<close>, \<open>count_where\<close> is \<^verbatim>\<open>tx.<table>.count\<close> and
  \<open>List.find\<close> is \<^verbatim>\<open>findUnique\<close>.
\<close>

definition update_where :: "('r \<Rightarrow> bool) \<Rightarrow> ('r \<Rightarrow> 'r) \<Rightarrow> 'r list \<Rightarrow> 'r list" where
  "update_where p f rows = map (\<lambda>r. if p r then f r else r) rows"

definition count_where :: "('r \<Rightarrow> bool) \<Rightarrow> 'r list \<Rightarrow> nat" where
  "count_where p rows = length (filter p rows)"

definition sum_where :: "('r \<Rightarrow> bool) \<Rightarrow> ('r \<Rightarrow> int) \<Rightarrow> 'r list \<Rightarrow> int" where
  "sum_where p f rows = sum_list (map f (filter p rows))"

lemma update_where_Nil [simp]: "update_where p f [] = []"
  by (simp add: update_where_def)

lemma update_where_Cons [simp]:
  "update_where p f (r # rows) = (if p r then f r else r) # update_where p f rows"
  by (simp add: update_where_def)

lemma length_update_where [simp]: "length (update_where p f rows) = length rows"
  by (simp add: update_where_def)

lemma count_where_Nil [simp]: "count_where p [] = 0"
  by (simp add: count_where_def)

lemma count_where_Cons [simp]:
  "count_where p (r # rows) = (if p r then 1 else 0) + count_where p rows"
  by (simp add: count_where_def)

lemma count_where_append [simp]:
  "count_where p (xs @ ys) = count_where p xs + count_where p ys"
  by (simp add: count_where_def)

lemma sum_where_Nil [simp]: "sum_where p f [] = 0"
  by (simp add: sum_where_def)

lemma sum_where_Cons [simp]:
  "sum_where p f (r # rows) = (if p r then f r else 0) + sum_where p f rows"
  by (simp add: sum_where_def)

lemma sum_where_append [simp]:
  "sum_where p f (xs @ ys) = sum_where p f xs + sum_where p f ys"
  by (simp add: sum_where_def)

lemma count_where_zero: "count_where p rows = 0 \<longleftrightarrow> (\<forall>r\<in>set rows. \<not> p r)"
  by (auto simp: count_where_def filter_empty_conv)

lemma count_where_pos: "r \<in> set rows \<Longrightarrow> p r \<Longrightarrow> 0 < count_where p rows"
  by (metis count_where_zero neq0_conv)

lemma count_where_cong:
  "(\<And>r. r \<in> set rows \<Longrightarrow> p r = q r) \<Longrightarrow> count_where p rows = count_where q rows"
  by (induction rows) auto

lemma count_where_disj:
  "(\<And>r. r \<in> set rows \<Longrightarrow> \<not> (p r \<and> q r)) \<Longrightarrow>
   count_where (\<lambda>r. p r \<or> q r) rows = count_where p rows + count_where q rows"
  by (induction rows) auto

lemma count_update_where_same:
  "(\<And>r. r \<in> set rows \<Longrightarrow> u r \<Longrightarrow> p (f r) = p r) \<Longrightarrow>
   count_where p (update_where u f rows) = count_where p rows"
  by (induction rows) auto

text \<open>
  The effect on a count of updating the one row of a given key: the predicate of the
  row before is traded for the predicate of the row after.
\<close>

lemma find_key_mem:
  "find (\<lambda>r. k r = x) rows = Some r \<Longrightarrow> r \<in> set rows \<and> k r = x"
  by (auto simp: find_Some_iff)

lemma find_key_unique:
  "distinct (map k rows) \<Longrightarrow> r \<in> set rows \<Longrightarrow> find (\<lambda>q. k q = k r) rows = Some r"
  by (induction rows) auto

lemma distinct_key_eq:
  "distinct (map k rows) \<Longrightarrow> r \<in> set rows \<Longrightarrow> q \<in> set rows \<Longrightarrow> k r = k q \<Longrightarrow> r = q"
  by (meson distinct_map inj_onD)

lemma update_where_absent:
  "x \<notin> k ` set rows \<Longrightarrow> update_where (\<lambda>r. k r = x) f rows = rows"
  by (induction rows) auto

lemma count_update_key:
  "distinct (map k rows) \<Longrightarrow> r \<in> set rows \<Longrightarrow>
   count_where p (update_where (\<lambda>q. k q = k r) f rows) + (if p r then 1 else 0) =
   count_where p rows + (if p (f r) then 1 else 0)"
proof (induction rows)
  case Nil
  then show ?case by simp
next
  case (Cons a rows)
  show ?case
  proof (cases "a = r")
    case True
    with Cons.prems have "k r \<notin> k ` set rows" by auto
    with True show ?thesis by (simp add: update_where_absent)
  next
    case False
    with Cons.prems have mem: "r \<in> set rows" and "k a \<noteq> k r"
      by (auto dest: distinct_key_eq)
    with Cons show ?thesis by simp
  qed
qed

lemma count_distinct_key: "distinct (map k rows) \<Longrightarrow> count_where (\<lambda>r. k r = x) rows \<le> 1"
proof (induction rows)
  case Nil
  then show ?case by simp
next
  case (Cons a rows)
  have "k a = x \<Longrightarrow> count_where (\<lambda>r. k r = x) rows = 0"
    using Cons.prems by (auto simp: count_where_zero image_iff)
  with Cons show ?case by auto
qed

lemma set_update_where:
  "q \<in> set (update_where u f rows) \<longleftrightarrow> (\<exists>r\<in>set rows. q = (if u r then f r else r))"
  by (auto simp: update_where_def)

lemma update_where_new: "q \<in> set (update_where u (\<lambda>_. x) rows) \<Longrightarrow> q \<notin> set rows \<Longrightarrow> q = x"
  by (auto simp: set_update_where split: if_splits)

lemma update_where_in: "r \<in> set rows \<Longrightarrow> u r \<Longrightarrow> x \<in> set (update_where u (\<lambda>_. x) rows)"
  by (force simp: set_update_where)

lemma update_where_key: "(\<And>r. r \<in> set rows \<Longrightarrow> u r \<Longrightarrow> k x = k r) \<Longrightarrow> map k (update_where u (\<lambda>_. x) rows) = map k rows"
  by (auto simp: update_where_def)

lemma map_update_where_key [simp]:
  "(\<And>r. k (f r) = k r) \<Longrightarrow> map k (update_where u f rows) = map k rows"
  by (induction rows) auto

lemma sum_where_nonneg:
  "(\<And>r. r \<in> set rows \<Longrightarrow> p r \<Longrightarrow> 0 \<le> f r) \<Longrightarrow> 0 \<le> sum_where p f rows"
  by (induction rows) auto

lemma find_append_None [simp]:
  "find p (xs @ ys) = (case find p xs of None \<Rightarrow> find p ys | Some x \<Rightarrow> Some x)"
  by (induction xs) auto

section \<open>Rows related one by one\<close>

lemma tx_bind_assoc: "tx_bind (tx_bind m f) g = tx_bind m (\<lambda>a. tx_bind (f a) g)"
  by (rule ext) (simp add: tx_bind_def split: sum.split)

lemma tx_rel_list: "tx_rel R m \<Longrightarrow> (\<And>x xs. tx_rel R (f x xs)) \<Longrightarrow> tx_rel R (case v of [] \<Rightarrow> m | x # xs \<Rightarrow> f x xs)"
  by (cases v) auto

lemma append_split_iff:
  "xs @ [x] = earlier @ l # later \<longleftrightarrow> (later = [] \<and> xs = earlier \<and> x = l) \<or> (\<exists>rest. later = rest @ [x] \<and> xs = earlier @ l # rest)"
  by (cases later rule: rev_cases) auto

lemma list_all2_keys: "list_all2 R xs ys \<Longrightarrow> (\<And>x y. R x y \<Longrightarrow> k y = k x) \<Longrightarrow> map k ys = map k xs"
  by (induction rule: list_all2_induct) auto

lemma list_all2_count: "list_all2 R xs ys \<Longrightarrow> (\<And>x y. R x y \<Longrightarrow> q y = q x) \<Longrightarrow> count_where q ys = count_where q xs"
  by (induction rule: list_all2_induct) auto

lemma list_all2_update: "(\<And>x. R x x) \<Longrightarrow> (\<And>x. x \<in> set xs \<Longrightarrow> q x \<Longrightarrow> R x (f x)) \<Longrightarrow> list_all2 R xs (update_where q f xs)"
  by (induction xs) auto

lemma list_all2_mem: "list_all2 R xs ys \<Longrightarrow> y \<in> set ys \<Longrightarrow> \<exists>x\<in>set xs. R x y"
  by (induction rule: list_all2_induct) auto

lemma list_all2_mem': "list_all2 R xs ys \<Longrightarrow> x \<in> set xs \<Longrightarrow> \<exists>y\<in>set ys. R x y"
  by (induction rule: list_all2_induct) auto

lemma update_where_twice:
  assumes "\<And>q. k (f q) = k q" and "\<And>q. f (g q) = f q" and "\<And>q. k (g q) = k q"
  shows "update_where (\<lambda>q. k q = i) f (update_where (\<lambda>q. k q = i) g rows) = update_where (\<lambda>q. k q = i) f rows"
  using assms by (simp add: update_where_def)

lemma update_where_only:
  assumes "distinct (map k rows)" and "x \<in> set rows" and "k x = i"
  shows "update_where (\<lambda>q. k q = i) f rows = update_where (\<lambda>q. k q = i) (\<lambda>_. f x) rows"
proof -
  have "q = x" if "q \<in> set rows" "k q = i" for q
    by (rule distinct_key_eq [OF assms(1) that(1) assms(2)]) (simp add: that(2) assms(3))
  then show ?thesis by (auto simp: update_where_def)
qed

lemma find_update_key:
  "(\<And>q. k (f q) = k q) \<Longrightarrow> find (\<lambda>q. k q = i) (update_where (\<lambda>q. k q = i) f rows) = map_option f (find (\<lambda>q. k q = i) rows)"
  by (induction rows) auto

lemma count_where_map: "count_where q (map f rows) = count_where (\<lambda>r. q (f r)) rows"
  by (induction rows) simp_all

lemma count_where_find:
  "distinct (map k rows) \<Longrightarrow> count_where (\<lambda>r. k r = x \<and> q r) rows
     = (case find (\<lambda>r. k r = x) rows of None \<Rightarrow> 0 | Some r \<Rightarrow> if q r then 1 else 0)"
proof (induction rows)
  case (Cons a rows)
  have "count_where (\<lambda>r. k r = x \<and> q r) rows = 0" if "k a = x"
    using Cons.prems that by (auto simp: count_where_zero) (metis image_eqI)
  with Cons show ?case by auto
qed simp

lemma key_once:
  assumes "distinct (map k rows)" and "\<And>r. r \<in> set rows \<Longrightarrow> q r \<Longrightarrow> k r = x"
  shows "length (filter q rows) \<le> 1"
proof -
  have "length (filter q rows) = count_where q rows" by (simp add: count_where_def)
  also have "\<dots> \<le> count_where (\<lambda>r. k r = x) rows" using assms(2) by (induction rows) auto
  finally show ?thesis using count_distinct_key [OF assms(1), of x] by simp
qed

end
