(* ===== verification/Errors.thy ===== *)
theory Errors
  imports Prelude
begin

text \<open>
  The error catalogue of \<^verbatim>\<open>packages/shared/src/errors.ts\<close>: every code a domain service
  throws, and the HTTP status the API answers it with. A code is its string, as in the
  source (\<^verbatim>\<open>NOT_FOUND: 'NOT_FOUND'\<close>). The Persian messages are display text and are left
  out.
\<close>

type_synonym error_code = string

definition ErrorCode :: "error_code list" where
  "ErrorCode = [
    ''INVALID_INIT_DATA'', ''INIT_DATA_EXPIRED'', ''UNAUTHENTICATED'', ''USER_BANNED'',
    ''TERMS_NOT_ACCEPTED'', ''POLICY_VERSION_STALE'', ''AGE_BELOW_MINIMUM'',
    ''PROFILE_INCOMPLETE'', ''GENDER_NOT_EDITABLE'', ''GENDER_NOT_SELECTABLE'',
    ''INVALID_INTEREST'', ''CITY_NOT_AVAILABLE'', ''CITY_NOT_LAUNCHED'',
    ''INVALID_DISTRICT'', ''CUSTOM_LABEL_NOT_ALLOWED'', ''CUSTOM_LABEL_REQUIRED'',
    ''EVENT_NOT_FOUND'', ''EVENT_NOT_JOINABLE'', ''EVENT_QUOTA_EXCEEDED'',
    ''EVENT_ACTIVE_QUOTA_EXCEEDED'', ''CONTENT_BLOCKED'', ''CAPACITY_BELOW_ACCEPTED'',
    ''CONFLICT_STALE_VERSION'', ''EVENT_ALREADY_STARTED'', ''DUPLICATE_REQUEST'',
    ''HOST_CANNOT_JOIN'', ''DIRECT_BLOCKED_BY_RECIPIENT'', ''DIRECT_BLOCKED_BY_YOU'',
    ''EVENT_FULL_NO_WAITLIST'', ''CAPACITY_EXCEEDED'', ''NOT_ELIGIBLE_GENDER'',
    ''NOT_ELIGIBLE_AGE'', ''NOT_ELIGIBLE_CITY'', ''TRUST_TOO_LOW'',
    ''INVALID_STATE_TRANSITION'', ''CHAT_MEDIA_UNSUPPORTED'', ''INSUFFICIENT_COINS'',
    ''INVALID_REFERRAL_CODE'', ''SELF_REFERRAL'', ''ALREADY_REFERRED'',
    ''REFERRAL_WINDOW_CLOSED'', ''EVENT_NOT_BOOSTABLE'', ''EVENT_NOT_INVITABLE'',
    ''EVENT_ALREADY_IN_CHANNEL'', ''CHANNEL_UNAVAILABLE'', ''GIFT_CODE_INVALID'',
    ''GIFT_CODE_EXPIRED'', ''GIFT_CODE_ALREADY_REDEEMED'', ''GIFT_CODE_EXHAUSTED'',
    ''GIFT_CODE_DUPLICATE'', ''GIFT_CODE_DISABLED'', ''ALREADY_REVIEWED'',
    ''REVIEW_WINDOW_CLOSED'', ''REVIEW_NOT_EDITABLE'', ''ALREADY_REPORTED'',
    ''CANNOT_REPORT_OWN_CONTENT'', ''CLAIM_WINDOW_CLOSED'', ''ALREADY_CLAIMED'',
    ''WRONG_CASE_DECISION'', ''INVALID_CREDENTIALS'', ''ACCOUNT_LOCKED'',
    ''UNSEAL_REQUIRES_OPEN_CASE'', ''UNSEAL_REASON_REQUIRED'', ''UNSEAL_GRANT_EXPIRED'',
    ''FOUR_EYES_REQUIRED'', ''POLICY_DRAFT_EXISTS'', ''POLICY_NOT_EDITABLE'',
    ''POLICY_CONFIRMATION_MISMATCH'', ''POLICY_IS_CURRENT'', ''MESSAGE_FORMAT_INVALID'',
    ''MESSAGE_DRY_RUN'', ''CHANNEL_MEMBERSHIP_REQUIRED'', ''CHANNEL_NOT_CONFIGURED'',
    ''CATALOG_SLUG_TAKEN'', ''CATALOG_TAG_IN_USE'', ''CITY_HAS_REFERENCES'',
    ''FORBIDDEN'', ''NOT_FOUND'', ''VALIDATION_FAILED'', ''RATE_LIMITED'',
    ''BOT_BLOCKED'', ''INTERNAL_ERROR'']"

text \<open>
  JSON values, as far as the services build them: the details of an error, the
  before/after of an audit row, the payload of an outbox row, the value of a setting. An
  identifier is a value of its own kind.
\<close>

datatype jval = JNull | JBool bool | JInt int | JNum rat | JStr string | JId nat
  | JObj "(string \<times> jval) list" | JArr "jval list"

text \<open>
  What aborts a transaction: an \<^verbatim>\<open>AppError\<close> with its details, or a constraint of the
  database (a CHECK, a UNIQUE index, an \<^verbatim>\<open>OrThrow\<close> read that found no row), named.
\<close>

datatype error = AppError error_code "(string \<times> jval) list" | DbError string

abbreviation app_error :: "error_code \<Rightarrow> error" where
  "app_error c \<equiv> AppError c []"

text \<open>\<open>HTTP_STATUS\<close> is a partial record: a code without an entry has no status of its own.\<close>

definition HTTP_STATUS :: "(error_code \<times> nat) list" where
  "HTTP_STATUS = [
    (''INVALID_INIT_DATA'', 401), (''INIT_DATA_EXPIRED'', 401),
    (''UNAUTHENTICATED'', 401), (''USER_BANNED'', 403), (''TERMS_NOT_ACCEPTED'', 403),
    (''GENDER_NOT_EDITABLE'', 403), (''POLICY_VERSION_STALE'', 403),
    (''FORBIDDEN'', 403), (''HOST_CANNOT_JOIN'', 403),
    (''DIRECT_BLOCKED_BY_RECIPIENT'', 403), (''DIRECT_BLOCKED_BY_YOU'', 403),
    (''TRUST_TOO_LOW'', 403), (''NOT_FOUND'', 404), (''EVENT_NOT_FOUND'', 404),
    (''DUPLICATE_REQUEST'', 409), (''ALREADY_REFERRED'', 409),
    (''REFERRAL_WINDOW_CLOSED'', 409), (''GIFT_CODE_ALREADY_REDEEMED'', 409),
    (''GIFT_CODE_EXHAUSTED'', 409), (''GIFT_CODE_DUPLICATE'', 409),
    (''GIFT_CODE_DISABLED'', 403), (''ALREADY_REVIEWED'', 409),
    (''ALREADY_REPORTED'', 409), (''CANNOT_REPORT_OWN_CONTENT'', 403),
    (''CLAIM_WINDOW_CLOSED'', 409), (''ALREADY_CLAIMED'', 409),
    (''WRONG_CASE_DECISION'', 409), (''INVALID_CREDENTIALS'', 401),
    (''ACCOUNT_LOCKED'', 429), (''UNSEAL_REQUIRES_OPEN_CASE'', 403),
    (''UNSEAL_REASON_REQUIRED'', 400), (''UNSEAL_GRANT_EXPIRED'', 403),
    (''FOUR_EYES_REQUIRED'', 403), (''CAPACITY_EXCEEDED'', 409),
    (''CONFLICT_STALE_VERSION'', 409), (''CATALOG_SLUG_TAKEN'', 409),
    (''CATALOG_TAG_IN_USE'', 409), (''CITY_HAS_REFERENCES'', 409),
    (''MESSAGE_FORMAT_INVALID'', 422), (''CHANNEL_MEMBERSHIP_REQUIRED'', 403),
    (''CHANNEL_NOT_CONFIGURED'', 409), (''MESSAGE_DRY_RUN'', 409),
    (''POLICY_DRAFT_EXISTS'', 409), (''POLICY_NOT_EDITABLE'', 409),
    (''POLICY_IS_CURRENT'', 409), (''EVENT_ALREADY_STARTED'', 409),
    (''EVENT_ALREADY_IN_CHANNEL'', 409), (''CHANNEL_UNAVAILABLE'', 409),
    (''INVALID_STATE_TRANSITION'', 409), (''REVIEW_NOT_EDITABLE'', 409),
    (''RATE_LIMITED'', 429), (''INTERNAL_ERROR'', 500)]"

text \<open>The constructor of \<^verbatim>\<open>AppError\<close> takes 400 for a code the record does not name.\<close>

definition http_status :: "error_code \<Rightarrow> nat" where
  "http_status c = (case map_of HTTP_STATUS c of None \<Rightarrow> 400 | Some n \<Rightarrow> n)"

lemma http_status_range: "http_status c \<in> insert 400 (snd ` set HTTP_STATUS)"
  by (auto simp: http_status_def dest!: map_of_SomeD split: option.splits) force

end
