(* ===== verification/State_Machine.thy ===== *)
theory State_Machine
  imports Errors
begin

text \<open>
  The transition tables of the product and the single place that enforces them
  (\<^verbatim>\<open>state-machine.ts\<close> of \<^verbatim>\<open>packages/domain/src\<close> and of its \<^verbatim>\<open>events\<close>, \<^verbatim>\<open>participation\<close>,
  \<^verbatim>\<open>reviews\<close> and \<^verbatim>\<open>economy\<close> modules). Constructors carry a prefix per enum, since the
  enums share names: \<open>E_\<close> event, \<open>P_\<close> participation, \<open>RV_\<close> review, \<open>RP_\<close> review pair,
  \<open>RF_\<close> referral.
\<close>

section \<open>The enforcement point\<close>

type_synonym 's transition_table = "'s \<Rightarrow> 's list"

definition canTransition :: "'s transition_table \<Rightarrow> 's \<Rightarrow> 's \<Rightarrow> bool" where
  "canTransition table from to = List.member (table from) to"

text \<open>
  The context is the entity and its optional id; \<open>name\<close> renders a status into the
  details of the error, where the source has the status string itself.
\<close>

definition assertTransition ::
  "('s \<Rightarrow> string) \<Rightarrow> 's transition_table \<Rightarrow> 's \<Rightarrow> 's \<Rightarrow> string \<Rightarrow> nat option \<Rightarrow> (error, 'd, unit) tx" where
  "assertTransition name table from to entity i =
     (if canTransition table from to then tx_return ()
      else tx_throw (AppError ''INVALID_STATE_TRANSITION''
        ((''entity'', JStr entity)
         # (case i of None \<Rightarrow> [] | Some n \<Rightarrow> [(''id'', JId n)])
         @ [(''from'', JStr (name from)), (''to'', JStr (name to))])))"

text \<open>\<open>states\<close> is the list of the table's keys (\<^verbatim>\<open>Object.keys\<close>).\<close>

definition terminalStates :: "'s list \<Rightarrow> 's transition_table \<Rightarrow> 's list" where
  "terminalStates states table = filter (\<lambda>s. table s = []) states"

lemma assertTransition_Inr [tx_simps]:
  "assertTransition name table from to entity i s = Inr (u, s') \<longleftrightarrow>
   to \<in> set (table from) \<and> s' = s"
  by (auto simp: assertTransition_def canTransition_def tx_simps)

lemma assertTransition_wp [wp_simps]:
  "tx_wp (assertTransition name table from to entity i) Q = (\<lambda>s. (to \<in> set (table from) \<longrightarrow> Q () s))"
  by (rule ext) (auto simp: assertTransition_def canTransition_def wp_simps)

lemma assertTransition_ok [ok_simps]:
  "tx_ok (assertTransition name table from to entity i) s \<longleftrightarrow> to \<in> set (table from)"
  by (simp add: assertTransition_def canTransition_def ok_simps)

section \<open>What every table has: a contract\<close>

text \<open>
  A table over a finite enumeration of states. Its clients may rely on the closure lemmas
  below without opening the table.
\<close>

locale lifecycle =
  fixes table :: "'s transition_table" and states :: "'s list"
  assumes all_states: "s \<in> set states"
begin

definition edge :: "'s \<Rightarrow> 's \<Rightarrow> bool" where
  "edge a b \<longleftrightarrow> b \<in> set (table a)"

lemma terminal_iff: "s \<in> set (terminalStates states table) \<longleftrightarrow> (\<forall>t. \<not> edge s t)"
  using all_states [of s] by (cases "table s") (auto simp: terminalStates_def edge_def)

lemma terminal_stays:
  assumes "table a = []" and "edge\<^sup>*\<^sup>* a b"
  shows "b = a"
  using assms(2,1) by (induction rule: converse_rtranclp_induct) (auto simp: edge_def)

lemma closed_set:
  assumes "edge\<^sup>*\<^sup>* a b" and "a \<in> A" and "\<And>x y. x \<in> A \<Longrightarrow> edge x y \<Longrightarrow> y \<in> A"
  shows "b \<in> A"
  using assms(1,2) by (induction rule: rtranclp_induct) (auto intro: assms(3))

end

text \<open>
  A table no path can run round in: every edge lowers a rank, so a history has at most
  \<open>rank\<close> steps and no status is ever entered twice.
\<close>

locale acyclic_lifecycle = lifecycle table states
  for table :: "'s transition_table" and states :: "'s list" +
  fixes rank :: "'s \<Rightarrow> nat"
  assumes descends: "b \<in> set (table a) \<Longrightarrow> rank b < rank a"
begin

fun history :: "'s \<Rightarrow> 's list \<Rightarrow> bool" where
  "history a [] = True"
| "history a (b # bs) = (edge a b \<and> history b bs)"

lemma history_length: "history a bs \<Longrightarrow> length bs \<le> rank a"
proof (induction bs arbitrary: a)
  case Nil
  then show ?case by simp
next
  case (Cons b bs)
  then have "length bs \<le> rank b" and "rank b < rank a"
    by (auto simp: edge_def descends)
  then show ?case by simp
qed

lemma history_below: "history a bs \<Longrightarrow> b \<in> set bs \<Longrightarrow> rank b < rank a"
proof (induction bs arbitrary: a)
  case Nil
  then show ?case by simp
next
  case (Cons c bs)
  then have "rank c < rank a" by (auto simp: edge_def descends)
  with Cons show ?case by (auto dest: less_trans)
qed

lemma history_distinct: "history a bs \<Longrightarrow> distinct (a # bs)"
proof (induction bs arbitrary: a)
  case Nil
  then show ?case by simp
next
  case (Cons b bs)
  then have "distinct (b # bs)" by auto
  moreover have "a \<notin> set (b # bs)"
    using history_below [OF Cons.prems, of a] by auto
  ultimately show ?case by simp
qed

end

section \<open>Events\<close>

datatype event_status =
    E_DRAFT | E_PENDING_MODERATION | E_PUBLISHED | E_HIDDEN | E_REJECTED
  | E_CANCELLED_BY_HOST | E_ONGOING | E_COMPLETED | E_EXPIRED | E_DELETED

fun event_status_name :: "event_status \<Rightarrow> string" where
  "event_status_name E_DRAFT = ''DRAFT''"
| "event_status_name E_PENDING_MODERATION = ''PENDING_MODERATION''"
| "event_status_name E_PUBLISHED = ''PUBLISHED''"
| "event_status_name E_HIDDEN = ''HIDDEN''"
| "event_status_name E_REJECTED = ''REJECTED''"
| "event_status_name E_CANCELLED_BY_HOST = ''CANCELLED_BY_HOST''"
| "event_status_name E_ONGOING = ''ONGOING''"
| "event_status_name E_COMPLETED = ''COMPLETED''"
| "event_status_name E_EXPIRED = ''EXPIRED''"
| "event_status_name E_DELETED = ''DELETED''"

fun EVENT_TRANSITIONS :: "event_status transition_table" where
  "EVENT_TRANSITIONS E_DRAFT = [E_PENDING_MODERATION, E_DELETED]"
| "EVENT_TRANSITIONS E_PENDING_MODERATION = [E_PUBLISHED, E_REJECTED, E_DELETED]"
| "EVENT_TRANSITIONS E_PUBLISHED =
     [E_PENDING_MODERATION, E_HIDDEN, E_CANCELLED_BY_HOST, E_ONGOING, E_EXPIRED, E_DELETED]"
| "EVENT_TRANSITIONS E_HIDDEN = [E_PUBLISHED, E_REJECTED, E_DELETED]"
| "EVENT_TRANSITIONS E_REJECTED = [E_DELETED]"
| "EVENT_TRANSITIONS E_CANCELLED_BY_HOST = [E_DELETED]"
| "EVENT_TRANSITIONS E_ONGOING = [E_COMPLETED, E_DELETED]"
| "EVENT_TRANSITIONS E_COMPLETED = [E_DELETED]"
| "EVENT_TRANSITIONS E_EXPIRED = [E_DELETED]"
| "EVENT_TRANSITIONS E_DELETED = []"

definition event_statuses :: "event_status list" where
  "event_statuses = [E_DRAFT, E_PENDING_MODERATION, E_PUBLISHED, E_HIDDEN, E_REJECTED,
     E_CANCELLED_BY_HOST, E_ONGOING, E_COMPLETED, E_EXPIRED, E_DELETED]"

definition assertEventTransition ::
  "event_status \<Rightarrow> event_status \<Rightarrow> nat option \<Rightarrow> (error, 'd, unit) tx" where
  "assertEventTransition from to eventId =
     assertTransition event_status_name EVENT_TRANSITIONS from to ''event'' eventId"

definition ACTIVE_EVENT_STATUSES :: "event_status list" where
  "ACTIVE_EVENT_STATUSES = [E_DRAFT, E_PENDING_MODERATION, E_PUBLISHED, E_ONGOING]"

interpretation event_life: lifecycle EVENT_TRANSITIONS event_statuses
proof
  show "s \<in> set event_statuses" for s
    by (cases s) (simp_all add: event_statuses_def)
qed

lemma event_status_name_inj: "event_status_name a = event_status_name b \<Longrightarrow> a = b"
  by (cases a; cases b) simp_all

section \<open>Participations\<close>

datatype participant_status =
    P_PENDING | P_WAITLISTED | P_ACCEPTED | P_REJECTED | P_EXPIRED
  | P_CANCELLED_BY_PARTICIPANT | P_CANCELLED_BY_HOST | P_COMPLETED | P_NO_SHOW

fun participant_status_name :: "participant_status \<Rightarrow> string" where
  "participant_status_name P_PENDING = ''PENDING''"
| "participant_status_name P_WAITLISTED = ''WAITLISTED''"
| "participant_status_name P_ACCEPTED = ''ACCEPTED''"
| "participant_status_name P_REJECTED = ''REJECTED''"
| "participant_status_name P_EXPIRED = ''EXPIRED''"
| "participant_status_name P_CANCELLED_BY_PARTICIPANT = ''CANCELLED_BY_PARTICIPANT''"
| "participant_status_name P_CANCELLED_BY_HOST = ''CANCELLED_BY_HOST''"
| "participant_status_name P_COMPLETED = ''COMPLETED''"
| "participant_status_name P_NO_SHOW = ''NO_SHOW''"

fun PARTICIPANT_TRANSITIONS :: "participant_status transition_table" where
  "PARTICIPANT_TRANSITIONS P_PENDING =
     [P_ACCEPTED, P_REJECTED, P_EXPIRED, P_CANCELLED_BY_PARTICIPANT]"
| "PARTICIPANT_TRANSITIONS P_WAITLISTED =
     [P_PENDING, P_ACCEPTED, P_REJECTED, P_CANCELLED_BY_PARTICIPANT, P_EXPIRED]"
| "PARTICIPANT_TRANSITIONS P_ACCEPTED =
     [P_COMPLETED, P_NO_SHOW, P_CANCELLED_BY_HOST, P_CANCELLED_BY_PARTICIPANT]"
| "PARTICIPANT_TRANSITIONS P_REJECTED = []"
| "PARTICIPANT_TRANSITIONS P_EXPIRED = []"
| "PARTICIPANT_TRANSITIONS P_CANCELLED_BY_PARTICIPANT = []"
| "PARTICIPANT_TRANSITIONS P_CANCELLED_BY_HOST = []"
| "PARTICIPANT_TRANSITIONS P_COMPLETED = []"
| "PARTICIPANT_TRANSITIONS P_NO_SHOW = [P_COMPLETED]"

definition participant_statuses :: "participant_status list" where
  "participant_statuses = [P_PENDING, P_WAITLISTED, P_ACCEPTED, P_REJECTED, P_EXPIRED,
     P_CANCELLED_BY_PARTICIPANT, P_CANCELLED_BY_HOST, P_COMPLETED, P_NO_SHOW]"

definition assertParticipantTransition ::
  "participant_status \<Rightarrow> participant_status \<Rightarrow> nat option \<Rightarrow> (error, 'd, unit) tx" where
  "assertParticipantTransition from to participantId =
     assertTransition participant_status_name PARTICIPANT_TRANSITIONS from to
       ''event_participant'' participantId"

definition SEAT_HOLDING_STATUSES :: "participant_status list" where
  "SEAT_HOLDING_STATUSES = [P_ACCEPTED]"

definition holdsSeat :: "participant_status \<Rightarrow> bool" where
  "holdsSeat st = List.member SEAT_HOLDING_STATUSES st"

definition SLOT_HOLDING_STATUSES :: "participant_status list" where
  "SLOT_HOLDING_STATUSES = [P_PENDING]"

definition holdsSlot :: "participant_status \<Rightarrow> bool" where
  "holdsSlot st = List.member SLOT_HOLDING_STATUSES st"

definition LIVE_PARTICIPANT_STATUSES :: "participant_status list" where
  "LIVE_PARTICIPANT_STATUSES = [P_PENDING, P_WAITLISTED, P_ACCEPTED]"

text \<open>How many transitions a participation can still make.\<close>

fun participant_rank :: "participant_status \<Rightarrow> nat" where
  "participant_rank P_WAITLISTED = 4"
| "participant_rank P_PENDING = 3"
| "participant_rank P_ACCEPTED = 2"
| "participant_rank P_NO_SHOW = 1"
| "participant_rank _ = 0"

interpretation participant_life:
  acyclic_lifecycle PARTICIPANT_TRANSITIONS participant_statuses participant_rank
proof
  show "s \<in> set participant_statuses" for s
    by (cases s) (simp_all add: participant_statuses_def)
  show "b \<in> set (PARTICIPANT_TRANSITIONS a) \<Longrightarrow> participant_rank b < participant_rank a" for a b
    by (cases a) auto
qed

lemma participant_status_name_inj:
  "participant_status_name a = participant_status_name b \<Longrightarrow> a = b"
  by (cases a; cases b) simp_all

lemma holdsSeat_iff [simp]: "holdsSeat st \<longleftrightarrow> st = P_ACCEPTED"
  by (simp add: holdsSeat_def SEAT_HOLDING_STATUSES_def)

lemma holdsSlot_iff [simp]: "holdsSlot st \<longleftrightarrow> st = P_PENDING"
  by (simp add: holdsSlot_def SLOT_HOLDING_STATUSES_def)

section \<open>Reviews and review pairs\<close>

datatype review_status = RV_SUBMITTED | RV_REVEALED | RV_HIDDEN

fun review_status_name :: "review_status \<Rightarrow> string" where
  "review_status_name RV_SUBMITTED = ''SUBMITTED''"
| "review_status_name RV_REVEALED = ''REVEALED''"
| "review_status_name RV_HIDDEN = ''HIDDEN''"

fun REVIEW_TRANSITIONS :: "review_status transition_table" where
  "REVIEW_TRANSITIONS RV_SUBMITTED = [RV_REVEALED, RV_HIDDEN]"
| "REVIEW_TRANSITIONS RV_REVEALED = [RV_HIDDEN]"
| "REVIEW_TRANSITIONS RV_HIDDEN = []"

definition assertReviewTransition ::
  "review_status \<Rightarrow> review_status \<Rightarrow> nat option \<Rightarrow> (error, 'd, unit) tx" where
  "assertReviewTransition from to reviewId =
     assertTransition review_status_name REVIEW_TRANSITIONS from to ''review'' reviewId"

datatype review_pair_status =
  RP_PENDING | RP_PARTIAL | RP_REVEALED | RP_EXPIRED_PARTIAL | RP_EXPIRED_EMPTY

fun review_pair_status_name :: "review_pair_status \<Rightarrow> string" where
  "review_pair_status_name RP_PENDING = ''PENDING''"
| "review_pair_status_name RP_PARTIAL = ''PARTIAL''"
| "review_pair_status_name RP_REVEALED = ''REVEALED''"
| "review_pair_status_name RP_EXPIRED_PARTIAL = ''EXPIRED_PARTIAL''"
| "review_pair_status_name RP_EXPIRED_EMPTY = ''EXPIRED_EMPTY''"

fun REVIEW_PAIR_TRANSITIONS :: "review_pair_status transition_table" where
  "REVIEW_PAIR_TRANSITIONS RP_PENDING = [RP_PARTIAL, RP_EXPIRED_EMPTY]"
| "REVIEW_PAIR_TRANSITIONS RP_PARTIAL = [RP_REVEALED, RP_EXPIRED_PARTIAL]"
| "REVIEW_PAIR_TRANSITIONS RP_REVEALED = []"
| "REVIEW_PAIR_TRANSITIONS RP_EXPIRED_PARTIAL = []"
| "REVIEW_PAIR_TRANSITIONS RP_EXPIRED_EMPTY = []"

definition assertReviewPairTransition ::
  "review_pair_status \<Rightarrow> review_pair_status \<Rightarrow> nat option \<Rightarrow> (error, 'd, unit) tx" where
  "assertReviewPairTransition from to pairId =
     assertTransition review_pair_status_name REVIEW_PAIR_TRANSITIONS from to ''review_pair'' pairId"

definition REVEALED_PAIR_STATUSES :: "review_pair_status list" where
  "REVEALED_PAIR_STATUSES = [RP_REVEALED, RP_EXPIRED_PARTIAL]"

fun review_rank :: "review_status \<Rightarrow> nat" where
  "review_rank RV_SUBMITTED = 2"
| "review_rank RV_REVEALED = 1"
| "review_rank RV_HIDDEN = 0"

fun review_pair_rank :: "review_pair_status \<Rightarrow> nat" where
  "review_pair_rank RP_PENDING = 2"
| "review_pair_rank RP_PARTIAL = 1"
| "review_pair_rank _ = 0"

interpretation review_life:
  acyclic_lifecycle REVIEW_TRANSITIONS "[RV_SUBMITTED, RV_REVEALED, RV_HIDDEN]" review_rank
proof
  show "s \<in> set [RV_SUBMITTED, RV_REVEALED, RV_HIDDEN]" for s by (cases s) simp_all
  show "b \<in> set (REVIEW_TRANSITIONS a) \<Longrightarrow> review_rank b < review_rank a" for a b
    by (cases a) auto
qed

interpretation review_pair_life:
  acyclic_lifecycle REVIEW_PAIR_TRANSITIONS
    "[RP_PENDING, RP_PARTIAL, RP_REVEALED, RP_EXPIRED_PARTIAL, RP_EXPIRED_EMPTY]"
    review_pair_rank
proof
  show "s \<in> set [RP_PENDING, RP_PARTIAL, RP_REVEALED, RP_EXPIRED_PARTIAL, RP_EXPIRED_EMPTY]" for s
    by (cases s) simp_all
  show "b \<in> set (REVIEW_PAIR_TRANSITIONS a) \<Longrightarrow> review_pair_rank b < review_pair_rank a" for a b
    by (cases a) auto
qed

section \<open>Referrals\<close>

datatype referral_status = RF_PENDING | RF_QUALIFIED | RF_REJECTED

fun referral_status_name :: "referral_status \<Rightarrow> string" where
  "referral_status_name RF_PENDING = ''PENDING''"
| "referral_status_name RF_QUALIFIED = ''QUALIFIED''"
| "referral_status_name RF_REJECTED = ''REJECTED''"

fun REFERRAL_TRANSITIONS :: "referral_status transition_table" where
  "REFERRAL_TRANSITIONS RF_PENDING = [RF_QUALIFIED, RF_REJECTED]"
| "REFERRAL_TRANSITIONS RF_QUALIFIED = []"
| "REFERRAL_TRANSITIONS RF_REJECTED = [RF_PENDING]"

definition assertReferralTransition ::
  "referral_status \<Rightarrow> referral_status \<Rightarrow> nat option \<Rightarrow> (error, 'd, unit) tx" where
  "assertReferralTransition from to referralId =
     assertTransition referral_status_name REFERRAL_TRANSITIONS from to ''referral'' referralId"

interpretation referral_life:
  lifecycle REFERRAL_TRANSITIONS "[RF_PENDING, RF_QUALIFIED, RF_REJECTED]"
proof
  show "s \<in> set [RF_PENDING, RF_QUALIFIED, RF_REJECTED]" for s by (cases s) simp_all
qed

lemmas assert_simps =
  assertEventTransition_def assertParticipantTransition_def assertReviewTransition_def
  assertReviewPairTransition_def assertReferralTransition_def

end
