(* ===== verification/Calendar.thy ===== *)
theory Calendar
  imports Prelude
begin

text \<open>
  Timezone arithmetic on the server clock (\<^verbatim>\<open>packages/domain/src/time.ts\<close>,
  \<^verbatim>\<open>profile/age.ts\<close>). Instants are milliseconds since the epoch. The timezone database
  behind \<^verbatim>\<open>Intl.DateTimeFormat\<close> is not part of the program: a zone is a function from an
  instant to its UTC offset in milliseconds, and every definition takes it as an argument.
  The civil calendar itself (what \<^verbatim>\<open>Date.UTC\<close> and the formatter's fields compute) is the
  proleptic Gregorian one, written out.
\<close>

type_synonym instant = int
type_synonym zone = "instant \<Rightarrow> int"

section \<open>The Gregorian calendar\<close>

text \<open>
  Day numbers count from 1970-01-01. Years are shifted to start in March, so that the leap
  day is the last of the shifted year; \<open>era\<close> is a cycle of 400 years, 146097 days.
\<close>

definition days_from_civil :: "int \<Rightarrow> int \<Rightarrow> int \<Rightarrow> int" where
  "days_from_civil y m d =
     (let y' = (if m \<le> 2 then y - 1 else y);
          era = y' div 400; yoe = y' mod 400;
          mp = (m + 9) mod 12;
          doy = (153 * mp + 2) div 5 + d - 1;
          doe = yoe * 365 + yoe div 4 - yoe div 100 + doy
      in era * 146097 + doe - 719468)"

definition civil_from_days :: "int \<Rightarrow> int \<times> int \<times> int" where
  "civil_from_days z0 =
     (let z = z0 + 719468;
          era = z div 146097; doe = z mod 146097;
          yoe = (doe - doe div 1460 + doe div 36524 - doe div 146096) div 365;
          doy = doe - (365 * yoe + yoe div 4 - yoe div 100);
          mp = (5 * doy + 2) div 153;
          d = doy - (153 * mp + 2) div 5 + 1;
          m = (if mp < 10 then mp + 3 else mp - 9);
          y = yoe + era * 400
      in (if m \<le> 2 then y + 1 else y, m, d))"

text \<open>
  \<^verbatim>\<open>Date.UTC\<close> with a zero-based month: a month outside 0..11 carries into the year, and a
  day outside the month carries into the following one.
\<close>

definition Date_UTC :: "int \<Rightarrow> int \<Rightarrow> int \<Rightarrow> int \<Rightarrow> int \<Rightarrow> int \<Rightarrow> instant" where
  "Date_UTC y m0 d h mi sec =
     (days_from_civil (y + m0 div 12) (m0 mod 12 + 1) 1 + (d - 1)) * 86400000
     + h * 3600000 + mi * 60000 + sec * 1000"

record zoned_parts =
  zp_year :: int
  zp_month :: int
  zp_day :: int
  zp_hour :: int
  zp_minute :: int
  zp_second :: int

text \<open>The fields of the wall clock that shows \<open>t\<close> when read as if it were UTC.\<close>

definition wall_parts :: "int \<Rightarrow> zoned_parts" where
  "wall_parts t =
     (let (y, m, d) = civil_from_days (t div 86400000);
          r = t mod 86400000
      in \<lparr>zp_year = y, zp_month = m, zp_day = d, zp_hour = r div 3600000,
          zp_minute = r mod 3600000 div 60000, zp_second = r mod 60000 div 1000\<rparr>)"

definition partsIn :: "instant \<Rightarrow> zone \<Rightarrow> zoned_parts" where
  "partsIn t tz = wall_parts (t + tz t)"

definition offsetMsAt :: "instant \<Rightarrow> zone \<Rightarrow> int" where
  "offsetMsAt t tz =
     (let p = partsIn t tz;
          asIfUtc = Date_UTC (zp_year p) (zp_month p - 1) (zp_day p) (zp_hour p) (zp_minute p) (zp_second p)
      in asIfUtc - (t div 1000) * 1000)"

definition gregorianYearIn :: "instant \<Rightarrow> zone \<Rightarrow> int" where
  "gregorianYearIn t tz = zp_year (partsIn t tz)"

definition localDateIn :: "instant \<Rightarrow> zone \<Rightarrow> int \<times> int \<times> int" where
  "localDateIn t tz = (let p = partsIn t tz in (zp_year p, zp_month p, zp_day p))"

definition startOfDayIn :: "instant \<Rightarrow> zone \<Rightarrow> instant" where
  "startOfDayIn t tz =
     (let p = partsIn t tz;
          localMidnightAsUtc = Date_UTC (zp_year p) (zp_month p - 1) (zp_day p) 0 0 0;
          firstGuess = localMidnightAsUtc - offsetMsAt t tz
      in localMidnightAsUtc - offsetMsAt firstGuess tz)"

definition zonedTimeToUtc :: "int \<Rightarrow> int \<Rightarrow> int \<Rightarrow> int \<Rightarrow> int \<Rightarrow> zone \<Rightarrow> instant" where
  "zonedTimeToUtc y m d h mi tz =
     (let asIfUtc = Date_UTC y (m - 1) d h mi 0;
          firstGuess = asIfUtc - offsetMsAt asIfUtc tz
      in asIfUtc - offsetMsAt firstGuess tz)"

definition ageFromBirthYear :: "int \<Rightarrow> instant \<Rightarrow> zone \<Rightarrow> int" where
  "ageFromBirthYear birthYear t tz = gregorianYearIn t tz - birthYear"

definition isOldEnough :: "int \<Rightarrow> int \<Rightarrow> instant \<Rightarrow> zone \<Rightarrow> bool" where
  "isOldEnough birthYear minAgeYears t tz \<longleftrightarrow> minAgeYears \<le> ageFromBirthYear birthYear t tz"

section \<open>The two calendar conversions are inverse\<close>

text \<open>
  A day of the 400-year era is \<open>36524 c + 1461 q + 365 t + u\<close>: century, four-year cycle,
  year and day of the (March-based) year.
\<close>

definition year_of_era :: "int \<Rightarrow> int" where
  "year_of_era doe = (doe - doe div 1460 + doe div 36524 - doe div 146096) div 365"

lemma year_of_era_parts:
  assumes c: "0 \<le> c" "c \<le> 3" and q: "0 \<le> q" "q \<le> 24" and t: "0 \<le> t" "t \<le> 3"
    and u: "0 \<le> u" "u \<le> 365" and leap: "u = 365 \<Longrightarrow> t = 3 \<and> (q \<noteq> 24 \<or> c = 3)"
  shows "year_of_era (36524 * c + 1461 * q + 365 * t + u) = 100 * c + 4 * q + t"
proof (cases "c = 3 \<and> q = 24 \<and> t = 3 \<and> u = 365")
  case True
  then show ?thesis by (simp add: year_of_era_def)
next
  case False
  let ?d = "36524 * c + 1461 * q + 365 * t + u"
  let ?w = "24 * c + q + 365 * t + u"
  have lt: "1461 * q + 365 * t + u < 36524"
    using q t u leap False c by (cases "u = 365") auto
  have d1: "?d div 36524 = c"
    by (rule int_div_pos_eq [where r = "1461 * q + 365 * t + u"]) (use lt q t u in auto)
  have d2: "?d div 146096 = 0"
    by (rule div_pos_pos_trivial) (use lt c q t u in auto)
  define e where "e = (if ?w < 1460 then 0 else 1::int)"
  have e01: "e \<in> {0, 1}" by (simp add: e_def)
  have d3: "?d div 1460 = 25 * c + q + e"
    by (rule int_div_pos_eq [where r = "?w - 1460 * e"]) (use c q t u in \<open>auto simp: e_def\<close>)
  have ue: "0 \<le> u - e" "u - e < 365"
    using c q t u leap by (cases "u = 365"; auto simp: e_def split: if_splits)+
  show ?thesis
    unfolding year_of_era_def d1 d2 d3
    by (rule int_div_pos_eq [where r = "u - e"]) (use ue in auto)
qed

lemma day_of_era_split:
  assumes "0 \<le> d" "d < 146097"
  obtains c q t u :: int where "d = 36524 * c + 1461 * q + 365 * t + u"
    "0 \<le> c" "c \<le> 3" "0 \<le> q" "q \<le> 24" "0 \<le> t" "t \<le> 3" "0 \<le> u" "u \<le> 365"
    "u = 365 \<Longrightarrow> t = 3 \<and> (q \<noteq> 24 \<or> c = 3)"
proof -
  define c where "c = (if d = 146096 then 3 else d div 36524)"
  define r where "r = d - 36524 * c"
  define q where "q = r div 1461"
  define s where "s = r - 1461 * q"
  define t where "t = (if s = 1460 then 3 else s div 365)"
  define u where "u = s - 365 * t"
  have c: "0 \<le> c" "c \<le> 3" using assms by (auto simp: c_def) 
  have r: "0 \<le> r" "r \<le> 36524" "r = 36524 \<Longrightarrow> c = 3"
    using assms by (auto simp: r_def c_def minus_mult_div_eq_mod split: if_splits)
  have q: "0 \<le> q" "q \<le> 24" using r by (auto simp: q_def)
  have s: "0 \<le> s" "s < 1461" "s = r mod 1461" by (auto simp: s_def q_def minus_mult_div_eq_mod)
  have t: "0 \<le> t" "t \<le> 3" using s by (auto simp: t_def)
  have u: "0 \<le> u" "u \<le> 365" "u = 365 \<Longrightarrow> s = 1460"
    using s by (auto simp: u_def t_def minus_mult_div_eq_mod split: if_splits)
  have "q = 24 \<Longrightarrow> s = 1460 \<Longrightarrow> c = 3"
    using r by (auto simp: s_def)
  with u have "u = 365 \<Longrightarrow> t = 3 \<and> (q \<noteq> 24 \<or> c = 3)" by (auto simp: t_def)
  moreover have "d = 36524 * c + 1461 * q + 365 * t + u"
    by (simp add: u_def s_def r_def)
  ultimately show thesis using that c q t u by blast
qed


lemma month_of_doy:
  assumes "0 \<le> doy" "doy \<le> (365::int)"
  defines "mp \<equiv> (5 * doy + 2) div 153"
  shows "0 \<le> mp \<and> mp \<le> 11 \<and> 1 \<le> doy - (153 * mp + 2) div 5 + 1 \<and> doy - (153 * mp + 2) div 5 + 1 \<le> 31"
proof -
  have lo: "153 * mp \<le> 5 * doy + 2" and hi: "5 * doy + 2 < 153 * mp + 153"
    unfolding mp_def by linarith+
  with assms(1,2) have "0 \<le> mp" "mp \<le> 11" by linarith+
  then have "mp \<in> {0, 1, 2, 3, 4, 5, 6, 7, 8, 9, 10, 11}"
    unfolding insert_iff empty_iff by presburger
  with lo hi assms(1,2) show ?thesis by (elim insertE emptyE) simp_all
qed

lemma civil_from_days_shape:
  assumes z: "z + 719468 = era * 146097 + (36524 * c + 1461 * q + 365 * t + u)"
    and c: "0 \<le> c" "c \<le> 3" and q: "0 \<le> q" "q \<le> 24" and t: "0 \<le> t" "t \<le> 3"
    and u: "0 \<le> u" "u \<le> 365" and leap: "u = 365 \<Longrightarrow> t = 3 \<and> (q \<noteq> 24 \<or> c = 3)"
  defines "mp \<equiv> (5 * u + 2) div 153"
  shows "civil_from_days z =
    (let m = (if mp < 10 then mp + 3 else mp - 9)
     in (100 * c + 4 * q + t + era * 400 + (if m \<le> 2 then 1 else 0), m, u - (153 * mp + 2) div 5 + 1))"
proof -
  let ?doe = "36524 * c + 1461 * q + 365 * t + u"
  have doe: "0 \<le> ?doe" "?doe < 146097" using c q t u leap by (cases "u = 365"; auto)+
  have e: "(z + 719468) div 146097 = era"
    by (rule int_div_pos_eq [where r = ?doe]) (use z doe in auto)
  have m: "(z + 719468) mod 146097 = ?doe"
    by (rule int_mod_pos_eq [where q = era]) (use z doe in auto)
  have y: "(?doe - ?doe div 1460 + ?doe div 36524 - ?doe div 146096) div 365 = 100 * c + 4 * q + t"
    using year_of_era_parts [OF c q t u leap] by (simp add: year_of_era_def)
  have q4: "(100 * c + 4 * q + t) div 4 = 25 * c + q"
    by (rule int_div_pos_eq [where r = t]) (use t in auto)
  have q100: "(100 * c + 4 * q + t) div 100 = c"
    by (rule int_div_pos_eq [where r = "4 * q + t"]) (use t q in auto)
  have d: "?doe - (365 * (100 * c + 4 * q + t) + (25 * c + q) - c) = u" by simp
  show ?thesis
    unfolding civil_from_days_def Let_def e m y q4 q100 d mp_def by (simp split: if_split)
qed

lemma days_from_civil_from_days:
  assumes "civil_from_days z = (y, m, d)"
  shows "days_from_civil y m d = z \<and> 1 \<le> m \<and> m \<le> 12 \<and> 1 \<le> d \<and> d \<le> 31"
proof -
  define era where "era = (z + 719468) div 146097"
  have "0 \<le> (z + 719468) mod 146097" "(z + 719468) mod 146097 < 146097" by auto
  then obtain c q t u :: int where
    doe: "(z + 719468) mod 146097 = 36524 * c + 1461 * q + 365 * t + u"
    and b: "0 \<le> c" "c \<le> 3" "0 \<le> q" "q \<le> 24" "0 \<le> t" "t \<le> 3" "0 \<le> u" "u \<le> 365"
      "u = 365 \<Longrightarrow> t = 3 \<and> (q \<noteq> 24 \<or> c = 3)"
    using day_of_era_split by metis
  have z: "z + 719468 = era * 146097 + (36524 * c + 1461 * q + 365 * t + u)"
    using doe by (simp add: era_def flip: doe)
  define mp where "mp = (5 * u + 2) div 153"
  note mpb = month_of_doy [OF b(7,8), folded mp_def]
  define yoe where "yoe = 100 * c + 4 * q + t"
  have yoe: "0 \<le> yoe" "yoe < 400" using b by (auto simp: yoe_def)
  have shape: "m = (if mp < 10 then mp + 3 else mp - 9)" "d = u - (153 * mp + 2) div 5 + 1"
    "y = yoe + era * 400 + (if m \<le> 2 then 1 else 0)"
    using civil_from_days_shape [OF z b, folded mp_def yoe_def, unfolded assms Let_def]
    by (simp_all only: prod.inject)
  have m: "1 \<le> m" "m \<le> 12" "(m + 9) mod 12 = mp"
    using mpb shape(1) by (auto split: if_splits)
  have y': "(if m \<le> 2 then y - 1 else y) = yoe + era * 400" using shape(3) by simp
  have "(yoe + era * 400) div 400 = era" "(yoe + era * 400) mod 400 = yoe" using yoe by auto
  moreover have "yoe div 4 = 25 * c + q" "yoe div 100 = c"
    using b by (auto simp: yoe_def intro!: int_div_pos_eq [where r = t] int_div_pos_eq [where r = "4 * q + t"])
  ultimately have "days_from_civil y m d =
      era * 146097 + (yoe * 365 + (25 * c + q) - c + ((153 * mp + 2) div 5 + d - 1)) - 719468"
    unfolding days_from_civil_def Let_def y' m(3) by (simp only:)
  also have "\<dots> = z" using shape(2) z by (simp only: yoe_def) simp
  finally have "days_from_civil y m d = z" .
  with m mpb shape(2) show ?thesis by simp
qed

definition leap_year :: "int \<Rightarrow> bool" where
  "leap_year y \<longleftrightarrow> y mod 4 = 0 \<and> (y mod 100 \<noteq> 0 \<or> y mod 400 = 0)"

definition month_length :: "int \<Rightarrow> int \<Rightarrow> int" where
  "month_length y m =
     (if m = 2 then (if leap_year y then 29 else 28)
      else if m = 4 \<or> m = 6 \<or> m = 9 \<or> m = 11 then 30 else 31)"

definition valid_date :: "int \<Rightarrow> int \<Rightarrow> int \<Rightarrow> bool" where
  "valid_date y m d \<longleftrightarrow> 1 \<le> m \<and> m \<le> 12 \<and> 1 \<le> d \<and> d \<le> month_length y m"

lemma doy_of_month:
  assumes "1 \<le> m" "m \<le> 12" "1 \<le> d" "d \<le> month_length y m"
  defines "mp \<equiv> (m + 9) mod 12" and "doy \<equiv> (153 * ((m + 9) mod 12) + 2) div 5 + d - (1::int)"
  shows "0 \<le> doy" "doy \<le> 365" "doy = 365 \<Longrightarrow> m = 2 \<and> leap_year y"
    "(5 * doy + 2) div 153 = mp" "(if mp < 10 then mp + 3 else mp - 9) = m"
proof -
  have "m \<in> {1, 2, 3, 4, 5, 6, 7, 8, 9, 10, 11, 12}"
    using assms(1,2) unfolding insert_iff empty_iff by presburger
  then have "0 \<le> doy \<and> doy \<le> 365 \<and> (doy = 365 \<longrightarrow> m = 2 \<and> leap_year y)
      \<and> 153 * mp \<le> 5 * doy + 2 \<and> 5 * doy + 2 < 153 * mp + 153
      \<and> (if mp < 10 then mp + 3 else mp - 9) = m"
    using assms(3,4) unfolding mp_def doy_def month_length_def
    by (elim insertE emptyE) (simp_all split: if_splits)
  then show "0 \<le> doy" "doy \<le> 365" "doy = 365 \<Longrightarrow> m = 2 \<and> leap_year y"
    "(5 * doy + 2) div 153 = mp" "(if mp < 10 then mp + 3 else mp - 9) = m"
    by (auto intro: int_div_pos_eq [where r = "5 * doy + 2 - 153 * mp"])
qed

lemma civil_from_days_from_civil:
  assumes "valid_date y m d"
  shows "civil_from_days (days_from_civil y m d) = (y, m, d)"
proof -
  note v = assms [unfolded valid_date_def]
  define doy where "doy = (153 * ((m + 9) mod 12) + 2) div 5 + d - 1"
  note D = doy_of_month [of m d y, folded doy_def]
  define y' where "y' = (if m \<le> 2 then y - 1 else y)"
  define era yoe where "era = y' div 400" and "yoe = y' mod 400"
  define c q t where "c = yoe div 100" and "q = yoe mod 100 div 4" and "t = yoe mod 4"
  have yoe: "0 \<le> yoe" "yoe < 400" "y' = era * 400 + yoe" by (auto simp: era_def yoe_def)
  have b: "0 \<le> c" "c \<le> 3" "0 \<le> q" "q \<le> 24" "0 \<le> t" "t \<le> 3"
    using yoe by (auto simp: c_def q_def t_def)
  have yoe_eq: "yoe = 100 * c + 4 * q + t"
  proof -
    have "yoe mod 100 mod 4 = yoe mod 4" by (simp add: mod_mod_cancel)
    then have "yoe mod 100 = 4 * q + t"
      using div_mult_mod_eq [of "yoe mod 100" 4] by (simp add: q_def t_def)
    then show ?thesis using div_mult_mod_eq [of yoe 100] by (simp add: c_def)
  qed
  have leap: "doy = 365 \<Longrightarrow> t = 3 \<and> (q \<noteq> 24 \<or> c = 3)"
  proof -
    assume "doy = 365"
    with D v have "m = 2" "leap_year y" by auto
    then have "y = era * 400 + (yoe + 1)" using yoe by (simp add: y'_def)
    then have y400: "y mod 400 = (yoe + 1) mod 400" by simp
    have "y mod 4 = (yoe + 1) mod 4" "y mod 100 = (yoe + 1) mod 100"
      using arg_cong [OF y400, of "\<lambda>x. x mod 4"] arg_cong [OF y400, of "\<lambda>x. x mod 100"]
      by (simp_all add: mod_mod_cancel)
    with \<open>leap_year y\<close> y400
    have l: "(yoe + 1) mod 4 = 0" "(yoe + 1) mod 100 \<noteq> 0 \<or> (yoe + 1) mod 400 = 0"
      unfolding leap_year_def by metis+
    have "(yoe + 1) mod 4 = (t + 1) mod 4"
    proof -
      have "yoe + 1 = (t + 1) + 4 * (25 * c + q)" by (simp add: yoe_eq)
      then show ?thesis by (simp only: mod_mult_self2)
    qed
    with l(1) have "(t + 1) mod 4 = 0" by simp
    with b(5,6) have t3: "t = 3" by presburger
    have "q = 24 \<Longrightarrow> c = 3"
    proof -
      assume "q = 24"
      with t3 have y1: "yoe + 1 = 100 * (c + 1)" by (simp add: yoe_eq)
      then have "(yoe + 1) mod 100 = 0" by simp
      with l(2) have "(yoe + 1) mod 400 = 0" by simp
      then have "100 * (c + 1) mod 400 = 0" by (simp only: y1)
      moreover have "c = 0 \<or> c = 1 \<or> c = 2 \<or> c = 3" using b(1,2) by arith
      ultimately show "c = 3" by (elim disjE) simp_all
    qed
    with t3 show ?thesis by auto
  qed
  have z: "days_from_civil y m d + 719468 = era * 146097 + (36524 * c + 1461 * q + 365 * t + doy)"
  proof -
    have "yoe div 4 = 25 * c + q" "yoe div 100 = c"
      using b by (auto simp: yoe_eq intro!: int_div_pos_eq [where r = t] int_div_pos_eq [where r = "4 * q + t"])
    then show ?thesis
      unfolding days_from_civil_def Let_def y'_def [symmetric] era_def [symmetric] yoe_def [symmetric]
        doy_def [symmetric] by (simp add: yoe_eq)
  qed
  have mp: "(5 * doy + 2) div 153 = (m + 9) mod 12"
    and mm: "(if (m + 9) mod 12 < 10 then (m + 9) mod 12 + 3 else (m + 9) mod 12 - 9) = m"
    and doy: "0 \<le> doy" "doy \<le> 365"
    using D v by simp_all
  have "civil_from_days (days_from_civil y m d) =
    (yoe + era * 400 + (if m \<le> 2 then 1 else 0), m, doy - (153 * ((m + 9) mod 12) + 2) div 5 + 1)"
    by (simp only: civil_from_days_shape [OF z b doy leap] mp mm Let_def yoe_eq)
  moreover have "doy - (153 * ((m + 9) mod 12) + 2) div 5 + 1 = d" by (simp only: doy_def)
  moreover have "yoe + era * 400 + (if m \<le> 2 then 1 else 0) = y"
    using yoe(3) by (cases "m \<le> 2") (simp_all add: y'_def)
  ultimately show ?thesis by simp
qed

section \<open>Zones\<close>

lemma days_from_civil_day: "days_from_civil y m 1 + (d - 1) = days_from_civil y m d"
  by (simp add: days_from_civil_def Let_def)

lemma Date_UTC_civil:
  "1 \<le> m \<Longrightarrow> m \<le> 12 \<Longrightarrow> Date_UTC y (m - 1) d h mi sec =
   days_from_civil y m d * 86400000 + h * 3600000 + mi * 60000 + sec * 1000"
  by (simp add: Date_UTC_def days_from_civil_day zdiv_eq_0_iff mod_pos_pos_trivial)

lemma Date_UTC_wall_parts:
  "wall_parts t = p \<Longrightarrow>
   Date_UTC (zp_year p) (zp_month p - 1) (zp_day p) (zp_hour p) (zp_minute p) (zp_second p) = t div 1000 * 1000"
proof -
  assume p: "wall_parts t = p"
  obtain y m d where c: "civil_from_days (t div 86400000) = (y, m, d)" by (metis prod_cases3)
  note D = days_from_civil_from_days [OF c]
  define r a h n s f where "r = t mod 86400000" and "a = t div 86400000" and "h = r div 3600000"
    and "n = r mod 3600000 div 60000" and "s = r mod 60000 div 1000" and "f = r mod 60000 mod 1000"
  have 1: "t = a * 86400000 + r" by (simp add: r_def a_def)
  define m1 m2 where "m1 = r mod 3600000" and "m2 = r mod 60000"
  have 2: "r = h * 3600000 + m1" by (simp add: h_def m1_def)
  have 3: "m1 = n * 60000 + m2"
    using div_mult_mod_eq [of "r mod 3600000" 60000] by (simp add: mod_mod_cancel n_def m1_def m2_def)
  have 4: "m2 = s * 1000 + f" by (simp add: s_def f_def m2_def)
  have "t = 1000 * (a * 86400 + h * 3600 + n * 60 + s) + f"
    by (simp only: 1 2 3 4) (simp add: algebra_simps)
  then have "t div 1000 = a * 86400 + h * 3600 + n * 60 + s"
    by (rule int_div_pos_eq) (simp_all add: f_def)
  moreover have "p = \<lparr>zp_year = y, zp_month = m, zp_day = d, zp_hour = h, zp_minute = n, zp_second = s\<rparr>"
    using p by (simp add: wall_parts_def c Let_def r_def h_def n_def s_def)
  moreover have "days_from_civil y m d = a" "1 \<le> m" "m \<le> 12" using D by (simp_all add: a_def)
  ultimately show ?thesis by (simp add: Date_UTC_civil)
qed

lemma offsetMsAt_eq: "offsetMsAt t tz = (t + tz t) div 1000 * 1000 - t div 1000 * 1000"
  by (simp add: offsetMsAt_def Let_def partsIn_def Date_UTC_wall_parts [OF refl])

text \<open>A zone of one fixed, whole-second offset, as Asia/Tehran has been since 2022.\<close>

definition fixed_zone :: "int \<Rightarrow> zone" where
  "fixed_zone k = (\<lambda>_. k)"

lemma offsetMsAt_fixed: "k mod 1000 = 0 \<Longrightarrow> offsetMsAt t (fixed_zone k) = k"
proof -
  assume "k mod 1000 = 0"
  then obtain j where "k = 1000 * j" by (metis mod_0_imp_dvd dvdE)
  then show ?thesis by (simp add: offsetMsAt_eq fixed_zone_def algebra_simps)
qed

lemma startOfDayIn_fixed:
  assumes "k mod 1000 = 0"
  shows "startOfDayIn t (fixed_zone k) = (t + k) div 86400000 * 86400000 - k"
proof -
  obtain y m d where c: "civil_from_days ((t + k) div 86400000) = (y, m, d)" by (metis prod_cases3)
  note D = days_from_civil_from_days [OF c]
  have "partsIn t (fixed_zone k) = wall_parts (t + k)" by (simp add: partsIn_def fixed_zone_def)
  then have "zp_year (partsIn t (fixed_zone k)) = y" "zp_month (partsIn t (fixed_zone k)) = m"
    "zp_day (partsIn t (fixed_zone k)) = d"
    by (simp_all add: wall_parts_def c Let_def)
  then show ?thesis using D
    by (simp add: startOfDayIn_def Let_def offsetMsAt_fixed [OF assms] Date_UTC_civil)
qed

lemma wall_parts_of_civil:
  assumes "valid_date y m d" and "0 \<le> h" "h < 24" and "0 \<le> mi" "mi < 60"
  shows "wall_parts (Date_UTC y (m - 1) d h mi 0) =
    \<lparr>zp_year = y, zp_month = m, zp_day = d, zp_hour = h, zp_minute = mi, zp_second = 0\<rparr>"
proof -
  let ?r = "h * 3600000 + mi * 60000"
  have t: "Date_UTC y (m - 1) d h mi 0 = 86400000 * days_from_civil y m d + ?r"
    using assms(1) by (simp add: Date_UTC_civil valid_date_def)
  have r: "0 \<le> ?r" "?r < 86400000" using assms by auto
  have "Date_UTC y (m - 1) d h mi 0 div 86400000 = days_from_civil y m d"
    by (rule int_div_pos_eq [OF t]) (use r in auto)
  moreover have "Date_UTC y (m - 1) d h mi 0 mod 86400000 = ?r"
    by (rule int_mod_pos_eq [OF t]) (use r in auto)
  moreover have "?r div 3600000 = h"
    by (rule int_div_pos_eq [where r = "mi * 60000"]) (use assms in auto)
  moreover have "?r mod 3600000 = mi * 60000"
    by (rule int_mod_pos_eq [where q = h]) (use assms in auto)
  moreover have "?r mod 60000 = 0"
    by (rule int_mod_pos_eq [where q = "h * 60 + mi"]) auto
  ultimately show ?thesis
    unfolding wall_parts_def Let_def
    by (simp only: civil_from_days_from_civil [OF assms(1)] prod.case) (simp add: assms)
qed

lemma zonedTimeToUtc_fixed:
  "k mod 1000 = 0 \<Longrightarrow> zonedTimeToUtc y m d h mi (fixed_zone k) = Date_UTC y (m - 1) d h mi 0 - k"
  by (simp add: zonedTimeToUtc_def Let_def offsetMsAt_fixed)

end
