(* ===== verification/Database.thy ===== *)
theory Database
  imports State_Machine Calendar "HOL-Library.AList"
begin

text \<open>
  The database the services share: the tables of \<^verbatim>\<open>packages/db/prisma/schema.prisma\<close> that
  the modelled services read or write, with the columns they use, and the three services
  that only write rows (\<^verbatim>\<open>AuditService\<close>, \<^verbatim>\<open>OutboxService\<close>) or read policy numbers
  (\<^verbatim>\<open>SettingsService\<close>).

  Identifiers are natural numbers drawn from one increasing sequence: the schema
  generates UUIDv7 ids, of which the code uses that they are fresh and ordered by time.
  Instants are milliseconds. The clock is part of the state and does not move inside a
  transaction. Tables are lists in insertion order.
\<close>

type_synonym id = nat

section \<open>Rows\<close>

datatype actor_type = A_USER | A_ADMIN | A_SYSTEM

datatype coin_ledger_type =
    ONBOARDING_REWARD | REFERRAL_REWARD | REVIEW_REWARD | GIFT_CODE_REDEEM | BOOST_SPEND
  | VIP_SPEND | EVENT_CREATE_SPEND | CHANNEL_POST_SPEND | INVITE_SPEND | EVENT_JOIN_SPEND
  | CANCELLATION_PENALTY | NO_SHOW_PENALTY | HOST_CANCELLATION_REFUND | ADMIN_ADJUSTMENT
  | REVERSAL | FOUNDING_REWARD | EVENT_DEPOSIT_REFUND | HOST_REWARD | COMEBACK_GRANT

datatype trust_ledger_type =
    T_INITIAL | T_PROFILE_COMPLETE | T_ATTENDANCE | T_REVIEW | T_CANCELLATION | T_NO_SHOW
  | T_MODERATION | T_REHABILITATION | T_ADMIN_ADJUSTMENT | T_REVERSAL

datatype cancellation_bucket = B_GRACE | B_GT_24H | B_H24_TO_H3 | B_LT_3H | B_NO_SHOW

datatype user_status = U_ACTIVE | U_SUSPENDED | U_BANNED | U_DELETED

datatype onboarding_state = O_NEW | O_TERMS_ACCEPTED | O_PROFILE_COMPLETE

datatype gender = G_MALE | G_FEMALE | G_PREFER_NOT_SAY

datatype gender_preference = MALE_ONLY | FEMALE_ONLY

record user_row =
  us_public_id :: id
  us_status :: user_status
  us_onboarding :: onboarding_state
  us_is_seed :: bool

record profile_row =
  pr_display_name :: string
  pr_gender :: "gender option"
  pr_birth_year :: "int option"
  pr_city_id :: id

text \<open>The \<^verbatim>\<open>event\<close> columns the participation and lifecycle services use.\<close>

record event_row =
  ev_id :: id
  ev_public_id :: id
  ev_host :: id
  ev_title :: string
  ev_city_id :: id
  ev_starts_at :: instant
  ev_ends_at :: instant
  ev_capacity :: int
  ev_accepted_count :: int
  ev_gender_preference :: "gender_preference option"
  ev_min_age :: "int option"
  ev_max_age :: "int option"
  ev_status :: event_status
  ev_deleted_at :: "instant option"
  ev_host_absent_at :: "instant option"
  ev_host_reminded_at :: "instant option"
  ev_attendance_prompted_at :: "instant option"
  ev_request_count :: nat
  ev_version :: nat

text \<open>The \<^verbatim>\<open>event_participant\<close> table.\<close>

record participant_row =
  pt_id :: id
  pt_public_id :: id
  pt_event :: id
  pt_user :: id
  pt_status :: participant_status
  pt_requested_at :: instant
  pt_decided_at :: "instant option"
  pt_accepted_at :: "instant option"
  pt_cancelled_at :: "instant option"
  pt_grace_expires_at :: "instant option"
  pt_host_deadline_at :: "instant option"
  pt_promoted_at :: "instant option"
  pt_reminded_first_at :: "instant option"
  pt_reminded_second_at :: "instant option"
  pt_cancellation_reason :: "string option"
  pt_cancellation_bucket :: "cancellation_bucket option"
  pt_penalty_ledger_id :: "id option"
  pt_attended :: "bool option"
  pt_no_show_notified_at :: "instant option"
  pt_version :: nat

record coin_account_row =
  ca_balance :: int
  ca_version :: nat

record coin_ledger_row =
  cl_id :: id
  cl_user :: id
  cl_key :: string
  cl_type :: coin_ledger_type
  cl_amount :: int
  cl_before :: int
  cl_after :: int
  cl_reason :: string
  cl_actor_type :: actor_type
  cl_actor_id :: "id option"
  cl_ref_type :: "string option"
  cl_ref_id :: "id option"
  cl_reverses :: "id option"
  cl_metadata :: "jval option"
  cl_created_at :: instant

record trust_ledger_row =
  tl_id :: id
  tl_user :: id
  tl_key :: string
  tl_type :: trust_ledger_type
  tl_delta :: int
  tl_before :: int
  tl_after :: int
  tl_reason :: string
  tl_algo :: nat
  tl_actor_type :: actor_type
  tl_actor_id :: "id option"
  tl_ref_type :: "string option"
  tl_ref_id :: "id option"
  tl_reverses :: "id option"
  tl_metadata :: "jval option"
  tl_created_at :: instant

record audit_row =
  au_actor_type :: actor_type
  au_actor_id :: "id option"
  au_action :: string
  au_target_type :: string
  au_target_id :: "id option"
  au_before :: "jval option"
  au_after :: "jval option"
  au_created_at :: instant

record outbox_row =
  ob_id :: id
  ob_aggregate_type :: string
  ob_aggregate_id :: id
  ob_event_type :: string
  ob_payload :: "(string \<times> jval) list"
  ob_processed_at :: "instant option"
  ob_attempts :: nat
  ob_created_at :: instant

record db =
  clock :: instant
  app_timezone :: zone
  next_id :: id
  settings :: "string \<rightharpoonup> jval"
  users :: "id \<rightharpoonup> user_row"
  profiles :: "id \<rightharpoonup> profile_row"
  founding_tiers :: "id \<rightharpoonup> int"
  events :: "event_row list"
  participants :: "participant_row list"
  coin_accounts :: "(id \<times> coin_account_row) list"
  coin_ledger :: "coin_ledger_row list"
  trust_scores :: "(id \<times> int) list"
  trust_ledger :: "trust_ledger_row list"
  audit_log :: "audit_row list"
  outbox :: "outbox_row list"

definition empty_db :: db where
  "empty_db = \<lparr>clock = 0, app_timezone = fixed_zone 12600000, next_id = 1,
     settings = Map.empty, users = Map.empty, profiles = Map.empty, founding_tiers = Map.empty,
     events = [], participants = [], coin_accounts = [], coin_ledger = [],
     trust_scores = [], trust_ledger = [], audit_log = [], outbox = []\<rparr>"

text \<open>The default of an \<^verbatim>\<open>id\<close> column.\<close>

definition fresh_id :: "(error, db, id) tx" where
  "fresh_id = (\<lambda>s. Inr (next_id s, s\<lparr>next_id := next_id s + 1\<rparr>))"

lemma fresh_id_app [simp]: "fresh_id s = Inr (next_id s, s\<lparr>next_id := next_id s + 1\<rparr>)"
  by (simp add: fresh_id_def)

section \<open>Policy numbers\<close>

text \<open>\<^verbatim>\<open>SETTING_DEFAULTS\<close> of \<^verbatim>\<open>catalog/settings.service.ts\<close>, in the source's order.\<close>

definition SETTING_DEFAULTS :: "(string \<times> rat) list" where
  "SETTING_DEFAULTS = [
    (''economy.onboarding_reward_coins'', 35), (''founding.enabled'', 0),
    (''profile.location_notice'', 1), (''city.launch_threshold'', 100),
    (''founding.tier1_max_rank'', 100), (''founding.tier1_coins'', 30),
    (''founding.tier2_max_rank'', 400), (''founding.tier2_coins'', 20),
    (''founding.tier3_max_rank'', 1000), (''founding.tier3_coins'', 10),
    (''economy.referral_referrer_coins'', 20), (''economy.referral_referred_coins'', 10),
    (''economy.event_create_coins'', 10), (''economy.event_channel_publish_coins'', 15),
    (''economy.event_channel_send_coins'', 8), (''economy.event_top_invite_coins'', 30),
    (''economy.event_join_coins'', 20), (''economy.earning_cap_days'', 30),
    (''economy.review_reward_cap'', 20), (''economy.referral_reward_cap'', 3),
    (''economy.host_deposit_refund_coins'', 25),
    (''economy.host_reward_per_attendee_coins'', 2),
    (''economy.host_reward_min_attendees'', 2), (''economy.host_reward_cap'', 20),
    (''economy.comeback_grant_coins'', 20), (''economy.comeback_min_attended_events'', 2),
    (''economy.comeback_min_trust'', 55), (''economy.coin_reference_price_toman'', 950),
    (''economy.package_small_coins'', 45), (''economy.package_small_toman'', 45000),
    (''economy.package_medium_coins'', 110), (''economy.package_medium_toman'', 99000),
    (''economy.package_large_coins'', 250), (''economy.package_large_toman'', 209000),
    (''economy.package_season_coins'', 600), (''economy.package_season_toman'', 469000),
    (''events.top_invite_max_recipients'', 20), (''invite.weight_same_city'', 30),
    (''invite.weight_interest_match'', 20), (''invite.weight_category_history'', 25),
    (''invite.weight_recent_activity'', 15), (''invite.weight_trust'', 10),
    (''invite.penalty_recent_invite'', 20), (''invite.recent_invite_days'', 14),
    (''invite.recent_activity_days'', 30), (''trust.initial_score'', 50),
    (''trust.profile_complete_delta'', 5), (''referral.velocity_window_hours'', 24),
    (''referral.velocity_threshold'', 10), (''referral.claim_window_hours'', 168),
    (''profile.min_age_years'', 18), (''events.max_per_day'', 5),
    (''events.max_concurrent_active'', 3), (''participation.host_response_hours'', 24),
    (''participation.min_hours_before_event'', 3),
    (''participation.min_response_minutes'', 30), (''participation.grace_minutes'', 15),
    (''waitlist.promotion_deadline_hours'', 12), (''waitlist.min_hours_before_event'', 3),
    (''cancellation.coins_gt_24h'', 5), (''cancellation.trust_gt_24h'', 0),
    (''cancellation.coins_h24_to_h3'', 15), (''cancellation.trust_h24_to_h3'', 3),
    (''cancellation.coins_lt_3h'', 40), (''cancellation.trust_lt_3h'', 8),
    (''cancellation.coins_no_show'', 60), (''cancellation.trust_no_show'', 15),
    (''reminder.first_hours_before'', 24), (''reminder.second_hours_before'', 3),
    (''cancellation.host_penalty_multiplier'', 15 / 10),
    (''cancellation.host_trust_gt24h'', 5), (''cancellation.host_trust_lt24h'', 12),
    (''cancellation.dispute_window_days'', 7),
    (''cancellation.response_window_hours'', 48), (''trust.attendance_delta'', 2),
    (''trust.attendance_daily_cap'', 2), (''review.window_opens_hours'', 0),
    (''review.window_deadline_days'', 7), (''review.edit_window_minutes'', 60),
    (''review.partial_reveal_affects_trust'', 0), (''economy.review_reward_coins'', 5),
    (''trust.review_rating_5'', 3), (''trust.review_rating_4'', 1),
    (''trust.review_rating_3'', 0), (''trust.review_rating_2'', - 2),
    (''trust.review_rating_1'', - 5), (''channel.enabled'', 1),
    (''channel.trending_request_threshold'', 10), (''moderation.report_threshold'', 3),
    (''moderation.safety_report_threshold'', 1), (''moderation.digest_delay_minutes'', 15),
    (''moderation.digest_quiet_minutes'', 180), (''moderation.unseal_window_minutes'', 15),
    (''participation.settlement_delay_hours'', 18),
    (''ranking.weight_time_proximity'', 35 / 100), (''ranking.weight_popularity'', 2 / 10),
    (''ranking.weight_recency'', 15 / 100), (''ranking.weight_trust'', 1 / 10),
    (''ranking.weight_interest_match'', 5 / 100), (''giftcode.max_batch_size'', 1000),
    (''giftcode.max_per_user_limit'', 1), (''giftcode.enabled'', 1),
    (''release.announce_enabled'', 1)]"

definition setting_default :: "string \<Rightarrow> rat" where
  "setting_default key = (case map_of SETTING_DEFAULTS key of None \<Rightarrow> 0 | Some v \<Rightarrow> v)"

text \<open>\<^verbatim>\<open>typeof value === 'number'\<close>.\<close>

fun jval_number :: "jval \<Rightarrow> rat option" where
  "jval_number (JNum r) = Some r"
| "jval_number (JInt i) = Some (of_int i)"
| "jval_number _ = None"

definition isInteger :: "rat \<Rightarrow> bool" where
  "isInteger r \<longleftrightarrow> of_int \<lfloor>r\<rfloor> = r"

definition setting_read :: "string \<Rightarrow> (rat \<Rightarrow> bool) \<Rightarrow> db \<Rightarrow> rat" where
  "setting_read key accept s =
     (case settings s key of
        None \<Rightarrow> setting_default key
      | Some value \<Rightarrow>
          (case jval_number value of
             Some v \<Rightarrow> if accept v then v else setting_default key
           | None \<Rightarrow> setting_default key))"

text \<open>
  \<^verbatim>\<open>getInt\<close> only ever reads keys whose default is an integer, so the floor below changes
  nothing; \<^verbatim>\<open>getNumber\<close> accepts every finite number, and every value here is finite.
\<close>

definition getInt :: "string \<Rightarrow> db \<Rightarrow> int" where
  "getInt key s = \<lfloor>setting_read key isInteger s\<rfloor>"

definition getNumber :: "string \<Rightarrow> db \<Rightarrow> rat" where
  "getNumber key s = setting_read key (\<lambda>_. True) s"

lemma getInt_exact:
  "isInteger (setting_default key) \<Longrightarrow> of_int (getInt key s) = setting_read key isInteger s"
  by (auto simp: getInt_def setting_read_def isInteger_def split: option.splits)

lemma getInt_stored:
  "settings s key = Some (JInt i) \<Longrightarrow> getInt key s = i"
  by (simp add: getInt_def setting_read_def isInteger_def)

section \<open>The audit trail and the outbox\<close>

text \<open>\<^verbatim>\<open>AuditService.record\<close>: one row, stamped with the clock.\<close>

definition audit_record ::
  "actor_type \<Rightarrow> id option \<Rightarrow> string \<Rightarrow> string \<Rightarrow> id option \<Rightarrow> jval option \<Rightarrow> jval option
   \<Rightarrow> (error, db, unit) tx" where
  "audit_record actorType actorId action targetType targetId before after =
     tx_modify (\<lambda>s. s\<lparr>audit_log := audit_log s @
       [\<lparr>au_actor_type = actorType, au_actor_id = actorId, au_action = action,
         au_target_type = targetType, au_target_id = targetId,
         au_before = before, au_after = after, au_created_at = clock s\<rparr>]\<rparr>)"

text \<open>\<^verbatim>\<open>OutboxService.emit\<close>: one unprocessed row.\<close>

definition outbox_emit ::
  "string \<Rightarrow> id \<Rightarrow> string \<Rightarrow> (string \<times> jval) list \<Rightarrow> (error, db, unit) tx" where
  "outbox_emit aggregateType aggregateId eventType payload =
     tx_bind fresh_id (\<lambda>i.
     tx_modify (\<lambda>s. s\<lparr>outbox := outbox s @
       [\<lparr>ob_id = i, ob_aggregate_type = aggregateType, ob_aggregate_id = aggregateId,
         ob_event_type = eventType, ob_payload = payload, ob_processed_at = None,
         ob_attempts = 0, ob_created_at = clock s\<rparr>]\<rparr>))"

lemma outbox_emit_Inr [tx_simps]:
  "outbox_emit agg ai et pl s = Inr (u, s') \<longleftrightarrow>
   s' = s\<lparr>next_id := next_id s + 1, outbox := outbox s @
       [\<lparr>ob_id = next_id s, ob_aggregate_type = agg, ob_aggregate_id = ai,
         ob_event_type = et, ob_payload = pl, ob_processed_at = None,
         ob_attempts = 0, ob_created_at = clock s\<rparr>]\<rparr>"
  by (auto simp: outbox_emit_def tx_bind_def)

lemma audit_record_Inr [tx_simps]:
  "audit_record acty ai ac tt ti b a s = Inr (u, s') \<longleftrightarrow>
   s' = s\<lparr>audit_log := audit_log s @
       [\<lparr>au_actor_type = acty, au_actor_id = ai, au_action = ac,
         au_target_type = tt, au_target_id = ti,
         au_before = b, au_after = a, au_created_at = clock s\<rparr>]\<rparr>"
  by (auto simp: audit_record_def)

text \<open>\<^verbatim>\<open>publicIdOf\<close> of the participation service: \<^verbatim>\<open>findUniqueOrThrow\<close> on the user.\<close>

definition publicIdOf :: "id \<Rightarrow> (error, db, id) tx" where
  "publicIdOf userId =
     tx_bind (tx_read (\<lambda>s. users s userId)) (\<lambda>u.
     tx_bind (tx_some u (DbError ''user not found'')) (\<lambda>u. tx_return (us_public_id u)))"

lemma publicIdOf_Inr [tx_simps]:
  "publicIdOf i s = Inr (p, s') \<longleftrightarrow> s' = s \<and> (\<exists>u. users s i = Some u \<and> p = us_public_id u)"
  by (auto simp: publicIdOf_def tx_simps)

lemma fresh_id_wp [wp_simps]: "tx_wp fresh_id Q = (\<lambda>s. Q (next_id s) (s\<lparr>next_id := next_id s + 1\<rparr>))"
  by (rule ext) (simp add: tx_wp_def)

lemma audit_record_wp [wp_simps]:
  "tx_wp (audit_record acty ai ac tt ti b a) Q = (\<lambda>s. Q () (s\<lparr>audit_log := audit_log s @
       [\<lparr>au_actor_type = acty, au_actor_id = ai, au_action = ac,
         au_target_type = tt, au_target_id = ti,
         au_before = b, au_after = a, au_created_at = clock s\<rparr>]\<rparr>))"
  by (rule ext) (simp add: audit_record_def wp_simps)

lemma outbox_emit_wp [wp_simps]:
  "tx_wp (outbox_emit agg ai et pl) Q = (\<lambda>s. Q () (s\<lparr>next_id := next_id s + 1, outbox := outbox s @
       [\<lparr>ob_id = next_id s, ob_aggregate_type = agg, ob_aggregate_id = ai,
         ob_event_type = et, ob_payload = pl, ob_processed_at = None,
         ob_attempts = 0, ob_created_at = clock s\<rparr>]\<rparr>))"
  by (rule ext) (simp add: outbox_emit_def wp_simps)

lemma publicIdOf_wp [wp_simps]:
  "tx_wp (publicIdOf i) Q = (\<lambda>s. (\<forall>u. users s i = Some u \<longrightarrow> Q (us_public_id u) s))"
  by (rule ext) (simp add: publicIdOf_def wp_simps)

lemma fresh_id_ok [ok_simps]: "tx_ok fresh_id s"
  by (simp add: tx_ok_def)

lemma writes_ok [ok_simps]:
  "tx_ok (audit_record acty ai ac tt ti b a) s" "tx_ok (outbox_emit agg j et pl) s"
  by (simp_all add: audit_record_def outbox_emit_def ok_simps wp_simps)

lemma publicIdOf_ok [ok_simps]: "tx_ok (publicIdOf i) s \<longleftrightarrow> users s i \<noteq> None"
  by (auto simp: publicIdOf_def ok_simps wp_simps)

text \<open>A 32-bit \<^verbatim>\<open>Int\<close> column: a value outside the range is refused by the database.\<close>

definition int4 :: "int \<Rightarrow> bool" where
  "int4 x \<longleftrightarrow> - 2147483648 \<le> x \<and> x \<le> 2147483647"

text \<open>
  Identifiers inside string keys: the decimal rendering stands for the UUID's. What the
  keys rely on is that it is injective and has no colon.
\<close>

fun show_id :: "id \<Rightarrow> string" where
  "show_id n = (if n < 10 then [char_of (48 + n)] else show_id (n div 10) @ [char_of (48 + n mod 10)])"

declare show_id.simps [simp del]

definition read_id :: "string \<Rightarrow> nat" where
  "read_id cs = foldl (\<lambda>n c. 10 * n + (of_char c - 48)) 0 cs"

lemma read_show_id: "read_id (show_id n) = n"
proof (induction n rule: show_id.induct)
  case (1 n)
  show ?case
  proof (cases "n < 10")
    case True
    then show ?thesis by (subst show_id.simps) (simp add: read_id_def)
  next
    case False
    then have "show_id n = show_id (n div 10) @ [char_of (48 + n mod 10)]"
      by (subst show_id.simps) simp
    moreover have "of_char (char_of (48 + n mod 10) :: char) - 48 = n mod 10" by simp
    ultimately show ?thesis using 1 [OF False] by (simp add: read_id_def)
  qed
qed

lemma show_id_inj [simp]: "show_id m = show_id n \<longleftrightarrow> m = n"
  by (metis read_show_id)

lemma show_id_digits: "c \<in> set (show_id n) \<Longrightarrow> \<exists>d<(10::nat). c = char_of (48 + d)"
proof (induction n rule: show_id.induct)
  case (1 n)
  show ?case
  proof (cases "n < 10")
    case True
    with "1.prems" show ?thesis by (subst (asm) show_id.simps) auto
  next
    case False
    then have "show_id n = show_id (n div 10) @ [char_of (48 + n mod 10)]"
      by (subst show_id.simps) simp
    with "1.prems" "1.IH" [OF False] show ?thesis by (auto intro: exI [of _ "n mod 10"])
  qed
qed

lemma show_id_no_colon: "CHR '':'' \<notin> set (show_id n)"
proof
  assume "CHR '':'' \<in> set (show_id n)"
  then obtain d :: nat where "d < 10" and "CHR '':'' = char_of (48 + d)"
    using show_id_digits by blast
  then have "of_char (CHR '':'') = (of_char (char_of (48 + d) :: char) :: nat)" by metis
  with \<open>d < 10\<close> show False by simp
qed

lemma split_at_colon:
  "CHR '':'' \<notin> set xs \<Longrightarrow> CHR '':'' \<notin> set xs' \<Longrightarrow>
   xs @ CHR '':'' # ys = xs' @ CHR '':'' # ys' \<longleftrightarrow> xs = xs' \<and> ys = ys'"
proof (induction xs arbitrary: xs')
  case Nil
  then show ?case by (cases xs') auto
next
  case (Cons x xs)
  then show ?case by (cases xs') auto
qed

end
