(* ===== verification/Js_Text.thy ===== *)
theory Js_Text
  imports Prelude
begin

text \<open>
  What the code uses of JavaScript strings. A string is a list of code units, of which only
  those below 256 are represented: \<open>char\<close>. \<open>trim\<close>, \<open>split\<close>, \<open>startsWith\<close>, \<open>slice\<close> and the UTF-8
  length of \<open>Buffer.byteLength\<close> are written out; a regular expression is the predicate it
  describes.
\<close>

section \<open>Characters\<close>

definition is_space :: "char \<Rightarrow> bool" where
  "is_space c \<longleftrightarrow> List.member [9, 10, 11, 12, 13, 32, 160] (of_char c :: nat)"

definition is_digit :: "char \<Rightarrow> bool" where
  "is_digit c \<longleftrightarrow> (48::nat) \<le> of_char c \<and> of_char c \<le> (57::nat)"

definition is_word_char :: "char \<Rightarrow> bool" where
  "is_word_char c \<longleftrightarrow> is_digit c \<or> (65::nat) \<le> of_char c \<and> of_char c \<le> (90::nat)
     \<or> (97::nat) \<le> of_char c \<and> of_char c \<le> (122::nat) \<or> c = CHR ''_''"

definition lower_char :: "char \<Rightarrow> char" where
  "lower_char c = (if (65::nat) \<le> of_char c \<and> of_char c \<le> (90::nat) then char_of (of_char c + 32 :: nat) else c)"

definition is_lower :: "char \<Rightarrow> bool" where
  "is_lower c \<longleftrightarrow> (97::nat) \<le> of_char c \<and> of_char c \<le> (122::nat)"

definition is_upper :: "char \<Rightarrow> bool" where
  "is_upper c \<longleftrightarrow> (65::nat) \<le> of_char c \<and> of_char c \<le> (90::nat)"

text \<open>\<^verbatim>\<open>[0-9a-f]\<close>; the flag \<open>i\<close> adds the capitals.\<close>

definition is_hex :: "char \<Rightarrow> bool" where
  "is_hex c \<longleftrightarrow> is_digit c \<or> (97::nat) \<le> of_char c \<and> of_char c \<le> (102::nat)"

definition is_hex_i :: "char \<Rightarrow> bool" where
  "is_hex_i c \<longleftrightarrow> is_hex c \<or> (65::nat) \<le> of_char c \<and> of_char c \<le> (70::nat)"

section \<open>Strings\<close>

definition trim :: "string \<Rightarrow> string" where
  "trim s = rev (dropWhile is_space (rev (dropWhile is_space s)))"

fun split_on :: "char \<Rightarrow> string \<Rightarrow> string list" where
  "split_on c [] = [[]]"
| "split_on c (x # xs) =
     (if x = c then [] # split_on c xs
      else (case split_on c xs of [] \<Rightarrow> [[x]] | w # ws \<Rightarrow> (x # w) # ws))"

definition byte_length :: "string \<Rightarrow> nat" where
  "byte_length s = sum_list (map (\<lambda>c. if of_char c < (128::nat) then 1 else 2) s)"

text \<open>\<^verbatim>\<open>s.startsWith(p)\<close>; \<^verbatim>\<open>s.slice(0, n)\<close> is \<open>take n\<close> and \<^verbatim>\<open>s.slice(n)\<close> is \<open>drop n\<close>.\<close>

definition starts_with :: "string \<Rightarrow> string \<Rightarrow> bool" where
  "starts_with p s \<longleftrightarrow> take (length p) s = p"

text \<open>\<^verbatim>\<open>s[i]\<close>, \<open>undefined\<close> when out of range.\<close>

definition char_at :: "nat \<Rightarrow> string \<Rightarrow> char option" where
  "char_at i s = (if i < length s then Some (s ! i) else None)"

text \<open>\<^verbatim>\<open>s.toLowerCase()\<close>, with the accented capitals of the represented range.\<close>

definition lower_unit :: "char \<Rightarrow> char" where
  "lower_unit c = (if (192::nat) \<le> of_char c \<and> of_char c \<le> (222::nat) \<and> of_char c \<noteq> (215::nat)
     then char_of (of_char c + 32 :: nat) else lower_char c)"

definition toLowerCase :: "string \<Rightarrow> string" where
  "toLowerCase s = map lower_unit s"

section \<open>Trimming\<close>

lemma dropWhile_hd: "xs \<noteq> [] \<Longrightarrow> \<not> P (hd xs) \<Longrightarrow> dropWhile P xs = xs"
  by (cases xs) simp_all

lemma trim_ends: "trim s \<noteq> [] \<Longrightarrow> \<not> is_space (hd (trim s)) \<and> \<not> is_space (last (trim s))"
proof -
  assume ne: "trim s \<noteq> []"
  let ?t = "dropWhile is_space s" and ?u = "dropWhile is_space (rev (dropWhile is_space s))"
  have u: "?u \<noteq> []" using ne by (simp add: trim_def)
  then have l: "\<not> is_space (last (trim s))"
    by (metis hd_dropWhile last_rev rev_rev_ident trim_def)
  obtain ys where "rev ?t = ys @ ?u" by (metis takeWhile_dropWhile_id)
  then have "?t = rev ?u @ rev ys" by (metis rev_append rev_rev_ident)
  then have "hd (trim s) = hd ?t" using u unfolding trim_def by (metis hd_append2 rev_is_Nil_conv)
  moreover have "?t \<noteq> []" using u by (metis dropWhile.simps(1) rev.simps(1))
  ultimately show ?thesis using l hd_dropWhile by metis
qed

lemma trim_id: "(s \<noteq> [] \<Longrightarrow> \<not> is_space (hd s) \<and> \<not> is_space (last s)) \<Longrightarrow> trim s = s"
  by (cases "s = []") (simp_all add: trim_def dropWhile_hd hd_rev)

lemma trim_trim [simp]: "trim (trim s) = trim s"
  by (rule trim_id) (rule trim_ends)

lemma no_space_digit: "is_digit c \<Longrightarrow> \<not> is_space c"
  by (auto simp: is_digit_def is_space_def)

lemma no_space_word: "is_word_char c \<Longrightarrow> \<not> is_space c"
  by (auto simp: is_word_char_def is_digit_def is_space_def)

lemma trim_no_space: "list_all (\<lambda>c. \<not> is_space c) s \<Longrightarrow> trim s = s"
  by (rule trim_id) (auto simp: list_all_iff)

section \<open>Splitting\<close>

lemma split_on_nonempty [simp]: "split_on c xs \<noteq> []"
  by (cases xs) (auto split: list.splits)

lemma split_on_none: "c \<notin> set xs \<Longrightarrow> split_on c xs = [xs]"
  by (induction xs) auto

lemma split_on_append: "c \<notin> set xs \<Longrightarrow> split_on c (xs @ c # ys) = xs # split_on c ys"
  by (induction xs) (auto split: list.splits)

lemma byte_length_append [simp]: "byte_length (xs @ ys) = byte_length xs + byte_length ys"
  by (simp add: byte_length_def)

lemma byte_length_Nil [simp]: "byte_length [] = 0"
  by (simp add: byte_length_def)

lemma byte_length_Cons [simp]: "byte_length (c # xs) = (if of_char c < (128::nat) then 1 else 2) + byte_length xs"
  by (simp add: byte_length_def)

lemma byte_length_ascii: "list_all (\<lambda>c. of_char c < (128::nat)) xs \<Longrightarrow> byte_length xs = length xs"
  by (induction xs) auto

end
