(* ===== verification/Callback_Data.thy ===== *)
theory Callback_Data
  imports Database Js_Text
begin

text \<open>
  The button protocol of the bot: every \<^verbatim>\<open>callback_data\<close> string a button carries, its encoder
  and its parser (\<^verbatim>\<open>packages/telegram/src/callback-data.ts\<close>, \<^verbatim>\<open>wizard/callback.ts\<close>), and the
  order in which \<^verbatim>\<open>BotService.onCallback\<close> (\<^verbatim>\<open>apps/api/src/telegram/bot.service.ts\<close>) tries the
  parsers. An encoder that throws returns \<open>Inl\<close>. A TypeScript union of string literals is a
  string, with the list of its literals.
\<close>

definition MAX_BYTES :: nat where "MAX_BYTES = 64"

text \<open>\<^verbatim>\<open>if (Buffer.byteLength(data, 'utf8') > MAX_BYTES) throw\<close>, the end of every encoder.\<close>

definition within_budget :: "string \<Rightarrow> string + string" where
  "within_budget data =
     (if byte_length data > MAX_BYTES then Inl (''callback_data exceeds 64 bytes: '' @ data) else Inr data)"

definition isPublicId :: "string \<Rightarrow> bool" where
  "isPublicId s \<longleftrightarrow>
     map length (split_on CHR ''-'' s) = [8, 4, 4, 4, 12] \<and> list_all (list_all is_hex_i) (split_on CHR ''-'' s)"

text \<open>\<^verbatim>\<open>const parts = data.split(':'); if (parts.length !== 3) return null\<close>.\<close>

definition three :: "string \<Rightarrow> (string \<times> string \<times> string) option" where
  "three data = (case split_on CHR '':'' data of [a, b, c] \<Rightarrow> Some (a, b, c) | _ \<Rightarrow> None)"

text \<open>\<open>{ action, id }\<close>: a \<^verbatim>\<open>ChatCallback\<close>, an \<^verbatim>\<open>EventCallback\<close> or a \<^verbatim>\<open>DirectCallback\<close>.\<close>

record id_callback =
  ic_action :: string
  ic_id :: string

section \<open>Chat, event and direct buttons\<close>

definition PREFIX :: string where "PREFIX = ''chat''"

definition CHAT_CALLBACK_ACTIONS :: "string list" where
  "CHAT_CALLBACK_ACTIONS = [''accept'', ''reject'']"

definition encodeChatCallback :: "string \<Rightarrow> string \<Rightarrow> string + string" where
  "encodeChatCallback action i = within_budget (PREFIX @ '':'' @ action @ '':'' @ i)"

definition isChatAction :: "string \<Rightarrow> bool" where
  "isChatAction v \<longleftrightarrow> List.member CHAT_CALLBACK_ACTIONS v"

definition parseChatCallback :: "string \<Rightarrow> id_callback option" where
  "parseChatCallback data =
     (case three data of
        None \<Rightarrow> None
      | Some (p, action, i) \<Rightarrow>
          if p \<noteq> PREFIX \<or> \<not> isPublicId i then None
          else if \<not> isChatAction action then None
          else Some \<lparr>ic_action = action, ic_id = i\<rparr>)"

definition EVENT_CALLBACK_ACTIONS :: "string list" where
  "EVENT_CALLBACK_ACTIONS = [''join'', ''joinyes'', ''cancel'', ''cancelyes'', ''show'', ''disp'', ''habs'',
     ''hresp'', ''hrev'', ''who'', ''noshow'', ''noshowyes'', ''post'', ''postyes'', ''invite'', ''inviteyes'',
     ''drop'', ''dropyes'', ''acc'', ''rej'']"

definition EVENT_PREFIX :: string where "EVENT_PREFIX = ''ev''"

definition encodeEventCallback :: "string \<Rightarrow> string \<Rightarrow> string + string" where
  "encodeEventCallback action i = within_budget (EVENT_PREFIX @ '':'' @ action @ '':'' @ i)"

definition parseEventCallback :: "string \<Rightarrow> id_callback option" where
  "parseEventCallback data =
     (case three data of
        None \<Rightarrow> None
      | Some (p, action, i) \<Rightarrow>
          if p \<noteq> EVENT_PREFIX \<or> \<not> isPublicId i then None
          else if \<not> List.member EVENT_CALLBACK_ACTIONS action then None
          else Some \<lparr>ic_action = action, ic_id = i\<rparr>)"

definition DIRECT_CALLBACK_ACTIONS :: "string list" where
  "DIRECT_CALLBACK_ACTIONS = [''write'', ''view'', ''reply'', ''guest'', ''block'', ''unblock'']"

definition DIRECT_PREFIX :: string where "DIRECT_PREFIX = ''dm''"

definition encodeDirectCallback :: "string \<Rightarrow> string \<Rightarrow> string + string" where
  "encodeDirectCallback action i = within_budget (DIRECT_PREFIX @ '':'' @ action @ '':'' @ i)"

definition parseDirectCallback :: "string \<Rightarrow> id_callback option" where
  "parseDirectCallback data =
     (case three data of
        None \<Rightarrow> None
      | Some (p, action, i) \<Rightarrow>
          if p \<noteq> DIRECT_PREFIX \<or> \<not> isPublicId i then None
          else if \<not> List.member DIRECT_CALLBACK_ACTIONS action then None
          else Some \<lparr>ic_action = action, ic_id = i\<rparr>)"

section \<open>Numbers in strings\<close>

text \<open>\<^verbatim>\<open>n.toString(36)\<close> of a number below 36, and \<^verbatim>\<open>Number.parseInt(c, 36)\<close> of one of \<^verbatim>\<open>[0-9a-z]\<close>.\<close>

definition base36 :: "int \<Rightarrow> string" where
  "base36 n = [char_of (if n < 10 then 48 + nat n else 87 + nat n)]"

definition unbase36 :: "char \<Rightarrow> int" where
  "unbase36 c = (if is_digit c then of_char c - 48 else of_char c - 87)"

definition is_base36 :: "string \<Rightarrow> bool" where
  "is_base36 s \<longleftrightarrow> length s = 1 \<and> list_all (\<lambda>c. is_digit c \<or> is_lower c) s"

text \<open>\<^verbatim>\<open>Math.min(Math.max(Math.trunc(page), 0), 35)\<close> of an integer.\<close>

definition clamp_page :: "int \<Rightarrow> int \<Rightarrow> int" where
  "clamp_page mx page = min (max page 0) mx"

text \<open>
  \<^verbatim>\<open>Number(s)\<close> where it is a finite number: the exact value of the literal \<open>s\<close> reads as, before it
  is rounded to a double. Nothing, as \<^verbatim>\<open>NaN\<close> and \<^verbatim>\<open>Infinity\<close>, is \<open>None\<close>; an empty string is 0.
\<close>

definition radix_value :: "nat \<Rightarrow> string \<Rightarrow> rat option" where
  "radix_value b ds =
     (let digit = (\<lambda>c. if is_digit c then of_char c - 48 else if is_lower c then of_char c - 87
                        else if is_upper c then of_char c - 55 else 36) :: char \<Rightarrow> nat
      in if ds \<noteq> [] \<and> list_all (\<lambda>c. digit c < b) ds
         then Some (of_nat (foldl (\<lambda>n c. b * n + digit c) 0 ds)) else None)"

definition split_sign :: "string \<Rightarrow> bool \<times> string" where
  "split_sign s = (case s of
      c # cs \<Rightarrow> if c = CHR ''-'' then (True, cs) else if c = CHR ''+'' then (False, cs) else (False, s)
    | [] \<Rightarrow> (False, []))"

definition exponent_value :: "string \<Rightarrow> int option" where
  "exponent_value s = (case split_sign s of (neg, ds) \<Rightarrow>
     if ds \<noteq> [] \<and> list_all is_digit ds then Some (if neg then - int (read_id ds) else int (read_id ds)) else None)"

definition scaled :: "rat \<Rightarrow> int \<Rightarrow> rat" where
  "scaled q e = (if 0 \<le> e then q * 10 ^ nat e else q / 10 ^ nat (- e))"

text \<open>Digits, then maybe a point and digits, then maybe an exponent; a digit somewhere.\<close>

definition decimal_value :: "string \<Rightarrow> rat option" where
  "decimal_value s =
     (let whole = takeWhile is_digit s; rest = dropWhile is_digit s;
          (fraction, tail) =
            (case rest of c # cs \<Rightarrow> if c = CHR ''.'' then (takeWhile is_digit cs, dropWhile is_digit cs) else ([], rest)
             | [] \<Rightarrow> ([], []));
          mantissa = scaled (of_nat (read_id (whole @ fraction))) (- int (length fraction))
      in if whole = [] \<and> fraction = [] then None
         else case tail of
             [] \<Rightarrow> Some mantissa
           | e # es \<Rightarrow> if e = CHR ''e'' \<or> e = CHR ''E''
                      then (case exponent_value es of None \<Rightarrow> None | Some x \<Rightarrow> Some (scaled mantissa x)) else None)"

definition js_number :: "string \<Rightarrow> rat option" where
  "js_number s0 =
     (let s = trim s0 in
      if s = [] then Some 0
      else if starts_with ''0x'' s \<or> starts_with ''0X'' s then radix_value 16 (drop 2 s)
      else if starts_with ''0o'' s \<or> starts_with ''0O'' s then radix_value 8 (drop 2 s)
      else if starts_with ''0b'' s \<or> starts_with ''0B'' s then radix_value 2 (drop 2 s)
      else case split_sign s of (neg, t) \<Rightarrow>
        (case decimal_value t of None \<Rightarrow> None | Some q \<Rightarrow> Some (if neg then - q else q)))"

text \<open>
  Which exact values the double \<open>k\<close>, a rating from 1 to 5, is the nearest of, ties to even: up to
  half the distance to its neighbours, which below a power of two is half of that above.
\<close>

definition rounds_to :: "rat \<Rightarrow> nat \<Rightarrow> bool" where
  "rounds_to q k \<longleftrightarrow>
     (let above = (if k = 1 then 53 else if k \<le> 3 then 52 else 51);
          below = (if k = 1 then 54 else if k = 2 then 53 else if k \<le> 4 then 52 else 51)
      in of_nat k - 1 / 2 ^ below \<le> q \<and> q \<le> of_nat k + 1 / 2 ^ above)"

section \<open>Reviews and reports\<close>

definition REVIEW_RATINGS :: "nat list" where "REVIEW_RATINGS = [1, 2, 3, 4, 5]"

record review_callback =
  rv_rating :: nat
  rv_id :: string

definition REVIEW_PREFIX :: string where "REVIEW_PREFIX = ''rv''"

definition encodeReviewCallback :: "nat \<Rightarrow> string \<Rightarrow> string + string" where
  "encodeReviewCallback rating i = within_budget (REVIEW_PREFIX @ '':rate'' @ show_id rating @ '':'' @ i)"

text \<open>\<^verbatim>\<open>REVIEW_RATINGS.find((candidate) => candidate === Number(text))\<close>.\<close>

definition rating_of :: "string \<Rightarrow> nat option" where
  "rating_of s = (case js_number s of None \<Rightarrow> None | Some q \<Rightarrow> find (rounds_to q) REVIEW_RATINGS)"

definition parseReviewCallback :: "string \<Rightarrow> review_callback option" where
  "parseReviewCallback data =
     (case three data of
        None \<Rightarrow> None
      | Some (p, action, i) \<Rightarrow>
          if p \<noteq> REVIEW_PREFIX \<or> \<not> isPublicId i then None
          else if \<not> starts_with ''rate'' action then None
          else (case rating_of (drop 4 action) of
                  None \<Rightarrow> None
                | Some match \<Rightarrow> Some \<lparr>rv_rating = match, rv_id = i\<rparr>))"

definition encodeReviewEditCallback :: "string \<Rightarrow> string + string" where
  "encodeReviewEditCallback i = within_budget (REVIEW_PREFIX @ '':edit:'' @ i)"

definition parseReviewEditCallback :: "string \<Rightarrow> string option" where
  "parseReviewEditCallback data =
     (case three data of
        None \<Rightarrow> None
      | Some (p, action, i) \<Rightarrow>
          if p \<noteq> REVIEW_PREFIX \<or> action \<noteq> ''edit'' \<or> \<not> isPublicId i then None else Some i)"

definition REPORT_TARGETS :: "(string \<times> string) list" where
  "REPORT_TARGETS = [(''e'', ''EVENT''), (''c'', ''MESSAGE''), (''u'', ''USER''), (''v'', ''REVIEW'')]"

definition REPORT_REASONS :: "string list" where
  "REPORT_REASONS = [''SPAM'', ''HARASSMENT'', ''INAPPROPRIATE'', ''SCAM'', ''IMPERSONATION'', ''SAFETY'', ''OTHER'']"

record report_callback =
  rp_asking :: bool
  rp_target :: string
  rp_reason :: "string option"
  rp_id :: string

definition REPORT_PREFIX :: string where "REPORT_PREFIX = ''rp''"

definition guardReport :: "string \<Rightarrow> string + string" where
  "guardReport data = within_budget data"

definition encodeReportAsk :: "string \<Rightarrow> string \<Rightarrow> string + string" where
  "encodeReportAsk target i = guardReport (REPORT_PREFIX @ '':ask'' @ target @ '':'' @ i)"

definition encodeReportReason :: "string \<Rightarrow> string \<Rightarrow> string \<Rightarrow> string + string" where
  "encodeReportReason target reason i = guardReport (REPORT_PREFIX @ '':'' @ target @ reason @ '':'' @ i)"

definition isTargetLetter :: "string \<Rightarrow> bool" where
  "isTargetLetter v \<longleftrightarrow> map_of REPORT_TARGETS v \<noteq> None"

definition parseReportCallback :: "string \<Rightarrow> report_callback option" where
  "parseReportCallback data =
     (case three data of
        None \<Rightarrow> None
      | Some (p, action, i) \<Rightarrow>
          if p \<noteq> REPORT_PREFIX then None
          else if \<not> isPublicId i then None
          else if starts_with ''ask'' action
          then (let target = drop 3 action
                in if isTargetLetter target
                   then Some \<lparr>rp_asking = True, rp_target = target, rp_reason = None, rp_id = i\<rparr> else None)
          else (let target = take 1 action; reason = drop 1 action
                in if \<not> isTargetLetter target then None
                   else if List.member REPORT_REASONS reason
                   then Some \<lparr>rp_asking = False, rp_target = target, rp_reason = Some reason, rp_id = i\<rparr> else None))"

section \<open>Browsing\<close>

definition DISCOVER_WHEN :: "char list" where "DISCOVER_WHEN = ''atw''"
definition DISCOVER_COST :: "char list" where "DISCOVER_COST = ''af''"
definition DISCOVER_VIEWS :: "char list" where "DISCOVER_VIEWS = ''lf''"

text \<open>One-letter literals are characters here.\<close>

record discover_filters =
  df_when :: char
  df_cost :: char
  df_category_id :: "string option"
  df_page :: int
  df_view :: char
  df_age :: bool

definition DISCOVER_PREFIX :: string where "DISCOVER_PREFIX = ''dc''"
definition ANY_CATEGORY :: string where "ANY_CATEGORY = ''all''"
definition MAX_DISCOVER_PAGE :: int where "MAX_DISCOVER_PAGE = 35"

definition encodePage :: "int \<Rightarrow> string" where
  "encodePage page = base36 (clamp_page MAX_DISCOVER_PAGE page)"

definition decodePage :: "char option \<Rightarrow> int option" where
  "decodePage letter =
     (case letter of
        None \<Rightarrow> Some 0
      | Some c \<Rightarrow>
          if \<not> is_base36 [c] then None
          else if unbase36 c > MAX_DISCOVER_PAGE then None else Some (unbase36 c))"

definition encodeDiscoverCallback :: "discover_filters \<Rightarrow> string + string" where
  "encodeDiscoverCallback f =
     (let category = (case df_category_id f of None \<Rightarrow> ANY_CATEGORY | Some c \<Rightarrow> c)
      in within_budget (DISCOVER_PREFIX @ '':'' @ [df_when f, df_cost f] @ encodePage (df_page f) @ [df_view f]
           @ (if df_age f then ''y'' else ''n'') @ '':'' @ category))"

definition parseDiscoverCallback :: "string \<Rightarrow> discover_filters option" where
  "parseDiscoverCallback data =
     (case three data of
        None \<Rightarrow> None
      | Some (p, flags, category) \<Rightarrow>
          if p \<noteq> DISCOVER_PREFIX then None
          else if length flags < 2 \<or> length flags > 5 then None
          else (case (find (\<lambda>c. char_at 0 flags = Some c) DISCOVER_WHEN, find (\<lambda>c. char_at 1 flags = Some c) DISCOVER_COST) of
              (Some when, Some cost) \<Rightarrow>
                (case decodePage (char_at 2 flags) of
                   None \<Rightarrow> None
                 | Some page \<Rightarrow>
                     (case (if char_at 3 flags = None then Some CHR ''l''
                            else find (\<lambda>c. char_at 3 flags = Some c) DISCOVER_VIEWS) of
                        None \<Rightarrow> None
                      | Some view \<Rightarrow>
                          if char_at 4 flags \<noteq> None \<and> char_at 4 flags \<noteq> Some CHR ''y'' \<and> char_at 4 flags \<noteq> Some CHR ''n'' then None
                          else
                            let age = (char_at 4 flags = Some CHR ''y'')
                            in if category = ANY_CATEGORY
                               then Some \<lparr>df_when = when, df_cost = cost, df_category_id = None, df_page = page,
                                          df_view = view, df_age = age\<rparr>
                               else if isPublicId category
                               then Some \<lparr>df_when = when, df_cost = cost, df_category_id = Some category, df_page = page,
                                          df_view = view, df_age = age\<rparr>
                               else None))
            | _ \<Rightarrow> None))"

definition BACK_TARGETS :: "string list" where "BACK_TARGETS = [''d'', ''m'']"

record back_callback =
  bk_target :: string
  bk_message :: "int option"

definition BACK_PREFIX :: string where "BACK_PREFIX = ''bk''"

text \<open>\<^verbatim>\<open>String(id)\<close> of a positive integer below 10^21 is its decimal rendering.\<close>

definition encodeBackCallback :: "string \<Rightarrow> int option \<Rightarrow> string + string" where
  "encodeBackCallback target commandMessageId =
     (let i = (case commandMessageId of None \<Rightarrow> 0 | Some n \<Rightarrow> if n \<le> 0 then 0 else n)
      in within_budget (BACK_PREFIX @ '':'' @ target @ '':'' @ show_id (nat i)))"

definition parseBackCallback :: "string \<Rightarrow> back_callback option" where
  "parseBackCallback data =
     (case three data of
        None \<Rightarrow> None
      | Some (p, target, i) \<Rightarrow>
          if p \<noteq> BACK_PREFIX then None
          else if \<not> List.member BACK_TARGETS target then None
          else if \<not> (1 \<le> length i \<and> length i \<le> 12 \<and> list_all is_digit i) then None
          else (let messageId = int (read_id i)
                in Some \<lparr>bk_target = target, bk_message = (if messageId = 0 then None else Some messageId)\<rparr>))"

definition MY_EVENTS_PREFIX :: string where "MY_EVENTS_PREFIX = ''mv''"
definition MAX_MY_EVENTS_PAGE :: int where "MAX_MY_EVENTS_PAGE = 35"

definition encodeMyEventsCallback :: "int \<Rightarrow> string" where
  "encodeMyEventsCallback page = MY_EVENTS_PREFIX @ '':'' @ base36 (clamp_page MAX_MY_EVENTS_PAGE page) @ '':x''"

definition parseMyEventsCallback :: "string \<Rightarrow> int option" where
  "parseMyEventsCallback data =
     (case three data of
        None \<Rightarrow> None
      | Some (p, page, _) \<Rightarrow>
          if p \<noteq> MY_EVENTS_PREFIX then None
          else if \<not> is_base36 page then None
          else if unbase36 (hd page) > MAX_MY_EVENTS_PAGE then None else Some (unbase36 (hd page)))"

definition WALLET_PREFIX :: string where "WALLET_PREFIX = ''wl''"
definition MAX_WALLET_PAGE :: int where "MAX_WALLET_PAGE = 35"

definition encodeWalletCallback :: "int \<Rightarrow> string" where
  "encodeWalletCallback page = WALLET_PREFIX @ '':'' @ base36 (clamp_page MAX_WALLET_PAGE page) @ '':x''"

definition parseWalletCallback :: "string \<Rightarrow> int option" where
  "parseWalletCallback data =
     (case three data of
        None \<Rightarrow> None
      | Some (p, page, _) \<Rightarrow>
          if p \<noteq> WALLET_PREFIX then None
          else if \<not> is_base36 page then None
          else if unbase36 (hd page) > MAX_WALLET_PAGE then None else Some (unbase36 (hd page)))"

definition TRUST_PREFIX :: string where "TRUST_PREFIX = ''ts''"
definition MAX_TRUST_PAGE :: int where "MAX_TRUST_PAGE = 35"

definition encodeTrustCallback :: "int \<Rightarrow> string" where
  "encodeTrustCallback page = TRUST_PREFIX @ '':'' @ base36 (clamp_page MAX_TRUST_PAGE page) @ '':x''"

definition parseTrustCallback :: "string \<Rightarrow> int option" where
  "parseTrustCallback data =
     (case three data of
        None \<Rightarrow> None
      | Some (p, page, _) \<Rightarrow>
          if p \<noteq> TRUST_PREFIX then None
          else if \<not> is_base36 page then None
          else if unbase36 (hd page) > MAX_TRUST_PAGE then None else Some (unbase36 (hd page)))"

section \<open>Policies, guides, gender, settings\<close>

definition POLICY_DOC_LETTERS :: "string list" where "POLICY_DOC_LETTERS = [''s'', ''t'', ''p'', ''c'']"

record policy_callback =
  pl_doc :: string
  pl_page :: int

definition POLICY_PREFIX :: string where "POLICY_PREFIX = ''pl''"
definition MAX_POLICY_PAGE :: int where "MAX_POLICY_PAGE = 35"

definition encodePolicyCallback :: "string \<Rightarrow> int \<Rightarrow> string" where
  "encodePolicyCallback doc page = POLICY_PREFIX @ '':'' @ doc @ '':'' @ base36 (clamp_page MAX_POLICY_PAGE page)"

definition parsePolicyCallback :: "string \<Rightarrow> policy_callback option" where
  "parsePolicyCallback data =
     (case three data of
        None \<Rightarrow> None
      | Some (p, doc, page) \<Rightarrow>
          if p \<noteq> POLICY_PREFIX \<or> \<not> is_base36 page then None
          else if \<not> List.member POLICY_DOC_LETTERS doc then None
          else if unbase36 (hd page) > MAX_POLICY_PAGE then None
          else Some \<lparr>pl_doc = doc, pl_page = unbase36 (hd page)\<rparr>)"

datatype guide_callback = Guide_Index | Guide_Commands | Guide_Slug string

definition GUIDE_PREFIX :: string where "GUIDE_PREFIX = ''gd''"

definition GUIDE_SLUG :: "string \<Rightarrow> bool" where
  "GUIDE_SLUG s \<longleftrightarrow> 1 \<le> length s \<and> length s \<le> 40
     \<and> list_all (\<lambda>c. is_lower c \<or> is_digit c \<or> c = CHR ''_'' \<or> c = CHR ''-'') s"

definition encodeGuideIndex :: string where "encodeGuideIndex = GUIDE_PREFIX @ '':i''"
definition encodeGuideCommands :: string where "encodeGuideCommands = GUIDE_PREFIX @ '':k''"
definition encodeGuideCallback :: "string \<Rightarrow> string" where "encodeGuideCallback slug = GUIDE_PREFIX @ '':g:'' @ slug"

definition parseGuideCallback :: "string \<Rightarrow> guide_callback option" where
  "parseGuideCallback data =
     (let parts = split_on CHR '':'' data
      in if parts ! 0 \<noteq> GUIDE_PREFIX then None
         else if length parts = 2 \<and> parts ! 1 = ''i'' then Some Guide_Index
         else if length parts = 2 \<and> parts ! 1 = ''k'' then Some Guide_Commands
         else if length parts = 3 \<and> parts ! 1 = ''g'' \<and> GUIDE_SLUG (parts ! 2) then Some (Guide_Slug (parts ! 2))
         else None)"

definition GENDER_PREFIX :: string where "GENDER_PREFIX = ''gn''"

datatype gender_choice = GC_MALE | GC_FEMALE

definition GENDER_CODES :: "gender_choice \<Rightarrow> string" where
  "GENDER_CODES g = (case g of GC_FEMALE \<Rightarrow> ''F'' | GC_MALE \<Rightarrow> ''M'')"

definition encodeGenderChoice :: "gender_choice \<Rightarrow> string" where
  "encodeGenderChoice g = GENDER_PREFIX @ '':'' @ GENDER_CODES g"

definition parseGenderChoice :: "string \<Rightarrow> gender_choice option" where
  "parseGenderChoice data =
     (if data = GENDER_PREFIX @ '':F'' then Some GC_FEMALE
      else if data = GENDER_PREFIX @ '':M'' then Some GC_MALE else None)"

definition SETTING_FIELDS :: "(char \<times> string) list" where
  "SETTING_FIELDS = [(CHR ''c'', ''notifyChat''), (CHR ''e'', ''notifyEvents''), (CHR ''m'', ''notifyCampaigns'')]"

definition SETTING_LETTERS :: "char list" where
  "SETTING_LETTERS = map fst SETTING_FIELDS @ ''pgnb''"

definition isNotificationField :: "char \<Rightarrow> bool" where
  "isNotificationField c \<longleftrightarrow> map_of SETTING_FIELDS c \<noteq> None"

record setting_callback =
  st_field :: char
  st_value :: bool

definition SETTING_PREFIX :: string where "SETTING_PREFIX = ''st''"

definition encodeSettingCallback :: "char \<Rightarrow> bool \<Rightarrow> string" where
  "encodeSettingCallback field v = SETTING_PREFIX @ '':'' @ [field] @ (if v then ''1'' else ''0'') @ '':x''"

definition parseSettingCallback :: "string \<Rightarrow> setting_callback option" where
  "parseSettingCallback data =
     (case three data of
        None \<Rightarrow> None
      | Some (p, action, _) \<Rightarrow>
          if p \<noteq> SETTING_PREFIX \<or> length action \<noteq> 2 then None
          else (case find (\<lambda>c. [c] = take 1 action) SETTING_LETTERS of
                  None \<Rightarrow> None
                | Some field \<Rightarrow>
                    if drop 1 action \<noteq> ''0'' \<and> drop 1 action \<noteq> ''1'' then None
                    else Some \<lparr>st_field = field, st_value = (drop 1 action = ''1'')\<rparr>))"

section \<open>Administration, codes, profile, menu\<close>

definition ADMIN_CALLBACK_ACTIONS :: "string list" where
  "ADMIN_CALLBACK_ACTIONS = [''list'', ''open'', ''claim'', ''release'', ''escalate'']"

record admin_callback =
  ad_action :: string
  ad_id :: "string option"

definition ADMIN_PREFIX :: string where "ADMIN_PREFIX = ''ad''"
definition NO_ID :: string where "NO_ID = ''x''"

definition encodeAdminCallback :: "string \<Rightarrow> string option \<Rightarrow> string + string" where
  "encodeAdminCallback action i =
     within_budget (ADMIN_PREFIX @ '':'' @ action @ '':'' @ (case i of None \<Rightarrow> NO_ID | Some i \<Rightarrow> i))"

definition parseAdminCallback :: "string \<Rightarrow> admin_callback option" where
  "parseAdminCallback data =
     (case three data of
        None \<Rightarrow> None
      | Some (p, action, i) \<Rightarrow>
          if p \<noteq> ADMIN_PREFIX then None
          else if \<not> List.member ADMIN_CALLBACK_ACTIONS action then None
          else if action = ''list'' then (if i = NO_ID then Some \<lparr>ad_action = ''list'', ad_id = None\<rparr> else None)
          else if isPublicId i then Some \<lparr>ad_action = action, ad_id = Some i\<rparr> else None)"

definition CODE_CALLBACK_KINDS :: "string list" where "CODE_CALLBACK_KINDS = [''gift'', ''ref'']"
definition CODE_PREFIX :: string where "CODE_PREFIX = ''cd''"

definition encodeCodeCallback :: "string \<Rightarrow> string" where
  "encodeCodeCallback kind = CODE_PREFIX @ '':'' @ kind @ '':'' @ NO_ID"

definition parseCodeCallback :: "string \<Rightarrow> string option" where
  "parseCodeCallback data =
     (case three data of
        None \<Rightarrow> None
      | Some (p, kind, i) \<Rightarrow>
          if p \<noteq> CODE_PREFIX \<or> i \<noteq> NO_ID then None else find (\<lambda>c. c = kind) CODE_CALLBACK_KINDS)"

definition BUY_PREFIX :: string where "BUY_PREFIX = ''by''"
definition encodeBuyCallback :: string where "encodeBuyCallback = BUY_PREFIX @ '':coins:'' @ NO_ID"

definition parseBuyCallback :: "string \<Rightarrow> bool" where
  "parseBuyCallback data =
     (case three data of
        None \<Rightarrow> False
      | Some (p, kind, i) \<Rightarrow> p = BUY_PREFIX \<and> kind = ''coins'' \<and> i = NO_ID)"

definition PROFILE_FIELD_KEYS :: "string list" where
  "PROFILE_FIELD_KEYS = [''name'', ''birth'', ''loc'', ''bio'', ''tags'']"
definition PROFILE_FIELD_PREFIX :: string where "PROFILE_FIELD_PREFIX = ''pf''"

definition encodeProfileFieldCallback :: "string \<Rightarrow> string" where
  "encodeProfileFieldCallback field = PROFILE_FIELD_PREFIX @ '':'' @ field @ '':'' @ NO_ID"

definition parseProfileFieldCallback :: "string \<Rightarrow> string option" where
  "parseProfileFieldCallback data =
     (case three data of
        None \<Rightarrow> None
      | Some (p, field, i) \<Rightarrow>
          if p \<noteq> PROFILE_FIELD_PREFIX \<or> i \<noteq> NO_ID then None else find (\<lambda>c. c = field) PROFILE_FIELD_KEYS)"

definition CHANNEL_PREFIX :: string where "CHANNEL_PREFIX = ''cg''"

definition encodeChannelRecheckCallback :: string where
  "encodeChannelRecheckCallback = CHANNEL_PREFIX @ '':recheck:'' @ NO_ID"

definition isChannelRecheckCallback :: "string \<Rightarrow> bool" where
  "isChannelRecheckCallback data \<longleftrightarrow> data = encodeChannelRecheckCallback"

datatype menu_callback = Menu_Root | Menu_Group string | Menu_Command string

definition MENU_PREFIX :: string where "MENU_PREFIX = ''mn''"
definition encodeMenuRoot :: string where "encodeMenuRoot = MENU_PREFIX @ '':root''"
definition encodeMenuGroup :: "string \<Rightarrow> string" where "encodeMenuGroup key = MENU_PREFIX @ '':g:'' @ key"
definition encodeMenuCommand :: "string \<Rightarrow> string" where "encodeMenuCommand command = MENU_PREFIX @ '':c:'' @ command"

definition decodeMenuCallback :: "string \<Rightarrow> menu_callback option" where
  "decodeMenuCallback data =
     (let parts = split_on CHR '':'' data
      in if parts ! 0 \<noteq> MENU_PREFIX then None
         else if length parts = 2 \<and> parts ! 1 = ''root'' then Some Menu_Root
         else if length parts \<noteq> 3 then None
         else let v = parts ! 2
              in if v = [] \<or> length v > 32 then None
                 else if \<not> list_all (\<lambda>c. is_lower c \<or> is_digit c \<or> c = CHR ''_'') v then None
                 else if parts ! 1 = ''g'' then Some (Menu_Group v)
                 else if parts ! 1 = ''c'' then Some (Menu_Command v)
                 else None)"

definition SUGGESTION_PREFIX :: string where "SUGGESTION_PREFIX = ''sg''"

definition encodeSuggestionCallback :: "string \<Rightarrow> string + string" where
  "encodeSuggestionCallback i = within_budget (SUGGESTION_PREFIX @ '':host:'' @ i)"

definition parseSuggestionCallback :: "string \<Rightarrow> string option" where
  "parseSuggestionCallback data =
     (case three data of
        None \<Rightarrow> None
      | Some (p, action, i) \<Rightarrow>
          if p \<noteq> SUGGESTION_PREFIX \<or> action \<noteq> ''host'' then None
          else if isPublicId i then Some i else None)"

section \<open>The wizard's buttons\<close>

record wizard_callback =
  wz_action :: string
  wz_value :: string

definition WIZARD_PREFIX :: string where "WIZARD_PREFIX = ''wz''"

definition WIZARD_CONTROLS :: "string list" where
  "WIZARD_CONTROLS = [''back'', ''skip'', ''cancel'', ''confirm'', ''goto'', ''page'', ''agree'', ''recheck'', ''details'', ''done'']"

definition TOKEN :: "string \<Rightarrow> bool" where
  "TOKEN s \<longleftrightarrow> 1 \<le> length s \<and> length s \<le> 16 \<and> list_all (\<lambda>c. is_lower c \<or> is_digit c \<or> c = CHR ''_'') s"

definition VALUE :: "string \<Rightarrow> bool" where
  "VALUE s \<longleftrightarrow> length s \<le> 40 \<and> list_all (\<lambda>c. is_word_char c \<or> c = CHR ''-'' \<or> c = CHR ''.'') s"

definition encodeWizardCallback :: "wizard_callback \<Rightarrow> string + string" where
  "encodeWizardCallback cb =
     (if \<not> TOKEN (wz_action cb) then Inl (''wizard callback action is not a token: '' @ wz_action cb)
      else if \<not> VALUE (wz_value cb) then Inl (''wizard callback value is not encodable: '' @ wz_value cb)
      else let encoded = WIZARD_PREFIX @ '':'' @ wz_action cb @ '':'' @ wz_value cb
           in if byte_length encoded > MAX_BYTES then Inl (''wizard callback exceeds 64 bytes: '' @ encoded)
              else Inr encoded)"

definition parseWizardCallback :: "string \<Rightarrow> wizard_callback option" where
  "parseWizardCallback data =
     (case three data of
        None \<Rightarrow> None
      | Some (p, action, v) \<Rightarrow>
          if p \<noteq> WIZARD_PREFIX then None
          else if \<not> TOKEN action \<or> \<not> VALUE v then None
          else Some \<lparr>wz_action = action, wz_value = v\<rparr>)"

definition isWizardControl :: "string \<Rightarrow> bool" where
  "isWizardControl action \<longleftrightarrow> List.member WIZARD_CONTROLS action"

section \<open>Who reads a tap\<close>

text \<open>What a tap asks for, once some parser has read it.\<close>

datatype tap =
    T_Recheck
  | T_Policy policy_callback
  | T_Guide guide_callback
  | T_Menu menu_callback
  | T_Gender gender_choice
  | T_Profile string
  | T_Wizard wizard_callback
  | T_Admin admin_callback
  | T_Setting setting_callback
  | T_Code string
  | T_My_Events int
  | T_Direct id_callback
  | T_Wallet int
  | T_Buy
  | T_Trust int
  | T_Back back_callback
  | T_Discover discover_filters
  | T_Report report_callback
  | T_Review_Edit string
  | T_Review review_callback
  | T_Suggestion string
  | T_Event id_callback
  | T_Chat id_callback

definition UNGATED_COMMANDS :: "string list" where
  "UNGATED_COMMANDS = [''help'', ''bug'', ''bugreport'']"

definition ungated_menu :: "string \<Rightarrow> menu_callback option" where
  "ungated_menu data =
     (case decodeMenuCallback data of
        Some (Menu_Command c) \<Rightarrow> if List.member UNGATED_COMMANDS c then Some (Menu_Command c) else None
      | _ \<Rightarrow> None)"

fun first_some :: "'a option list \<Rightarrow> 'a option" where
  "first_some [] = None"
| "first_some (x # xs) = (case x of None \<Rightarrow> first_some xs | Some a \<Rightarrow> Some a)"

text \<open>
  \<^verbatim>\<open>onCallback\<close> tries the parsers one after the other: a few before the onboarding and channel
  gates, the rest behind them; \<open>wizard\<close> is \<^verbatim>\<open>ENABLE_CONVERSATION_WIZARD\<close>. What the two gates
  answer is an argument.
\<close>

definition ungated_taps :: "string \<Rightarrow> tap option list" where
  "ungated_taps data =
     [if isChannelRecheckCallback data then Some T_Recheck else None,
      map_option T_Policy (parsePolicyCallback data),
      map_option T_Guide (parseGuideCallback data),
      map_option T_Menu (ungated_menu data)]"

definition gated_taps :: "bool \<Rightarrow> string \<Rightarrow> tap option list" where
  "gated_taps wizard data =
     [map_option T_Gender (parseGenderChoice data),
      if wizard then map_option T_Profile (parseProfileFieldCallback data) else None,
      if wizard then map_option T_Wizard (parseWizardCallback data) else None,
      map_option T_Menu (decodeMenuCallback data),
      map_option T_Admin (parseAdminCallback data),
      map_option T_Setting (parseSettingCallback data),
      map_option T_Code (parseCodeCallback data),
      map_option T_My_Events (parseMyEventsCallback data),
      map_option T_Direct (parseDirectCallback data),
      map_option T_Wallet (parseWalletCallback data),
      if parseBuyCallback data then Some T_Buy else None,
      map_option T_Trust (parseTrustCallback data),
      map_option T_Back (parseBackCallback data),
      map_option T_Discover (parseDiscoverCallback data),
      map_option T_Report (parseReportCallback data),
      map_option T_Review_Edit (parseReviewEditCallback data),
      map_option T_Review (parseReviewCallback data),
      map_option T_Suggestion (parseSuggestionCallback data),
      map_option T_Event (parseEventCallback data),
      map_option T_Chat (parseChatCallback data)]"

datatype onboarding_verdict = OV_Drawn | OV_Answer | OV_Clear

datatype tap_outcome = Tapped tap | Onboarding_Drawn | Channels_Missing | Stale_Button

definition onCallback :: "bool \<Rightarrow> onboarding_verdict \<Rightarrow> bool \<Rightarrow> string \<Rightarrow> tap_outcome" where
  "onCallback wizard onboarding blocked data =
     (case first_some (ungated_taps data) of
        Some t \<Rightarrow> Tapped t
      | None \<Rightarrow>
          if onboarding = OV_Drawn then Onboarding_Drawn
          else if onboarding = OV_Clear \<and> blocked then Channels_Missing
          else (case first_some (gated_taps wizard data) of
                  Some t \<Rightarrow> Tapped t
                | None \<Rightarrow> Stale_Button))"

text \<open>The button for a tap, by the encoder of its protocol.\<close>

fun encode_tap :: "tap \<Rightarrow> string + string" where
  "encode_tap T_Recheck = Inr encodeChannelRecheckCallback"
| "encode_tap (T_Policy c) = Inr (encodePolicyCallback (pl_doc c) (pl_page c))"
| "encode_tap (T_Guide g) = Inr (case g of Guide_Index \<Rightarrow> encodeGuideIndex | Guide_Commands \<Rightarrow> encodeGuideCommands
     | Guide_Slug s \<Rightarrow> encodeGuideCallback s)"
| "encode_tap (T_Menu m) = Inr (case m of Menu_Root \<Rightarrow> encodeMenuRoot | Menu_Group k \<Rightarrow> encodeMenuGroup k
     | Menu_Command c \<Rightarrow> encodeMenuCommand c)"
| "encode_tap (T_Gender g) = Inr (encodeGenderChoice g)"
| "encode_tap (T_Profile k) = Inr (encodeProfileFieldCallback k)"
| "encode_tap (T_Wizard w) = encodeWizardCallback w"
| "encode_tap (T_Admin a) = encodeAdminCallback (ad_action a) (ad_id a)"
| "encode_tap (T_Setting c) = Inr (encodeSettingCallback (st_field c) (st_value c))"
| "encode_tap (T_Code k) = Inr (encodeCodeCallback k)"
| "encode_tap (T_My_Events n) = Inr (encodeMyEventsCallback n)"
| "encode_tap (T_Direct c) = encodeDirectCallback (ic_action c) (ic_id c)"
| "encode_tap (T_Wallet n) = Inr (encodeWalletCallback n)"
| "encode_tap T_Buy = Inr encodeBuyCallback"
| "encode_tap (T_Trust n) = Inr (encodeTrustCallback n)"
| "encode_tap (T_Back b) = encodeBackCallback (bk_target b) (bk_message b)"
| "encode_tap (T_Discover f) = encodeDiscoverCallback f"
| "encode_tap (T_Report r) = (case rp_reason r of None \<Rightarrow> encodeReportAsk (rp_target r) (rp_id r)
     | Some reason \<Rightarrow> encodeReportReason (rp_target r) reason (rp_id r))"
| "encode_tap (T_Review_Edit i) = encodeReviewEditCallback i"
| "encode_tap (T_Review r) = encodeReviewCallback (rv_rating r) (rv_id r)"
| "encode_tap (T_Suggestion i) = encodeSuggestionCallback i"
| "encode_tap (T_Event c) = encodeEventCallback (ic_action c) (ic_id c)"
| "encode_tap (T_Chat c) = encodeChatCallback (ic_action c) (ic_id c)"

text \<open>What the types and the comments of the protocol promise of a tap.\<close>

definition page_ok :: "int \<Rightarrow> bool" where "page_ok n \<longleftrightarrow> 0 \<le> n \<and> n \<le> 35"

definition menu_token :: "string \<Rightarrow> bool" where
  "menu_token v \<longleftrightarrow> v \<noteq> [] \<and> length v \<le> 32 \<and> list_all (\<lambda>c. is_lower c \<or> is_digit c \<or> c = CHR ''_'') v"

fun valid_tap :: "tap \<Rightarrow> bool" where
  "valid_tap T_Recheck \<longleftrightarrow> True"
| "valid_tap (T_Policy c) \<longleftrightarrow> pl_doc c \<in> set POLICY_DOC_LETTERS \<and> page_ok (pl_page c)"
| "valid_tap (T_Guide g) \<longleftrightarrow> (case g of Guide_Slug s \<Rightarrow> GUIDE_SLUG s | _ \<Rightarrow> True)"
| "valid_tap (T_Menu m) \<longleftrightarrow> (case m of Menu_Root \<Rightarrow> True | Menu_Group k \<Rightarrow> menu_token k | Menu_Command c \<Rightarrow> menu_token c)"
| "valid_tap (T_Gender g) \<longleftrightarrow> True"
| "valid_tap (T_Profile k) \<longleftrightarrow> k \<in> set PROFILE_FIELD_KEYS"
| "valid_tap (T_Wizard w) \<longleftrightarrow> TOKEN (wz_action w) \<and> VALUE (wz_value w)"
| "valid_tap (T_Admin a) \<longleftrightarrow> ad_action a \<in> set ADMIN_CALLBACK_ACTIONS
     \<and> (case ad_id a of None \<Rightarrow> ad_action a = ''list'' | Some i \<Rightarrow> ad_action a \<noteq> ''list'' \<and> isPublicId i)"
| "valid_tap (T_Setting c) \<longleftrightarrow> st_field c \<in> set SETTING_LETTERS"
| "valid_tap (T_Code k) \<longleftrightarrow> k \<in> set CODE_CALLBACK_KINDS"
| "valid_tap (T_My_Events n) \<longleftrightarrow> page_ok n"
| "valid_tap (T_Direct c) \<longleftrightarrow> ic_action c \<in> set DIRECT_CALLBACK_ACTIONS \<and> isPublicId (ic_id c)"
| "valid_tap (T_Wallet n) \<longleftrightarrow> page_ok n"
| "valid_tap T_Buy \<longleftrightarrow> True"
| "valid_tap (T_Trust n) \<longleftrightarrow> page_ok n"
| "valid_tap (T_Back b) \<longleftrightarrow> bk_target b \<in> set BACK_TARGETS
     \<and> (case bk_message b of None \<Rightarrow> True | Some n \<Rightarrow> 0 < n \<and> n < 10 ^ 12)"
| "valid_tap (T_Discover f) \<longleftrightarrow> df_when f \<in> set DISCOVER_WHEN \<and> df_cost f \<in> set DISCOVER_COST
     \<and> df_view f \<in> set DISCOVER_VIEWS \<and> page_ok (df_page f)
     \<and> (case df_category_id f of None \<Rightarrow> True | Some i \<Rightarrow> isPublicId i)"
| "valid_tap (T_Report r) \<longleftrightarrow> isTargetLetter (rp_target r) \<and> isPublicId (rp_id r)
     \<and> (case rp_reason r of None \<Rightarrow> rp_asking r | Some reason \<Rightarrow> \<not> rp_asking r \<and> reason \<in> set REPORT_REASONS)"
| "valid_tap (T_Review_Edit i) \<longleftrightarrow> isPublicId i"
| "valid_tap (T_Review r) \<longleftrightarrow> rv_rating r \<in> set REVIEW_RATINGS \<and> isPublicId (rv_id r)"
| "valid_tap (T_Suggestion i) \<longleftrightarrow> isPublicId i"
| "valid_tap (T_Event c) \<longleftrightarrow> ic_action c \<in> set EVENT_CALLBACK_ACTIONS \<and> isPublicId (ic_id c)"
| "valid_tap (T_Chat c) \<longleftrightarrow> ic_action c \<in> set CHAT_CALLBACK_ACTIONS \<and> isPublicId (ic_id c)"

end
