(* ===== verification/Callback_Roundtrip.thy ===== *)
theory Callback_Roundtrip
  imports Callback_Data
begin

text \<open>
  The button protocol, parser by parser: each encoder's string has the shape its parser expects
  and is read back (\<open>returns\<close>), a string names the protocol that reads it (\<open>protocol\<close>), and what a
  parser accepts is well formed (\<open>reads_valid\<close>).
\<close>

section \<open>Identifiers and parts\<close>

lemma set_split_on: "x \<in> set s \<Longrightarrow> x = c \<or> (\<exists>w\<in>set (split_on c s). x \<in> set w)"
  by (induction s) (auto split: list.splits if_splits)

lemma length_split_on: "Suc (length s) = sum_list (map (\<lambda>w. Suc (length w)) (split_on c s))"
  by (induction s) (auto split: list.splits)

lemma hex_i_ascii: "is_hex_i c \<Longrightarrow> of_char c < (128::nat) \<and> c \<noteq> CHR '':'' \<and> \<not> is_space c \<and> c \<noteq> CHR ''l'' \<and> c \<noteq> CHR ''x''"
  by (auto simp: is_hex_i_def is_hex_def is_digit_def is_space_def)

lemma public_id_chars: "isPublicId s \<Longrightarrow> c \<in> set s \<Longrightarrow> c = CHR ''-'' \<or> is_hex_i c"
  using set_split_on [of c s "CHR ''-''"] by (auto simp: isPublicId_def list_all_iff)

lemma public_id_length: "isPublicId s \<Longrightarrow> length s = 36"
proof -
  assume p: "isPublicId s"
  have "Suc (length s) = sum_list (map Suc (map length (split_on CHR ''-'' s)))"
    using length_split_on [of s "CHR ''-''"] by (simp add: o_def)
  also have "map length (split_on CHR ''-'' s) = [8, 4, 4, 4, 12]" using p by (simp add: isPublicId_def)
  finally show ?thesis by simp
qed

lemma public_id_bytes: "isPublicId s \<Longrightarrow> byte_length s = 36"
  using byte_length_ascii [of s] public_id_chars [of s] public_id_length hex_i_ascii
  by (fastforce simp: list_all_iff)

lemma public_id_no_colon: "isPublicId s \<Longrightarrow> CHR '':'' \<notin> set s"
  using public_id_chars hex_i_ascii by fastforce

lemma public_id_not_marker: "isPublicId s \<Longrightarrow> s \<noteq> NO_ID \<and> s \<noteq> ANY_CATEGORY"
  using public_id_length [of s] by (auto simp: NO_ID_def ANY_CATEGORY_def)

lemma three_iff: "three data = Some (p, a, i) \<longleftrightarrow> split_on CHR '':'' data = [p, a, i]"
  by (auto simp: three_def split: list.splits)

lemma three_join:
  "CHR '':'' \<notin> set p \<Longrightarrow> CHR '':'' \<notin> set a \<Longrightarrow> CHR '':'' \<notin> set i \<Longrightarrow> three (p @ '':'' @ a @ '':'' @ i) = Some (p, a, i)"
  by (simp add: three_iff split_on_append split_on_none)

lemma show_id_digit: "c \<in> set (show_id n) \<Longrightarrow> is_digit c"
  using show_id_digits [of c n] by (auto simp: is_digit_def)

lemma digits_no_colon: "list_all is_digit s \<Longrightarrow> CHR '':'' \<notin> set s"
  by (auto simp: list_all_iff is_digit_def)

lemma length_show_id: "n < 10 ^ k \<Longrightarrow> 0 < k \<Longrightarrow> length (show_id n) \<le> k"
proof (induction k arbitrary: n)
  case (Suc k)
  show ?case
  proof (cases "n < 10")
    case True
    then show ?thesis by (subst show_id.simps) simp
  next
    case False
    then have "0 < k" using Suc.prems by (cases k) auto
    then show ?thesis using False Suc.IH [of "n div 10"] Suc.prems by (subst show_id.simps) simp
  qed
qed simp

lemma show_id_nonempty: "show_id n \<noteq> []"
  by (subst show_id.simps) simp

lemma char_of_code: "m < 256 \<Longrightarrow> (of_char (char_of m :: char) :: nat) = m \<and> (of_char (char_of m :: char) :: int) = int m"
  for m :: nat
  using of_nat_of_char [of "char_of m :: char", where ?'a = int] by simp

lemma base36_char: "page_ok n \<Longrightarrow> \<exists>c. base36 n = [c] \<and> (is_digit c \<or> is_lower c) \<and> unbase36 c = n \<and> c \<noteq> CHR '':''"
proof -
  assume "page_ok n"
  then have "n = int (nat n)" "nat n < 36" by (auto simp: page_ok_def)
  then obtain k where k: "n = int k" "k < 36" by blast
  define m where "m = (if k < 10 then 48 + k else 87 + k)"
  have m: "(of_char (char_of m :: char) :: nat) = m" "(of_char (char_of m :: char) :: int) = int m"
    using char_of_code [of m] k by (auto simp: m_def)
  have "base36 n = [char_of m]" using k by (simp add: base36_def m_def)
  moreover have "is_digit (char_of m) \<or> is_lower (char_of m)" using k m(1) by (auto simp: is_digit_def is_lower_def m_def)
  moreover have "unbase36 (char_of m) = n" using k m by (auto simp: unbase36_def is_digit_def m_def)
  moreover have "char_of m \<noteq> CHR '':''"
  proof
    assume "char_of m = CHR '':''"
    then have "m = 58" using m(1) by simp
    then show False using k by (simp add: m_def split: if_splits)
  qed
  ultimately show ?thesis by blast
qed

lemma plain_char: "is_digit c \<or> is_lower c \<or> is_word_char c \<Longrightarrow> of_char c < (128::nat)"
  by (auto simp: is_digit_def is_lower_def is_word_char_def)

lemma clamp_ok: "page_ok n \<Longrightarrow> clamp_page 35 n = n"
  by (simp add: page_ok_def clamp_page_def)

section \<open>Every button comes back\<close>

text \<open>A literal of one of the protocols: short and without a colon.\<close>

definition literal :: "string \<Rightarrow> bool" where
  "literal a \<longleftrightarrow> byte_length a \<le> 18 \<and> CHR '':'' \<notin> set a"

lemma actions_literal:
  "list_all literal (CHAT_CALLBACK_ACTIONS @ EVENT_CALLBACK_ACTIONS @ DIRECT_CALLBACK_ACTIONS @ ADMIN_CALLBACK_ACTIONS
     @ CODE_CALLBACK_KINDS @ PROFILE_FIELD_KEYS @ BACK_TARGETS @ POLICY_DOC_LETTERS @ REPORT_REASONS @ map fst REPORT_TARGETS)"
  by code_simp

lemma id_button:
  assumes p: "byte_length p \<le> 4" "CHR '':'' \<notin> set p" and a: "byte_length a \<le> 22" "CHR '':'' \<notin> set a" and i: "isPublicId i"
  shows "within_budget (p @ '':'' @ a @ '':'' @ i) = Inr (p @ '':'' @ a @ '':'' @ i)"
    and "byte_length (p @ '':'' @ a @ '':'' @ i) \<le> 64"
    and "three (p @ '':'' @ a @ '':'' @ i) = Some (p, a, i)"
proof -
  show b: "byte_length (p @ '':'' @ a @ '':'' @ i) \<le> 64" using p a public_id_bytes [OF i] by simp
  then show "within_budget (p @ '':'' @ a @ '':'' @ i) = Inr (p @ '':'' @ a @ '':'' @ i)"
    by (simp add: within_budget_def MAX_BYTES_def)
  show "three (p @ '':'' @ a @ '':'' @ i) = Some (p, a, i)"
    by (rule three_join [OF p(2) a(2) public_id_no_colon [OF i]])
qed

definition returns :: "string + string \<Rightarrow> (string \<Rightarrow> 'a option) \<Rightarrow> 'a \<Rightarrow> bool" where
  "returns e parse c \<longleftrightarrow> (\<exists>d. e = Inr d \<and> byte_length d \<le> 64 \<and> parse d = Some c)"

lemma returnsI: "e = Inr d \<Longrightarrow> byte_length d \<le> 64 \<Longrightarrow> parse d = Some c \<Longrightarrow> returns e parse c"
  by (auto simp: returns_def)

lemma literals:
  "a \<in> set CHAT_CALLBACK_ACTIONS \<Longrightarrow> literal a" "a \<in> set EVENT_CALLBACK_ACTIONS \<Longrightarrow> literal a"
  "a \<in> set DIRECT_CALLBACK_ACTIONS \<Longrightarrow> literal a" "a \<in> set ADMIN_CALLBACK_ACTIONS \<Longrightarrow> literal a"
  "a \<in> set CODE_CALLBACK_KINDS \<Longrightarrow> literal a" "a \<in> set PROFILE_FIELD_KEYS \<Longrightarrow> literal a"
  "a \<in> set BACK_TARGETS \<Longrightarrow> literal a" "a \<in> set POLICY_DOC_LETTERS \<Longrightarrow> literal a"
  "a \<in> set REPORT_REASONS \<Longrightarrow> literal a" "isTargetLetter a \<Longrightarrow> literal a"
  using actions_literal by (auto simp: list_all_iff isTargetLetter_def map_of_eq_None_iff)

lemma id_callback_returns:
  assumes "literal (ic_action c)" and "isPublicId (ic_id c)"
  shows "ic_action c \<in> set CHAT_CALLBACK_ACTIONS \<Longrightarrow> returns (encodeChatCallback (ic_action c) (ic_id c)) parseChatCallback c"
    and "ic_action c \<in> set EVENT_CALLBACK_ACTIONS \<Longrightarrow> returns (encodeEventCallback (ic_action c) (ic_id c)) parseEventCallback c"
    and "ic_action c \<in> set DIRECT_CALLBACK_ACTIONS \<Longrightarrow> returns (encodeDirectCallback (ic_action c) (ic_id c)) parseDirectCallback c"
proof -
  have a: "byte_length (ic_action c) \<le> 22" "CHR '':'' \<notin> set (ic_action c)" using assms(1) by (auto simp: literal_def)
  show "ic_action c \<in> set CHAT_CALLBACK_ACTIONS \<Longrightarrow> returns (encodeChatCallback (ic_action c) (ic_id c)) parseChatCallback c"
    using id_button [OF _ _ a assms(2), of PREFIX] assms(2)
    by (intro returnsI [of _ "PREFIX @ '':'' @ ic_action c @ '':'' @ ic_id c"])
       (simp_all add: encodeChatCallback_def parseChatCallback_def isChatAction_def PREFIX_def)
  show "ic_action c \<in> set EVENT_CALLBACK_ACTIONS \<Longrightarrow> returns (encodeEventCallback (ic_action c) (ic_id c)) parseEventCallback c"
    using id_button [OF _ _ a assms(2), of EVENT_PREFIX] assms(2)
    by (intro returnsI [of _ "EVENT_PREFIX @ '':'' @ ic_action c @ '':'' @ ic_id c"])
       (simp_all add: encodeEventCallback_def parseEventCallback_def EVENT_PREFIX_def)
  show "ic_action c \<in> set DIRECT_CALLBACK_ACTIONS \<Longrightarrow> returns (encodeDirectCallback (ic_action c) (ic_id c)) parseDirectCallback c"
    using id_button [OF _ _ a assms(2), of DIRECT_PREFIX] assms(2)
    by (intro returnsI [of _ "DIRECT_PREFIX @ '':'' @ ic_action c @ '':'' @ ic_id c"])
       (simp_all add: encodeDirectCallback_def parseDirectCallback_def DIRECT_PREFIX_def)
qed

lemma rating_shown: "list_all (\<lambda>k. literal (''rate'' @ show_id k) \<and> rating_of (show_id k) = Some k) REVIEW_RATINGS"
  by code_simp

lemma review_returns:
  "rv_rating r \<in> set REVIEW_RATINGS \<Longrightarrow> isPublicId (rv_id r) \<Longrightarrow>
   returns (encodeReviewCallback (rv_rating r) (rv_id r)) parseReviewCallback r"
proof -
  assume r: "rv_rating r \<in> set REVIEW_RATINGS" and i: "isPublicId (rv_id r)"
  let ?a = "''rate'' @ show_id (rv_rating r)"
  have a: "byte_length ?a \<le> 22" "CHR '':'' \<notin> set ?a" and k: "rating_of (show_id (rv_rating r)) = Some (rv_rating r)"
    using r rating_shown by (auto simp: list_all_iff literal_def)
  show ?thesis
    using id_button [OF _ _ a i, of REVIEW_PREFIX] i k
    by (intro returnsI [of _ "REVIEW_PREFIX @ '':'' @ ?a @ '':'' @ rv_id r"])
       (simp_all add: encodeReviewCallback_def parseReviewCallback_def REVIEW_PREFIX_def starts_with_def)
qed

lemma review_edit_returns: "isPublicId i \<Longrightarrow> returns (encodeReviewEditCallback i) parseReviewEditCallback i"
  using id_button [of REVIEW_PREFIX "''edit''" i]
  by (intro returnsI [of _ "REVIEW_PREFIX @ '':'' @ ''edit'' @ '':'' @ i"])
     (simp_all add: encodeReviewEditCallback_def parseReviewEditCallback_def REVIEW_PREFIX_def)

lemma suggestion_returns: "isPublicId i \<Longrightarrow> returns (encodeSuggestionCallback i) parseSuggestionCallback i"
  using id_button [of SUGGESTION_PREFIX "''host''" i]
  by (intro returnsI [of _ "SUGGESTION_PREFIX @ '':'' @ ''host'' @ '':'' @ i"])
     (simp_all add: encodeSuggestionCallback_def parseSuggestionCallback_def SUGGESTION_PREFIX_def)

lemma target_letter: "isTargetLetter t \<Longrightarrow> \<exists>c. t = [c] \<and> c \<noteq> CHR ''a'' \<and> c \<noteq> CHR '':'' \<and> of_char c < (128::nat)"
  by (auto simp: isTargetLetter_def REPORT_TARGETS_def split: if_splits)

lemma report_returns:
  assumes "isTargetLetter (rp_target r)" and i: "isPublicId (rp_id r)"
    and "case rp_reason r of None \<Rightarrow> rp_asking r | Some reason \<Rightarrow> \<not> rp_asking r \<and> reason \<in> set REPORT_REASONS"
  shows "returns (case rp_reason r of None \<Rightarrow> encodeReportAsk (rp_target r) (rp_id r)
     | Some reason \<Rightarrow> encodeReportReason (rp_target r) reason (rp_id r)) parseReportCallback r"
proof -
  obtain c where c: "rp_target r = [c]" "c \<noteq> CHR ''a''" "c \<noteq> CHR '':''" "of_char c < (128::nat)" using target_letter [OF assms(1)] by blast
  show ?thesis
  proof (cases "rp_reason r")
    case None
    let ?a = "''ask'' @ rp_target r"
    have a: "byte_length ?a \<le> 22" "CHR '':'' \<notin> set ?a" using c by auto
    have "r = \<lparr>rp_asking = True, rp_target = rp_target r, rp_reason = None, rp_id = rp_id r\<rparr>"
      using None assms(3) by simp
    then show ?thesis
      using id_button [OF _ _ a i, of REPORT_PREFIX] i None assms(1)
      by (intro returnsI [of _ "REPORT_PREFIX @ '':'' @ ?a @ '':'' @ rp_id r"])
         (simp_all add: encodeReportAsk_def guardReport_def parseReportCallback_def REPORT_PREFIX_def starts_with_def Let_def)
  next
    case (Some reason)
    then have reason: "literal reason" "reason \<in> set REPORT_REASONS" "\<not> rp_asking r" using assms(3) literals(9) by auto
    let ?a = "rp_target r @ reason"
    have a: "byte_length ?a \<le> 22" "CHR '':'' \<notin> set ?a" using c reason(1) by (auto simp: literal_def)
    have "r = \<lparr>rp_asking = False, rp_target = rp_target r, rp_reason = Some reason, rp_id = rp_id r\<rparr>"
      using Some reason by simp
    then show ?thesis
      using id_button [OF _ _ a i, of REPORT_PREFIX] i Some assms(1) c reason
      by (intro returnsI [of _ "REPORT_PREFIX @ '':'' @ ?a @ '':'' @ rp_id r"])
         (simp_all add: encodeReportReason_def guardReport_def parseReportCallback_def REPORT_PREFIX_def starts_with_def Let_def)
  qed
qed

lemma short_button:
  assumes "byte_length p \<le> 4" "CHR '':'' \<notin> set p" and "literal a" and "byte_length b \<le> 40" "CHR '':'' \<notin> set b"
  shows "byte_length (p @ '':'' @ a @ '':'' @ b) \<le> 64" and "three (p @ '':'' @ a @ '':'' @ b) = Some (p, a, b)"
  using assms by (auto simp: literal_def intro!: three_join [where a = a, simplified])

lemma page_literal:
  assumes "page_ok n"
  obtains c where "base36 n = [c]" "is_base36 [c]" "unbase36 c = n" "literal [c]" "c \<noteq> CHR '':''" "of_char c < (128::nat)"
proof -
  obtain c where c: "base36 n = [c]" "is_digit c \<or> is_lower c" "unbase36 c = n" "c \<noteq> CHR '':''"
    using base36_char [OF assms] by blast
  have "of_char c < (128::nat)" using c(2) plain_char by blast
  then show ?thesis using c that by (auto simp: is_base36_def literal_def)
qed

lemma page_returns:
  assumes "page_ok n"
  shows "returns (Inr (encodeMyEventsCallback n)) parseMyEventsCallback n"
    and "returns (Inr (encodeWalletCallback n)) parseWalletCallback n"
    and "returns (Inr (encodeTrustCallback n)) parseTrustCallback n"
    and "d \<in> set POLICY_DOC_LETTERS \<Longrightarrow> returns (Inr (encodePolicyCallback d n)) parsePolicyCallback \<lparr>pl_doc = d, pl_page = n\<rparr>"
proof -
  obtain c where c: "base36 n = [c]" "is_base36 [c]" "unbase36 c = n" "literal [c]" "c \<noteq> CHR '':''" "of_char c < (128::nat)"
    by (rule page_literal [OF assms])
  note cl = clamp_ok [OF assms] and n = assms [unfolded page_ok_def]
  show "returns (Inr (encodeMyEventsCallback n)) parseMyEventsCallback n"
    using short_button [of MY_EVENTS_PREFIX "[c]" "''x''"] c n
    by (intro returnsI [of _ "MY_EVENTS_PREFIX @ '':'' @ [c] @ '':'' @ ''x''"])
       (simp_all add: encodeMyEventsCallback_def parseMyEventsCallback_def MY_EVENTS_PREFIX_def MAX_MY_EVENTS_PAGE_def cl)
  show "returns (Inr (encodeWalletCallback n)) parseWalletCallback n"
    using short_button [of WALLET_PREFIX "[c]" "''x''"] c n
    by (intro returnsI [of _ "WALLET_PREFIX @ '':'' @ [c] @ '':'' @ ''x''"])
       (simp_all add: encodeWalletCallback_def parseWalletCallback_def WALLET_PREFIX_def MAX_WALLET_PAGE_def cl)
  show "returns (Inr (encodeTrustCallback n)) parseTrustCallback n"
    using short_button [of TRUST_PREFIX "[c]" "''x''"] c n
    by (intro returnsI [of _ "TRUST_PREFIX @ '':'' @ [c] @ '':'' @ ''x''"])
       (simp_all add: encodeTrustCallback_def parseTrustCallback_def TRUST_PREFIX_def MAX_TRUST_PAGE_def cl)
  assume d: "d \<in> set POLICY_DOC_LETTERS"
  show "returns (Inr (encodePolicyCallback d n)) parsePolicyCallback \<lparr>pl_doc = d, pl_page = n\<rparr>"
    using short_button [of POLICY_PREFIX d "[c]"] c n d literals(8) [OF d]
    by (intro returnsI [of _ "POLICY_PREFIX @ '':'' @ d @ '':'' @ [c]"])
       (simp_all add: encodePolicyCallback_def parsePolicyCallback_def POLICY_PREFIX_def MAX_POLICY_PAGE_def cl)
qed

lemma discover_returns:
  assumes "valid_tap (T_Discover f)"
  shows "returns (encodeDiscoverCallback f) parseDiscoverCallback f"
proof -
  have v: "df_when f \<in> set DISCOVER_WHEN" "df_cost f \<in> set DISCOVER_COST" "df_view f \<in> set DISCOVER_VIEWS" "page_ok (df_page f)"
    and cat: "case df_category_id f of None \<Rightarrow> True | Some i \<Rightarrow> isPublicId i" using assms by simp_all
  obtain c where c: "base36 (df_page f) = [c]" "is_base36 [c]" "unbase36 c = df_page f" "c \<noteq> CHR '':''" "of_char c < (128::nat)"
    by (rule page_literal [OF v(4)])
  let ?y = "if df_age f then CHR ''y'' else CHR ''n''"
  let ?a = "[df_when f, df_cost f, c, df_view f, ?y]" and ?b = "case df_category_id f of None \<Rightarrow> ANY_CATEGORY | Some i \<Rightarrow> i"
  have lit: "literal ?a" using v(1,2,3) c(4,5) by (auto simp: literal_def DISCOVER_WHEN_def DISCOVER_COST_def DISCOVER_VIEWS_def)
  have b: "byte_length ?b \<le> 40" "CHR '':'' \<notin> set ?b"
    using cat public_id_bytes public_id_no_colon by (auto simp: ANY_CATEGORY_def split: option.splits)
  note s = short_button [OF _ _ lit b, of DISCOVER_PREFIX]
  have find: "find ((=) (df_when f)) DISCOVER_WHEN = Some (df_when f)" "find ((=) (df_cost f)) DISCOVER_COST = Some (df_cost f)"
      "find ((=) (df_view f)) DISCOVER_VIEWS = Some (df_view f)"
    using v(1,2,3) by (auto simp: DISCOVER_WHEN_def DISCOVER_COST_def DISCOVER_VIEWS_def)
  have enc: "encodeDiscoverCallback f = within_budget (DISCOVER_PREFIX @ '':'' @ ?a @ '':'' @ ?b)"
    using c(1) clamp_ok [OF v(4)] by (simp add: encodeDiscoverCallback_def encodePage_def MAX_DISCOVER_PAGE_def Let_def)
  have t: "three (DISCOVER_PREFIX @ '':'' @ ?a @ '':'' @ ?b) = Some (DISCOVER_PREFIX, ?a, ?b)"
    by (rule s(2)) (simp_all add: DISCOVER_PREFIX_def)
  have at: "char_at 0 ?a = Some (df_when f)" "char_at 1 ?a = Some (df_cost f)" "char_at 2 ?a = Some c"
      "char_at 3 ?a = Some (df_view f)" "char_at 4 ?a = Some ?y"
    by (simp_all add: char_at_def)
  have page: "decodePage (Some c) = Some (df_page f)"
    using c(2,3) v(4) by (simp add: decodePage_def MAX_DISCOVER_PAGE_def page_ok_def)
  have flags: "\<not> (length ?a < 2 \<or> length ?a > 5)" by simp
  have "parseDiscoverCallback (DISCOVER_PREFIX @ '':'' @ ?a @ '':'' @ ?b) = Some f"
    unfolding parseDiscoverCallback_def t option.case prod.case at if_not_P [OF flags] option.inject find page
    using cat public_id_not_marker find(3) by (cases f) (auto simp: Let_def split: option.splits)
  then show ?thesis using s by (intro returnsI [OF _ s(1)]) (simp_all add: enc within_budget_def MAX_BYTES_def DISCOVER_PREFIX_def)
qed

lemma back_returns:
  assumes "valid_tap (T_Back b)"
  shows "returns (encodeBackCallback (bk_target b) (bk_message b)) parseBackCallback b"
proof -
  define n where "n = (case bk_message b of None \<Rightarrow> 0 | Some k \<Rightarrow> nat k)"
  have v: "bk_target b \<in> set BACK_TARGETS" "n < 10 ^ 12" using assms by (auto simp: n_def nat_less_iff split: option.splits)
  have len: "1 \<le> length (show_id n)" "length (show_id n) \<le> 12"
    using length_show_id [OF v(2)] show_id_nonempty [of n] by (simp_all add: Suc_le_eq)
  have dig: "list_all is_digit (show_id n)" using show_id_digit by (auto simp: list_all_iff)
  have bytes: "byte_length (show_id n) \<le> 40"
    using byte_length_ascii [of "show_id n"] dig plain_char len by (auto simp: list_all_iff)
  note s = short_button [OF _ _ literals(7) [OF v(1)] bytes digits_no_colon [OF dig], of BACK_PREFIX]
  have enc: "encodeBackCallback (bk_target b) (bk_message b) = within_budget (BACK_PREFIX @ '':'' @ bk_target b @ '':'' @ show_id n)"
    using assms by (auto simp: encodeBackCallback_def n_def Let_def split: option.splits)
  have "parseBackCallback (BACK_PREFIX @ '':'' @ bk_target b @ '':'' @ show_id n) = Some b"
    using s v len dig assms
    by (cases b) (auto simp: parseBackCallback_def BACK_PREFIX_def read_show_id Let_def n_def split: option.splits)
  then show ?thesis using s by (intro returnsI [OF _ s(1)]) (simp_all add: enc within_budget_def MAX_BYTES_def BACK_PREFIX_def)
qed

lemma admin_returns:
  assumes "valid_tap (T_Admin a)"
  shows "returns (encodeAdminCallback (ad_action a) (ad_id a)) parseAdminCallback a"
proof -
  let ?i = "case ad_id a of None \<Rightarrow> NO_ID | Some i \<Rightarrow> i"
  have v: "ad_action a \<in> set ADMIN_CALLBACK_ACTIONS" using assms by simp
  have b: "byte_length ?i \<le> 40" "CHR '':'' \<notin> set ?i"
    using assms public_id_bytes public_id_no_colon by (auto simp: NO_ID_def split: option.splits)
  note s = short_button [OF _ _ literals(4) [OF v] b, of ADMIN_PREFIX]
  have "parseAdminCallback (ADMIN_PREFIX @ '':'' @ ad_action a @ '':'' @ ?i) = Some a"
    using s assms by (cases a) (auto simp: parseAdminCallback_def ADMIN_PREFIX_def split: option.splits)
  then show ?thesis using s
    by (intro returnsI [OF _ s(1)]) (simp_all add: encodeAdminCallback_def within_budget_def MAX_BYTES_def ADMIN_PREFIX_def)
qed

lemma fixed_returns:
  "returns (Inr encodeChannelRecheckCallback) (\<lambda>d. if isChannelRecheckCallback d then Some () else None) ()"
  "returns (Inr encodeBuyCallback) (\<lambda>d. if parseBuyCallback d then Some () else None) ()"
  "returns (Inr (encodeGenderChoice g)) parseGenderChoice g"
  "returns (Inr encodeGuideIndex) parseGuideCallback Guide_Index"
  "returns (Inr encodeGuideCommands) parseGuideCallback Guide_Commands"
  "returns (Inr encodeMenuRoot) decodeMenuCallback Menu_Root"
  by (auto simp: returns_def isChannelRecheckCallback_def encodeChannelRecheckCallback_def CHANNEL_PREFIX_def NO_ID_def
      encodeBuyCallback_def BUY_PREFIX_def parseBuyCallback_def three_def encodeGenderChoice_def parseGenderChoice_def
      GENDER_PREFIX_def GENDER_CODES_def encodeGuideIndex_def encodeGuideCommands_def parseGuideCallback_def GUIDE_PREFIX_def
      encodeMenuRoot_def decodeMenuCallback_def MENU_PREFIX_def Let_def split: gender_choice.splits)

lemma key_returns:
  "k \<in> set PROFILE_FIELD_KEYS \<Longrightarrow> returns (Inr (encodeProfileFieldCallback k)) parseProfileFieldCallback k"
  "k \<in> set CODE_CALLBACK_KINDS \<Longrightarrow> returns (Inr (encodeCodeCallback k)) parseCodeCallback k"
proof -
  have f: "find (\<lambda>c. c = k) xs = Some k" if "k \<in> set xs" for xs using that by (induction xs) auto
  show "k \<in> set PROFILE_FIELD_KEYS \<Longrightarrow> returns (Inr (encodeProfileFieldCallback k)) parseProfileFieldCallback k"
    using short_button [OF _ _ literals(6), of PROFILE_FIELD_PREFIX k NO_ID] f
    by (intro returnsI [of _ "PROFILE_FIELD_PREFIX @ '':'' @ k @ '':'' @ NO_ID"])
       (simp_all add: encodeProfileFieldCallback_def parseProfileFieldCallback_def PROFILE_FIELD_PREFIX_def NO_ID_def)
  show "k \<in> set CODE_CALLBACK_KINDS \<Longrightarrow> returns (Inr (encodeCodeCallback k)) parseCodeCallback k"
    using short_button [OF _ _ literals(5), of CODE_PREFIX k NO_ID] f
    by (intro returnsI [of _ "CODE_PREFIX @ '':'' @ k @ '':'' @ NO_ID"])
       (simp_all add: encodeCodeCallback_def parseCodeCallback_def CODE_PREFIX_def NO_ID_def)
qed

lemma setting_returns:
  "st_field c \<in> set SETTING_LETTERS \<Longrightarrow> returns (Inr (encodeSettingCallback (st_field c) (st_value c))) parseSettingCallback c"
proof -
  assume v: "st_field c \<in> set SETTING_LETTERS"
  let ?a = "[st_field c, if st_value c then CHR ''1'' else CHR ''0'']"
  have lit: "literal ?a" using v by (auto simp: literal_def SETTING_LETTERS_def SETTING_FIELDS_def)
  note s = short_button [OF _ _ lit, of SETTING_PREFIX "''x''"]
  have f: "find (\<lambda>x. x = st_field c) SETTING_LETTERS = Some (st_field c)"
    using v by (auto simp: SETTING_LETTERS_def SETTING_FIELDS_def)
  have "parseSettingCallback (SETTING_PREFIX @ '':'' @ ?a @ '':'' @ ''x'') = Some c"
    using s f by (cases c) (simp add: parseSettingCallback_def SETTING_PREFIX_def)
  then show ?thesis using s
    by (intro returnsI [of _ "SETTING_PREFIX @ '':'' @ ?a @ '':'' @ ''x''"])
       (simp_all add: encodeSettingCallback_def SETTING_PREFIX_def)
qed

lemma token_char: "is_word_char c \<or> c = CHR ''-'' \<or> c = CHR ''.'' \<Longrightarrow> of_char c < (128::nat) \<and> c \<noteq> CHR '':''"
  by (auto simp: is_word_char_def is_digit_def)

lemma token_text:
  assumes "list_all (\<lambda>c. is_word_char c \<or> c = CHR ''-'' \<or> c = CHR ''.'') s"
  shows "byte_length s = length s" and "CHR '':'' \<notin> set s"
proof -
  have ok: "\<forall>c\<in>set s. of_char c < (128::nat) \<and> c \<noteq> CHR '':''" using assms token_char unfolding list_all_iff by blast
  then have "list_all (\<lambda>c. of_char c < (128::nat)) s" unfolding list_all_iff by blast
  then show "byte_length s = length s" by (rule byte_length_ascii)
  show "CHR '':'' \<notin> set s" using ok by blast
qed

lemma plain_text:
  assumes "list_all (\<lambda>c. is_lower c \<or> is_digit c \<or> c = CHR ''_'' \<or> c = CHR ''-'') s"
  shows "byte_length s = length s" and "CHR '':'' \<notin> set s"
proof -
  have "list_all (\<lambda>c. is_word_char c \<or> c = CHR ''-'' \<or> c = CHR ''.'') s"
    using assms by (auto simp: list_all_iff is_word_char_def is_lower_def)
  then show "byte_length s = length s" "CHR '':'' \<notin> set s" by (rule token_text)+
qed

lemma wizard_returns:
  assumes "TOKEN (wz_action w)" and "VALUE (wz_value w)"
  shows "returns (encodeWizardCallback w) parseWizardCallback w"
proof -
  have "list_all (\<lambda>c. is_lower c \<or> is_digit c \<or> c = CHR ''_'' \<or> c = CHR ''-'') (wz_action w)"
    using assms(1) unfolding TOKEN_def list_all_iff by blast
  note plain = plain_text [OF this]
  have a: "byte_length (wz_action w) \<le> 16" "CHR '':'' \<notin> set (wz_action w)"
    using plain assms(1) by (simp_all add: TOKEN_def)
  have b: "byte_length (wz_value w) \<le> 40" "CHR '':'' \<notin> set (wz_value w)"
    using token_text [of "wz_value w"] assms(2) by (auto simp: VALUE_def)
  note s = short_button [OF _ _ _ b, of WIZARD_PREFIX "wz_action w"]
  have l: "literal (wz_action w)" using a by (simp add: literal_def)
  show ?thesis using s l assms
    by (intro returnsI [of _ "WIZARD_PREFIX @ '':'' @ wz_action w @ '':'' @ wz_value w"])
       (simp_all add: encodeWizardCallback_def parseWizardCallback_def WIZARD_PREFIX_def MAX_BYTES_def Let_def)
qed

lemma split_three: "CHR '':'' \<notin> set a \<Longrightarrow> CHR '':'' \<notin> set b \<Longrightarrow> CHR '':'' \<notin> set c \<Longrightarrow>
    split_on CHR '':'' (a @ '':'' @ b @ '':'' @ c) = [a, b, c]"
  by (simp add: split_on_append split_on_none)

lemma guide_returns: "GUIDE_SLUG s \<Longrightarrow> returns (Inr (encodeGuideCallback s)) parseGuideCallback (Guide_Slug s)"
  using plain_text [of s] split_three [of GUIDE_PREFIX "''g''" s]
  by (intro returnsI [of _ "GUIDE_PREFIX @ '':'' @ ''g'' @ '':'' @ s"])
     (auto simp: encodeGuideCallback_def parseGuideCallback_def GUIDE_PREFIX_def GUIDE_SLUG_def Let_def)

lemma menu_returns:
  assumes "menu_token s"
  shows "returns (Inr (encodeMenuGroup s)) decodeMenuCallback (Menu_Group s)"
    and "returns (Inr (encodeMenuCommand s)) decodeMenuCallback (Menu_Command s)"
proof -
  have "list_all (\<lambda>c. is_lower c \<or> is_digit c \<or> c = CHR ''_'' \<or> c = CHR ''-'') s"
    using assms unfolding menu_token_def list_all_iff by blast
  note s = plain_text [OF this]
  show "returns (Inr (encodeMenuGroup s)) decodeMenuCallback (Menu_Group s)"
    using s split_three [of MENU_PREFIX "''g''" s] assms
    by (intro returnsI [of _ "MENU_PREFIX @ '':'' @ ''g'' @ '':'' @ s"])
       (auto simp: encodeMenuGroup_def decodeMenuCallback_def MENU_PREFIX_def menu_token_def Let_def)
  show "returns (Inr (encodeMenuCommand s)) decodeMenuCallback (Menu_Command s)"
    using s split_three [of MENU_PREFIX "''c''" s] assms
    by (intro returnsI [of _ "MENU_PREFIX @ '':'' @ ''c'' @ '':'' @ s"])
       (auto simp: encodeMenuCommand_def decodeMenuCallback_def MENU_PREFIX_def menu_token_def Let_def)
qed

section \<open>One protocol per string\<close>

fun reads :: "tap \<Rightarrow> string \<Rightarrow> bool" where
  "reads T_Recheck d \<longleftrightarrow> isChannelRecheckCallback d"
| "reads (T_Policy c) d \<longleftrightarrow> parsePolicyCallback d = Some c"
| "reads (T_Guide g) d \<longleftrightarrow> parseGuideCallback d = Some g"
| "reads (T_Menu m) d \<longleftrightarrow> decodeMenuCallback d = Some m"
| "reads (T_Gender g) d \<longleftrightarrow> parseGenderChoice d = Some g"
| "reads (T_Profile k) d \<longleftrightarrow> parseProfileFieldCallback d = Some k"
| "reads (T_Wizard w) d \<longleftrightarrow> parseWizardCallback d = Some w"
| "reads (T_Admin a) d \<longleftrightarrow> parseAdminCallback d = Some a"
| "reads (T_Setting c) d \<longleftrightarrow> parseSettingCallback d = Some c"
| "reads (T_Code k) d \<longleftrightarrow> parseCodeCallback d = Some k"
| "reads (T_My_Events n) d \<longleftrightarrow> parseMyEventsCallback d = Some n"
| "reads (T_Direct c) d \<longleftrightarrow> parseDirectCallback d = Some c"
| "reads (T_Wallet n) d \<longleftrightarrow> parseWalletCallback d = Some n"
| "reads T_Buy d \<longleftrightarrow> parseBuyCallback d"
| "reads (T_Trust n) d \<longleftrightarrow> parseTrustCallback d = Some n"
| "reads (T_Back b) d \<longleftrightarrow> parseBackCallback d = Some b"
| "reads (T_Discover f) d \<longleftrightarrow> parseDiscoverCallback d = Some f"
| "reads (T_Report r) d \<longleftrightarrow> parseReportCallback d = Some r"
| "reads (T_Review_Edit i) d \<longleftrightarrow> parseReviewEditCallback d = Some i"
| "reads (T_Review r) d \<longleftrightarrow> parseReviewCallback d = Some r"
| "reads (T_Suggestion i) d \<longleftrightarrow> parseSuggestionCallback d = Some i"
| "reads (T_Event c) d \<longleftrightarrow> parseEventCallback d = Some c"
| "reads (T_Chat c) d \<longleftrightarrow> parseChatCallback d = Some c"

fun protocol :: "tap \<Rightarrow> string" where
  "protocol T_Recheck = CHANNEL_PREFIX"
| "protocol (T_Policy c) = POLICY_PREFIX"
| "protocol (T_Guide g) = GUIDE_PREFIX"
| "protocol (T_Menu m) = MENU_PREFIX"
| "protocol (T_Gender g) = GENDER_PREFIX"
| "protocol (T_Profile k) = PROFILE_FIELD_PREFIX"
| "protocol (T_Wizard w) = WIZARD_PREFIX"
| "protocol (T_Admin a) = ADMIN_PREFIX"
| "protocol (T_Setting c) = SETTING_PREFIX"
| "protocol (T_Code k) = CODE_PREFIX"
| "protocol (T_My_Events n) = MY_EVENTS_PREFIX"
| "protocol (T_Direct c) = DIRECT_PREFIX"
| "protocol (T_Wallet n) = WALLET_PREFIX"
| "protocol T_Buy = BUY_PREFIX"
| "protocol (T_Trust n) = TRUST_PREFIX"
| "protocol (T_Back b) = BACK_PREFIX"
| "protocol (T_Discover f) = DISCOVER_PREFIX"
| "protocol (T_Report r) = REPORT_PREFIX"
| "protocol (T_Review_Edit i) = REVIEW_PREFIX"
| "protocol (T_Review r) = REVIEW_PREFIX"
| "protocol (T_Suggestion i) = SUGGESTION_PREFIX"
| "protocol (T_Event c) = EVENT_PREFIX"
| "protocol (T_Chat c) = PREFIX"

lemmas prefix_defs = CHANNEL_PREFIX_def POLICY_PREFIX_def GUIDE_PREFIX_def MENU_PREFIX_def GENDER_PREFIX_def
  PROFILE_FIELD_PREFIX_def WIZARD_PREFIX_def ADMIN_PREFIX_def SETTING_PREFIX_def CODE_PREFIX_def MY_EVENTS_PREFIX_def
  DIRECT_PREFIX_def WALLET_PREFIX_def BUY_PREFIX_def TRUST_PREFIX_def BACK_PREFIX_def DISCOVER_PREFIX_def
  REPORT_PREFIX_def REVIEW_PREFIX_def SUGGESTION_PREFIX_def EVENT_PREFIX_def PREFIX_def

lemma three_hd: "three d = Some (p, a, i) \<Longrightarrow> hd (split_on CHR '':'' d) = p"
  by (simp add: three_iff)

lemma first_part: "split_on CHR '':'' d ! 0 = p \<Longrightarrow> hd (split_on CHR '':'' d) = p"
  by (cases "split_on CHR '':'' d") (simp_all del: split_on.simps)

lemma reads_protocol: "reads t d \<Longrightarrow> hd (split_on CHR '':'' d) = protocol t"
proof (cases t)
  case (T_Guide g)
  assume "reads t d"
  then show ?thesis using T_Guide by (auto simp: parseGuideCallback_def Let_def intro!: first_part split: if_splits)
next
  case (T_Menu m)
  assume "reads t d"
  then show ?thesis using T_Menu by (auto simp: decodeMenuCallback_def Let_def intro!: first_part split: if_splits)
next
  case (T_Gender g)
  assume "reads t d"
  then show ?thesis using T_Gender by (auto simp: parseGenderChoice_def GENDER_PREFIX_def split: if_splits)
next
  case T_Recheck
  assume "reads t d"
  then show ?thesis using T_Recheck
    by (simp add: isChannelRecheckCallback_def encodeChannelRecheckCallback_def CHANNEL_PREFIX_def NO_ID_def)
qed (auto simp: parsePolicyCallback_def parseProfileFieldCallback_def parseWizardCallback_def parseAdminCallback_def
    parseSettingCallback_def parseCodeCallback_def parseMyEventsCallback_def parseDirectCallback_def parseWalletCallback_def
    parseBuyCallback_def parseTrustCallback_def parseBackCallback_def parseDiscoverCallback_def parseReportCallback_def
    parseReviewEditCallback_def parseReviewCallback_def parseSuggestionCallback_def parseEventCallback_def
    parseChatCallback_def Let_def dest!: three_hd split: option.splits if_splits)

lemma review_or_edit: "parseReviewEditCallback d = Some i \<Longrightarrow> parseReviewCallback d = None"
  by (auto simp: parseReviewEditCallback_def parseReviewCallback_def starts_with_def split: option.splits if_splits)

lemma reads_unique: "reads t d \<Longrightarrow> reads u d \<Longrightarrow> t = u"
proof -
  assume r: "reads t d" "reads u d"
  then have p: "protocol t = protocol u" using reads_protocol by metis
  show ?thesis
    by (cases t; use r p review_or_edit in \<open>cases u; simp add: prefix_defs\<close>)
qed

lemma find_mem: "find P xs = Some x \<Longrightarrow> x \<in> set xs \<and> P x"
  by (induction xs) (auto split: if_splits)

lemma base36_page: "is_base36 s \<Longrightarrow> \<not> 35 < unbase36 (hd s) \<Longrightarrow> page_ok (unbase36 (hd s))"
proof -
  assume b: "is_base36 s" "\<not> 35 < unbase36 (hd s)"
  then obtain c where "s = [c]" "is_digit c \<or> is_lower c" by (auto simp: is_base36_def length_Suc_conv)
  then have "(87::nat) \<le> of_char c \<or> is_digit c \<and> (48::nat) \<le> of_char c" by (auto simp: is_digit_def is_lower_def)
  then have "0 \<le> unbase36 c" using of_nat_of_char [of c, where ?'a = int] by (auto simp: unbase36_def)
  then show ?thesis using b \<open>s = [c]\<close> by (simp add: page_ok_def)
qed

lemma read_id_bound: "list_all is_digit s \<Longrightarrow> read_id s < 10 ^ length s"
proof (induction s rule: rev_induct)
  case (snoc c s)
  then have d: "of_char c < (58::nat)" and "read_id s < 10 ^ length s" by (auto simp: is_digit_def)
  then have "of_char c - (48::nat) < 10" by (simp add: less_diff_conv2)
  then show ?case using \<open>read_id s < 10 ^ length s\<close> by (simp add: read_id_def)
qed (simp add: read_id_def)

lemma discover_valid: "parseDiscoverCallback d = Some f \<Longrightarrow> valid_tap (T_Discover f)"
proof -
  assume "parseDiscoverCallback d = Some f"
  moreover have "decodePage x = Some n \<Longrightarrow> page_ok n" for x n
    using base36_page [of "[the x]"] by (auto simp: decodePage_def page_ok_def MAX_DISCOVER_PAGE_def split: option.splits if_splits)
  moreover have "CHR ''l'' \<in> set DISCOVER_VIEWS" by (simp add: DISCOVER_VIEWS_def)
  ultimately show ?thesis
    by (auto simp: parseDiscoverCallback_def Let_def dest!: find_mem split: option.splits if_splits)
qed

lemma back_valid: "parseBackCallback d = Some b \<Longrightarrow> valid_tap (T_Back b)"
proof -
  assume p: "parseBackCallback d = Some b"
  then obtain q a i where t: "three d = Some (q, a, i)" by (auto simp: parseBackCallback_def split: option.splits)
  from p t have i: "b = \<lparr>bk_target = a, bk_message = (if read_id i = 0 then None else Some (int (read_id i)))\<rparr>"
    "a \<in> set BACK_TARGETS" "length i \<le> 12" "list_all is_digit i"
    by (auto simp: parseBackCallback_def Let_def split: if_splits)
  have "read_id i < 10 ^ length i" by (rule read_id_bound [OF i(4)])
  also have "\<dots> \<le> 10 ^ 12" using i(3) by (intro power_increasing) auto
  finally have n: "int (read_id i) < 10 ^ 12" by simp
  show ?thesis by (subst i(1)) (use n i(2) in simp)
qed

lemma page_read: "is_base36 s \<Longrightarrow> page_ok (unbase36 (hd s)) \<longleftrightarrow> \<not> 35 < unbase36 (hd s)"
  using base36_page by (auto simp: page_ok_def)

lemma reads_valid: "reads t d \<Longrightarrow> valid_tap t"
proof (cases t)
  case (T_Discover f)
  assume "reads t d"
  then show ?thesis using T_Discover discover_valid by simp
next
  case (T_Back b)
  assume "reads t d"
  then show ?thesis using T_Back back_valid by simp
next
  case (T_Guide g)
  assume "reads t d"
  then show ?thesis using T_Guide by (auto simp: parseGuideCallback_def Let_def split: if_splits)
next
  case (T_Menu m)
  assume "reads t d"
  then show ?thesis using T_Menu by (auto simp: decodeMenuCallback_def menu_token_def Let_def split: if_splits)
qed (auto simp: parsePolicyCallback_def parseProfileFieldCallback_def parseWizardCallback_def parseAdminCallback_def
    parseSettingCallback_def parseCodeCallback_def parseMyEventsCallback_def parseDirectCallback_def parseWalletCallback_def
    parseTrustCallback_def parseReportCallback_def rating_of_def isChatAction_def
    parseReviewEditCallback_def parseReviewCallback_def parseSuggestionCallback_def parseEventCallback_def
    parseChatCallback_def MAX_POLICY_PAGE_def MAX_MY_EVENTS_PAGE_def MAX_WALLET_PAGE_def MAX_TRUST_PAGE_def Let_def
    page_read dest!: find_mem split: option.splits if_splits)

lemma Some_eq_map_option: "Some t = map_option f x \<longleftrightarrow> (\<exists>a. x = Some a \<and> t = f a)"
  by (cases x) auto

lemma ungated_menu_Some: "ungated_menu d = Some m \<Longrightarrow> decodeMenuCallback d = Some m"
  by (auto simp: ungated_menu_def split: option.splits menu_callback.splits if_splits)

lemma taps_read: "Some t \<in> set (ungated_taps d @ gated_taps w d) \<Longrightarrow> reads t d"
  unfolding ungated_taps_def gated_taps_def set_append set_simps Un_iff insert_iff empty_iff
  by (elim disjE) (auto simp: Some_eq_map_option ungated_menu_Some split: if_splits)

lemma read_taps: "reads t d \<Longrightarrow> Some t \<in> set (gated_taps True d) \<or> Some t \<in> set (ungated_taps d)"
  by (cases t) (auto simp: ungated_taps_def gated_taps_def)

lemma first_some_mem: "first_some xs = Some t \<Longrightarrow> Some t \<in> set xs"
  by (induction xs) (auto split: option.splits)

lemma first_some_None: "first_some xs = None \<longleftrightarrow> (\<forall>x\<in>set xs. x = None)"
  by (induction xs) (auto split: option.splits)

lemma first_some_unique: "Some t \<in> set xs \<Longrightarrow> (\<And>u. Some u \<in> set xs \<Longrightarrow> u = t) \<Longrightarrow> first_some xs = Some t"
proof (cases "first_some xs")
  case None
  moreover assume "Some t \<in> set xs"
  ultimately show ?thesis unfolding first_some_None by blast
next
  case (Some v)
  moreover assume "\<And>u. Some u \<in> set xs \<Longrightarrow> u = t"
  ultimately show ?thesis using first_some_mem by metis
qed

definition button_for :: "tap \<Rightarrow> string + string \<Rightarrow> bool" where
  "button_for t e \<longleftrightarrow> (\<exists>d. e = Inr d \<and> byte_length d \<le> 64 \<and> reads t d)"

lemma button_forI: "returns e parse c \<Longrightarrow> (\<And>d. parse d = Some c \<Longrightarrow> reads t d) \<Longrightarrow> button_for t e"
  by (auto simp: returns_def button_for_def)

lemma button_guide: "valid_tap (T_Guide g) \<Longrightarrow> button_for (T_Guide g) (encode_tap (T_Guide g))"
proof (cases g)
  case Guide_Index
  then show ?thesis using button_forI [OF fixed_returns(4), of "T_Guide g"] by simp
next
  case Guide_Commands
  then show ?thesis using button_forI [OF fixed_returns(5), of "T_Guide g"] by simp
next
  case (Guide_Slug s)
  assume "valid_tap (T_Guide g)"
  then show ?thesis using Guide_Slug button_forI [OF guide_returns, of s "T_Guide g"] by simp
qed

lemma button_menu: "valid_tap (T_Menu m) \<Longrightarrow> button_for (T_Menu m) (encode_tap (T_Menu m))"
proof (cases m)
  case Menu_Root
  then show ?thesis using button_forI [OF fixed_returns(6), of "T_Menu m"] by simp
next
  case (Menu_Group s)
  assume "valid_tap (T_Menu m)"
  then show ?thesis using Menu_Group button_forI [OF menu_returns(1), of s "T_Menu m"] by simp
next
  case (Menu_Command s)
  assume "valid_tap (T_Menu m)"
  then show ?thesis using Menu_Command button_forI [OF menu_returns(2), of s "T_Menu m"] by simp
qed

lemma button_id:
  "valid_tap (T_Chat c) \<Longrightarrow> button_for (T_Chat c) (encode_tap (T_Chat c))"
  "valid_tap (T_Event c) \<Longrightarrow> button_for (T_Event c) (encode_tap (T_Event c))"
  "valid_tap (T_Direct c) \<Longrightarrow> button_for (T_Direct c) (encode_tap (T_Direct c))"
  using id_callback_returns [of c] literals(1,2,3) button_forI [of _ _ c] by auto

lemma button_keys:
  "valid_tap (T_Gender g) \<Longrightarrow> button_for (T_Gender g) (encode_tap (T_Gender g))"
  "valid_tap (T_Profile k) \<Longrightarrow> button_for (T_Profile k) (encode_tap (T_Profile k))"
  "valid_tap (T_Code k) \<Longrightarrow> button_for (T_Code k) (encode_tap (T_Code k))"
  "valid_tap (T_Wizard w) \<Longrightarrow> button_for (T_Wizard w) (encode_tap (T_Wizard w))"
  "valid_tap (T_Setting s) \<Longrightarrow> button_for (T_Setting s) (encode_tap (T_Setting s))"
  by (auto intro: button_forI [OF fixed_returns(3)] button_forI [OF key_returns(1)] button_forI [OF key_returns(2)]
      button_forI [OF wizard_returns] button_forI [OF setting_returns])

lemma button_pages:
  "valid_tap (T_My_Events n) \<Longrightarrow> button_for (T_My_Events n) (encode_tap (T_My_Events n))"
  "valid_tap (T_Wallet n) \<Longrightarrow> button_for (T_Wallet n) (encode_tap (T_Wallet n))"
  "valid_tap (T_Trust n) \<Longrightarrow> button_for (T_Trust n) (encode_tap (T_Trust n))"
  by (auto intro: button_forI [OF page_returns(1)] button_forI [OF page_returns(2)] button_forI [OF page_returns(3)])

lemma button_policy: "valid_tap (T_Policy c) \<Longrightarrow> button_for (T_Policy c) (encode_tap (T_Policy c))"
  using button_forI [OF page_returns(4), of "pl_page c" "pl_doc c" "T_Policy c"] by simp

lemma button_longer:
  "valid_tap (T_Admin a) \<Longrightarrow> button_for (T_Admin a) (encode_tap (T_Admin a))"
  "valid_tap (T_Back b) \<Longrightarrow> button_for (T_Back b) (encode_tap (T_Back b))"
  "valid_tap (T_Discover f) \<Longrightarrow> button_for (T_Discover f) (encode_tap (T_Discover f))"
  "valid_tap (T_Report r) \<Longrightarrow> button_for (T_Report r) (encode_tap (T_Report r))"
  "valid_tap (T_Review_Edit i) \<Longrightarrow> button_for (T_Review_Edit i) (encode_tap (T_Review_Edit i))"
  "valid_tap (T_Review v) \<Longrightarrow> button_for (T_Review v) (encode_tap (T_Review v))"
  "valid_tap (T_Suggestion i) \<Longrightarrow> button_for (T_Suggestion i) (encode_tap (T_Suggestion i))"
  subgoal using button_forI [OF admin_returns, of a "T_Admin a"] by simp
  subgoal using button_forI [OF back_returns, of b "T_Back b"] by simp
  subgoal using button_forI [OF discover_returns, of f "T_Discover f"] by simp
  subgoal using button_forI [OF report_returns, of r "T_Report r"] by simp
  subgoal using button_forI [OF review_edit_returns, of i "T_Review_Edit i"] by simp
  subgoal using button_forI [OF review_returns, of v "T_Review v"] by simp
  subgoal using button_forI [OF suggestion_returns, of i "T_Suggestion i"] by simp
  done

lemma button_fixed:
  "button_for T_Recheck (encode_tap T_Recheck)"
  "button_for T_Buy (encode_tap T_Buy)"
  subgoal unfolding encode_tap.simps by (rule button_forI [OF fixed_returns(1)]) (simp split: if_splits)
  subgoal unfolding encode_tap.simps by (rule button_forI [OF fixed_returns(2)]) (simp split: if_splits)
  done

lemma encoded_read: "valid_tap t \<Longrightarrow> button_for t (encode_tap t)"
  by (cases t) (blast intro: button_fixed button_policy button_guide button_menu button_keys button_pages button_longer button_id)+

end
