(* ===== verification/Callback_Properties.thy ===== *)
theory Callback_Properties
  imports Callback_Roundtrip "HOL-Library.Multiset"
begin

text \<open>
  The properties of the button protocol: every button a keyboard can carry fits Telegram's limit
  and comes back as what it was built from, whatever arrives is read as a well-formed tap or not
  at all, and no string is read by two protocols.
\<close>

text \<open>C22. Every button comes back as what it was built from: for every well-formed tap the encoder of its
  protocol succeeds, within Telegram's 64 bytes, and whoever is past the gates and presses it gets
  exactly that tap.\<close>

theorem every_button_comes_back:
  assumes "valid_tap t"
  shows "\<exists>d. encode_tap t = Inr d \<and> byte_length d \<le> 64 \<and> onCallback True OV_Clear False d = Tapped t"
proof -
  obtain d where d: "encode_tap t = Inr d" "byte_length d \<le> 64" "reads t d"
    using encoded_read [OF assms] by (auto simp: button_for_def)
  let ?ts = "ungated_taps d @ gated_taps True d"
  have only: "u = t" if "Some u \<in> set ?ts" for u
    using taps_read [OF that] d(3) by (rule reads_unique)
  have "onCallback True OV_Clear False d = Tapped t"
  proof (cases "first_some (ungated_taps d)")
    case None
    then have "Some t \<in> set (gated_taps True d)" using read_taps [OF d(3)] unfolding first_some_None by blast
    then have "first_some (gated_taps True d) = Some t" by (rule first_some_unique) (use only in auto)
    then show ?thesis using None by (simp add: onCallback_def)
  next
    case (Some u)
    then show ?thesis using only [of u] first_some_mem [OF Some] by (simp add: onCallback_def)
  qed
  then show ?thesis using d(1,2) by blast
qed

theorem every_button_comes_back_witness:
  "onCallback True OV_Clear False ''ev:acc:01234567-89ab-cdef-0123-456789abcdef''
     = Tapped (T_Event \<lparr>ic_action = ''acc'', ic_id = ''01234567-89ab-cdef-0123-456789abcdef''\<rparr>)"
proof -
  let ?t = "T_Event \<lparr>ic_action = ''acc'', ic_id = ''01234567-89ab-cdef-0123-456789abcdef''\<rparr>"
  have i: "isPublicId ''01234567-89ab-cdef-0123-456789abcdef''"
    by (simp add: isPublicId_def is_hex_i_def is_hex_def is_digit_def)
  have "valid_tap ?t" using i by (simp add: EVENT_CALLBACK_ACTIONS_def)
  from every_button_comes_back [OF this] show ?thesis
    by (auto simp: encodeEventCallback_def EVENT_PREFIX_def within_budget_def MAX_BYTES_def split: if_splits)
qed

text \<open>C23. Whatever string arrives, it is read as a well-formed tap or not at all: an identifier handed on is a
  public id, an action one of its protocol's, a page one that exists, a rating from 1 to 5. And who
  owes onboarding or a channel gets only the recheck, the policies, the guide and the ungated
  menu commands.\<close>

theorem only_well_formed_taps:
  "onCallback w ov blocked d = Tapped t \<Longrightarrow>
     valid_tap t \<and> (ov = OV_Drawn \<or> ov = OV_Clear \<and> blocked \<longrightarrow>
       (case t of T_Recheck \<Rightarrow> True | T_Policy _ \<Rightarrow> True | T_Guide _ \<Rightarrow> True
        | T_Menu m \<Rightarrow> (case m of Menu_Command c \<Rightarrow> c \<in> set UNGATED_COMMANDS | _ \<Rightarrow> False) | _ \<Rightarrow> False))"
proof -
  assume r: "onCallback w ov blocked d = Tapped t"
  have ug: "case u of T_Recheck \<Rightarrow> True | T_Policy _ \<Rightarrow> True | T_Guide _ \<Rightarrow> True
        | T_Menu m \<Rightarrow> (case m of Menu_Command c \<Rightarrow> c \<in> set UNGATED_COMMANDS | _ \<Rightarrow> False) | _ \<Rightarrow> False"
    if "Some u \<in> set (ungated_taps d)" for u
    using that by (auto simp: ungated_taps_def Some_eq_map_option ungated_menu_def split: if_splits option.splits menu_callback.splits)
  have "Some t \<in> set (ungated_taps d @ gated_taps w d)"
    using r first_some_mem [of "ungated_taps d"] first_some_mem [of "gated_taps w d"]
    by (auto simp: onCallback_def split: option.splits if_splits)
  then have v: "valid_tap t" using taps_read reads_valid by blast
  show ?thesis
  proof (cases "first_some (ungated_taps d)")
    case None
    then show ?thesis using v r by (auto simp: onCallback_def split: if_splits)
  next
    case (Some u)
    then have "u = t" using r by (simp add: onCallback_def)
    then show ?thesis using v ug first_some_mem [OF Some] by blast
  qed
qed

theorem only_well_formed_taps_witness:
  "onCallback True OV_Drawn True ''mn:c:help'' = Tapped (T_Menu (Menu_Command ''help'')) \<and> valid_tap (T_Menu (Menu_Command ''help''))"
proof -
  have r: "onCallback True OV_Drawn True ''mn:c:help'' = Tapped (T_Menu (Menu_Command ''help''))"
    by (simp add: onCallback_def ungated_taps_def isChannelRecheckCallback_def encodeChannelRecheckCallback_def CHANNEL_PREFIX_def
        parsePolicyCallback_def three_def POLICY_PREFIX_def parseGuideCallback_def GUIDE_PREFIX_def ungated_menu_def
        decodeMenuCallback_def MENU_PREFIX_def is_lower_def UNGATED_COMMANDS_def)
  then show ?thesis using only_well_formed_taps [OF r] by blast
qed

text \<open>C24. No string belongs to two protocols, so the order in which the handlers are tried does not matter:
  any rearrangement of the parsers answers every string alike.\<close>

theorem handler_order_is_irrelevant:
  assumes "mset parsers = mset (ungated_taps d @ gated_taps w d)"
  shows "first_some parsers = first_some (ungated_taps d @ gated_taps w d)"
proof -
  let ?ts = "ungated_taps d @ gated_taps w d"
  have same: "set parsers = set ?ts" using assms by (metis set_mset_mset)
  show ?thesis
  proof (cases "first_some ?ts")
    case None
    then have "\<forall>x\<in>set parsers. x = None" unfolding same first_some_None .
    then have "first_some parsers = None" unfolding first_some_None .
    then show ?thesis using None by simp
  next
    case (Some t)
    note t = first_some_mem [OF Some]
    have "first_some parsers = Some t"
    proof (rule first_some_unique)
      show "Some t \<in> set parsers" using t same by simp
      show "u = t" if "Some u \<in> set parsers" for u
        using reads_unique [OF taps_read [of u d w] taps_read [OF t]] that same by blast
    qed
    then show ?thesis using Some by simp
  qed
qed

theorem handler_order_is_irrelevant_witness:
  "first_some (rev (ungated_taps ''bk:d:7'' @ gated_taps True ''bk:d:7'')) = first_some (ungated_taps ''bk:d:7'' @ gated_taps True ''bk:d:7'')"
  by (rule handler_order_is_irrelevant) simp

end
