(* ===== verification/Ledger_Interface.thy ===== *)
theory Ledger_Interface
  imports Database
begin

text \<open>
  What the two ledgers of the economy share (ADR-0007): rows that are only appended, each
  consuming an idempotency key at most once, and a cached total per user that always
  equals the sum of that user's rows. The coin service and the trust service each provide
  it; the lemmas about runs of movements are proved here once.
\<close>

definition ledger_sum :: "('r \<Rightarrow> id) \<Rightarrow> ('r \<Rightarrow> int) \<Rightarrow> 'r list \<Rightarrow> id \<Rightarrow> int" where
  "ledger_sum owner amount rows u = sum_where (\<lambda>r. owner r = u) amount rows"

definition ledger_ok ::
  "('s \<Rightarrow> 'r list) \<Rightarrow> ('s \<Rightarrow> id \<Rightarrow> int) \<Rightarrow> ('r \<Rightarrow> id) \<Rightarrow> ('r \<Rightarrow> int) \<Rightarrow> ('r \<Rightarrow> string) \<Rightarrow> 's \<Rightarrow> bool" where
  "ledger_ok rows cached owner amount key s \<longleftrightarrow>
     distinct (map key (rows s)) \<and> (\<forall>u. cached s u = ledger_sum owner amount (rows s) u)"

text \<open>
  \<open>extends\<close>: the step from \<open>s\<close> to \<open>s'\<close> appended rows under unused keys and moved every
  cached total by exactly what it appended.
\<close>

definition extends ::
  "('s \<Rightarrow> 'r list) \<Rightarrow> ('s \<Rightarrow> id \<Rightarrow> int) \<Rightarrow> ('r \<Rightarrow> id) \<Rightarrow> ('r \<Rightarrow> int) \<Rightarrow> ('r \<Rightarrow> string) \<Rightarrow>
   's \<Rightarrow> 's \<Rightarrow> bool" where
  "extends rows cached owner amount key s s' \<longleftrightarrow>
     (\<exists>rs. rows s' = rows s @ rs \<and> distinct (map key rs)
       \<and> key ` set rs \<inter> key ` set (rows s) = {}
       \<and> (\<forall>u. cached s' u = cached s u + ledger_sum owner amount rs u))"

lemma ledger_sum_append:
  "ledger_sum owner amount (xs @ ys) u = ledger_sum owner amount xs u + ledger_sum owner amount ys u"
  by (simp add: ledger_sum_def)

lemma extends_refl: "extends rows cached owner amount key s s"
  unfolding extends_def by (rule exI [of _ "[]"]) (simp add: ledger_sum_def)

lemma extends_trans:
  assumes "extends rows cached owner amount key a b" and "extends rows cached owner amount key b c"
  shows "extends rows cached owner amount key a c"
proof -
  from assms obtain xs ys where
    "rows b = rows a @ xs" "distinct (map key xs)" "key ` set xs \<inter> key ` set (rows a) = {}"
    "\<forall>u. cached b u = cached a u + ledger_sum owner amount xs u"
    "rows c = rows b @ ys" "distinct (map key ys)" "key ` set ys \<inter> key ` set (rows b) = {}"
    "\<forall>u. cached c u = cached b u + ledger_sum owner amount ys u"
    unfolding extends_def by blast
  then show ?thesis unfolding extends_def
    by (intro exI [of _ "xs @ ys"]) (auto simp: ledger_sum_append)
qed

lemma extends_reflp: "reflp (extends rows cached owner amount key)"
  by (simp add: reflp_def extends_refl)

lemma extends_transp: "transp (extends rows cached owner amount key)"
  by (rule transpI) (rule extends_trans)

lemma extends_ok:
  "ledger_ok rows cached owner amount key s \<Longrightarrow> extends rows cached owner amount key s s' \<Longrightarrow>
   ledger_ok rows cached owner amount key s'"
  unfolding ledger_ok_def extends_def
  by (clarsimp simp: ledger_sum_append) blast

lemma extends_unchanged:
  "rows s' = rows s \<Longrightarrow> cached s' = cached s \<Longrightarrow> extends rows cached owner amount key s s'"
  unfolding extends_def by (rule exI [of _ "[]"]) (simp add: ledger_sum_def)

locale ledger =
  fixes rows :: "'s \<Rightarrow> 'r list"
    and cached :: "'s \<Rightarrow> id \<Rightarrow> int"
    and owner :: "'r \<Rightarrow> id"
    and amount :: "'r \<Rightarrow> int"
    and key :: "'r \<Rightarrow> string"
    and post :: "'i \<Rightarrow> (error, 's, 'o) tx"
  assumes post_extends: "tx_rel (extends rows cached owner amount key) (post i)"
begin

abbreviation ok :: "'s \<Rightarrow> bool" where
  "ok \<equiv> ledger_ok rows cached owner amount key"

text \<open>A run: the inputs in order, a failing one leaving the state as it was.\<close>

fun run :: "'i list \<Rightarrow> 's \<Rightarrow> 's" where
  "run [] s = s"
| "run (i # is) s = run is (commit s (post i s))"

lemma commit_extends: "extends rows cached owner amount key s (commit s (post i s))"
proof (cases "post i s")
  case (Inl e)
  then show ?thesis by (simp add: extends_refl)
next
  case (Inr r)
  then show ?thesis using tx_relD [OF post_extends, of i s "fst r" "snd r"] by (cases r) simp
qed

lemma run_extends: "extends rows cached owner amount key s (run is s)"
  by (induction "is" arbitrary: s) (auto intro: extends_refl extends_trans commit_extends)

text \<open>The cache never drifts from the ledger, and no key is ever used twice.\<close>

lemma run_ok: "ok s \<Longrightarrow> ok (run is s)"
  by (rule extends_ok [OF _ run_extends])

text \<open>Append-only: what was written stays, in its place.\<close>

lemma run_append_only: "\<exists>rs. rows (run is s) = rows s @ rs"
  using run_extends [of s "is"] by (auto simp: extends_def)

lemma run_once:
  assumes "ok s"
  shows "count_where (\<lambda>r. key r = k) (rows (run is s)) \<le> 1"
proof -
  have "distinct (map key (rows (run is s)))"
    using run_ok [OF assms] by (simp add: ledger_ok_def)
  then show ?thesis by (rule count_distinct_key)
qed

end

end
