(* ===== verification/Coins.thy ===== *)
theory Coins
  imports Ledger_Interface
begin

text \<open>
  The coin ledger (\<^verbatim>\<open>packages/domain/src/economy/coin.service.ts\<close>): the only code that
  writes \<^verbatim>\<open>coin_account\<close> or \<^verbatim>\<open>coin_ledger\<close>. A movement is applied exactly once per
  idempotency key, a spend never overdraws, a penalty takes what is there, a reversal
  writes the opposite row. The database's own constraints on the two tables are the
  guards of \<open>coin_ledger_create\<close> and \<open>coin_account_update\<close>.
\<close>

section \<open>The two tables\<close>

definition balance_of :: "db \<Rightarrow> id \<Rightarrow> int" where
  "balance_of s u = (case map_of (coin_accounts s) u of None \<Rightarrow> 0 | Some a \<Rightarrow> ca_balance a)"

text \<open>\<^verbatim>\<open>coinAccount.createMany\<close> with \<^verbatim>\<open>skipDuplicates\<close>.\<close>

definition coin_account_ensure :: "id \<Rightarrow> (error, db, unit) tx" where
  "coin_account_ensure u = tx_modify (\<lambda>s.
     case map_of (coin_accounts s) u of
       None \<Rightarrow> s\<lparr>coin_accounts := AList.update u \<lparr>ca_balance = 0, ca_version = 0\<rparr> (coin_accounts s)\<rparr>
     | Some _ \<Rightarrow> s)"

text \<open>\<^verbatim>\<open>SELECT "balance" \<dots> FOR UPDATE\<close>: transactions are serialised, so the lock is the read.\<close>

definition coin_account_lock :: "id \<Rightarrow> (error, db, int) tx" where
  "coin_account_lock u = tx_read (\<lambda>s. balance_of s u)"

definition coin_account_update :: "id \<Rightarrow> int \<Rightarrow> (error, db, unit) tx" where
  "coin_account_update u b =
     tx_bind (tx_guard (int4 b) (DbError ''integer out of range'')) (\<lambda>_.
     tx_bind (tx_guard (0 \<le> b) (DbError ''coin_account_balance_non_negative'')) (\<lambda>_.
     tx_bind (tx_read (\<lambda>s. map_of (coin_accounts s) u)) (\<lambda>a.
     tx_bind (tx_some a (DbError ''coin_account not found'')) (\<lambda>a.
     tx_modify (\<lambda>s. s\<lparr>coin_accounts :=
       AList.update u \<lparr>ca_balance = b, ca_version = ca_version a + 1\<rparr> (coin_accounts s)\<rparr>)))))"

definition coin_ledger_by_key :: "string \<Rightarrow> db \<Rightarrow> coin_ledger_row option" where
  "coin_ledger_by_key k s = find (\<lambda>r. cl_key r = k) (coin_ledger s)"

definition coin_ledger_by_id :: "id \<Rightarrow> db \<Rightarrow> coin_ledger_row option" where
  "coin_ledger_by_id i s = find (\<lambda>r. cl_id r = i) (coin_ledger s)"

text \<open>The CHECK and UNIQUE constraints of migration 3 on an inserted row.\<close>

definition coin_ledger_checks :: "coin_ledger_row \<Rightarrow> coin_ledger_row list \<Rightarrow> bool" where
  "coin_ledger_checks r rows \<longleftrightarrow>
     int4 (cl_amount r) \<and> int4 (cl_after r) \<and> cl_amount r \<noteq> 0
     \<and> cl_after r = cl_before r + cl_amount r \<and> 0 \<le> cl_after r
     \<and> (cl_type r = REVERSAL) = (cl_reverses r \<noteq> None)
     \<and> (\<forall>q\<in>set rows. cl_key q \<noteq> cl_key r)
     \<and> (cl_reverses r \<noteq> None \<longrightarrow> (\<forall>q\<in>set rows. cl_reverses q \<noteq> cl_reverses r))"

definition coin_ledger_create :: "(id \<Rightarrow> coin_ledger_row) \<Rightarrow> (error, db, id) tx" where
  "coin_ledger_create mk =
     tx_bind fresh_id (\<lambda>i.
     tx_bind (tx_read coin_ledger) (\<lambda>rows.
     tx_bind (tx_guard (coin_ledger_checks (mk i) rows) (DbError ''coin_ledger constraint'')) (\<lambda>_.
     tx_bind (tx_modify (\<lambda>s. s\<lparr>coin_ledger := coin_ledger s @ [mk i]\<rparr>)) (\<lambda>_.
     tx_return i))))"

section \<open>Movements\<close>

text \<open>
  The input of a movement. Amounts are integers by type, so \<^verbatim>\<open>Number.isInteger\<close> holds of
  every one; the test that is left is against zero.
\<close>

record coin_input =
  ci_user :: id
  ci_amount :: int
  ci_type :: coin_ledger_type
  ci_reason :: string
  ci_key :: string
  ci_actor_type :: actor_type
  ci_actor_id :: "id option"
  ci_ref_type :: "string option"
  ci_ref_id :: "id option"
  ci_metadata :: "jval option"
  ci_reverses :: "id option"

record coin_penalty =
  cp_applied :: bool
  cp_ledger_id :: "id option"
  cp_charged :: int
  cp_requested :: int
  cp_balance :: int

record coin_movement =
  cm_applied :: bool
  cm_ledger_id :: id
  cm_balance :: int

definition reversalKey :: "id \<Rightarrow> string" where
  "reversalKey ledgerId = ''reversal:'' @ show_id ledgerId"

fun asRecord :: "jval option \<Rightarrow> (string \<times> jval) list" where
  "asRecord None = []"
| "asRecord (Some (JObj kvs)) = kvs"
| "asRecord (Some v) = [(''value'', v)]"

text \<open>
  \<^verbatim>\<open>applyWithin\<close>. The second argument is set only by \<open>penalize\<close>: the magnitude the policy
  asked for, before capping.
\<close>

definition applyWithin :: "coin_input \<Rightarrow> int option \<Rightarrow> (error, db, coin_penalty) tx" where
  "applyWithin input penaltyRequested =
     tx_bind (tx_guard (ci_amount input \<noteq> 0) (app_error ''INTERNAL_ERROR'')) (\<lambda>_.
     tx_bind (coin_account_ensure (ci_user input)) (\<lambda>_.
     tx_bind (coin_account_lock (ci_user input)) (\<lambda>balanceBefore.
     tx_bind (tx_read (coin_ledger_by_key (ci_key input))) (\<lambda>existing.
     case existing of
       Some e \<Rightarrow> tx_return
         \<lparr>cp_applied = False, cp_ledger_id = Some (cl_id e), cp_charged = \<bar>cl_amount e\<bar>,
          cp_requested = (case penaltyRequested of None \<Rightarrow> \<bar>cl_amount e\<bar> | Some p \<Rightarrow> p),
          cp_balance = balanceBefore\<rparr>
     | None \<Rightarrow>
        (let amount = (case penaltyRequested of
                         None \<Rightarrow> ci_amount input
                       | Some _ \<Rightarrow> max (ci_amount input) (- balanceBefore));
             balanceAfter = balanceBefore + amount
         in if balanceAfter < 0
            then tx_throw (AppError ''INSUFFICIENT_COINS''
                   [(''balance'', JInt balanceBefore), (''required'', JInt (- amount))])
            else if amount = 0
            then tx_return
              \<lparr>cp_applied = False, cp_ledger_id = None, cp_charged = 0,
               cp_requested = (case penaltyRequested of None \<Rightarrow> 0 | Some p \<Rightarrow> p),
               cp_balance = balanceBefore\<rparr>
            else
              (let clamped = (case penaltyRequested of None \<Rightarrow> False | Some p \<Rightarrow> - amount \<noteq> p);
                   metadata =
                     (if clamped
                      then Some (JObj (AList.update ''requestedAmount'' (JInt (the penaltyRequested))
                                        (asRecord (ci_metadata input))))
                      else ci_metadata input)
               in tx_bind (tx_read clock) (\<lambda>now.
                  tx_bind (coin_ledger_create (\<lambda>i.
                    \<lparr>cl_id = i, cl_user = ci_user input, cl_key = ci_key input,
                     cl_type = ci_type input, cl_amount = amount, cl_before = balanceBefore,
                     cl_after = balanceAfter, cl_reason = ci_reason input,
                     cl_actor_type = ci_actor_type input, cl_actor_id = ci_actor_id input,
                     cl_ref_type = ci_ref_type input, cl_ref_id = ci_ref_id input,
                     cl_reverses = ci_reverses input, cl_metadata = metadata,
                     cl_created_at = now\<rparr>)) (\<lambda>ledger.
                  tx_bind (coin_account_update (ci_user input) balanceAfter) (\<lambda>_.
                  tx_return
                    \<lparr>cp_applied = True, cp_ledger_id = Some ledger, cp_charged = \<bar>amount\<bar>,
                     cp_requested = (case penaltyRequested of None \<Rightarrow> \<bar>amount\<bar> | Some p \<Rightarrow> p),
                     cp_balance = balanceAfter\<rparr>))))))))) "

definition coin_apply :: "coin_input \<Rightarrow> (error, db, coin_movement) tx" where
  "coin_apply input =
     tx_bind (applyWithin input None) (\<lambda>result.
     tx_bind (tx_some (cp_ledger_id result) (app_error ''INTERNAL_ERROR'')) (\<lambda>ledgerId.
     tx_return \<lparr>cm_applied = cp_applied result, cm_ledger_id = ledgerId,
                cm_balance = cp_balance result\<rparr>))"

definition reverseWithin ::
  "id \<Rightarrow> string \<Rightarrow> actor_type \<Rightarrow> id option \<Rightarrow> jval option \<Rightarrow> (error, db, coin_movement) tx" where
  "reverseWithin ledgerId reasonCode actorType actorId metadata =
     tx_bind (tx_read (coin_ledger_by_id ledgerId)) (\<lambda>original.
     tx_bind (tx_some original (app_error ''NOT_FOUND'')) (\<lambda>original.
     tx_bind (tx_guard (cl_type original \<noteq> REVERSAL) (app_error ''INVALID_STATE_TRANSITION'')) (\<lambda>_.
     coin_apply
       \<lparr>ci_user = cl_user original, ci_amount = - cl_amount original, ci_type = REVERSAL,
        ci_reason = reasonCode, ci_key = reversalKey (cl_id original),
        ci_actor_type = actorType, ci_actor_id = actorId,
        ci_ref_type = cl_ref_type original, ci_ref_id = cl_ref_id original,
        ci_metadata = metadata, ci_reverses = Some (cl_id original)\<rparr>)))"

definition penalizeWithin :: "coin_input \<Rightarrow> (error, db, coin_penalty) tx" where
  "penalizeWithin input =
     (let requested = \<bar>ci_amount input\<bar>
      in if requested = 0
         then tx_bind (tx_read (\<lambda>s. balance_of s (ci_user input))) (\<lambda>b.
              tx_return \<lparr>cp_applied = False, cp_ledger_id = None, cp_charged = 0,
                         cp_requested = 0, cp_balance = b\<rparr>)
         else applyWithin (input\<lparr>ci_amount := - requested\<rparr>) (Some requested))"

section \<open>Reads\<close>

text \<open>How much of one kind of reward somebody has earned since a moment.\<close>

definition earnedSince ::
  "id \<Rightarrow> instant \<Rightarrow> coin_ledger_type list \<Rightarrow> string option \<Rightarrow> db \<Rightarrow> int \<times> nat" where
  "earnedSince u since types reasonCode s =
     (let p = (\<lambda>r. cl_user r = u \<and> List.member types (cl_type r)
                   \<and> (case reasonCode of None \<Rightarrow> True | Some c \<Rightarrow> cl_reason r = c)
                   \<and> since \<le> cl_created_at r)
      in (sum_where p cl_amount (coin_ledger s), count_where p (coin_ledger s)))"

text \<open>The statement, newest first; \<open>limit\<close> is kept between 1 and 200.\<close>

definition historyOf :: "id \<Rightarrow> int \<Rightarrow> int \<Rightarrow> db \<Rightarrow> coin_ledger_row list" where
  "historyOf u limit offset s =
     take (nat (min (max limit 1) 200))
       (drop (nat (max offset 0))
         (sort_key (\<lambda>r. - cl_created_at r) (filter (\<lambda>r. cl_user r = u) (coin_ledger s))))"

text \<open>Accounts whose cached balance is not the sum of their rows.\<close>

definition findDrift :: "nat \<Rightarrow> db \<Rightarrow> (id \<times> int \<times> int) list" where
  "findDrift limit s =
     take limit
       (filter (\<lambda>(u, balance, ledger). balance \<noteq> ledger)
         (map (\<lambda>(u, a). (u, ca_balance a, ledger_sum cl_user cl_amount (coin_ledger s) u))
           (coin_accounts s)))"

section \<open>What a movement does\<close>

abbreviation coin_extends :: "db \<Rightarrow> db \<Rightarrow> bool" where
  "coin_extends \<equiv> extends coin_ledger balance_of cl_user cl_amount cl_key"

text \<open>The fields of the database a coin movement writes.\<close>

definition coin_frame :: "db \<Rightarrow> db \<Rightarrow> bool" where
  "coin_frame s s' \<longleftrightarrow> next_id s \<le> next_id s' \<and>
     s' = s\<lparr>coin_accounts := coin_accounts s', coin_ledger := coin_ledger s', next_id := next_id s'\<rparr>"

lemma coin_frame_refl: "coin_frame s s"
  by (simp add: coin_frame_def)

lemma coin_frame_trans: "coin_frame a b \<Longrightarrow> coin_frame b c \<Longrightarrow> coin_frame a c"
  unfolding coin_frame_def by (cases a; cases b; cases c) simp

lemma coin_frame_simps:
  assumes "coin_frame s s'"
  shows "clock s' = clock s" "app_timezone s' = app_timezone s" "settings s' = settings s"
    "users s' = users s" "profiles s' = profiles s" "founding_tiers s' = founding_tiers s"
    "events s' = events s" "participants s' = participants s" "trust_scores s' = trust_scores s"
    "trust_ledger s' = trust_ledger s" "audit_log s' = audit_log s" "outbox s' = outbox s"
    "next_id s \<le> next_id s'"
  using assms unfolding coin_frame_def by (cases s; cases s'; simp)+

definition coin_ensured :: "id \<Rightarrow> db \<Rightarrow> db" where
  "coin_ensured u s = (case map_of (coin_accounts s) u of
       None \<Rightarrow> s\<lparr>coin_accounts := AList.update u \<lparr>ca_balance = 0, ca_version = 0\<rparr> (coin_accounts s)\<rparr>
     | Some _ \<Rightarrow> s)"

lemma coin_account_ensure_app [simp]: "coin_account_ensure u s = Inr ((), coin_ensured u s)"
  by (simp add: coin_account_ensure_def coin_ensured_def)

lemma coin_ensured_simps [simp]:
  "coin_ledger (coin_ensured u s) = coin_ledger s"
  "next_id (coin_ensured u s) = next_id s"
  "clock (coin_ensured u s) = clock s"
  "balance_of (coin_ensured u s) v = balance_of s v"
  "coin_ledger_by_key k (coin_ensured u s) = coin_ledger_by_key k s"
  by (auto simp: coin_ensured_def balance_of_def coin_ledger_by_key_def update_conv'
      split: option.splits)

lemma coin_ensured_frame: "coin_frame s (coin_ensured u s)"
  by (auto simp: coin_ensured_def coin_frame_def split: option.splits)

lemma coin_ensured_account: "\<exists>a. map_of (coin_accounts (coin_ensured u s)) u = Some a"
  by (auto simp: coin_ensured_def update_conv' split: option.splits)

lemma coin_ledger_create_Inr [tx_simps]:
  "coin_ledger_create mk s = Inr (i, s') \<longleftrightarrow>
   i = next_id s \<and> coin_ledger_checks (mk i) (coin_ledger s)
   \<and> s' = s\<lparr>next_id := next_id s + 1, coin_ledger := coin_ledger s @ [mk i]\<rparr>"
  by (auto simp: coin_ledger_create_def tx_simps)

lemma coin_account_update_Inr [tx_simps]:
  "coin_account_update u b s = Inr (x, s') \<longleftrightarrow>
   int4 b \<and> 0 \<le> b \<and> (\<exists>a. map_of (coin_accounts s) u = Some a \<and>
     s' = s\<lparr>coin_accounts := AList.update u \<lparr>ca_balance = b, ca_version = ca_version a + 1\<rparr> (coin_accounts s)\<rparr>)"
  by (auto simp: coin_account_update_def tx_simps)

text \<open>The row a movement writes, and the state after writing it.\<close>

definition coin_row :: "coin_input \<Rightarrow> int option \<Rightarrow> int \<Rightarrow> instant \<Rightarrow> id \<Rightarrow> int \<Rightarrow> coin_ledger_row" where
  "coin_row input pen before now i amount =
     \<lparr>cl_id = i, cl_user = ci_user input, cl_key = ci_key input,
      cl_type = ci_type input, cl_amount = amount, cl_before = before,
      cl_after = before + amount, cl_reason = ci_reason input,
      cl_actor_type = ci_actor_type input, cl_actor_id = ci_actor_id input,
      cl_ref_type = ci_ref_type input, cl_ref_id = ci_ref_id input,
      cl_reverses = ci_reverses input,
      cl_metadata = (if (case pen of None \<Rightarrow> False | Some p \<Rightarrow> - amount \<noteq> p)
        then Some (JObj (AList.update ''requestedAmount'' (JInt (the pen)) (asRecord (ci_metadata input))))
        else ci_metadata input),
      cl_created_at = now\<rparr>"

definition moved_amount :: "coin_input \<Rightarrow> int option \<Rightarrow> db \<Rightarrow> int" where
  "moved_amount input pen s =
     (case pen of None \<Rightarrow> ci_amount input
      | Some _ \<Rightarrow> max (ci_amount input) (- balance_of s (ci_user input)))"

lemma coin_account_lock_app [simp]: "coin_account_lock u s = Inr (balance_of s u, s)"
  by (simp add: coin_account_lock_def)

lemma applyWithin_zero [simp]:
  "ci_amount input = 0 \<Longrightarrow> applyWithin input pen s = Inl (app_error ''INTERNAL_ERROR'')"
  by (simp add: applyWithin_def)

lemma applyWithin_replay:
  "ci_amount input \<noteq> 0 \<Longrightarrow> coin_ledger_by_key (ci_key input) s = Some e \<Longrightarrow>
   applyWithin input pen s =
     Inr (\<lparr>cp_applied = False, cp_ledger_id = Some (cl_id e), cp_charged = \<bar>cl_amount e\<bar>,
           cp_requested = (case pen of None \<Rightarrow> \<bar>cl_amount e\<bar> | Some p \<Rightarrow> p),
           cp_balance = balance_of s (ci_user input)\<rparr>, coin_ensured (ci_user input) s)"
  by (simp add: applyWithin_def tx_bind_InrI)

lemma applyWithin_new:
  "ci_amount input \<noteq> 0 \<Longrightarrow> coin_ledger_by_key (ci_key input) s = None \<Longrightarrow>
   applyWithin input pen s =
     (let b = balance_of s (ci_user input); m = moved_amount input pen s; s1 = coin_ensured (ci_user input) s
      in if b + m < 0
         then Inl (AppError ''INSUFFICIENT_COINS'' [(''balance'', JInt b), (''required'', JInt (- m))])
         else if m = 0
         then Inr (\<lparr>cp_applied = False, cp_ledger_id = None, cp_charged = 0,
                   cp_requested = (case pen of None \<Rightarrow> 0 | Some p \<Rightarrow> p), cp_balance = b\<rparr>, s1)
         else tx_bind (coin_ledger_create (\<lambda>i. coin_row input pen b (clock s) i m)) (\<lambda>ledger.
              tx_bind (coin_account_update (ci_user input) (b + m)) (\<lambda>_.
              tx_return \<lparr>cp_applied = True, cp_ledger_id = Some ledger, cp_charged = \<bar>m\<bar>,
                 cp_requested = (case pen of None \<Rightarrow> \<bar>m\<bar> | Some p \<Rightarrow> p), cp_balance = b + m\<rparr>)) s1)"
  by (cases pen) (simp_all add: applyWithin_def tx_bind_InrI Let_def moved_amount_def coin_row_def)

text \<open>Every success of \<open>applyWithin\<close> is a replay, a penalty of nothing, or one appended row.\<close>

lemma applyWithin_effect:
  assumes "applyWithin input pen s = Inr (r, s')"
  obtains
    (replay) e where "coin_ledger_by_key (ci_key input) s = Some e" "s' = coin_ensured (ci_user input) s"
      "cp_applied r = False" "cp_ledger_id r = Some (cl_id e)"
      "cp_balance r = balance_of s (ci_user input)" "cp_charged r = \<bar>cl_amount e\<bar>"
  | (zero) "coin_ledger_by_key (ci_key input) s = None" "moved_amount input pen s = 0"
      "s' = coin_ensured (ci_user input) s" "cp_applied r = False" "cp_ledger_id r = None"
      "cp_charged r = 0" "cp_balance r = balance_of s (ci_user input)"
  | (appended) a :: coin_account_row where "coin_ledger_by_key (ci_key input) s = None"
      "coin_ledger_checks (coin_row input pen (balance_of s (ci_user input)) (clock s) (next_id s) (moved_amount input pen s)) (coin_ledger s)"
      "s' = (coin_ensured (ci_user input) s)\<lparr>next_id := next_id s + 1,
         coin_ledger := coin_ledger s @
           [coin_row input pen (balance_of s (ci_user input)) (clock s) (next_id s) (moved_amount input pen s)],
         coin_accounts := AList.update (ci_user input)
           \<lparr>ca_balance = balance_of s (ci_user input) + moved_amount input pen s, ca_version = ca_version a + 1\<rparr>
           (coin_accounts (coin_ensured (ci_user input) s))\<rparr>"
      "cp_applied r = True" "cp_ledger_id r = Some (next_id s)"
      "cp_charged r = \<bar>moved_amount input pen s\<bar>"
      "cp_balance r = balance_of s (ci_user input) + moved_amount input pen s"
      "int4 (balance_of s (ci_user input) + moved_amount input pen s)"
proof -
  have nz: "ci_amount input \<noteq> 0" using assms by (cases "ci_amount input = 0") auto
  let ?b = "balance_of s (ci_user input)" and ?m = "moved_amount input pen s"
  show thesis
  proof (cases "coin_ledger_by_key (ci_key input) s")
    case (Some e)
    with assms show thesis by (intro replay) (auto simp: applyWithin_replay [OF nz])
  next
    case None
    note run = assms [unfolded applyWithin_new [OF nz None] Let_def]
    show thesis
    proof (cases "?m = 0")
      case True
      show thesis
        by (rule zero [OF None True]) (use run True in \<open>auto split: if_splits\<close>)
    next
      case False
      let ?s1 = "coin_ensured (ci_user input) s"
      let ?row = "\<lambda>i. coin_row input pen ?b (clock s) i ?m"
      let ?res = "\<lambda>l. \<lparr>cp_applied = True, cp_ledger_id = Some l, cp_charged = \<bar>?m\<bar>,
        cp_requested = (case pen of None \<Rightarrow> \<bar>?m\<bar> | Some p \<Rightarrow> p), cp_balance = ?b + ?m\<rparr>"
      from run False have "tx_bind (coin_ledger_create ?row) (\<lambda>l.
          tx_bind (coin_account_update (ci_user input) (?b + ?m)) (\<lambda>_. tx_return (?res l))) ?s1 = Inr (r, s')"
        by (simp split: if_split_asm)
      then obtain l s2 where create: "coin_ledger_create ?row ?s1 = Inr (l, s2)"
        and "tx_bind (coin_account_update (ci_user input) (?b + ?m)) (\<lambda>_. tx_return (?res l)) s2 = Inr (r, s')"
        unfolding tx_bind_Inr by blast
      then obtain upd: "coin_account_update (ci_user input) (?b + ?m) s2 = Inr ((), s')" and r: "r = ?res l"
        unfolding tx_bind_Inr tx_return_Inr by auto
      from create have l: "l = next_id s" and ck: "coin_ledger_checks (?row (next_id s)) (coin_ledger s)"
        and s2: "s2 = ?s1\<lparr>next_id := next_id s + 1, coin_ledger := coin_ledger s @ [?row (next_id s)]\<rparr>"
        unfolding coin_ledger_create_Inr by auto
      from upd obtain a :: coin_account_row where i4: "int4 (?b + ?m)" and s': "s' = s2\<lparr>coin_accounts :=
          AList.update (ci_user input) \<lparr>ca_balance = ?b + ?m, ca_version = ca_version a + 1\<rparr> (coin_accounts s2)\<rparr>"
        unfolding coin_account_update_Inr by blast
      show thesis
        by (rule appended [OF None ck]) (simp_all add: s' s2 l r i4)
    qed
  qed
qed

lemma coin_ensured_in: "map_of (coin_accounts (coin_ensured u s)) u = Some a \<Longrightarrow>
   balance_of s u = ca_balance a"
  by (auto simp: coin_ensured_def balance_of_def update_conv' split: option.splits if_splits)

lemma applyWithin_frame: "applyWithin input pen s = Inr (r, s') \<Longrightarrow> coin_frame s s'"
proof (erule applyWithin_effect)
  show "s' = coin_ensured (ci_user input) s \<Longrightarrow> coin_frame s s'"
    by (simp add: coin_ensured_frame)
  then show "s' = coin_ensured (ci_user input) s \<Longrightarrow> coin_frame s s'" .
next
  fix a :: coin_account_row
  assume "s' = (coin_ensured (ci_user input) s)\<lparr>next_id := next_id s + 1,
         coin_ledger := coin_ledger s @
           [coin_row input pen (balance_of s (ci_user input)) (clock s) (next_id s) (moved_amount input pen s)],
         coin_accounts := AList.update (ci_user input)
           \<lparr>ca_balance = balance_of s (ci_user input) + moved_amount input pen s, ca_version = ca_version a + 1\<rparr>
           (coin_accounts (coin_ensured (ci_user input) s))\<rparr>"
  then show "coin_frame s s'"
    by (elim ssubst) (rule coin_frame_trans [OF coin_ensured_frame [of s "ci_user input"]], simp add: coin_frame_def)
qed

lemma coin_row_simps [simp]:
  "cl_id (coin_row input pen b now i m) = i" "cl_user (coin_row input pen b now i m) = ci_user input"
  "cl_key (coin_row input pen b now i m) = ci_key input" "cl_type (coin_row input pen b now i m) = ci_type input"
  "cl_amount (coin_row input pen b now i m) = m" "cl_before (coin_row input pen b now i m) = b"
  "cl_after (coin_row input pen b now i m) = b + m" "cl_reverses (coin_row input pen b now i m) = ci_reverses input"
  "cl_reason (coin_row input pen b now i m) = ci_reason input"
  "cl_ref_type (coin_row input pen b now i m) = ci_ref_type input"
  "cl_ref_id (coin_row input pen b now i m) = ci_ref_id input"
  "cl_created_at (coin_row input pen b now i m) = now"
  by (simp_all add: coin_row_def)

lemma applyWithin_extends: "tx_rel coin_extends (applyWithin input pen)"
proof (rule tx_relI, erule applyWithin_effect)
  fix s s' :: db
  show "s' = coin_ensured (ci_user input) s \<Longrightarrow> coin_extends s s'"
    by (auto intro!: extends_unchanged)
  then show "s' = coin_ensured (ci_user input) s \<Longrightarrow> coin_extends s s'" .
next
  fix s s' :: db and a :: coin_account_row
  let ?m = "moved_amount input pen s" and ?u = "ci_user input"
  let ?row = "coin_row input pen (balance_of s ?u) (clock s) (next_id s) ?m"
  assume ck: "coin_ledger_checks ?row (coin_ledger s)"
    and s': "s' = (coin_ensured ?u s)\<lparr>next_id := next_id s + 1, coin_ledger := coin_ledger s @ [?row],
         coin_accounts := AList.update ?u \<lparr>ca_balance = balance_of s ?u + ?m, ca_version = ca_version a + 1\<rparr>
           (coin_accounts (coin_ensured ?u s))\<rparr>"
  have bal: "balance_of s' v = balance_of s v + (if v = ?u then ?m else 0)" for v
  proof -
    have "balance_of s' v = (if v = ?u then balance_of s ?u + ?m else balance_of (coin_ensured ?u s) v)"
      unfolding s' balance_of_def [of "_\<lparr>coin_accounts := _\<rparr>"] balance_of_def [of "coin_ensured ?u s"]
      by (simp add: update_conv')
    then show ?thesis by simp
  qed
  have "coin_ledger s' = coin_ledger s @ [?row]" by (simp add: s')
  moreover have "cl_key ` set [?row] \<inter> cl_key ` set (coin_ledger s) = {}"
    using ck by (auto simp: coin_ledger_checks_def)
  moreover have "\<forall>v. balance_of s' v = balance_of s v + ledger_sum cl_user cl_amount [?row] v"
    by (simp add: bal ledger_sum_def)
  ultimately show "coin_extends s s'" unfolding extends_def by (intro exI [of _ "[?row]"]) simp
qed

lemma coin_apply_Inr:
  "coin_apply input s = Inr (m, s') \<longleftrightarrow>
   (\<exists>r l. applyWithin input None s = Inr (r, s') \<and> cp_ledger_id r = Some l
     \<and> m = \<lparr>cm_applied = cp_applied r, cm_ledger_id = l, cm_balance = cp_balance r\<rparr>)"
  by (auto simp: coin_apply_def tx_simps)

lemma coin_apply_extends: "tx_rel coin_extends (coin_apply input)"
  using applyWithin_extends [of input None] by (auto simp: tx_rel_def coin_apply_Inr)

lemma coin_apply_frame: "coin_apply input s = Inr (m, s') \<Longrightarrow> coin_frame s s'"
  by (auto simp: coin_apply_Inr dest: applyWithin_frame)

lemma penalizeWithin_extends: "tx_rel coin_extends (penalizeWithin input)"
  using applyWithin_extends
  by (auto simp: penalizeWithin_def Let_def intro!: tx_rel_rules extends_reflp extends_transp)

lemma penalizeWithin_frame: "penalizeWithin input s = Inr (r, s') \<Longrightarrow> coin_frame s s'"
  by (auto simp: penalizeWithin_def Let_def tx_simps coin_frame_refl split: if_splits
      dest: applyWithin_frame)

lemma reverseWithin_extends: "tx_rel coin_extends (reverseWithin i rc acty ai md)"
  unfolding reverseWithin_def
  by (intro tx_rel_rules extends_reflp extends_transp coin_apply_extends)

lemma reverseWithin_frame: "reverseWithin i rc acty ai md s = Inr (r, s') \<Longrightarrow> coin_frame s s'"
  by (auto simp: reverseWithin_def tx_simps dest: coin_apply_frame)

interpretation coin_apply: ledger coin_ledger balance_of cl_user cl_amount cl_key coin_apply
  by unfold_locales (rule coin_apply_extends)

interpretation coin_penalize: ledger coin_ledger balance_of cl_user cl_amount cl_key penalizeWithin
  by unfold_locales (rule penalizeWithin_extends)

section \<open>The invariant of the coin tables\<close>

definition last_after :: "coin_ledger_row list \<Rightarrow> id \<Rightarrow> int" where
  "last_after rows u = (case filter (\<lambda>r. cl_user r = u) rows of [] \<Rightarrow> 0 | r # rs \<Rightarrow> cl_after (last (r # rs)))"

text \<open>Every row starts from the balance the previous row of its user left.\<close>

definition statement_chained :: "coin_ledger_row list \<Rightarrow> bool" where
  "statement_chained rows \<longleftrightarrow>
     (\<forall>xs r ys. rows = xs @ r # ys \<longrightarrow>
        cl_before r = last_after xs (cl_user r) \<and> cl_after r = cl_before r + cl_amount r \<and> 0 \<le> cl_after r)"

text \<open>A reversal undoes one forward row of the same user, by the opposite amount.\<close>

definition reversals_ok :: "coin_ledger_row list \<Rightarrow> bool" where
  "reversals_ok rows \<longleftrightarrow>
     (\<forall>r\<in>set rows. \<forall>i. cl_reverses r = Some i \<longrightarrow>
        (\<exists>orig\<in>set rows. cl_id orig = i \<and> cl_type orig \<noteq> REVERSAL \<and> cl_user orig = cl_user r
           \<and> cl_amount r = - cl_amount orig))
     \<and> distinct (map cl_reverses (filter (\<lambda>r. cl_reverses r \<noteq> None) rows))"

definition coin_wf :: "db \<Rightarrow> bool" where
  "coin_wf s \<longleftrightarrow>
     ledger_ok coin_ledger balance_of cl_user cl_amount cl_key s
     \<and> distinct (map fst (coin_accounts s))
     \<and> (\<forall>u. 0 \<le> balance_of s u) \<and> (\<forall>u. last_after (coin_ledger s) u = balance_of s u)
     \<and> distinct (map cl_id (coin_ledger s)) \<and> (\<forall>r\<in>set (coin_ledger s). cl_id r < next_id s)
     \<and> statement_chained (coin_ledger s) \<and> reversals_ok (coin_ledger s)"

lemma last_after_snoc: "last_after (rows @ [r]) u = (if cl_user r = u then cl_after r else last_after rows u)"
  by (cases "filter (\<lambda>r. cl_user r = u) rows") (auto simp: last_after_def)

lemma statement_chained_snoc:
  "statement_chained rows \<Longrightarrow> cl_before r = last_after rows (cl_user r) \<Longrightarrow>
   cl_after r = cl_before r + cl_amount r \<Longrightarrow> 0 \<le> cl_after r \<Longrightarrow> statement_chained (rows @ [r])"
  unfolding statement_chained_def
  by (metis append_eq_append_conv2 append_Cons append_Nil append_self_conv butlast.simps(2) butlast_append
      butlast_snoc last.simps last_append last_snoc list.distinct(1))

lemma statement_chainedD:
  "statement_chained (xs @ r # ys) \<Longrightarrow> cl_before r = last_after xs (cl_user r)"
  by (simp add: statement_chained_def)

lemma reversals_ok_snoc:
  assumes "reversals_ok rows"
    and "\<And>i. cl_reverses r = Some i \<Longrightarrow> (\<forall>q\<in>set rows. cl_reverses q \<noteq> Some i) \<and>
      (\<exists>orig\<in>set rows. cl_id orig = i \<and> cl_type orig \<noteq> REVERSAL \<and> cl_user orig = cl_user r
           \<and> cl_amount r = - cl_amount orig)"
  shows "reversals_ok (rows @ [r])"
  using assms unfolding reversals_ok_def
  by (cases "cl_reverses r") (auto 4 3)

lemma coin_wf_ensured: "coin_wf s \<Longrightarrow> coin_wf (coin_ensured u s)"
proof -
  assume wf: "coin_wf s"
  then have "distinct (map fst (coin_accounts (coin_ensured u s)))"
    by (auto simp: coin_wf_def coin_ensured_def distinct_update split: option.splits)
  moreover have "ledger_ok coin_ledger balance_of cl_user cl_amount cl_key (coin_ensured u s)"
    using wf by (simp add: coin_wf_def ledger_ok_def)
  ultimately show ?thesis using wf by (simp add: coin_wf_def)
qed

lemma balance_of_nonneg: "coin_wf s \<Longrightarrow> 0 \<le> balance_of s u"
  by (simp add: coin_wf_def)

text \<open>What \<open>coin_wf\<close> needs of the row to be written when it is a reversal.\<close>

definition reverses_fine :: "coin_input \<Rightarrow> db \<Rightarrow> bool" where
  "reverses_fine input s \<longleftrightarrow> (\<forall>i. ci_reverses input = Some i \<longrightarrow>
      (\<exists>orig\<in>set (coin_ledger s). cl_id orig = i \<and> cl_type orig \<noteq> REVERSAL
         \<and> cl_user orig = ci_user input \<and> ci_amount input = - cl_amount orig))"

lemma applyWithin_wf:
  assumes run: "applyWithin input pen s = Inr (r, s')" and wf: "coin_wf s"
    and rev: "reverses_fine input s" and pen: "pen \<noteq> None \<Longrightarrow> ci_reverses input = None"
  shows "coin_wf s'"
  using run
proof (cases rule: applyWithin_effect)
  case (replay e)
  then show ?thesis using wf by (simp add: coin_wf_ensured)
next
  case zero
  then show ?thesis using wf by (simp add: coin_wf_ensured)
next
  case (appended a)
  let ?u = "ci_user input" and ?m = "moved_amount input pen s"
  let ?row = "coin_row input pen (balance_of s ?u) (clock s) (next_id s) ?m"
  have ok: "ledger_ok coin_ledger balance_of cl_user cl_amount cl_key s'"
    using tx_relD [OF applyWithin_extends run] wf by (auto simp: coin_wf_def intro: extends_ok)
  have led: "coin_ledger s' = coin_ledger s @ [?row]" and nid: "next_id s' = next_id s + 1"
    using appended(3) by simp_all
  have bal: "balance_of s' v = (if v = ?u then balance_of s ?u + ?m else balance_of s v)" for v
    using tx_relD [OF applyWithin_extends run] 
    by (auto simp: extends_def led ledger_sum_def)
  have after: "0 \<le> balance_of s ?u + ?m"
    using appended(2) by (simp add: coin_ledger_checks_def)
  have accounts: "distinct (map fst (coin_accounts s'))"
    using coin_wf_ensured [OF wf, of ?u] appended(3) by (simp add: coin_wf_def distinct_update)
  have "reversals_ok (coin_ledger s')" unfolding led
  proof (rule reversals_ok_snoc)
    show "reversals_ok (coin_ledger s)" using wf by (simp add: coin_wf_def)
    fix i assume "cl_reverses ?row = Some i"
    then have i: "ci_reverses input = Some i" by simp
    with pen have "pen = None" by (cases pen) auto
    then have "?m = ci_amount input" by (simp add: moved_amount_def)
    with i rev appended(2) show "(\<forall>q\<in>set (coin_ledger s). cl_reverses q \<noteq> Some i) \<and>
      (\<exists>orig\<in>set (coin_ledger s). cl_id orig = i \<and> cl_type orig \<noteq> REVERSAL
         \<and> cl_user orig = cl_user ?row \<and> cl_amount ?row = - cl_amount orig)"
      by (simp add: reverses_fine_def coin_ledger_checks_def)
  qed
  moreover have "statement_chained (coin_ledger s')" unfolding led
    using wf after by (intro statement_chained_snoc) (simp_all add: coin_wf_def)
  moreover have "distinct (map cl_id (coin_ledger s'))" "\<forall>r\<in>set (coin_ledger s'). cl_id r < next_id s'"
    using wf unfolding led nid coin_wf_def by (auto simp: less_Suc_eq)
  ultimately show ?thesis
    using ok accounts wf after by (simp add: coin_wf_def bal led last_after_snoc)
qed

section \<open>Runs of the service\<close>

text \<open>
  The three operations other services call. A caller of \<open>apply\<close> or \<open>penalize\<close> never names a
  row to reverse (only \<open>reverse\<close> sets it).
\<close>

datatype coin_op =
    Apply coin_input | Penalize coin_input
  | Reverse id string actor_type "id option" "jval option"

fun coin_step :: "coin_op \<Rightarrow> (error, db, unit) tx" where
  "coin_step (Apply input) = tx_bind (coin_apply (input\<lparr>ci_reverses := None\<rparr>)) (\<lambda>_. tx_return ())"
| "coin_step (Penalize input) = tx_bind (penalizeWithin (input\<lparr>ci_reverses := None\<rparr>)) (\<lambda>_. tx_return ())"
| "coin_step (Reverse i rc acty ai md) = tx_bind (reverseWithin i rc acty ai md) (\<lambda>_. tx_return ())"

fun coin_run :: "coin_op list \<Rightarrow> db \<Rightarrow> db" where
  "coin_run [] s = s"
| "coin_run (x # xs) s = coin_run xs (commit s (coin_step x s))"

lemma coin_step_extends: "tx_rel coin_extends (coin_step x)"
  by (cases x)
     (auto intro!: tx_rel_bind tx_rel_return extends_reflp extends_transp coin_apply_extends
       penalizeWithin_extends reverseWithin_extends)

interpretation coin_ops: ledger coin_ledger balance_of cl_user cl_amount cl_key coin_step
  by unfold_locales (rule coin_step_extends)

lemma coin_run_eq: "coin_ops.run xs s = coin_run xs s"
  by (induction xs arbitrary: s) simp_all

lemma reverses_fine_None [simp]: "reverses_fine (input\<lparr>ci_reverses := None\<rparr>) s"
  by (simp add: reverses_fine_def)

lemma coin_apply_wf:
  "coin_apply input s = Inr (m, s') \<Longrightarrow> coin_wf s \<Longrightarrow> reverses_fine input s \<Longrightarrow> coin_wf s'"
  by (auto simp: coin_apply_Inr intro: applyWithin_wf)

lemma penalizeWithin_zero:
  "ci_amount input = 0 \<Longrightarrow> penalizeWithin input s =
     Inr (\<lparr>cp_applied = False, cp_ledger_id = None, cp_charged = 0, cp_requested = 0,
           cp_balance = balance_of s (ci_user input)\<rparr>, s)"
  by (simp add: penalizeWithin_def)

lemma penalizeWithin_pos:
  "ci_amount input \<noteq> 0 \<Longrightarrow> penalizeWithin input s =
     applyWithin (input\<lparr>ci_amount := - \<bar>ci_amount input\<bar>\<rparr>) (Some \<bar>ci_amount input\<bar>) s"
  by (simp add: penalizeWithin_def Let_def)

lemma penalizeWithin_wf:
  assumes "penalizeWithin input s = Inr (r, s')" and "coin_wf s" and "ci_reverses input = None"
  shows "coin_wf s'"
proof (cases "ci_amount input = 0")
  case True
  with assms show ?thesis by (simp add: penalizeWithin_zero)
next
  case False
  show ?thesis
    by (rule applyWithin_wf [OF assms(1) [unfolded penalizeWithin_pos [OF False]] assms(2)])
       (simp_all add: reverses_fine_def assms(3))
qed

lemma coin_ledger_by_id_Some:
  "coin_ledger_by_id i s = Some r \<Longrightarrow> r \<in> set (coin_ledger s) \<and> cl_id r = i"
  unfolding coin_ledger_by_id_def by (rule find_key_mem)

lemma coin_ledger_by_key_Some:
  "coin_ledger_by_key k s = Some r \<Longrightarrow> r \<in> set (coin_ledger s) \<and> cl_key r = k"
  unfolding coin_ledger_by_key_def by (rule find_key_mem)

lemma coin_ledger_by_key_None:
  "coin_ledger_by_key k s = None \<longleftrightarrow> k \<notin> cl_key ` set (coin_ledger s)"
  by (auto simp: coin_ledger_by_key_def find_None_iff)

lemma reverseWithin_Inr:
  "reverseWithin i rc acty ai md s = Inr (m, s') \<longleftrightarrow>
   (\<exists>orig :: coin_ledger_row. coin_ledger_by_id i s = Some orig \<and> cl_type orig \<noteq> REVERSAL \<and>
     coin_apply \<lparr>ci_user = cl_user orig, ci_amount = - cl_amount orig, ci_type = REVERSAL,
        ci_reason = rc, ci_key = reversalKey (cl_id orig), ci_actor_type = acty, ci_actor_id = ai,
        ci_ref_type = cl_ref_type orig, ci_ref_id = cl_ref_id orig,
        ci_metadata = md, ci_reverses = Some (cl_id orig)\<rparr> s = Inr (m, s'))"
  by (auto simp: reverseWithin_def tx_simps)

lemma reverseWithin_wf:
  assumes "reverseWithin i rc acty ai md s = Inr (m, s')" and "coin_wf s"
  shows "coin_wf s'"
proof -
  from assms(1) obtain orig :: coin_ledger_row where o: "coin_ledger_by_id i s = Some orig" "cl_type orig \<noteq> REVERSAL"
    and run: "coin_apply \<lparr>ci_user = cl_user orig, ci_amount = - cl_amount orig, ci_type = REVERSAL,
        ci_reason = rc, ci_key = reversalKey (cl_id orig), ci_actor_type = acty, ci_actor_id = ai,
        ci_ref_type = cl_ref_type orig, ci_ref_id = cl_ref_id orig,
        ci_metadata = md, ci_reverses = Some (cl_id orig)\<rparr> s = Inr (m, s')"
    unfolding reverseWithin_Inr by blast
  from coin_ledger_by_id_Some [OF o(1)] o(2) show ?thesis
    by (intro coin_apply_wf [OF run assms(2)]) (auto simp: reverses_fine_def)
qed

lemma coin_step_wf:
  assumes "coin_step x s = Inr (u, s')" and wf: "coin_wf s"
  shows "coin_wf s'"
proof (cases x)
  case (Apply input)
  with assms(1) obtain m where "coin_apply (input\<lparr>ci_reverses := None\<rparr>) s = Inr (m, s')"
    by (auto simp: tx_simps)
  then show ?thesis by (rule coin_apply_wf [OF _ wf]) simp
next
  case (Penalize input)
  with assms(1) obtain m where "penalizeWithin (input\<lparr>ci_reverses := None\<rparr>) s = Inr (m, s')"
    by (auto simp: tx_simps)
  then show ?thesis by (rule penalizeWithin_wf [OF _ wf]) simp
next
  case (Reverse i rc acty ai md)
  with assms(1) obtain m where "reverseWithin i rc acty ai md s = Inr (m, s')"
    by (auto simp: tx_simps)
  then show ?thesis by (rule reverseWithin_wf [OF _ wf])
qed

lemma coin_run_wf: "coin_wf s \<Longrightarrow> coin_wf (coin_run xs s)"
proof (induction xs arbitrary: s)
  case Nil
  then show ?case by simp
next
  case (Cons x xs)
  then have "coin_wf (commit s (coin_step x s))"
    by (cases "coin_step x s") (auto dest: coin_step_wf)
  with Cons.IH show ?case by simp
qed

lemma findDrift_Nil: "coin_wf s \<Longrightarrow> findDrift n s = []"
proof -
  assume wf: "coin_wf s"
  have "ca_balance a = ledger_sum cl_user cl_amount (coin_ledger s) u" if "(u, a) \<in> set (coin_accounts s)" for u a
  proof -
    from wf that have "map_of (coin_accounts s) u = Some a" by (simp add: coin_wf_def)
    then have "balance_of s u = ca_balance a" by (simp add: balance_of_def)
    with wf show ?thesis by (simp add: coin_wf_def ledger_ok_def)
  qed
  then show ?thesis by (auto simp: findDrift_def filter_empty_conv)
qed

lemma coin_wf_empty: "coin_wf empty_db"
  by (simp add: coin_wf_def empty_db_def ledger_ok_def balance_of_def ledger_sum_def last_after_def
      statement_chained_def reversals_ok_def)

lemma coin_apply_succeeds_gen:
  assumes nz: "ci_amount input \<noteq> 0" and fresh: "coin_ledger_by_key (ci_key input) s = None"
    and rev: "(ci_type input = REVERSAL) = (ci_reverses input \<noteq> None)"
      "ci_reverses input \<noteq> None \<longrightarrow> (\<forall>q\<in>set (coin_ledger s). cl_reverses q \<noteq> ci_reverses input)"
    and range: "int4 (ci_amount input)" "int4 (balance_of s (ci_user input) + ci_amount input)"
    and pos: "0 \<le> balance_of s (ci_user input) + ci_amount input"
  obtains m s' where "coin_apply input s = Inr (m, s')"
     "cm_applied m" "cm_balance m = balance_of s (ci_user input) + ci_amount input"
     "coin_ledger s' = coin_ledger s @ [coin_row input None (balance_of s (ci_user input)) (clock s) (next_id s) (ci_amount input)]"
     "\<forall>u. balance_of s' u = balance_of s u + (if u = ci_user input then ci_amount input else 0)"
proof -
  let ?b = "balance_of s (ci_user input)" and ?s1 = "coin_ensured (ci_user input) s"
  let ?row = "\<lambda>i. coin_row input None ?b (clock s) i (ci_amount input)"
  obtain a where a: "map_of (coin_accounts ?s1) (ci_user input) = Some a" using coin_ensured_account by blast
  have ck: "coin_ledger_checks (?row (next_id s)) (coin_ledger s)"
    using nz rev range pos fresh by (auto simp: coin_ledger_checks_def coin_ledger_by_key_None image_iff)
  have m: "moved_amount input None s = ci_amount input" by (simp add: moved_amount_def)
  let ?s2 = "?s1\<lparr>next_id := next_id s + 1, coin_ledger := coin_ledger s @ [?row (next_id s)]\<rparr>"
  let ?s' = "?s2\<lparr>coin_accounts := AList.update (ci_user input)
      \<lparr>ca_balance = ?b + ci_amount input, ca_version = ca_version a + 1\<rparr> (coin_accounts ?s2)\<rparr>"
  have c: "coin_ledger_create ?row ?s1 = Inr (next_id s, ?s2)"
    using ck by (simp add: coin_ledger_create_Inr)
  have u: "coin_account_update (ci_user input) (?b + ci_amount input) ?s2 = Inr ((), ?s')"
    unfolding coin_account_update_Inr using range pos a by auto
  have "applyWithin input None s = Inr (\<lparr>cp_applied = True, cp_ledger_id = Some (next_id s),
      cp_charged = \<bar>ci_amount input\<bar>, cp_requested = \<bar>ci_amount input\<bar>, cp_balance = ?b + ci_amount input\<rparr>, ?s')"
    using nz pos by (simp add: applyWithin_new [OF nz fresh] Let_def m tx_bind_def c u [simplified])
  then show thesis
    by (intro that [of "\<lparr>cm_applied = True, cm_ledger_id = next_id s, cm_balance = ?b + ci_amount input\<rparr>" ?s'])
       (auto simp: coin_apply_Inr balance_of_def update_conv' coin_ensured_def split: option.splits)
qed

lemma coin_apply_succeeds:
  assumes "ci_amount input \<noteq> 0" and "coin_ledger_by_key (ci_key input) s = None"
    and "ci_reverses input = None" and "ci_type input \<noteq> REVERSAL"
    and "int4 (ci_amount input)" and "int4 (balance_of s (ci_user input) + ci_amount input)"
    and "0 \<le> balance_of s (ci_user input) + ci_amount input"
  obtains m s' where "coin_apply input s = Inr (m, s')"
     "cm_applied m" "cm_balance m = balance_of s (ci_user input) + ci_amount input"
     "coin_ledger s' = coin_ledger s @ [coin_row input None (balance_of s (ci_user input)) (clock s) (next_id s) (ci_amount input)]"
     "\<forall>u. balance_of s' u = balance_of s u + (if u = ci_user input then ci_amount input else 0)"
proof (rule coin_apply_succeeds_gen [OF assms(1,2) _ _ assms(5-7)])
  show "(ci_type input = REVERSAL) = (ci_reverses input \<noteq> None)" using assms(3,4) by simp
  show "ci_reverses input \<noteq> None \<longrightarrow> (\<forall>q\<in>set (coin_ledger s). cl_reverses q \<noteq> ci_reverses input)"
    using assms(3) by simp
qed (rule that)

text \<open>The row and the balances after a movement that was applied.\<close>

lemma applyWithin_applied:
  assumes run: "applyWithin input pen s = Inr (r, s')" and "cp_applied r"
  shows "balance_of s' u = balance_of s u + (if u = ci_user input then moved_amount input pen s else 0)"
    and "coin_ledger s' = coin_ledger s @ [coin_row input pen (balance_of s (ci_user input))
           (clock s) (next_id s) (moved_amount input pen s)]"
proof -
  from run have led: "coin_ledger s' = coin_ledger s @ [coin_row input pen (balance_of s (ci_user input))
           (clock s) (next_id s) (moved_amount input pen s)]"
    by (cases rule: applyWithin_effect) (use assms(2) in auto)
  then show "coin_ledger s' = coin_ledger s @ [coin_row input pen (balance_of s (ci_user input))
           (clock s) (next_id s) (moved_amount input pen s)]" .
  from tx_relD [OF applyWithin_extends run] led
  show "balance_of s' u = balance_of s u + (if u = ci_user input then moved_amount input pen s else 0)"
    by (auto simp: extends_def ledger_sum_def)
qed

lemma applyWithin_not_applied:
  assumes run: "applyWithin input pen s = Inr (r, s')" and "\<not> cp_applied r"
  shows "coin_ledger s' = coin_ledger s" and "balance_of s' u = balance_of s u"
  using run by (cases rule: applyWithin_effect, use assms(2) in auto)+

lemma penalty_never_insufficient:
  assumes wf: "coin_wf s" and ty: "ci_type input \<noteq> REVERSAL" and rv: "ci_reverses input = None"
    and r4: "int4 (ci_amount input)" "int4 (balance_of s (ci_user input))"
  shows "\<exists>r s'. penalizeWithin input s = Inr (r, s')"
proof (cases "ci_amount input = 0")
  case True
  then show ?thesis by (simp add: penalizeWithin_zero)
next
  case False
  let ?i = "input\<lparr>ci_amount := - \<bar>ci_amount input\<bar>\<rparr>" and ?b = "balance_of s (ci_user input)"
  let ?pen = "Some \<bar>ci_amount input\<bar>" and ?s1 = "coin_ensured (ci_user input) s"
  let ?m = "moved_amount ?i ?pen s"
  let ?row = "\<lambda>i. coin_row ?i ?pen ?b (clock s) i ?m"
  have nz: "ci_amount ?i \<noteq> 0" using False by simp
  have b: "0 \<le> ?b" by (rule balance_of_nonneg [OF wf])
  have m: "?m = - min \<bar>ci_amount input\<bar> ?b" by (auto simp: moved_amount_def)
  show ?thesis
  proof (cases "coin_ledger_by_key (ci_key ?i) s")
    case (Some e)
    then show ?thesis
      using penalizeWithin_pos [OF False, of s] applyWithin_replay [OF nz Some, of ?pen] by simp
  next
    case None
    have range: "0 \<le> ?b + ?m" "int4 (?b + ?m)" "int4 ?m" using b r4 m by (auto simp: int4_def min_def)
    show ?thesis
    proof (cases "?m = 0")
      case True
      then show ?thesis
        using penalizeWithin_pos [OF False, of s] applyWithin_new [OF nz None, of ?pen] b by (simp add: Let_def)
    next
      case nonzero: False
      obtain a where a: "map_of (coin_accounts ?s1) (ci_user input) = Some a"
        using coin_ensured_account by blast
      have ck: "coin_ledger_checks (?row (next_id s)) (coin_ledger s)"
        using nonzero range ty rv None
        by (auto simp: coin_ledger_checks_def coin_ledger_by_key_None image_iff)
      let ?s2 = "?s1\<lparr>next_id := next_id s + 1, coin_ledger := coin_ledger s @ [?row (next_id s)]\<rparr>"
      have c: "coin_ledger_create ?row ?s1 = Inr (next_id s, ?s2)"
        using ck by (simp add: coin_ledger_create_Inr)
      have "\<exists>s'. coin_account_update (ci_user input) (?b + ?m) ?s2 = Inr ((), s')"
        unfolding coin_account_update_Inr using range a by auto
      then obtain s' where u: "coin_account_update (ci_user input) (?b + ?m) ?s2 = Inr ((), s')" ..
      have "\<not> ?b + ?m < 0" using range by simp
      then have "\<exists>r. applyWithin ?i ?pen s = Inr (r, s')"
        using nonzero unfolding applyWithin_new [OF nz None] by (simp add: Let_def tx_bind_def c u [simplified])
      then show ?thesis using penalizeWithin_pos [OF False, of s] by auto
    qed
  qed
qed

text \<open>What a penalty under a fresh key takes.\<close>

lemma penalizeWithin_effect:
  assumes run: "penalizeWithin input s = Inr (r, s')" and wf: "coin_wf s"
    and fresh: "coin_ledger_by_key (ci_key input) s = None"
  shows "cp_charged r = min \<bar>ci_amount input\<bar> (balance_of s (ci_user input))
    \<and> cp_requested r = \<bar>ci_amount input\<bar>
    \<and> balance_of s' (ci_user input) = balance_of s (ci_user input) - cp_charged r
    \<and> 0 \<le> balance_of s' (ci_user input)"
proof (cases "ci_amount input = 0")
  case True
  with run balance_of_nonneg [OF wf] show ?thesis by (auto simp: penalizeWithin_zero min_def)
next
  case False
  let ?i = "input\<lparr>ci_amount := - \<bar>ci_amount input\<bar>\<rparr>" and ?b = "balance_of s (ci_user input)"
  let ?m = "moved_amount ?i (Some \<bar>ci_amount input\<bar>) s"
  note run' = run [unfolded penalizeWithin_pos [OF False]]
  have nz: "ci_amount ?i \<noteq> 0" and fr: "coin_ledger_by_key (ci_key ?i) s = None"
    using False fresh by simp_all
  have b: "0 \<le> ?b" by (rule balance_of_nonneg [OF wf])
  have m: "?m = - min \<bar>ci_amount input\<bar> ?b" by (auto simp: moved_amount_def)
  have req: "cp_requested r = \<bar>ci_amount input\<bar>"
    using run' b m unfolding applyWithin_new [OF nz fr]
    by (auto simp: Let_def tx_simps split: if_splits)
  show ?thesis
    using run'
  proof (cases rule: applyWithin_effect)
    case (replay e)
    with fr show ?thesis by simp
  next
    case zero
    with b m req show ?thesis by simp
  next
    case (appended a)
    with applyWithin_applied(1) [OF run', of "ci_user input"] b m req show ?thesis
      by (simp add: min_def split: if_splits)
  qed
qed

lemma penalizeWithin_others:
  assumes "penalizeWithin input s = Inr (r, s')" and "u \<noteq> ci_user input"
  shows "balance_of s' u = balance_of s u"
proof (cases "ci_amount input = 0")
  case True
  with assms(1) show ?thesis by (simp add: penalizeWithin_zero)
next
  case False
  note run = assms(1) [unfolded penalizeWithin_pos [OF False]]
  show ?thesis
  proof (cases "cp_applied r")
    case True
    then show ?thesis using applyWithin_applied(1) [OF run True, of u] assms(2) by simp
  next
    case not: False
    show ?thesis by (rule applyWithin_not_applied(2) [OF run not])
  qed
qed

section \<open>A sample database\<close>

text \<open>A user with 100 coins, used to apply the properties at a concrete state.\<close>

definition sample_movement :: "int \<Rightarrow> coin_ledger_type \<Rightarrow> string \<Rightarrow> coin_input" where
  "sample_movement a ty k =
     \<lparr>ci_user = 7, ci_amount = a, ci_type = ty, ci_reason = ''sample'', ci_key = k,
      ci_actor_type = A_SYSTEM, ci_actor_id = None, ci_ref_type = None, ci_ref_id = None,
      ci_metadata = None, ci_reverses = None\<rparr>"

lemma sample_movement_simps [simp]:
  "ci_user (sample_movement a ty k) = 7" "ci_amount (sample_movement a ty k) = a"
  "ci_type (sample_movement a ty k) = ty" "ci_key (sample_movement a ty k) = k"
  "ci_reverses (sample_movement a ty k) = None"
  by (simp_all add: sample_movement_def)

definition sample_db :: db where
  "sample_db = coin_run [Apply (sample_movement 100 ONBOARDING_REWARD ''welcome:7'')] empty_db"

lemma sample_db_wf: "coin_wf sample_db"
  unfolding sample_db_def by (rule coin_run_wf [OF coin_wf_empty])

lemma sample_db_balance: "balance_of sample_db 7 = 100"
  by code_simp

lemma sample_db_rows: "map cl_key (coin_ledger sample_db) = [''welcome:7'']"
  by code_simp

end
