(* ===== verification/Coin_Properties.thy ===== *)
theory Coin_Properties
  imports Coins
begin

text \<open>
  The properties of the coin ledger, over the operations of the theory Coins and the runs of
  them: no drift, exactly once, outcome of every movement, penalties and reversals.
\<close>

text \<open>C1. The nightly drift sweep finds nothing, and no balance is ever negative: after any
  sequence of movements, penalties and reversals, failed ones included, every cached balance
  equals the sum of its ledger rows.\<close>

theorem coins_never_drift:
  assumes "coin_wf s"
  shows "findDrift n (coin_run ops s) = [] \<and>
    (\<forall>u. 0 \<le> balance_of (coin_run ops s) u \<and>
         balance_of (coin_run ops s) u = ledger_sum cl_user cl_amount (coin_ledger (coin_run ops s)) u)"
  using coin_run_wf [OF assms, of ops]
  by (auto simp: findDrift_Nil balance_of_nonneg) (simp add: coin_wf_def ledger_ok_def)

text \<open>C3. Exactly once, append only: a run only adds rows behind the ones already there, and no
  idempotency key ever appears twice, however often a caller retries.\<close>

theorem coin_ledger_exactly_once:
  assumes "coin_wf s"
  shows "(\<exists>rs. coin_ledger (coin_run ops s) = coin_ledger s @ rs) \<and>
    count_where (\<lambda>r. cl_key r = k) (coin_ledger (coin_run ops s)) \<le> 1"
  using coin_ops.run_append_only [of ops s] coin_ops.run_once [of s k ops] assms
  by (simp add: coin_run_eq coin_wf_def)

text \<open>C4. A retry is recognised, however late: once a movement went through, posting the same
  input again, after any other activity, writes no row, moves no balance, and answers with the
  first row's id and \<open>applied = False\<close>.\<close>

theorem coin_retry_is_recognised:
  assumes "coin_apply input s = Inr (m, s1)"
  shows "\<exists>m' s3. coin_apply input (coin_run ops s1) = Inr (m', s3)
     \<and> cm_applied m' = False \<and> cm_ledger_id m' = cm_ledger_id m
     \<and> coin_ledger s3 = coin_ledger (coin_run ops s1)
     \<and> (\<forall>u. balance_of s3 u = balance_of (coin_run ops s1) u)"
proof -
  let ?s2 = "coin_run ops s1"
  from assms obtain r where run: "applyWithin input None s = Inr (r, s1)"
    and r: "cp_ledger_id r = Some (cm_ledger_id m)" by (auto simp: coin_apply_Inr)
  have nz: "ci_amount input \<noteq> 0" using run by (cases "ci_amount input = 0") auto
  have "\<exists>e. coin_ledger_by_key (ci_key input) s1 = Some e \<and> cl_id e = cm_ledger_id m"
    using run
  proof (cases rule: applyWithin_effect)
    case (replay e)
    with r show ?thesis by simp
  next
    case zero
    with r show ?thesis by simp
  next
    case (appended a)
    have "coin_ledger_by_key (ci_key input) s1 =
        (case coin_ledger_by_key (ci_key input) s of None \<Rightarrow> Some (coin_row input None
           (balance_of s (ci_user input)) (clock s) (next_id s) (moved_amount input None s)) | Some e \<Rightarrow> Some e)"
      unfolding appended(3) by (simp add: coin_ledger_by_key_def split: option.split)
    with appended(1,5) r show ?thesis by simp
  qed
  then obtain e where e: "coin_ledger_by_key (ci_key input) s1 = Some e" "cl_id e = cm_ledger_id m"
    by blast
  obtain rs where "coin_ledger ?s2 = coin_ledger s1 @ rs"
    using coin_ops.run_append_only [of ops s1] by (auto simp: coin_run_eq)
  with e(1) have "coin_ledger_by_key (ci_key input) ?s2 = Some e"
    by (simp add: coin_ledger_by_key_def)
  from applyWithin_replay [OF nz this, of None] e(2) show ?thesis
    by (auto simp: coin_apply_Inr)
qed

text \<open>C5. A spend or a credit under a new key does exactly what was asked, or is refused: with
  the result inside the column's range, it succeeds and moves the balance by the amount when
  that leaves it non-negative, and fails with \<open>INSUFFICIENT_COINS\<close> when it does not.\<close>


theorem coin_movement_outcome:
  assumes "ci_amount input \<noteq> 0" and "coin_ledger_by_key (ci_key input) s = None"
    and "ci_reverses input = None" and "ci_type input \<noteq> REVERSAL"
    and "int4 (ci_amount input)" and "int4 (balance_of s (ci_user input) + ci_amount input)"
  shows "if balance_of s (ci_user input) + ci_amount input < 0
    then coin_apply input s = Inl (AppError ''INSUFFICIENT_COINS''
           [(''balance'', JInt (balance_of s (ci_user input))), (''required'', JInt (- ci_amount input))])
    else \<exists>m s'. coin_apply input s = Inr (m, s') \<and> cm_applied m
       \<and> cm_balance m = balance_of s (ci_user input) + ci_amount input
       \<and> (\<forall>u. balance_of s' u = balance_of s u + (if u = ci_user input then ci_amount input else 0))"
proof (cases "balance_of s (ci_user input) + ci_amount input < 0")
  case True
  then show ?thesis
    using applyWithin_new [OF assms(1,2), of None]
    by (simp add: coin_apply_def tx_bind_InlI Let_def moved_amount_def)
next
  case False
  with coin_apply_succeeds [OF assms] show ?thesis by (metis leI)
qed

text \<open>A penalty never fails for lack of coins and never overdraws: under a fresh key it succeeds,
  charges the smaller of what the policy asks and what the account holds, moves nobody else's
  balance, and answers with both numbers.\<close>

lemma penalty_takes_what_is_there:
  assumes wf: "coin_wf s" and fresh: "coin_ledger_by_key (ci_key input) s = None"
    and ty: "ci_type input \<noteq> REVERSAL" and rv: "ci_reverses input = None"
    and range: "int4 (ci_amount input)" "int4 (balance_of s (ci_user input))"
  shows "\<exists>r s'. penalizeWithin input s = Inr (r, s')
    \<and> cp_charged r = min \<bar>ci_amount input\<bar> (balance_of s (ci_user input))
    \<and> cp_requested r = \<bar>ci_amount input\<bar>
    \<and> balance_of s' (ci_user input) = balance_of s (ci_user input) - cp_charged r
    \<and> 0 \<le> balance_of s' (ci_user input)
    \<and> (\<forall>u. u \<noteq> ci_user input \<longrightarrow> balance_of s' u = balance_of s u)"
proof -
  obtain r s' where run: "penalizeWithin input s = Inr (r, s')"
    using penalty_never_insufficient [OF wf ty rv range] by blast
  with penalizeWithin_effect [OF run wf fresh] penalizeWithin_others [OF run] show ?thesis by blast
qed

text \<open>C2. A reversal puts back exactly what the row took, once: it appends a \<open>REVERSAL\<close> row of
  the opposite amount pointing at the original; reversing the same row again, after any other
  activity, moves nothing; and the reversal row itself cannot be reversed.\<close>

theorem reversal_undoes_once:
  assumes wf: "coin_wf s" and run: "reverseWithin i rc acty ai md s = Inr (m, s1)" and app: "cm_applied m"
  shows "(\<exists>orig rev. orig \<in> set (coin_ledger s) \<and> cl_id orig = i \<and> coin_ledger s1 = coin_ledger s @ [rev]
       \<and> cl_id rev = cm_ledger_id m \<and> cl_type rev = REVERSAL \<and> cl_reverses rev = Some i
       \<and> cl_amount rev = - cl_amount orig
       \<and> (\<forall>u. balance_of s1 u = balance_of s u - (if u = cl_user orig then cl_amount orig else 0)))
    \<and> (\<exists>m' s3. reverseWithin i rc' acty' ai' md' (coin_run ops s1) = Inr (m', s3) \<and> cm_applied m' = False
         \<and> coin_ledger s3 = coin_ledger (coin_run ops s1)
         \<and> (\<forall>u. balance_of s3 u = balance_of (coin_run ops s1) u))
    \<and> reverseWithin (cm_ledger_id m) rc' acty' ai' md' (coin_run ops s1)
        = Inl (app_error ''INVALID_STATE_TRANSITION'')"
proof -
  let ?inp = "\<lambda>orig rc acty ai md. \<lparr>ci_user = cl_user orig, ci_amount = - cl_amount orig, ci_type = REVERSAL,
        ci_reason = rc, ci_key = reversalKey (cl_id orig), ci_actor_type = acty, ci_actor_id = ai,
        ci_ref_type = cl_ref_type orig, ci_ref_id = cl_ref_id orig,
        ci_metadata = md, ci_reverses = Some (cl_id orig)\<rparr>"
  from run obtain orig :: coin_ledger_row where o: "coin_ledger_by_id i s = Some orig" "cl_type orig \<noteq> REVERSAL"
    and ap: "coin_apply (?inp orig rc acty ai md) s = Inr (m, s1)"
    unfolding reverseWithin_Inr by blast
  have mem: "orig \<in> set (coin_ledger s)" and oid: "cl_id orig = i"
    using coin_ledger_by_id_Some [OF o(1)] by simp_all
  obtain r where w: "applyWithin (?inp orig rc acty ai md) None s = Inr (r, s1)"
    and r: "cp_applied r" "cp_ledger_id r = Some (cm_ledger_id m)"
    using ap app by (auto simp: coin_apply_Inr)
  define rev where "rev = coin_row (?inp orig rc acty ai md) None (balance_of s (cl_user orig)) (clock s)
    (next_id s) (- cl_amount orig)"
  have led: "coin_ledger s1 = coin_ledger s @ [rev]"
    using applyWithin_applied(2) [OF w r(1)] by (simp add: moved_amount_def rev_def)
  have lid: "cm_ledger_id m = next_id s"
    using w by (cases rule: applyWithin_effect) (use r in auto)
  have revs: "cl_id rev = cm_ledger_id m" "cl_type rev = REVERSAL" "cl_reverses rev = Some i"
    "cl_amount rev = - cl_amount orig" "cl_key rev = reversalKey i"
    by (simp_all add: rev_def lid oid)
  have bal: "balance_of s1 u = balance_of s u - (if u = cl_user orig then cl_amount orig else 0)" for u
    using applyWithin_applied(1) [OF w r(1), of u] by (simp add: moved_amount_def)
  have wf1: "coin_wf s1" by (rule reverseWithin_wf [OF run wf])
  let ?s2 = "coin_run ops s1"
  have wf2: "coin_wf ?s2" by (rule coin_run_wf [OF wf1])
  obtain rs where led2: "coin_ledger ?s2 = coin_ledger s1 @ rs"
    using coin_ops.run_append_only [of ops s1] by (auto simp: coin_run_eq)
  have ids: "distinct (map cl_id (coin_ledger ?s2))" using wf2 by (simp add: coin_wf_def)
  have o2: "coin_ledger_by_id i ?s2 = Some orig"
    using find_key_unique [OF ids, of orig] mem led led2 by (simp add: coin_ledger_by_id_def oid)
  have rev2: "coin_ledger_by_id (cm_ledger_id m) ?s2 = Some rev"
    using find_key_unique [OF ids, of rev] led led2 revs(1) by (simp add: coin_ledger_by_id_def)
  obtain m' s3 where retry: "coin_apply (?inp orig rc' acty' ai' md') ?s2 = Inr (m', s3)"
      "cm_applied m' = False" "coin_ledger s3 = coin_ledger ?s2"
      "\<forall>u. balance_of s3 u = balance_of ?s2 u"
  proof -
    have "rev \<in> set (coin_ledger ?s2)" using led led2 by simp
    moreover have "distinct (map cl_key (coin_ledger ?s2))" using wf2 by (simp add: coin_wf_def ledger_ok_def)
    ultimately have "coin_ledger_by_key (reversalKey i) ?s2 = Some rev"
      using find_key_unique [of cl_key "coin_ledger ?s2" rev] revs(5) by (simp add: coin_ledger_by_key_def)
    moreover have "cl_amount orig \<noteq> 0" using w by (cases "cl_amount orig = 0") auto
    ultimately have "applyWithin (?inp orig rc' acty' ai' md') None ?s2 =
        Inr (\<lparr>cp_applied = False, cp_ledger_id = Some (cl_id rev), cp_charged = \<bar>cl_amount rev\<bar>,
             cp_requested = \<bar>cl_amount rev\<bar>, cp_balance = balance_of ?s2 (cl_user orig)\<rparr>,
             coin_ensured (cl_user orig) ?s2)"
      using applyWithin_replay [of "?inp orig rc' acty' ai' md'" ?s2 rev None] oid by simp
    then have "coin_apply (?inp orig rc' acty' ai' md') ?s2 =
        Inr (\<lparr>cm_applied = False, cm_ledger_id = cl_id rev, cm_balance = balance_of ?s2 (cl_user orig)\<rparr>,
             coin_ensured (cl_user orig) ?s2)"
      by (simp add: coin_apply_Inr)
    then show thesis by (rule that) simp_all
  qed
  have "reverseWithin i rc' acty' ai' md' ?s2 = Inr (m', s3)"
    unfolding reverseWithin_Inr using o2 o(2) retry(1) by blast
  moreover have "reverseWithin (cm_ledger_id m) rc' acty' ai' md' ?s2 = Inl (app_error ''INVALID_STATE_TRANSITION'')"
    using rev2 revs(2) by (simp add: reverseWithin_def)
  ultimately show ?thesis using mem oid led revs bal retry by blast
qed


section \<open>Witnesses\<close>

theorem coins_never_drift_witness:
  "findDrift 5 (coin_run [Penalize (sample_movement 30 CANCELLATION_PENALTY ''penalty:7'')] sample_db) = []"
  using coins_never_drift [OF sample_db_wf] by blast

theorem coin_ledger_exactly_once_witness:
  "count_where (\<lambda>r. cl_key r = ''welcome:7'')
     (coin_ledger (coin_run [Apply (sample_movement 100 ONBOARDING_REWARD ''welcome:7'')] sample_db)) \<le> 1"
  using coin_ledger_exactly_once [OF sample_db_wf] by blast

theorem coin_retry_is_recognised_witness:
  "\<exists>m' s3. coin_apply (sample_movement (- 40) EVENT_JOIN_SPEND ''join:9'')
      (coin_run [Reverse 1 ''undo'' A_SYSTEM None None] (snd (projr
         (coin_apply (sample_movement (- 40) EVENT_JOIN_SPEND ''join:9'') sample_db)))) = Inr (m', s3)
    \<and> cm_applied m' = False"
proof -
  have "returns_such cm_applied (coin_apply (sample_movement (- 40) EVENT_JOIN_SPEND ''join:9'') sample_db)"
    by code_simp
  then obtain m s1 where run: "coin_apply (sample_movement (- 40) EVENT_JOIN_SPEND ''join:9'') sample_db = Inr (m, s1)"
    using returns_suchD by blast
  then show ?thesis using coin_retry_is_recognised [OF run, of "[Reverse 1 ''undo'' A_SYSTEM None None]"]
    by (simp add: run) blast
qed

theorem coin_movement_outcome_witness:
  "coin_apply (sample_movement (- 150) EVENT_JOIN_SPEND ''join:9'') sample_db =
     Inl (AppError ''INSUFFICIENT_COINS'' [(''balance'', JInt 100), (''required'', JInt 150)])"
proof -
  have "coin_ledger_by_key ''join:9'' sample_db = None" by code_simp
  then show ?thesis
    using coin_movement_outcome [of "sample_movement (- 150) EVENT_JOIN_SPEND ''join:9''" sample_db]
    by (simp add: sample_db_balance int4_def)
qed

lemma penalty_takes_what_is_there_witness:
  "\<exists>r s'. penalizeWithin (sample_movement 150 CANCELLATION_PENALTY ''penalty:7'') sample_db = Inr (r, s')
     \<and> cp_charged r = 100 \<and> balance_of s' 7 = 0"
proof -
  have "coin_ledger_by_key ''penalty:7'' sample_db = None" by code_simp
  then show ?thesis
    using penalty_takes_what_is_there [OF sample_db_wf, of "sample_movement 150 CANCELLATION_PENALTY ''penalty:7''"]
    by (auto simp: sample_db_balance int4_def)
qed

theorem reversal_undoes_once_witness:
  "\<exists>m s1. reverseWithin 1 ''undo'' A_SYSTEM None None sample_db = Inr (m, s1) \<and>
     (\<exists>orig rev. orig \<in> set (coin_ledger sample_db) \<and> coin_ledger s1 = coin_ledger sample_db @ [rev]
       \<and> cl_amount rev = - cl_amount orig)"
proof -
  have "returns_such cm_applied (reverseWithin 1 ''undo'' A_SYSTEM None None sample_db)"
    by code_simp
  then obtain m s1 where run: "reverseWithin 1 ''undo'' A_SYSTEM None None sample_db = Inr (m, s1)" and "cm_applied m"
    using returns_suchD by blast
  then show ?thesis using reversal_undoes_once [OF sample_db_wf run] by blast
qed

end
