(* ===== verification/Trust.thy ===== *)
theory Trust
  imports Ledger_Interface
begin

text \<open>
  The trust ledger (\<^verbatim>\<open>packages/domain/src/economy/trust.service.ts\<close>), the mirror of the coin
  ledger: the only code that writes \<^verbatim>\<open>trust_score\<close> or \<^verbatim>\<open>trust_score_ledger\<close>. It differs in
  one way: a movement is clamped to the range 0 to 100, a row stores what actually moved, and
  a movement clamped to nothing still writes a row, which consumes its key. The starting
  score is itself a row, written on the first movement.
\<close>

section \<open>The two tables\<close>

definition TRUST_MIN_SCORE :: int where "TRUST_MIN_SCORE = 0"
definition TRUST_MAX_SCORE :: int where "TRUST_MAX_SCORE = 100"
definition TRUST_ALGO_VERSION :: nat where "TRUST_ALGO_VERSION = 1"
definition TRUST_INITIAL_REASON :: string where "TRUST_INITIAL_REASON = ''trust.initial''"

definition trustInitialKey :: "id \<Rightarrow> string" where
  "trustInitialKey userId = ''trust-initial:'' @ show_id userId"

definition clampScore :: "int \<Rightarrow> int" where
  "clampScore score = min TRUST_MAX_SCORE (max TRUST_MIN_SCORE score)"

text \<open>The cached column, 0 where there is no row.\<close>

definition trust_cached :: "db \<Rightarrow> id \<Rightarrow> int" where
  "trust_cached s u = (case map_of (trust_scores s) u of None \<Rightarrow> 0 | Some x \<Rightarrow> x)"

text \<open>\<^verbatim>\<open>trustScore.createMany\<close> with \<^verbatim>\<open>skipDuplicates\<close>.\<close>

definition trust_score_ensure :: "id \<Rightarrow> (error, db, unit) tx" where
  "trust_score_ensure u = tx_modify (\<lambda>s.
     case map_of (trust_scores s) u of
       None \<Rightarrow> s\<lparr>trust_scores := AList.update u 0 (trust_scores s)\<rparr>
     | Some _ \<Rightarrow> s)"

definition trust_score_update :: "id \<Rightarrow> int \<Rightarrow> (error, db, unit) tx" where
  "trust_score_update u x =
     tx_bind (tx_guard (TRUST_MIN_SCORE \<le> x \<and> x \<le> TRUST_MAX_SCORE) (DbError ''trust_score_range'')) (\<lambda>_.
     tx_modify (\<lambda>s. s\<lparr>trust_scores := AList.update u x (trust_scores s)\<rparr>))"

definition trust_ledger_by_key :: "string \<Rightarrow> db \<Rightarrow> trust_ledger_row option" where
  "trust_ledger_by_key k s = find (\<lambda>r. tl_key r = k) (trust_ledger s)"

text \<open>The CHECK and UNIQUE constraints on an inserted row.\<close>

definition trust_ledger_checks :: "trust_ledger_row \<Rightarrow> trust_ledger_row list \<Rightarrow> bool" where
  "trust_ledger_checks r rows \<longleftrightarrow>
     TRUST_MIN_SCORE \<le> tl_before r \<and> tl_before r \<le> TRUST_MAX_SCORE
     \<and> TRUST_MIN_SCORE \<le> tl_after r \<and> tl_after r \<le> TRUST_MAX_SCORE
     \<and> tl_after r = tl_before r + tl_delta r
     \<and> (tl_type r = T_REVERSAL) = (tl_reverses r \<noteq> None)
     \<and> (\<forall>q\<in>set rows. tl_key q \<noteq> tl_key r)"

definition trust_ledger_create :: "(id \<Rightarrow> trust_ledger_row) \<Rightarrow> (error, db, id) tx" where
  "trust_ledger_create mk =
     tx_bind fresh_id (\<lambda>i.
     tx_bind (tx_read trust_ledger) (\<lambda>rows.
     tx_bind (tx_guard (trust_ledger_checks (mk i) rows) (DbError ''trust_score_ledger constraint'')) (\<lambda>_.
     tx_bind (tx_modify (\<lambda>s. s\<lparr>trust_ledger := trust_ledger s @ [mk i]\<rparr>)) (\<lambda>_.
     tx_return i))))"

section \<open>Movements\<close>

text \<open>The input of a movement; \<^verbatim>\<open>delta\<close> is an integer by type.\<close>

record trust_input =
  ti_user :: id
  ti_delta :: int
  ti_type :: trust_ledger_type
  ti_reason :: string
  ti_key :: string
  ti_actor_type :: actor_type
  ti_actor_id :: "id option"
  ti_ref_type :: "string option"
  ti_ref_id :: "id option"
  ti_metadata :: "jval option"

record trust_movement =
  tm_applied :: bool
  tm_ledger_id :: id
  tm_score :: int
  tm_effective :: int

text \<open>\<^verbatim>\<open>mergeMetadata\<close>, with the requested delta as the clamp record when there is one.\<close>

fun mergeMetadata :: "jval option \<Rightarrow> int option \<Rightarrow> jval option" where
  "mergeMetadata caller None = caller"
| "mergeMetadata None (Some d) = Some (JObj [(''requestedDelta'', JInt d)])"
| "mergeMetadata (Some (JObj kvs)) (Some d) = Some (JObj (AList.update ''requestedDelta'' (JInt d) kvs))"
| "mergeMetadata (Some v) (Some d) = Some (JObj [(''value'', v), (''requestedDelta'', JInt d)])"

definition requestedDeltaOf :: "jval option \<Rightarrow> rat option" where
  "requestedDeltaOf metadata =
     (case metadata of
        Some (JObj kvs) \<Rightarrow> (case map_of kvs ''requestedDelta'' of None \<Rightarrow> None | Some v \<Rightarrow> jval_number v)
      | _ \<Rightarrow> None)"

text \<open>\<^verbatim>\<open>writeRow\<close>: the row and the cached score, together. \<open>before\<close> is the score it starts from.\<close>

definition writeRow :: "trust_input \<Rightarrow> int \<Rightarrow> (error, db, id \<times> int \<times> int) tx" where
  "writeRow input before =
     (let scoreAfter = clampScore (before + ti_delta input);
          delta = scoreAfter - before;
          metadata = mergeMetadata (ti_metadata input)
                       (if delta = ti_delta input then None else Some (ti_delta input))
      in tx_bind (tx_read clock) (\<lambda>now.
         tx_bind (trust_ledger_create (\<lambda>i.
           \<lparr>tl_id = i, tl_user = ti_user input, tl_key = ti_key input, tl_type = ti_type input,
            tl_delta = delta, tl_before = before, tl_after = scoreAfter, tl_reason = ti_reason input,
            tl_algo = TRUST_ALGO_VERSION, tl_actor_type = ti_actor_type input,
            tl_actor_id = ti_actor_id input, tl_ref_type = ti_ref_type input,
            tl_ref_id = ti_ref_id input, tl_reverses = None, tl_metadata = metadata,
            tl_created_at = now\<rparr>)) (\<lambda>ledger.
         tx_bind (trust_score_update (ti_user input) scoreAfter) (\<lambda>_.
         tx_return (ledger, delta, scoreAfter)))))"

definition initial_input :: "id \<Rightarrow> int \<Rightarrow> trust_input" where
  "initial_input userId initial =
     \<lparr>ti_user = userId, ti_delta = initial, ti_type = T_INITIAL, ti_reason = TRUST_INITIAL_REASON,
      ti_key = trustInitialKey userId, ti_actor_type = A_SYSTEM, ti_actor_id = None,
      ti_ref_type = None, ti_ref_id = None, ti_metadata = None\<rparr>"

definition seedIfNeeded :: "id \<Rightarrow> int \<Rightarrow> (error, db, int) tx" where
  "seedIfNeeded userId score =
     tx_bind (tx_read (getInt ''trust.initial_score'')) (\<lambda>initial.
     if initial = 0 then tx_return score
     else
       tx_bind (tx_read (trust_ledger_by_key (trustInitialKey userId))) (\<lambda>seeded.
       case seeded of
         Some _ \<Rightarrow> tx_return score
       | None \<Rightarrow>
           tx_bind (writeRow (initial_input userId initial) score) (\<lambda>(_, _, scoreAfter).
           tx_return scoreAfter)))"

definition trust_apply :: "trust_input \<Rightarrow> (error, db, trust_movement) tx" where
  "trust_apply input =
     tx_bind (tx_guard (ti_delta input \<noteq> 0) (app_error ''INTERNAL_ERROR'')) (\<lambda>_.
     tx_bind (trust_score_ensure (ti_user input)) (\<lambda>_.
     tx_bind (tx_read (\<lambda>s. trust_cached s (ti_user input))) (\<lambda>locked.
     tx_bind (seedIfNeeded (ti_user input) locked) (\<lambda>score.
     tx_bind (tx_read (trust_ledger_by_key (ti_key input))) (\<lambda>existing.
     case existing of
       Some e \<Rightarrow> tx_return
         \<lparr>tm_applied = False, tm_ledger_id = tl_id e, tm_score = score, tm_effective = tl_delta e\<rparr>
     | None \<Rightarrow>
         tx_bind (writeRow input score) (\<lambda>(i, delta, scoreAfter).
         tx_return
           \<lparr>tm_applied = True, tm_ledger_id = i, tm_score = scoreAfter, tm_effective = delta\<rparr>))))))"

section \<open>Reads\<close>

definition scoreOf :: "id \<Rightarrow> db \<Rightarrow> int" where
  "scoreOf u s = (case map_of (trust_scores s) u of
     Some x \<Rightarrow> x | None \<Rightarrow> getInt ''trust.initial_score'' s)"

definition trust_historyOf :: "id \<Rightarrow> int \<Rightarrow> int \<Rightarrow> db \<Rightarrow> trust_ledger_row list" where
  "trust_historyOf u limit offset s =
     take (nat (min (max limit 1) 200))
       (drop (nat (max offset 0))
         (sort_key (\<lambda>r. - tl_created_at r) (filter (\<lambda>r. tl_user r = u) (trust_ledger s))))"

section \<open>What a movement does\<close>

abbreviation trust_extends :: "db \<Rightarrow> db \<Rightarrow> bool" where
  "trust_extends \<equiv> extends trust_ledger trust_cached tl_user tl_delta tl_key"

text \<open>The fields of the database a trust movement writes.\<close>

definition trust_frame :: "db \<Rightarrow> db \<Rightarrow> bool" where
  "trust_frame s s' \<longleftrightarrow> next_id s \<le> next_id s' \<and>
     s' = s\<lparr>trust_scores := trust_scores s', trust_ledger := trust_ledger s', next_id := next_id s'\<rparr>"

lemma trust_frame_refl: "trust_frame s s"
  by (simp add: trust_frame_def)

lemma trust_frame_trans: "trust_frame a b \<Longrightarrow> trust_frame b c \<Longrightarrow> trust_frame a c"
  unfolding trust_frame_def by (cases a; cases b; cases c) simp

lemma trust_frame_transp: "transp trust_frame"
  by (rule transpI) (rule trust_frame_trans)

lemma trust_frame_reflp: "reflp trust_frame"
  by (simp add: reflp_def trust_frame_refl)

lemma trust_frame_simps:
  assumes "trust_frame s s'"
  shows "clock s' = clock s" "app_timezone s' = app_timezone s" "settings s' = settings s"
    "users s' = users s" "profiles s' = profiles s" "founding_tiers s' = founding_tiers s"
    "events s' = events s" "participants s' = participants s" "coin_accounts s' = coin_accounts s"
    "coin_ledger s' = coin_ledger s" "audit_log s' = audit_log s" "outbox s' = outbox s"
    "next_id s \<le> next_id s'"
  using assms unfolding trust_frame_def by (cases s; cases s'; simp)+

lemma clampScore_range: "0 \<le> clampScore x \<and> clampScore x \<le> 100"
  by (simp add: clampScore_def TRUST_MIN_SCORE_def TRUST_MAX_SCORE_def)

lemma clampScore_id: "0 \<le> x \<Longrightarrow> x \<le> 100 \<Longrightarrow> clampScore x = x"
  by (simp add: clampScore_def TRUST_MIN_SCORE_def TRUST_MAX_SCORE_def)

text \<open>The row a movement writes.\<close>

definition trust_row :: "trust_input \<Rightarrow> int \<Rightarrow> instant \<Rightarrow> id \<Rightarrow> trust_ledger_row" where
  "trust_row input before now i =
     \<lparr>tl_id = i, tl_user = ti_user input, tl_key = ti_key input, tl_type = ti_type input,
      tl_delta = clampScore (before + ti_delta input) - before, tl_before = before,
      tl_after = clampScore (before + ti_delta input), tl_reason = ti_reason input,
      tl_algo = TRUST_ALGO_VERSION, tl_actor_type = ti_actor_type input,
      tl_actor_id = ti_actor_id input, tl_ref_type = ti_ref_type input,
      tl_ref_id = ti_ref_id input, tl_reverses = None,
      tl_metadata = mergeMetadata (ti_metadata input)
        (if clampScore (before + ti_delta input) - before = ti_delta input then None else Some (ti_delta input)),
      tl_created_at = now\<rparr>"

lemma trust_row_simps [simp]:
  "tl_id (trust_row input b now i) = i" "tl_user (trust_row input b now i) = ti_user input"
  "tl_key (trust_row input b now i) = ti_key input" "tl_type (trust_row input b now i) = ti_type input"
  "tl_delta (trust_row input b now i) = clampScore (b + ti_delta input) - b"
  "tl_before (trust_row input b now i) = b" "tl_after (trust_row input b now i) = clampScore (b + ti_delta input)"
  "tl_reverses (trust_row input b now i) = None" "tl_created_at (trust_row input b now i) = now"
  "tl_reason (trust_row input b now i) = ti_reason input"
  "tl_ref_type (trust_row input b now i) = ti_ref_type input"
  "tl_ref_id (trust_row input b now i) = ti_ref_id input"
  by (simp_all add: trust_row_def)

text \<open>The state after writing it.\<close>

definition trust_written :: "trust_input \<Rightarrow> int \<Rightarrow> db \<Rightarrow> db" where
  "trust_written input b s = s\<lparr>next_id := next_id s + 1,
     trust_ledger := trust_ledger s @ [trust_row input b (clock s) (next_id s)],
     trust_scores := AList.update (ti_user input) (clampScore (b + ti_delta input)) (trust_scores s)\<rparr>"

lemma trust_checks_row:
  "trust_ledger_checks (trust_row input b now i) rows \<longleftrightarrow>
   0 \<le> b \<and> b \<le> 100 \<and> ti_type input \<noteq> T_REVERSAL \<and> (\<forall>q\<in>set rows. tl_key q \<noteq> ti_key input)"
  using clampScore_range [of "b + ti_delta input"]
  by (auto simp: trust_ledger_checks_def TRUST_MIN_SCORE_def TRUST_MAX_SCORE_def)

lemma trust_ledger_by_key_None:
  "trust_ledger_by_key k s = None \<longleftrightarrow> (\<forall>q\<in>set (trust_ledger s). tl_key q \<noteq> k)"
  by (auto simp: trust_ledger_by_key_def find_None_iff)

lemma trust_ledger_by_key_Some:
  "trust_ledger_by_key k s = Some r \<Longrightarrow> r \<in> set (trust_ledger s) \<and> tl_key r = k"
  unfolding trust_ledger_by_key_def by (rule find_key_mem)

lemma writeRow_eq:
  "writeRow input b s =
     (if 0 \<le> b \<and> b \<le> 100 \<and> ti_type input \<noteq> T_REVERSAL \<and> trust_ledger_by_key (ti_key input) s = None
      then Inr ((next_id s, clampScore (b + ti_delta input) - b, clampScore (b + ti_delta input)),
                trust_written input b s)
      else Inl (DbError ''trust_score_ledger constraint''))"
proof -
  let ?row = "\<lambda>i. trust_row input b (clock s) i"
  have "writeRow input b s = tx_bind (trust_ledger_create ?row) (\<lambda>ledger.
      tx_bind (trust_score_update (ti_user input) (clampScore (b + ti_delta input))) (\<lambda>_.
      tx_return (ledger, clampScore (b + ti_delta input) - b, clampScore (b + ti_delta input)))) s"
    by (simp add: writeRow_def Let_def trust_row_def)
  also have "\<dots> = (if trust_ledger_checks (?row (next_id s)) (trust_ledger s)
      then Inr ((next_id s, clampScore (b + ti_delta input) - b, clampScore (b + ti_delta input)), trust_written input b s)
      else Inl (DbError ''trust_score_ledger constraint''))"
    using clampScore_range [of "b + ti_delta input"]
    by (simp add: trust_ledger_create_def trust_score_update_def tx_bind_def tx_guard_def
        TRUST_MIN_SCORE_def TRUST_MAX_SCORE_def trust_written_def)
  finally show ?thesis by (simp add: trust_checks_row trust_ledger_by_key_None)
qed

definition trust_ensured :: "id \<Rightarrow> db \<Rightarrow> db" where
  "trust_ensured u s = (case map_of (trust_scores s) u of
       None \<Rightarrow> s\<lparr>trust_scores := AList.update u 0 (trust_scores s)\<rparr>
     | Some _ \<Rightarrow> s)"

lemma trust_score_ensure_app [simp]: "trust_score_ensure u s = Inr ((), trust_ensured u s)"
  by (simp add: trust_score_ensure_def trust_ensured_def)

lemma trust_ensured_simps [simp]:
  "trust_ledger (trust_ensured u s) = trust_ledger s"
  "next_id (trust_ensured u s) = next_id s"
  "clock (trust_ensured u s) = clock s"
  "settings (trust_ensured u s) = settings s"
  "trust_cached (trust_ensured u s) v = trust_cached s v"
  "trust_ledger_by_key k (trust_ensured u s) = trust_ledger_by_key k s"
  by (auto simp: trust_ensured_def trust_cached_def trust_ledger_by_key_def update_conv'
      split: option.splits)

lemma getInt_settings: "settings s' = settings s \<Longrightarrow> getInt k s' = getInt k s"
  by (simp add: getInt_def setting_read_def)

lemma trust_ensured_frame: "trust_frame s (trust_ensured u s)"
  by (auto simp: trust_ensured_def trust_frame_def split: option.splits)

lemma trust_written_simps [simp]:
  "trust_ledger (trust_written input b s) = trust_ledger s @ [trust_row input b (clock s) (next_id s)]"
  "next_id (trust_written input b s) = next_id s + 1"
  "clock (trust_written input b s) = clock s"
  "settings (trust_written input b s) = settings s"
  "trust_cached (trust_written input b s) v =
     (if v = ti_user input then clampScore (b + ti_delta input) else trust_cached s v)"
  "trust_ledger_by_key k (trust_written input b s) =
     (case trust_ledger_by_key k s of
        None \<Rightarrow> if k = ti_key input then Some (trust_row input b (clock s) (next_id s)) else None
      | Some r \<Rightarrow> Some r)"
  by (auto simp: trust_written_def trust_cached_def trust_ledger_by_key_def update_conv' split: option.split)

lemma trust_written_frame: "trust_frame s (trust_written input b s)"
  by (simp add: trust_written_def trust_frame_def)

lemma trust_written_extends:
  assumes "b = trust_cached s (ti_user input)" and "trust_ledger_by_key (ti_key input) s = None"
  shows "trust_extends s (trust_written input b s)"
  unfolding extends_def
  by (rule exI [of _ "[trust_row input b (clock s) (next_id s)]"])
     (use assms in \<open>auto simp: ledger_sum_def trust_ledger_by_key_None\<close>)

text \<open>Whether the next movement of a user writes the starting score first.\<close>

definition seeds :: "id \<Rightarrow> db \<Rightarrow> bool" where
  "seeds u s \<longleftrightarrow> getInt ''trust.initial_score'' s \<noteq> 0 \<and> trust_ledger_by_key (trustInitialKey u) s = None"

definition seeded :: "id \<Rightarrow> db \<Rightarrow> db" where
  "seeded u s =
     (let s1 = trust_ensured u s
      in if seeds u s
         then trust_written (initial_input u (getInt ''trust.initial_score'' s)) (trust_cached s u) s1
         else s1)"

lemma initial_input_simps [simp]:
  "ti_user (initial_input u d) = u" "ti_delta (initial_input u d) = d"
  "ti_type (initial_input u d) = T_INITIAL" "ti_key (initial_input u d) = trustInitialKey u"
  by (simp_all add: initial_input_def)

text \<open>
  The whole operation as an equation: start from the seeded state; recognise the key, or
  write one row.
\<close>

lemma trust_apply_eq:
  assumes nz: "ti_delta input \<noteq> 0" and range: "0 \<le> trust_cached s (ti_user input)" "trust_cached s (ti_user input) \<le> 100"
  shows "trust_apply input s =
    (let s1 = seeded (ti_user input) s; b = trust_cached s1 (ti_user input)
     in case trust_ledger_by_key (ti_key input) s1 of
          Some e \<Rightarrow> Inr (\<lparr>tm_applied = False, tm_ledger_id = tl_id e, tm_score = b, tm_effective = tl_delta e\<rparr>, s1)
        | None \<Rightarrow>
            if ti_type input = T_REVERSAL then Inl (DbError ''trust_score_ledger constraint'')
            else Inr (\<lparr>tm_applied = True, tm_ledger_id = next_id s1, tm_score = clampScore (b + ti_delta input),
                       tm_effective = clampScore (b + ti_delta input) - b\<rparr>, trust_written input b s1))"
proof -
  let ?u = "ti_user input" and ?s0 = "trust_ensured (ti_user input) s" and ?s1 = "seeded (ti_user input) s"
  have i: "getInt k ?s0 = getInt k s" for k by (rule getInt_settings) simp
  have seed: "seedIfNeeded ?u (trust_cached s ?u) ?s0 = Inr (trust_cached ?s1 ?u, ?s1)"
  proof (cases "seeds ?u s")
    case True
    then have "getInt ''trust.initial_score'' s \<noteq> 0" "trust_ledger_by_key (trustInitialKey ?u) s = None"
      by (simp_all add: seeds_def)
    then show ?thesis using range True
      by (simp add: seedIfNeeded_def i writeRow_eq tx_bind_def seeded_def Let_def)
  next
    case False
    then show ?thesis
      by (auto simp: seedIfNeeded_def i seeded_def Let_def seeds_def split: option.split)
  qed
  have b: "0 \<le> trust_cached ?s1 ?u" "trust_cached ?s1 ?u \<le> 100"
    using range clampScore_range by (simp_all add: seeded_def Let_def)
  show ?thesis
    using nz b
    by (simp add: trust_apply_def tx_bind_InrI seed Let_def writeRow_eq tx_bind_def split: option.split)
qed

lemma trust_apply_Inr:
  assumes "trust_apply input s = Inr (m, s')"
  obtains
    (replay) e where "trust_ledger_by_key (ti_key input) (seeded (ti_user input) s) = Some e"
      "s' = seeded (ti_user input) s" "tm_applied m = False" "tm_ledger_id m = tl_id e"
      "tm_effective m = tl_delta e" "tm_score m = trust_cached s' (ti_user input)"
  | (appended) b where "b = trust_cached (seeded (ti_user input) s) (ti_user input)"
      "trust_ledger_by_key (ti_key input) (seeded (ti_user input) s) = None"
      "s' = trust_written input b (seeded (ti_user input) s)" "0 \<le> b" "b \<le> 100"
      "tm_applied m = True" "tm_ledger_id m = next_id (seeded (ti_user input) s)"
      "tm_score m = clampScore (b + ti_delta input)" "tm_effective m = clampScore (b + ti_delta input) - b"
proof -
  let ?u = "ti_user input" and ?s0 = "trust_ensured (ti_user input) s"
  have i: "getInt k ?s0 = getInt k s" for k by (rule getInt_settings) simp
  from assms obtain b s1 where seed: "seedIfNeeded ?u (trust_cached s ?u) ?s0 = Inr (b, s1)"
    and rest: "(case trust_ledger_by_key (ti_key input) s1 of
       Some e \<Rightarrow> tx_return
         \<lparr>tm_applied = False, tm_ledger_id = tl_id e, tm_score = b, tm_effective = tl_delta e\<rparr>
     | None \<Rightarrow>
         tx_bind (writeRow input b) (\<lambda>(i, delta, scoreAfter).
         tx_return
           \<lparr>tm_applied = True, tm_ledger_id = i, tm_score = scoreAfter, tm_effective = delta\<rparr>)) s1 = Inr (m, s')"
    by (auto simp: trust_apply_def tx_simps)
  from seed have "s1 = seeded ?u s \<and> b = trust_cached s1 ?u"
    by (auto simp: seedIfNeeded_def i seeded_def Let_def seeds_def tx_simps writeRow_eq tx_bind_def
        split: if_splits option.splits)
  then have s1: "s1 = seeded ?u s" and b: "b = trust_cached s1 ?u" by simp_all
  show thesis
  proof (cases "trust_ledger_by_key (ti_key input) s1")
    case (Some e)
    with rest have "m = \<lparr>tm_applied = False, tm_ledger_id = tl_id e, tm_score = b, tm_effective = tl_delta e\<rparr>"
      "s' = s1" by simp_all
    with Some b s1 show thesis by (intro replay [of e]) simp_all
  next
    case None
    with rest have r: "0 \<le> b" "b \<le> 100" "s' = trust_written input b s1"
      "m = \<lparr>tm_applied = True, tm_ledger_id = next_id s1, tm_score = clampScore (b + ti_delta input),
            tm_effective = clampScore (b + ti_delta input) - b\<rparr>"
      by (auto simp: tx_bind_def writeRow_eq split: if_splits)
    show thesis by (rule appended [of b]) (use r None b s1 in simp_all)
  qed
qed

lemma seeded_frame: "trust_frame s (seeded u s)"
  by (auto simp: seeded_def Let_def intro: trust_frame_trans trust_ensured_frame trust_written_frame)

lemma trust_ensured_extends: "trust_extends s (trust_ensured u s)"
  by (rule extends_unchanged) (simp_all add: fun_eq_iff)

lemma seeded_extends: "trust_extends s (seeded u s)"
proof (cases "seeds u s")
  case True
  then show ?thesis unfolding seeded_def Let_def
    by (simp add: seeds_def) (rule extends_trans [OF trust_ensured_extends trust_written_extends], simp_all)
next
  case False
  then show ?thesis by (simp add: seeded_def trust_ensured_extends)
qed

lemma trust_apply_extends: "tx_rel trust_extends (trust_apply input)"
proof (rule tx_relI)
  fix s m s' assume "trust_apply input s = Inr (m, s')"
  then show "trust_extends s s'"
  proof (cases rule: trust_apply_Inr)
    case (replay e)
    then show ?thesis by (simp add: seeded_extends)
  next
    case (appended b)
    then show ?thesis
      by (simp add: extends_trans [OF seeded_extends trust_written_extends])
  qed
qed

lemma trust_apply_frame: "trust_apply input s = Inr (m, s') \<Longrightarrow> trust_frame s s'"
  by (erule trust_apply_Inr) (auto intro: seeded_frame trust_frame_trans trust_written_frame)

interpretation trust_ledgers: ledger trust_ledger trust_cached tl_user tl_delta tl_key trust_apply
  by unfold_locales (rule trust_apply_extends)

section \<open>The invariant of the trust tables\<close>

definition trust_wf :: "db \<Rightarrow> bool" where
  "trust_wf s \<longleftrightarrow>
     ledger_ok trust_ledger trust_cached tl_user tl_delta tl_key s
     \<and> (\<forall>u. 0 \<le> trust_cached s u \<and> trust_cached s u \<le> 100)
     \<and> distinct (map tl_id (trust_ledger s)) \<and> (\<forall>r\<in>set (trust_ledger s). tl_id r < next_id s)"

lemma trust_wf_range: "trust_wf s \<Longrightarrow> 0 \<le> trust_cached s u" "trust_wf s \<Longrightarrow> trust_cached s u \<le> 100"
  by (simp_all add: trust_wf_def)

lemma trust_wf_ensured [simp]: "trust_wf (trust_ensured u s) = trust_wf s"
  by (simp add: trust_wf_def ledger_ok_def)

lemma trust_wf_written:
  assumes wf: "trust_wf s" and b: "b = trust_cached s (ti_user input)"
    and key: "trust_ledger_by_key (ti_key input) s = None"
  shows "trust_wf (trust_written input b s)"
proof -
  have "ledger_ok trust_ledger trust_cached tl_user tl_delta tl_key (trust_written input b s)"
    using extends_ok [OF _ trust_written_extends [OF b key]] wf by (simp add: trust_wf_def)
  then show ?thesis using wf clampScore_range by (auto simp: trust_wf_def less_Suc_eq)
qed

lemma trust_wf_seeded: "trust_wf s \<Longrightarrow> trust_wf (seeded u s)"
  by (auto simp: seeded_def Let_def seeds_def intro!: trust_wf_written)

lemma trust_apply_wf: "trust_apply input s = Inr (m, s') \<Longrightarrow> trust_wf s \<Longrightarrow> trust_wf s'"
  by (erule trust_apply_Inr) (auto intro: trust_wf_seeded trust_wf_written)

lemma trust_wf_empty: "trust_wf empty_db"
  by (simp add: trust_wf_def empty_db_def ledger_ok_def trust_cached_def ledger_sum_def)

fun trust_run :: "trust_input list \<Rightarrow> db \<Rightarrow> db" where
  "trust_run [] s = s"
| "trust_run (x # xs) s = trust_run xs (commit s (trust_apply x s))"

lemma trust_run_eq: "trust_ledgers.run xs s = trust_run xs s"
  by (induction xs arbitrary: s) simp_all

lemma trust_run_wf: "trust_wf s \<Longrightarrow> trust_wf (trust_run xs s)"
proof (induction xs arbitrary: s)
  case Nil
  then show ?case by simp
next
  case (Cons x xs)
  then have "trust_wf (commit s (trust_apply x s))"
    by (cases "trust_apply x s") (auto dest: trust_apply_wf)
  with Cons.IH show ?case by simp
qed

text \<open>A movement of a non-zero delta never fails.\<close>

lemma trust_apply_succeeds:
  assumes wf: "trust_wf s" and nz: "ti_delta input \<noteq> 0" and ty: "ti_type input \<noteq> T_REVERSAL"
  shows "\<exists>m s'. trust_apply input s = Inr (m, s')"
  using trust_apply_eq [OF nz trust_wf_range [OF wf]] ty
  by (auto simp: Let_def split: option.split)

lemma trust_key_kept:
  "trust_ledger_by_key k s = Some e \<Longrightarrow> trust_extends s s' \<Longrightarrow> trust_ledger_by_key k s' = Some e"
  by (auto simp: extends_def trust_ledger_by_key_def)

lemma trust_cached_seeded:
  "trust_cached (seeded u s) v =
     (if v = u \<and> seeds u s then clampScore (trust_cached s u + getInt ''trust.initial_score'' s)
      else trust_cached s v)"
  by (simp add: seeded_def Let_def)

lemma seeded_has_key: "seeds u s \<Longrightarrow> trust_ledger_by_key (trustInitialKey u) (seeded u s) \<noteq> None"
  by (simp add: seeded_def Let_def seeds_def)

lemma seeded_by_key: "k \<noteq> trustInitialKey u \<Longrightarrow> trust_ledger_by_key k (seeded u s) = trust_ledger_by_key k s"
  by (simp add: seeded_def Let_def split: option.split)

text \<open>The score a user's next movement starts from.\<close>

definition trust_start :: "id \<Rightarrow> db \<Rightarrow> int" where
  "trust_start u s =
     (if seeds u s then clampScore (trust_cached s u + getInt ''trust.initial_score'' s)
      else trust_cached s u)"

lemma trust_apply_outcome:
  assumes wf: "trust_wf s" and nz: "ti_delta input \<noteq> 0" and ty: "ti_type input \<noteq> T_REVERSAL"
    and fresh: "trust_ledger_by_key (ti_key input) s = None" "ti_key input \<noteq> trustInitialKey (ti_user input)"
  shows "\<exists>m s' row. trust_apply input s = Inr (m, s') \<and> tm_applied m
     \<and> tm_score m = min 100 (max 0 (trust_start (ti_user input) s + ti_delta input))
     \<and> tm_effective m = tm_score m - trust_start (ti_user input) s
     \<and> trust_cached s' (ti_user input) = tm_score m
     \<and> (\<forall>v. v \<noteq> ti_user input \<longrightarrow> trust_cached s' v = trust_cached s v)
     \<and> last (trust_ledger s') = row \<and> tl_key row = ti_key input \<and> tl_delta row = tm_effective m
     \<and> length (trust_ledger s') = length (trust_ledger s) + (if seeds (ti_user input) s then 2 else 1)"
proof -
  let ?u = "ti_user input" and ?s1 = "seeded (ti_user input) s"
  let ?b = "trust_cached ?s1 ?u"
  have None: "trust_ledger_by_key (ti_key input) ?s1 = None"
    using fresh by (simp add: seeded_by_key)
  have len: "length (trust_ledger ?s1) = length (trust_ledger s) + (if seeds ?u s then 1 else 0)"
    by (simp add: seeded_def Let_def)
  have b: "?b = trust_start ?u s" by (simp add: trust_start_def trust_cached_seeded)
  let ?m = "\<lparr>tm_applied = True, tm_ledger_id = next_id ?s1, tm_score = clampScore (?b + ti_delta input),
      tm_effective = clampScore (?b + ti_delta input) - ?b\<rparr>"
  let ?s' = "trust_written input ?b ?s1" and ?row = "trust_row input ?b (clock ?s1) (next_id ?s1)"
  have run: "trust_apply input s = Inr (?m, ?s')"
    using trust_apply_eq [OF nz trust_wf_range [OF wf]] ty by (simp add: Let_def None)
  show ?thesis
  proof (intro exI conjI)
    show "trust_apply input s = Inr (?m, ?s')" by (rule run)
    show "last (trust_ledger ?s') = ?row" by simp
    show "tm_score ?m = min 100 (max 0 (trust_start ?u s + ti_delta input))"
      by (simp add: b clampScore_def TRUST_MIN_SCORE_def TRUST_MAX_SCORE_def)
    show "\<forall>v. v \<noteq> ?u \<longrightarrow> trust_cached ?s' v = trust_cached s v" by (simp add: trust_cached_seeded)
  qed (simp_all add: len b)
qed

end
