(* ===== verification/Trust_Properties.thy ===== *)
theory Trust_Properties
  imports Trust
begin

text \<open>
  The properties of the trust ledger, over the operations of the theory Trust and the runs of
  them: no drift, a range that holds, the outcome of every movement, retries.
\<close>

text \<open>C6. The reputation never drifts and never leaves its range: after any sequence of movements,
  the cached score of every user equals the sum of that user's rows and lies between 0 and 100;
  rows are only appended and no key is used twice.\<close>

theorem trust_never_drifts:
  assumes "trust_wf s"
  shows "trust_cached (trust_run xs s) u = ledger_sum tl_user tl_delta (trust_ledger (trust_run xs s)) u
    \<and> 0 \<le> trust_cached (trust_run xs s) u \<and> trust_cached (trust_run xs s) u \<le> 100
    \<and> (\<exists>rs. trust_ledger (trust_run xs s) = trust_ledger s @ rs)
    \<and> count_where (\<lambda>r. tl_key r = k) (trust_ledger (trust_run xs s)) \<le> 1"
proof -
  note wf = trust_run_wf [OF assms, of xs]
  have "ledger_ok trust_ledger trust_cached tl_user tl_delta tl_key s" using assms by (simp add: trust_wf_def)
  from trust_ledgers.run_once [OF this, of k xs] trust_ledgers.run_append_only [of xs s]
  show ?thesis using trust_wf_range [OF wf] wf by (simp add: trust_run_eq trust_wf_def ledger_ok_def)
qed

text \<open>C7. A movement under a new key always goes through, whatever the score: the score moves by the
  delta clamped to the range, starting from the seeded initial score when the user has none yet,
  and a row under that key is written even when the clamp leaves nothing to move.\<close>

theorem trust_movement_outcome:
  assumes wf: "trust_wf s" and nz: "ti_delta input \<noteq> 0" and ty: "ti_type input \<noteq> T_REVERSAL"
    and fresh: "trust_ledger_by_key (ti_key input) s = None" "ti_key input \<noteq> trustInitialKey (ti_user input)"
  shows "\<exists>m s' row. trust_apply input s = Inr (m, s') \<and> tm_applied m
     \<and> tm_score m = min 100 (max 0 (trust_start (ti_user input) s + ti_delta input))
     \<and> tm_effective m = tm_score m - trust_start (ti_user input) s
     \<and> trust_cached s' (ti_user input) = tm_score m
     \<and> (\<forall>v. v \<noteq> ti_user input \<longrightarrow> trust_cached s' v = trust_cached s v)
     \<and> last (trust_ledger s') = row \<and> tl_key row = ti_key input \<and> tl_delta row = tm_effective m
     \<and> length (trust_ledger s') = length (trust_ledger s) + (if seeds (ti_user input) s then 2 else 1)"
  using assms by (rule trust_apply_outcome)

text \<open>A retry is recognised, however late: the same movement again, after any others, writes
  nothing and answers with the first row and its effect.\<close>

lemma trust_retry_is_recognised:
  assumes wf: "trust_wf s" and run: "trust_apply input s = Inr (m, s1)"
    and seed: "ti_key input \<noteq> trustInitialKey (ti_user input)" and nz: "ti_delta input \<noteq> 0"
  shows "\<exists>m'. trust_apply input (trust_run xs s1) = Inr (m', seeded (ti_user input) (trust_run xs s1))
     \<and> tm_applied m' = False \<and> tm_ledger_id m' = tm_ledger_id m \<and> tm_effective m' = tm_effective m"
proof -
  let ?u = "ti_user input" and ?s2 = "trust_run xs s1"
  have "\<exists>e. trust_ledger_by_key (ti_key input) s1 = Some e \<and> tl_id e = tm_ledger_id m \<and> tl_delta e = tm_effective m"
    using run by (cases rule: trust_apply_Inr) auto
  then obtain e where e: "trust_ledger_by_key (ti_key input) s1 = Some e" "tl_id e = tm_ledger_id m"
    "tl_delta e = tm_effective m" by blast
  have "trust_ledger_by_key (ti_key input) ?s2 = Some e"
    using trust_key_kept [OF e(1) trust_ledgers.run_extends [of s1 xs]] by (simp add: trust_run_eq)
  then have "trust_ledger_by_key (ti_key input) (seeded ?u ?s2) = Some e"
    using seed by (simp add: seeded_by_key)
  moreover have "trust_wf ?s2" by (rule trust_run_wf [OF trust_apply_wf [OF run wf]])
  ultimately show ?thesis
    using trust_apply_eq [OF nz trust_wf_range, of ?s2] e by (simp add: Let_def)
qed

section \<open>Witnesses\<close>

definition sample_trust :: "int \<Rightarrow> string \<Rightarrow> trust_input" where
  "sample_trust d k =
     \<lparr>ti_user = 7, ti_delta = d, ti_type = T_REVIEW, ti_reason = ''sample'', ti_key = k,
      ti_actor_type = A_SYSTEM, ti_actor_id = None, ti_ref_type = None, ti_ref_id = None, ti_metadata = None\<rparr>"

lemma sample_trust_simps [simp]:
  "ti_user (sample_trust d k) = 7" "ti_delta (sample_trust d k) = d" "ti_key (sample_trust d k) = k"
  "ti_type (sample_trust d k) = T_REVIEW"
  by (simp_all add: sample_trust_def)

lemma sample_initial_key: "trustInitialKey 7 = ''trust-initial:7''"
  by code_simp

theorem trust_never_drifts_witness:
  "trust_cached (trust_run [sample_trust 30 ''a'', sample_trust 40 ''b'', sample_trust (- 3) ''c''] empty_db) 7
   = ledger_sum tl_user tl_delta
       (trust_ledger (trust_run [sample_trust 30 ''a'', sample_trust 40 ''b'', sample_trust (- 3) ''c''] empty_db)) 7"
  using trust_never_drifts [OF trust_wf_empty] by blast

theorem trust_movement_outcome_witness:
  "\<exists>m s'. trust_apply (sample_trust 80 ''a'') empty_db = Inr (m, s') \<and> tm_score m = 100 \<and> tm_effective m = 50"
proof -
  have "trust_ledger_by_key ''a'' empty_db = None" "trust_start 7 empty_db = 50"
    by code_simp+
  then show ?thesis
    using trust_movement_outcome [OF trust_wf_empty, of "sample_trust 80 ''a''"]
    by (auto simp: sample_initial_key)
qed

lemma trust_retry_is_recognised_witness:
  "\<exists>m s1 m' s2. trust_apply (sample_trust 80 ''a'') empty_db = Inr (m, s1)
     \<and> trust_apply (sample_trust 80 ''a'') (trust_run [sample_trust (- 20) ''b''] s1) = Inr (m', s2)
     \<and> tm_applied m' = False"
proof -
  obtain m s1 where run: "trust_apply (sample_trust 80 ''a'') empty_db = Inr (m, s1)"
    using trust_apply_succeeds [OF trust_wf_empty, of "sample_trust 80 ''a''"] by auto
  show ?thesis
    using run trust_retry_is_recognised [OF trust_wf_empty run] by (fastforce simp: sample_initial_key)
qed

end
