(* ===== verification/Penalty.thy ===== *)
theory Penalty
  imports Coins Trust
begin

text \<open>
  Cancellation pricing (\<^verbatim>\<open>packages/domain/src/economy/penalty.service.ts\<close>): which bucket a
  moment falls in, what a bucket costs, and the charges and refunds, each of which moves both
  ledgers inside the caller's transaction.
\<close>

section \<open>Prices\<close>

record penalty_price =
  pp_coins :: int
  pp_trust :: int

record charged_penalty =
  ch_bucket :: cancellation_bucket
  ch_price :: penalty_price
  ch_coins :: int
  ch_trust :: int
  ch_ledger_id :: "id option"

definition FREE_BUCKETS :: "cancellation_bucket list" where
  "FREE_BUCKETS = [B_GRACE]"

fun COIN_KEYS :: "cancellation_bucket \<Rightarrow> string option" where
  "COIN_KEYS B_GT_24H = Some ''cancellation.coins_gt_24h''"
| "COIN_KEYS B_H24_TO_H3 = Some ''cancellation.coins_h24_to_h3''"
| "COIN_KEYS B_LT_3H = Some ''cancellation.coins_lt_3h''"
| "COIN_KEYS B_NO_SHOW = Some ''cancellation.coins_no_show''"
| "COIN_KEYS B_GRACE = None"

fun TRUST_KEYS :: "cancellation_bucket \<Rightarrow> string option" where
  "TRUST_KEYS B_GT_24H = Some ''cancellation.trust_gt_24h''"
| "TRUST_KEYS B_H24_TO_H3 = Some ''cancellation.trust_h24_to_h3''"
| "TRUST_KEYS B_LT_3H = Some ''cancellation.trust_lt_3h''"
| "TRUST_KEYS B_NO_SHOW = Some ''cancellation.trust_no_show''"
| "TRUST_KEYS B_GRACE = None"

fun bucket_name :: "cancellation_bucket \<Rightarrow> string" where
  "bucket_name B_GRACE = ''GRACE''"
| "bucket_name B_GT_24H = ''GT_24H''"
| "bucket_name B_H24_TO_H3 = ''H24_TO_H3''"
| "bucket_name B_LT_3H = ''LT_3H''"
| "bucket_name B_NO_SHOW = ''NO_SHOW''"

definition participantPenaltyKey :: "id \<Rightarrow> string" where
  "participantPenaltyKey participantId = ''cancel-penalty:'' @ show_id participantId"

definition participantTrustPenaltyKey :: "id \<Rightarrow> string" where
  "participantTrustPenaltyKey participantId = ''trust-cancel:'' @ show_id participantId"

definition hostPenaltyKey :: "id \<Rightarrow> string" where
  "hostPenaltyKey eventId = ''host-cancel-penalty:'' @ show_id eventId"

definition hostTrustPenaltyKey :: "id \<Rightarrow> string" where
  "hostTrustPenaltyKey eventId = ''trust-host-cancel:'' @ show_id eventId"

definition CANCEL_PENALTY_REASON :: string where "CANCEL_PENALTY_REASON = ''cancellation.participant_penalty''"
definition NO_SHOW_PENALTY_REASON :: string where "NO_SHOW_PENALTY_REASON = ''cancellation.no_show_penalty''"
definition HOST_PENALTY_REASON :: string where "HOST_PENALTY_REASON = ''cancellation.host_penalty''"
definition HOST_REFUND_REASON :: string where "HOST_REFUND_REASON = ''cancellation.host_refund''"

definition bucketForLateness :: "instant \<Rightarrow> instant \<Rightarrow> cancellation_bucket" where
  "bucketForLateness startsAt now =
     (let hoursBefore = (of_int (startsAt - now) / 3600000 :: rat)
      in if hoursBefore > 24 then B_GT_24H
         else if hoursBefore \<ge> 3 then B_H24_TO_H3
         else B_LT_3H)"

definition priceFor :: "cancellation_bucket \<Rightarrow> db \<Rightarrow> penalty_price" where
  "priceFor bucket s =
     (if List.member FREE_BUCKETS bucket then \<lparr>pp_coins = 0, pp_trust = 0\<rparr>
      else case (COIN_KEYS bucket, TRUST_KEYS bucket) of
             (Some coinKey, Some trustKey) \<Rightarrow>
               \<lparr>pp_coins = \<bar>getInt coinKey s\<bar>, pp_trust = \<bar>getInt trustKey s\<bar>\<rparr>
           | _ \<Rightarrow> \<lparr>pp_coins = 0, pp_trust = 0\<rparr>)"

text \<open>\<^verbatim>\<open>Math.round\<close> rounds a half up.\<close>

definition Math_round :: "rat \<Rightarrow> int" where
  "Math_round x = \<lfloor>x + 1 / 2\<rfloor>"

definition hostPriceFor :: "cancellation_bucket \<Rightarrow> db \<Rightarrow> penalty_price" where
  "hostPriceFor bucket s =
     \<lparr>pp_coins = Math_round (of_int (pp_coins (priceFor bucket s))
                              * getNumber ''cancellation.host_penalty_multiplier'' s),
      pp_trust = \<bar>if bucket = B_GT_24H then getInt ''cancellation.host_trust_gt24h'' s
                  else getInt ''cancellation.host_trust_lt24h'' s\<bar>\<rparr>"

section \<open>Charges\<close>

text \<open>
  \<^verbatim>\<open>lockAccounts\<close>: every account, once, in ascending order of user. Transactions are
  serialised, so what is left of the lock is the creation of the missing rows.
\<close>

definition lock_order :: "id list \<Rightarrow> id list" where
  "lock_order userIds = sort (remdups userIds)"

definition lockAccounts :: "id list \<Rightarrow> (error, db, unit) tx" where
  "lockAccounts userIds = tx_fold (\<lambda>u _. coin_account_ensure u) (lock_order userIds) ()"

definition participant_penalty_input :: "id \<Rightarrow> id \<Rightarrow> cancellation_bucket \<Rightarrow> id \<Rightarrow> int \<Rightarrow> coin_input" where
  "participant_penalty_input participantId userId bucket eventId coins =
     (let noShow = (bucket = B_NO_SHOW)
      in \<lparr>ci_user = userId, ci_amount = coins,
          ci_type = (if noShow then NO_SHOW_PENALTY else CANCELLATION_PENALTY),
          ci_reason = (if noShow then NO_SHOW_PENALTY_REASON else CANCEL_PENALTY_REASON),
          ci_key = participantPenaltyKey participantId,
          ci_actor_type = A_SYSTEM, ci_actor_id = None,
          ci_ref_type = Some ''event_participant'', ci_ref_id = Some participantId,
          ci_metadata = Some (JObj [(''bucket'', JStr (bucket_name bucket)), (''eventId'', JId eventId)]),
          ci_reverses = None\<rparr>)"

definition participant_trust_input :: "id \<Rightarrow> id \<Rightarrow> cancellation_bucket \<Rightarrow> int \<Rightarrow> trust_input" where
  "participant_trust_input participantId userId bucket trust =
     (let noShow = (bucket = B_NO_SHOW)
      in \<lparr>ti_user = userId, ti_delta = - trust,
          ti_type = (if noShow then T_NO_SHOW else T_CANCELLATION),
          ti_reason = (if noShow then NO_SHOW_PENALTY_REASON else CANCEL_PENALTY_REASON),
          ti_key = participantTrustPenaltyKey participantId,
          ti_actor_type = A_SYSTEM, ti_actor_id = None,
          ti_ref_type = Some ''event_participant'', ti_ref_id = Some participantId,
          ti_metadata = Some (JObj [(''bucket'', JStr (bucket_name bucket))])\<rparr>)"

definition chargeParticipant ::
  "id \<Rightarrow> id \<Rightarrow> cancellation_bucket \<Rightarrow> id \<Rightarrow> (error, db, charged_penalty) tx" where
  "chargeParticipant participantId userId bucket eventId =
     tx_bind (tx_read (priceFor bucket)) (\<lambda>price.
     tx_bind (penalizeWithin
       (participant_penalty_input participantId userId bucket eventId (pp_coins price))) (\<lambda>penalty.
     tx_bind
       (if pp_trust price > 0
        then tx_bind (trust_apply (participant_trust_input participantId userId bucket (pp_trust price)))
               (\<lambda>movement. tx_return (tm_effective movement))
        else tx_return 0) (\<lambda>trustApplied.
     tx_return
       \<lparr>ch_bucket = bucket, ch_price = price, ch_coins = cp_charged penalty,
        ch_trust = trustApplied, ch_ledger_id = cp_ledger_id penalty\<rparr>)))"

definition host_penalty_metadata :: "cancellation_bucket \<Rightarrow> int \<Rightarrow> jval option" where
  "host_penalty_metadata bucket affected =
     Some (JObj [(''bucket'', JStr (bucket_name bucket)), (''affected'', JInt affected)])"

definition chargeHost ::
  "id \<Rightarrow> id \<Rightarrow> cancellation_bucket \<Rightarrow> int \<Rightarrow> (error, db, charged_penalty) tx" where
  "chargeHost eventId hostUserId bucket affected =
     tx_bind (tx_read (\<lambda>s. if affected > 0 then hostPriceFor bucket s
                            else \<lparr>pp_coins = 0, pp_trust = 0\<rparr>)) (\<lambda>price.
     tx_bind (penalizeWithin
       \<lparr>ci_user = hostUserId, ci_amount = pp_coins price, ci_type = CANCELLATION_PENALTY,
        ci_reason = HOST_PENALTY_REASON, ci_key = hostPenaltyKey eventId,
        ci_actor_type = A_USER, ci_actor_id = Some hostUserId,
        ci_ref_type = Some ''event'', ci_ref_id = Some eventId,
        ci_metadata = host_penalty_metadata bucket affected, ci_reverses = None\<rparr>) (\<lambda>penalty.
     tx_bind
       (if pp_trust price > 0
        then tx_bind (trust_apply
          \<lparr>ti_user = hostUserId, ti_delta = - pp_trust price, ti_type = T_CANCELLATION,
           ti_reason = HOST_PENALTY_REASON, ti_key = hostTrustPenaltyKey eventId,
           ti_actor_type = A_USER, ti_actor_id = Some hostUserId,
           ti_ref_type = Some ''event'', ti_ref_id = Some eventId,
           ti_metadata = host_penalty_metadata bucket affected\<rparr>)
               (\<lambda>movement. tx_return (tm_effective movement))
        else tx_return 0) (\<lambda>trustApplied.
     tx_return
       \<lparr>ch_bucket = bucket, ch_price = price, ch_coins = cp_charged penalty,
        ch_trust = trustApplied, ch_ledger_id = cp_ledger_id penalty\<rparr>)))"

section \<open>Refunds\<close>

text \<open>The rows \<^verbatim>\<open>refundParticipant\<close> finds: what the participation cost, not yet reversed.\<close>

definition refundable :: "id \<Rightarrow> coin_ledger_row list \<Rightarrow> coin_ledger_row \<Rightarrow> bool" where
  "refundable participantId rows r \<longleftrightarrow>
     cl_ref_type r = Some ''event_participant'' \<and> cl_ref_id r = Some participantId
     \<and> cl_amount r < 0
     \<and> \<not> List.member [CANCELLATION_PENALTY, NO_SHOW_PENALTY, REVERSAL] (cl_type r)
     \<and> (\<forall>q\<in>set rows. cl_reverses q \<noteq> Some (cl_id r))"

definition refund_step :: "string \<Rightarrow> actor_type \<Rightarrow> id option \<Rightarrow> coin_ledger_row \<Rightarrow> int \<Rightarrow> (error, db, int) tx" where
  "refund_step reasonCode actorType actorId charge refunded =
     tx_bind (reverseWithin (cl_id charge) reasonCode actorType actorId None) (\<lambda>_.
     tx_return (refunded + \<bar>cl_amount charge\<bar>))"

definition refundParticipant ::
  "id \<Rightarrow> id \<Rightarrow> actor_type \<Rightarrow> string \<Rightarrow> (error, db, int) tx" where
  "refundParticipant participantId actorId actorType reasonCode =
     tx_bind (tx_read (\<lambda>s. filter (refundable participantId (coin_ledger s)) (coin_ledger s))) (\<lambda>charges.
     tx_fold (refund_step reasonCode actorType (Some actorId)) charges 0)"

section \<open>What the charges write\<close>

text \<open>The fields of the database the economy writes.\<close>

definition money_frame :: "db \<Rightarrow> db \<Rightarrow> bool" where
  "money_frame s s' \<longleftrightarrow> next_id s \<le> next_id s' \<and>
     s' = s\<lparr>coin_accounts := coin_accounts s', coin_ledger := coin_ledger s',
            trust_scores := trust_scores s', trust_ledger := trust_ledger s', next_id := next_id s'\<rparr>"

definition money_wf :: "db \<Rightarrow> bool" where
  "money_wf s \<longleftrightarrow> coin_wf s \<and> trust_wf s"

lemma money_frame_refl: "money_frame s s"
  by (simp add: money_frame_def)

lemma money_frame_trans: "money_frame a b \<Longrightarrow> money_frame b c \<Longrightarrow> money_frame a c"
  unfolding money_frame_def by (cases a; cases b; cases c) simp

lemma money_frame_reflp: "reflp money_frame"
  by (simp add: reflp_def money_frame_refl)

lemma money_frame_transp: "transp money_frame"
  by (rule transpI) (rule money_frame_trans)

lemma money_frame_simps:
  assumes "money_frame s s'"
  shows "clock s' = clock s" "app_timezone s' = app_timezone s" "settings s' = settings s"
    "users s' = users s" "profiles s' = profiles s" "founding_tiers s' = founding_tiers s"
    "events s' = events s" "participants s' = participants s"
    "audit_log s' = audit_log s" "outbox s' = outbox s" "next_id s \<le> next_id s'"
  using assms unfolding money_frame_def by (cases s; cases s'; simp)+

lemma coin_frame_money: "coin_frame s s' \<Longrightarrow> money_frame s s'"
  unfolding coin_frame_def money_frame_def by (cases s; cases s') simp

lemma trust_frame_money: "trust_frame s s' \<Longrightarrow> money_frame s s'"
  unfolding trust_frame_def money_frame_def by (cases s; cases s') simp

lemma trust_frame_coins:
  assumes "trust_frame s s'"
  shows "balance_of s' u = balance_of s u" "coin_ledger_by_key k s' = coin_ledger_by_key k s"
    "coin_extends s s'"
proof -
  have "balance_of s' = balance_of s" using trust_frame_simps(9) [OF assms] by (auto simp: balance_of_def)
  then show "balance_of s' u = balance_of s u" "coin_extends s s'"
    using trust_frame_simps(10) [OF assms] by (simp_all add: extends_unchanged)
  show "coin_ledger_by_key k s' = coin_ledger_by_key k s"
    using trust_frame_simps(10) [OF assms] by (simp add: coin_ledger_by_key_def)
qed

lemma coin_frame_trust:
  assumes "coin_frame s s'"
  shows "trust_cached s' u = trust_cached s u" "trust_ledger_by_key k s' = trust_ledger_by_key k s"
    "seeds u s' = seeds u s" "trust_extends s s'"
proof -
  note eq = coin_frame_simps(3,9,10) [OF assms]
  have "trust_cached s' = trust_cached s" using eq by (auto simp: trust_cached_def)
  then show "trust_cached s' u = trust_cached s u" "trust_extends s s'"
    using eq by (simp_all add: extends_unchanged)
  show "trust_ledger_by_key k s' = trust_ledger_by_key k s"
    using eq by (simp add: trust_ledger_by_key_def)
  show "seeds u s' = seeds u s"
    using getInt_settings [OF eq(1)] eq by (simp add: seeds_def trust_ledger_by_key_def)
qed

lemma coin_wf_trust_frame: "coin_wf s \<Longrightarrow> trust_frame s s' \<Longrightarrow> coin_wf s'"
  using trust_frame_simps(10,13) [of s s'] trust_frame_simps(9) [of s s'] trust_frame_coins(1) [of s s']
  by (auto simp: coin_wf_def ledger_ok_def)

lemma trust_wf_coin_frame: "trust_wf s \<Longrightarrow> coin_frame s s' \<Longrightarrow> trust_wf s'"
  using coin_frame_simps(9,10,13) [of s s'] coin_frame_trust(1) [of s s']
  by (auto simp: trust_wf_def ledger_ok_def)

lemma priceFor_settings: "settings s' = settings s \<Longrightarrow> priceFor b s' = priceFor b s"
  by (cases b) (simp_all add: priceFor_def getInt_settings [of s' s])

lemma priceFor_nonneg: "0 \<le> pp_coins (priceFor b s)" "0 \<le> pp_trust (priceFor b s)"
  by (cases b; simp add: priceFor_def)+

text \<open>The trust half of a charge, shared by the two of them.\<close>

definition trust_half :: "int \<Rightarrow> trust_input \<Rightarrow> (error, db, int) tx" where
  "trust_half price input =
     (if price > 0 then tx_bind (trust_apply input) (\<lambda>movement. tx_return (tm_effective movement))
      else tx_return 0)"

lemma trust_half_Inr:
  "trust_half price input s = Inr (d, s') \<longleftrightarrow>
   (if price > 0 then \<exists>m. trust_apply input s = Inr (m, s') \<and> d = tm_effective m else d = 0 \<and> s' = s)"
  by (auto simp: trust_half_def tx_simps)

lemma trust_half_frame: "tx_rel trust_frame (trust_half price input)"
  using trust_apply_frame by (auto simp: tx_rel_def trust_half_Inr trust_frame_refl split: if_splits)

lemma trust_half_extends: "tx_rel trust_extends (trust_half price input)"
  using tx_relD [OF trust_apply_extends]
  by (auto simp: tx_rel_def trust_half_Inr extends_refl split: if_splits)

lemma trust_half_wf: "trust_half price input s = Inr (d, s') \<Longrightarrow> trust_wf s \<Longrightarrow> trust_wf s'"
  by (auto simp: trust_half_Inr split: if_splits dest: trust_apply_wf)

definition charge :: "cancellation_bucket \<Rightarrow> penalty_price \<Rightarrow> coin_input \<Rightarrow> trust_input \<Rightarrow> (error, db, charged_penalty) tx" where
  "charge bucket price ci ti =
     tx_bind (penalizeWithin ci) (\<lambda>penalty.
     tx_bind (trust_half (pp_trust price) ti) (\<lambda>trustApplied.
     tx_return
       \<lparr>ch_bucket = bucket, ch_price = price, ch_coins = cp_charged penalty,
        ch_trust = trustApplied, ch_ledger_id = cp_ledger_id penalty\<rparr>))"

lemma chargeParticipant_charge:
  "chargeParticipant participantId userId bucket eventId s =
     (let price = priceFor bucket s in charge bucket price
        (participant_penalty_input participantId userId bucket eventId (pp_coins price))
        (participant_trust_input participantId userId bucket (pp_trust price)) s)"
  by (simp add: chargeParticipant_def charge_def trust_half_def Let_def)

definition host_price :: "cancellation_bucket \<Rightarrow> int \<Rightarrow> db \<Rightarrow> penalty_price" where
  "host_price bucket affected s =
     (if affected > 0 then hostPriceFor bucket s else \<lparr>pp_coins = 0, pp_trust = 0\<rparr>)"

definition host_penalty_input :: "id \<Rightarrow> id \<Rightarrow> cancellation_bucket \<Rightarrow> int \<Rightarrow> int \<Rightarrow> coin_input" where
  "host_penalty_input eventId hostUserId bucket affected coins =
     \<lparr>ci_user = hostUserId, ci_amount = coins, ci_type = CANCELLATION_PENALTY,
      ci_reason = HOST_PENALTY_REASON, ci_key = hostPenaltyKey eventId,
      ci_actor_type = A_USER, ci_actor_id = Some hostUserId,
      ci_ref_type = Some ''event'', ci_ref_id = Some eventId,
      ci_metadata = host_penalty_metadata bucket affected, ci_reverses = None\<rparr>"

definition host_trust_input :: "id \<Rightarrow> id \<Rightarrow> cancellation_bucket \<Rightarrow> int \<Rightarrow> int \<Rightarrow> trust_input" where
  "host_trust_input eventId hostUserId bucket affected trust =
     \<lparr>ti_user = hostUserId, ti_delta = - trust, ti_type = T_CANCELLATION,
      ti_reason = HOST_PENALTY_REASON, ti_key = hostTrustPenaltyKey eventId,
      ti_actor_type = A_USER, ti_actor_id = Some hostUserId,
      ti_ref_type = Some ''event'', ti_ref_id = Some eventId,
      ti_metadata = host_penalty_metadata bucket affected\<rparr>"

lemma chargeHost_charge:
  "chargeHost eventId hostUserId bucket affected s =
     (let price = host_price bucket affected s in charge bucket price
        (host_penalty_input eventId hostUserId bucket affected (pp_coins price))
        (host_trust_input eventId hostUserId bucket affected (pp_trust price)) s)"
  by (simp add: chargeHost_def charge_def trust_half_def Let_def host_price_def host_penalty_input_def
      host_trust_input_def)

lemma penalty_input_simps [simp]:
  "ci_user (participant_penalty_input p u b e c) = u" "ci_amount (participant_penalty_input p u b e c) = c"
  "ci_key (participant_penalty_input p u b e c) = participantPenaltyKey p"
  "ci_reverses (participant_penalty_input p u b e c) = None"
  "ci_type (participant_penalty_input p u b e c) \<noteq> REVERSAL"
  "ti_user (participant_trust_input p u b t) = u" "ti_delta (participant_trust_input p u b t) = - t"
  "ti_key (participant_trust_input p u b t) = participantTrustPenaltyKey p"
  "ti_type (participant_trust_input p u b t) \<noteq> T_REVERSAL"
  "ci_user (host_penalty_input e u b n c) = u" "ci_amount (host_penalty_input e u b n c) = c"
  "ci_key (host_penalty_input e u b n c) = hostPenaltyKey e"
  "ci_reverses (host_penalty_input e u b n c) = None"
  "ci_type (host_penalty_input e u b n c) \<noteq> REVERSAL"
  "ti_user (host_trust_input e u b n t) = u" "ti_delta (host_trust_input e u b n t) = - t"
  "ti_key (host_trust_input e u b n t) = hostTrustPenaltyKey e"
  "ti_type (host_trust_input e u b n t) \<noteq> T_REVERSAL"
  by (simp_all add: participant_penalty_input_def participant_trust_input_def Let_def
      host_penalty_input_def host_trust_input_def)

text \<open>A successful charge is a penalty on the coins followed by a movement of the trust.\<close>

lemma charge_Inr:
  assumes "charge bucket price ci ti s = Inr (c, s')"
  obtains r sm where "penalizeWithin ci s = Inr (r, sm)" "trust_half (pp_trust price) ti sm = Inr (ch_trust c, s')"
    "coin_frame s sm" "trust_frame sm s'" "ch_bucket c = bucket" "ch_price c = price"
    "ch_coins c = cp_charged r" "ch_ledger_id c = cp_ledger_id r"
proof -
  from assms obtain r sm where r: "penalizeWithin ci s = Inr (r, sm)"
    and rest: "tx_bind (trust_half (pp_trust price) ti) (\<lambda>trustApplied.
     tx_return
       \<lparr>ch_bucket = bucket, ch_price = price, ch_coins = cp_charged r,
        ch_trust = trustApplied, ch_ledger_id = cp_ledger_id r\<rparr>) sm = Inr (c, s')"
    unfolding charge_def tx_bind_Inr by blast
  then obtain d where d: "trust_half (pp_trust price) ti sm = Inr (d, s')"
    and c: "c = \<lparr>ch_bucket = bucket, ch_price = price, ch_coins = cp_charged r, ch_trust = d,
                 ch_ledger_id = cp_ledger_id r\<rparr>"
    unfolding tx_bind_Inr tx_return_Inr by blast
  show thesis
    by (rule that [OF r _ penalizeWithin_frame [OF r] tx_relD [OF trust_half_frame d]]) (use d c in simp_all)
qed

lemma charge_frame: "tx_rel money_frame (charge bucket price ci ti)"
  by (rule tx_relI, erule charge_Inr)
     (blast intro: money_frame_trans coin_frame_money trust_frame_money)

lemma charge_coin_extends: "tx_rel coin_extends (charge bucket price ci ti)"
  by (rule tx_relI, erule charge_Inr)
     (blast intro: extends_trans tx_relD [OF penalizeWithin_extends] trust_frame_coins(3))

lemma charge_trust_extends: "tx_rel trust_extends (charge bucket price ci ti)"
  by (rule tx_relI, erule charge_Inr)
     (blast intro: extends_trans tx_relD [OF trust_half_extends] coin_frame_trust(4))

lemma charge_wf:
  "charge bucket price ci ti s = Inr (c, s') \<Longrightarrow> ci_reverses ci = None \<Longrightarrow> money_wf s \<Longrightarrow> money_wf s'"
  by (erule charge_Inr, unfold money_wf_def)
     (blast intro: penalizeWithin_wf coin_wf_trust_frame trust_wf_coin_frame trust_half_wf)

lemma chargeParticipant_frame: "tx_rel money_frame (chargeParticipant p u b e)"
  by (rule tx_relI) (auto simp: chargeParticipant_charge Let_def dest: tx_relD [OF charge_frame])

lemma chargeParticipant_coin_extends: "tx_rel coin_extends (chargeParticipant p u b e)"
  by (rule tx_relI) (auto simp: chargeParticipant_charge Let_def dest: tx_relD [OF charge_coin_extends])

lemma chargeParticipant_trust_extends: "tx_rel trust_extends (chargeParticipant p u b e)"
  by (rule tx_relI) (auto simp: chargeParticipant_charge Let_def dest: tx_relD [OF charge_trust_extends])

lemma chargeParticipant_wf: "chargeParticipant p u b e s = Inr (c, s') \<Longrightarrow> money_wf s \<Longrightarrow> money_wf s'"
  by (auto simp: chargeParticipant_charge Let_def intro: charge_wf)

lemma chargeHost_frame: "tx_rel money_frame (chargeHost e u b n)"
  by (rule tx_relI) (auto simp: chargeHost_charge Let_def dest: tx_relD [OF charge_frame])

lemma chargeHost_coin_extends: "tx_rel coin_extends (chargeHost e u b n)"
  by (rule tx_relI) (auto simp: chargeHost_charge Let_def dest: tx_relD [OF charge_coin_extends])

lemma chargeHost_trust_extends: "tx_rel trust_extends (chargeHost e u b n)"
  by (rule tx_relI) (auto simp: chargeHost_charge Let_def dest: tx_relD [OF charge_trust_extends])

lemma chargeHost_wf: "chargeHost e u b n s = Inr (c, s') \<Longrightarrow> money_wf s \<Longrightarrow> money_wf s'"
  by (auto simp: chargeHost_charge Let_def intro: charge_wf)

section \<open>What a refund writes\<close>

text \<open>A key of the form \<open>reversal:<id>\<close> is only ever used by the row that reverses that id.\<close>

definition reversal_keys_reserved :: "db \<Rightarrow> bool" where
  "reversal_keys_reserved s \<longleftrightarrow>
     (\<forall>r\<in>set (coin_ledger s). \<forall>i. cl_key r = reversalKey i \<longrightarrow> cl_reverses r = Some i)"

definition reversed_in :: "id \<Rightarrow> coin_ledger_row list \<Rightarrow> bool" where
  "reversed_in i rows \<longleftrightarrow> (\<exists>q\<in>set rows. cl_reverses q = Some i)"

definition refund_sum :: "id \<Rightarrow> coin_ledger_row list \<Rightarrow> int" where
  "refund_sum u cs = sum_where (\<lambda>r. cl_user r = u) (\<lambda>r. \<bar>cl_amount r\<bar>) cs"

lemma reversalKey_inj [simp]: "reversalKey i = reversalKey j \<longleftrightarrow> i = j"
  by (simp add: reversalKey_def)

lemma refundable_iff:
  "refundable p rows r \<longleftrightarrow> cl_ref_type r = Some ''event_participant'' \<and> cl_ref_id r = Some p
     \<and> cl_amount r < 0 \<and> cl_type r \<noteq> CANCELLATION_PENALTY \<and> cl_type r \<noteq> NO_SHOW_PENALTY
     \<and> cl_type r \<noteq> REVERSAL \<and> \<not> reversed_in (cl_id r) rows"
  by (auto simp: refundable_def reversed_in_def)

definition reverse_input :: "coin_ledger_row \<Rightarrow> string \<Rightarrow> actor_type \<Rightarrow> id option \<Rightarrow> jval option \<Rightarrow> coin_input" where
  "reverse_input orig rc acty ai md =
     \<lparr>ci_user = cl_user orig, ci_amount = - cl_amount orig, ci_type = REVERSAL,
      ci_reason = rc, ci_key = reversalKey (cl_id orig), ci_actor_type = acty, ci_actor_id = ai,
      ci_ref_type = cl_ref_type orig, ci_ref_id = cl_ref_id orig,
      ci_metadata = md, ci_reverses = Some (cl_id orig)\<rparr>"

lemma reverse_input_simps [simp]:
  "ci_user (reverse_input c rc acty ai md) = cl_user c" "ci_amount (reverse_input c rc acty ai md) = - cl_amount c"
  "ci_type (reverse_input c rc acty ai md) = REVERSAL" "ci_key (reverse_input c rc acty ai md) = reversalKey (cl_id c)"
  "ci_reverses (reverse_input c rc acty ai md) = Some (cl_id c)"
  "ci_ref_type (reverse_input c rc acty ai md) = cl_ref_type c" "ci_ref_id (reverse_input c rc acty ai md) = cl_ref_id c"
  by (simp_all add: reverse_input_def)

lemma reverseWithin_known:
  assumes "coin_wf s" and "c \<in> set (coin_ledger s)" and "cl_type c \<noteq> REVERSAL"
  shows "reverseWithin (cl_id c) rc acty ai md s = coin_apply (reverse_input c rc acty ai md) s"
proof -
  have "coin_ledger_by_id (cl_id c) s = Some c"
    using assms find_key_unique [of cl_id "coin_ledger s" c] by (simp add: coin_ledger_by_id_def coin_wf_def)
  with assms(3) show ?thesis by (simp add: reverseWithin_def reverse_input_def)
qed

text \<open>Reversing a row nobody reversed yet.\<close>

lemma reverse_once:
  fixes c :: coin_ledger_row
  assumes wf: "coin_wf s" and res: "reversal_keys_reserved s" and c: "c \<in> set (coin_ledger s)"
    and ty: "cl_type c \<noteq> REVERSAL" and new: "\<not> reversed_in (cl_id c) (coin_ledger s)"
    and run: "reverseWithin (cl_id c) rc acty ai md s = Inr (m, s')"
  obtains rev where "coin_ledger s' = coin_ledger s @ [rev]" "cl_reverses rev = Some (cl_id c)"
    "cl_type rev = REVERSAL" "\<And>u. balance_of s' u = balance_of s u - (if u = cl_user c then cl_amount c else 0)"
    "coin_wf s'" "reversal_keys_reserved s'"
proof -
  let ?i = "reverse_input c rc acty ai md"
  from run obtain r where ap: "applyWithin ?i None s = Inr (r, s')" and r: "cp_ledger_id r = Some (cm_ledger_id m)"
    unfolding reverseWithin_known [OF wf c ty] coin_apply_Inr by auto
  have fresh: "coin_ledger_by_key (reversalKey (cl_id c)) s = None"
    using res new by (auto simp: coin_ledger_by_key_None reversal_keys_reserved_def reversed_in_def)
  have app: "cp_applied r"
    using ap by (cases rule: applyWithin_effect) (use r fresh in auto)
  let ?rev = "coin_row ?i None (balance_of s (cl_user c)) (clock s) (next_id s) (- cl_amount c)"
  have led: "coin_ledger s' = coin_ledger s @ [?rev]"
    using applyWithin_applied(2) [OF ap app] by (simp add: moved_amount_def)
  show thesis
  proof (rule that [OF led])
    show "balance_of s' u = balance_of s u - (if u = cl_user c then cl_amount c else 0)" for u
      using applyWithin_applied(1) [OF ap app, of u] by (simp add: moved_amount_def)
    show "coin_wf s'" by (rule reverseWithin_wf [OF run wf])
    show "reversal_keys_reserved s'" using res led by (auto simp: reversal_keys_reserved_def)
  qed simp_all
qed

lemma reverse_succeeds:
  assumes wf: "coin_wf s" and res: "reversal_keys_reserved s" and c: "c \<in> set (coin_ledger s)"
    and ty: "cl_type c \<noteq> REVERSAL" and new: "\<not> reversed_in (cl_id c) (coin_ledger s)"
    and neg: "cl_amount c < 0"
    and range: "int4 (- cl_amount c)" "int4 (balance_of s (cl_user c) - cl_amount c)"
  shows "\<exists>m s'. reverseWithin (cl_id c) rc acty ai md s = Inr (m, s')"
proof -
  have fresh: "coin_ledger_by_key (reversalKey (cl_id c)) s = None"
    using res new by (auto simp: coin_ledger_by_key_None reversal_keys_reserved_def reversed_in_def)
  have "\<forall>q\<in>set (coin_ledger s). cl_reverses q \<noteq> Some (cl_id c)" using new by (auto simp: reversed_in_def)
  then show ?thesis
    using coin_apply_succeeds_gen [of "reverse_input c rc acty ai md" s] fresh neg range
      balance_of_nonneg [OF wf, of "cl_user c"]
    unfolding reverseWithin_known [OF wf c ty] by (simp add: algebra_simps) metis
qed

lemma reversed_in_append [simp]: "reversed_in i (xs @ ys) \<longleftrightarrow> reversed_in i xs \<or> reversed_in i ys"
  by (auto simp: reversed_in_def)

lemma reversed_in_Cons [simp]: "reversed_in i (r # rs) \<longleftrightarrow> cl_reverses r = Some i \<or> reversed_in i rs"
  by (auto simp: reversed_in_def)

lemma reversed_in_Nil [simp]: "\<not> reversed_in i []"
  by (auto simp: reversed_in_def)

abbreviation refund_loop :: "string \<Rightarrow> actor_type \<Rightarrow> id option \<Rightarrow> coin_ledger_row list \<Rightarrow> int \<Rightarrow> (error, db, int) tx" where
  "refund_loop rc acty actor \<equiv> tx_fold (refund_step rc acty actor)"

lemma refund_step_Inr [tx_simps]:
  "refund_step rc acty actor c n s = Inr (n', s') \<longleftrightarrow> n' = n + \<bar>cl_amount c\<bar> \<and>
     (\<exists>m. reverseWithin (cl_id c) rc acty actor None s = Inr (m, s'))"
  by (auto simp: refund_step_def tx_bind_Inr tx_return_Inr)

text \<open>The rows a loop may still reverse.\<close>

definition to_reverse :: "coin_ledger_row list \<Rightarrow> db \<Rightarrow> bool" where
  "to_reverse cs s \<longleftrightarrow> distinct (map cl_id cs) \<and>
     (\<forall>c\<in>set cs. c \<in> set (coin_ledger s) \<and> cl_type c \<noteq> REVERSAL \<and> cl_amount c < 0
        \<and> \<not> reversed_in (cl_id c) (coin_ledger s))"

lemma refund_loop_effect:
  assumes "coin_wf s" "reversal_keys_reserved s" "to_reverse cs s"
    and "refund_loop rc acty actor cs n s = Inr (n', s')"
  shows "n' = n + sum_list (map (\<lambda>c. \<bar>cl_amount c\<bar>) cs)
    \<and> (\<forall>u. balance_of s' u = balance_of s u + refund_sum u cs)
    \<and> coin_wf s' \<and> reversal_keys_reserved s'
    \<and> (\<exists>rs. coin_ledger s' = coin_ledger s @ rs \<and> (\<forall>r\<in>set rs. cl_type r = REVERSAL))
    \<and> (\<forall>c\<in>set cs. reversed_in (cl_id c) (coin_ledger s'))"
  using assms
proof (induction cs arbitrary: s n)
  case Nil
  then show ?case by (auto simp: tx_simps refund_sum_def)
next
  case (Cons c cs)
  from Cons.prems(4) obtain m s1 where run: "reverseWithin (cl_id c) rc acty actor None s = Inr (m, s1)"
    and rest: "refund_loop rc acty actor cs (n + \<bar>cl_amount c\<bar>) s1 = Inr (n', s')"
    by (auto simp: tx_simps)
  have c: "c \<in> set (coin_ledger s)" "cl_type c \<noteq> REVERSAL" "\<not> reversed_in (cl_id c) (coin_ledger s)" "cl_amount c < 0"
    using Cons.prems(3) by (simp_all add: to_reverse_def)
  obtain rev where rev: "coin_ledger s1 = coin_ledger s @ [rev]" "cl_reverses rev = Some (cl_id c)"
    "cl_type rev = REVERSAL" and bal: "\<And>u. balance_of s1 u = balance_of s u - (if u = cl_user c then cl_amount c else 0)"
    and wf1: "coin_wf s1" and res1: "reversal_keys_reserved s1"
    using reverse_once [OF Cons.prems(1,2) c(1-3) run] by metis
  have "to_reverse cs s1"
    using Cons.prems(3) rev by (auto simp: to_reverse_def)
  from Cons.IH [OF wf1 res1 this rest] obtain rs where ih: "n' = n + \<bar>cl_amount c\<bar> + sum_list (map (\<lambda>c. \<bar>cl_amount c\<bar>) cs)"
    "\<forall>u. balance_of s' u = balance_of s1 u + refund_sum u cs" "coin_wf s'" "reversal_keys_reserved s'"
    "coin_ledger s' = coin_ledger s1 @ rs" "\<forall>r\<in>set rs. cl_type r = REVERSAL"
    "\<forall>c\<in>set cs. reversed_in (cl_id c) (coin_ledger s')" by auto
  have "\<exists>rs. coin_ledger s' = coin_ledger s @ rs \<and> (\<forall>r\<in>set rs. cl_type r = REVERSAL)"
    by (rule exI [of _ "rev # rs"]) (use ih(5,6) rev in simp)
  then show ?case using ih(1-4,7) ih(5) c(4) bal rev by (auto simp: refund_sum_def)
qed

lemma refund_sum_nonneg: "0 \<le> refund_sum u cs"
  unfolding refund_sum_def by (rule sum_where_nonneg) simp

lemma refund_loop_succeeds:
  assumes "coin_wf s" "reversal_keys_reserved s" "to_reverse cs s"
    and "\<forall>c\<in>set cs. int4 (- cl_amount c)" and "\<forall>u. int4 (balance_of s u + refund_sum u cs)"
  shows "\<exists>n' s'. refund_loop rc acty actor cs n s = Inr (n', s')"
  using assms
proof (induction cs arbitrary: s n)
  case Nil
  then show ?case by simp
next
  case (Cons c cs)
  have c: "c \<in> set (coin_ledger s)" "cl_type c \<noteq> REVERSAL" "\<not> reversed_in (cl_id c) (coin_ledger s)" "cl_amount c < 0"
    using Cons.prems(3) by (simp_all add: to_reverse_def)
  have "balance_of s (cl_user c) - cl_amount c + refund_sum (cl_user c) cs
      = balance_of s (cl_user c) + refund_sum (cl_user c) (c # cs)"
    using c(4) by (simp add: refund_sum_def)
  then have "int4 (balance_of s (cl_user c) - cl_amount c)"
    using Cons.prems(5) [rule_format, of "cl_user c"] refund_sum_nonneg [of "cl_user c" cs]
      balance_of_nonneg [OF Cons.prems(1), of "cl_user c"] c(4) by (simp add: int4_def)
  then obtain m s1 where run: "reverseWithin (cl_id c) rc acty actor None s = Inr (m, s1)"
    using reverse_succeeds [OF Cons.prems(1,2) c] Cons.prems(4) by fastforce
  obtain rev where rev: "coin_ledger s1 = coin_ledger s @ [rev]" "cl_reverses rev = Some (cl_id c)"
    and bal: "\<And>u. balance_of s1 u = balance_of s u - (if u = cl_user c then cl_amount c else 0)"
    and wf1: "coin_wf s1" "reversal_keys_reserved s1"
    using reverse_once [OF Cons.prems(1,2) c(1-3) run] by metis
  have "to_reverse cs s1" using Cons.prems(3) rev by (auto simp: to_reverse_def)
  moreover have "balance_of s1 u + refund_sum u cs = balance_of s u + refund_sum u (c # cs)" for u
    using bal c(4) by (simp add: refund_sum_def)
  ultimately obtain n' s' where "refund_loop rc acty actor cs (n + \<bar>cl_amount c\<bar>) s1 = Inr (n', s')"
    using Cons.IH [OF wf1, of "n + \<bar>cl_amount c\<bar>"] Cons.prems(4,5) by auto
  moreover have "refund_step rc acty actor c n s = Inr (n + \<bar>cl_amount c\<bar>, s1)"
    using run by (simp add: refund_step_Inr)
  ultimately show ?case by (simp add: tx_bind_InrI)
qed

lemma reverseWithin_frame_money: "reverseWithin i rc acty ai md s = Inr (m, s') \<Longrightarrow> money_frame s s'"
  by (rule coin_frame_money) (rule reverseWithin_frame)

lemma refundParticipant_frame: "tx_rel coin_frame (refundParticipant p a acty rc)"
proof -
  have "reflp coin_frame" "transp coin_frame"
    using coin_frame_refl coin_frame_trans by (auto simp: reflp_def transp_def)
  moreover have "tx_rel coin_frame (reverseWithin i rc acty ai md)" for i ai md
    by (rule tx_relI) (rule reverseWithin_frame)
  ultimately show ?thesis unfolding refundParticipant_def refund_step_def by (intro tx_rel_rules) assumption+
qed

lemma refundParticipant_extends: "tx_rel coin_extends (refundParticipant p a acty rc)"
  unfolding refundParticipant_def refund_step_def
  by (intro tx_rel_rules extends_reflp extends_transp reverseWithin_extends)

lemma refund_loop_wf: "refund_loop rc acty a cs n s = Inr (n', s') \<Longrightarrow> coin_wf s \<Longrightarrow> coin_wf s'"
proof (induction cs arbitrary: n s)
  case Nil
  then show ?case by (simp add: tx_simps)
next
  case (Cons c cs)
  from Cons.prems(1) obtain m s1 where "reverseWithin (cl_id c) rc acty a None s = Inr (m, s1)"
    "refund_loop rc acty a cs (n + \<bar>cl_amount c\<bar>) s1 = Inr (n', s')"
    by (auto simp: tx_simps)
  then show ?case using Cons.IH reverseWithin_wf Cons.prems(2) by blast
qed

lemma refundParticipant_Inr:
  "refundParticipant p a acty rc s = Inr (n, s') \<longleftrightarrow>
   refund_loop rc acty (Some a) (filter (refundable p (coin_ledger s)) (coin_ledger s)) 0 s = Inr (n, s')"
  by (simp add: refundParticipant_def)

lemma refundParticipant_wf: "refundParticipant p a acty rc s = Inr (n, s') \<Longrightarrow> money_wf s \<Longrightarrow> money_wf s'"
  using refund_loop_wf tx_relD [OF refundParticipant_frame]
  by (auto simp: money_wf_def refundParticipant_Inr intro: trust_wf_coin_frame)

interpretation participant_charges: ledger coin_ledger balance_of cl_user cl_amount cl_key
    "\<lambda>(p, u, b, e). chargeParticipant p u b e"
  by unfold_locales (simp add: chargeParticipant_coin_extends split: prod.split)

interpretation participant_trust_charges: ledger trust_ledger trust_cached tl_user tl_delta tl_key
    "\<lambda>(p, u, b, e). chargeParticipant p u b e"
  by unfold_locales (simp add: chargeParticipant_trust_extends split: prod.split)

text \<open>A charge goes through whenever its amounts fit the columns.\<close>

lemma chargeParticipant_succeeds:
  assumes wf: "money_wf s" and range: "int4 (pp_coins (priceFor b s))" "int4 (balance_of s u)"
  obtains r sm c s' where
    "penalizeWithin (participant_penalty_input p u b e (pp_coins (priceFor b s))) s = Inr (r, sm)"
    "trust_half (pp_trust (priceFor b s)) (participant_trust_input p u b (pp_trust (priceFor b s))) sm = Inr (ch_trust c, s')"
    "chargeParticipant p u b e s = Inr (c, s')" "ch_coins c = cp_charged r" "ch_ledger_id c = cp_ledger_id r"
proof -
  let ?price = "priceFor b s"
  let ?ci = "participant_penalty_input p u b e (pp_coins ?price)"
  let ?ti = "participant_trust_input p u b (pp_trust ?price)"
  obtain r sm where pen: "penalizeWithin ?ci s = Inr (r, sm)"
    using penalty_never_insufficient [of s ?ci] wf range by (auto simp: money_wf_def)
  have "trust_wf sm"
    using wf by (auto simp: money_wf_def intro: trust_wf_coin_frame [OF _ penalizeWithin_frame [OF pen]])
  then obtain d s' where half: "trust_half (pp_trust ?price) ?ti sm = Inr (d, s')"
    using trust_apply_succeeds [of sm ?ti] by (cases "pp_trust ?price > 0") (auto simp: trust_half_Inr)
  show thesis
    by (rule that [of r sm "\<lparr>ch_bucket = b, ch_price = ?price, ch_coins = cp_charged r, ch_trust = d,
            ch_ledger_id = cp_ledger_id r\<rparr>" s'])
       (simp_all add: pen half chargeParticipant_charge charge_def tx_bind_def)
qed

end
