(* ===== verification/Penalty_Properties.thy ===== *)
theory Penalty_Properties
  imports Penalty
begin

text \<open>
  The properties of cancellation pricing, over the operations of the theory Penalty: what a
  charge takes, that nobody is fined twice, and that a refund gives back exactly the cost.
\<close>

text \<open>C8. A participant's charge is the price the settings name for the bucket, no more than the
  account holds, and moves the score by the trust price within its range; nobody else's balance
  or score moves, and the charge always goes through.\<close>

theorem participant_charge_outcome:
  assumes wf: "money_wf s"
    and fresh: "coin_ledger_by_key (participantPenaltyKey p) s = None"
      "trust_ledger_by_key (participantTrustPenaltyKey p) s = None"
    and range: "int4 (pp_coins (priceFor b s))" "int4 (balance_of s u)"
  shows "\<exists>c s'. chargeParticipant p u b e s = Inr (c, s')
     \<and> ch_coins c = min (pp_coins (priceFor b s)) (balance_of s u)
     \<and> (\<forall>v. balance_of s' v = balance_of s v - (if v = u then ch_coins c else 0))
     \<and> ch_trust c = (if pp_trust (priceFor b s) = 0 then 0
          else max 0 (trust_start u s - pp_trust (priceFor b s)) - trust_start u s)
     \<and> (pp_trust (priceFor b s) > 0 \<longrightarrow> trust_cached s' u = trust_start u s + ch_trust c)
     \<and> (\<forall>v. v \<noteq> u \<longrightarrow> trust_cached s' v = trust_cached s v)"
proof -
  let ?price = "priceFor b s"
  let ?ci = "participant_penalty_input p u b e (pp_coins ?price)"
  let ?ti = "participant_trust_input p u b (pp_trust ?price)"
  have cwf: "coin_wf s" and twf: "trust_wf s" using wf by (simp_all add: money_wf_def)
  obtain r sm c s' where pen: "penalizeWithin ?ci s = Inr (r, sm)"
    and half: "trust_half (pp_trust ?price) ?ti sm = Inr (ch_trust c, s')"
    and run: "chargeParticipant p u b e s = Inr (c, s')" and c: "ch_coins c = cp_charged r"
    by (rule chargeParticipant_succeeds [OF wf range])
  note eff = penalizeWithin_effect [OF pen cwf, simplified, OF fresh(1)]
  note others = penalizeWithin_others [OF pen, simplified]
  note fr = coin_frame_trust [OF penalizeWithin_frame [OF pen]]
  have twfm: "trust_wf sm" by (rule trust_wf_coin_frame [OF twf penalizeWithin_frame [OF pen]])
  have start: "trust_start u sm = trust_start u s"
    using coin_frame_simps(3) [OF penalizeWithin_frame [OF pen]]
    by (simp add: trust_start_def fr getInt_settings [of sm s])
  have start_range: "0 \<le> trust_start u s" "trust_start u s \<le> 100"
    using clampScore_range trust_wf_range [OF twf] by (simp_all add: trust_start_def)
  have d: "ch_trust c = (if pp_trust ?price = 0 then 0
        else max 0 (trust_start u s - pp_trust ?price) - trust_start u s)
     \<and> (pp_trust ?price > 0 \<longrightarrow> trust_cached s' u = trust_start u s + ch_trust c)
     \<and> (\<forall>v. v \<noteq> u \<longrightarrow> trust_cached s' v = trust_cached s v)"
  proof (cases "pp_trust ?price = 0")
    case True
    then show ?thesis using half by (simp add: trust_half_Inr fr)
  next
    case False
    then have pos: "pp_trust ?price > 0" using priceFor_nonneg(2) [of b s] by simp
    have key: "participantTrustPenaltyKey p \<noteq> trustInitialKey u"
      by (simp add: participantTrustPenaltyKey_def trustInitialKey_def)
    from trust_apply_outcome [OF twfm, of ?ti] obtain m sx where
      "trust_apply ?ti sm = Inr (m, sx)" "tm_score m = min 100 (max 0 (trust_start u sm - pp_trust ?price))"
      "tm_effective m = tm_score m - trust_start u sm" "trust_cached sx u = tm_score m"
      "\<forall>v. v \<noteq> u \<longrightarrow> trust_cached sx v = trust_cached sm v"
      using False key fresh(2) by (auto simp: fr)
    then show ?thesis using pos start start_range half by (auto simp: trust_half_Inr fr)
  qed
  have bal: "balance_of s' v = balance_of sm v" for v
    by (rule trust_frame_coins(1) [OF tx_relD [OF trust_half_frame half]])
  show ?thesis using run eff others d bal c priceFor_nonneg(1) [of b s]
    by (intro exI [of _ c] exI [of _ s']) auto
qed

text \<open>C9. Nobody is fined twice: once a charge took coins for a participation, a second charge for the
  same participation, in any bucket and after any further coin movements, writes no coin row and
  moves no balance.\<close>

theorem participant_fined_once:
  assumes first: "chargeParticipant p u b e s = Inr (c, s1)" and took: "ch_ledger_id c = Some l"
    and later: "coin_extends s1 s2" and again: "chargeParticipant p u b' e' s2 = Inr (c', s3)"
  shows "coin_ledger s3 = coin_ledger s2 \<and> (\<forall>v. balance_of s3 v = balance_of s2 v)
    \<and> (ch_ledger_id c' = None \<or> ch_ledger_id c' = Some l)"
proof -
  from first obtain r sm where r: "penalizeWithin (participant_penalty_input p u b e (pp_coins (priceFor b s))) s = Inr (r, sm)"
    and fr: "trust_frame sm s1" and l: "cp_ledger_id r = Some l"
    unfolding chargeParticipant_charge Let_def by (elim charge_Inr) (use took in simp)
  have nz: "pp_coins (priceFor b s) \<noteq> 0" using r l by (auto simp: penalizeWithin_def tx_simps)
  have "\<exists>q. coin_ledger_by_key (participantPenaltyKey p) sm = Some q \<and> cl_id q = l"
    using r unfolding penalizeWithin_pos [of "participant_penalty_input p u b e (pp_coins (priceFor b s))", simplified, OF nz]
    by (cases rule: applyWithin_effect) (use l in \<open>auto simp: coin_ledger_by_key_def\<close>)
  then obtain q where "coin_ledger_by_key (participantPenaltyKey p) s1 = Some q" "cl_id q = l"
    using trust_frame_coins(2) [OF fr] by auto
  then have q: "coin_ledger_by_key (participantPenaltyKey p) s2 = Some q" "cl_id q = l"
    using later by (auto simp: extends_def coin_ledger_by_key_def)
  from again obtain r' s2' where r': "penalizeWithin (participant_penalty_input p u b' e' (pp_coins (priceFor b' s2))) s2 = Inr (r', s2')"
    and fr': "trust_frame s2' s3" and l': "ch_ledger_id c' = cp_ledger_id r'"
    unfolding chargeParticipant_charge Let_def by (elim charge_Inr)
  have "coin_ledger s2' = coin_ledger s2 \<and> (\<forall>v. balance_of s2' v = balance_of s2 v)
     \<and> (cp_ledger_id r' = None \<or> cp_ledger_id r' = Some l)"
  proof (cases "pp_coins (priceFor b' s2) = 0")
    case True
    then show ?thesis using r' by (auto simp: penalizeWithin_zero)
  next
    case False
    from r' show ?thesis
      unfolding penalizeWithin_pos [of "participant_penalty_input p u b' e' (pp_coins (priceFor b' s2))", simplified, OF False]
      by (cases rule: applyWithin_effect) (use q in simp_all)
  qed
  then show ?thesis
    using trust_frame_simps(10) [OF fr'] trust_frame_coins(1) [OF fr'] l' by simp
qed

text \<open>C10. A refund goes through and gives back exactly what the participation cost: every charge
  that is not a penalty and was not reversed yet is reversed, each owner is credited the sum of
  their charges and nobody else is, and nothing is left for a second refund to give.\<close>

theorem refund_gives_back_exactly:
  assumes wf: "coin_wf s" and keys: "reversal_keys_reserved s"
    and range: "\<forall>r\<in>set (coin_ledger s). int4 (- cl_amount r)"
      "\<forall>u. int4 (balance_of s u +
          sum_where (\<lambda>r. refundable p (coin_ledger s) r \<and> cl_user r = u) (\<lambda>r. \<bar>cl_amount r\<bar>) (coin_ledger s))"
  shows "\<exists>n s'. refundParticipant p actor acty rc s = Inr (n, s')
    \<and> n = sum_where (refundable p (coin_ledger s)) (\<lambda>r. \<bar>cl_amount r\<bar>) (coin_ledger s)
    \<and> (\<forall>u. balance_of s' u = balance_of s u +
          sum_where (\<lambda>r. refundable p (coin_ledger s) r \<and> cl_user r = u) (\<lambda>r. \<bar>cl_amount r\<bar>) (coin_ledger s))
    \<and> refundParticipant p actor' acty' rc' s' = Inr (0, s')"
proof -
  let ?cs = "filter (refundable p (coin_ledger s)) (coin_ledger s)"
  have sums: "refund_sum u ?cs = sum_where (\<lambda>r. refundable p (coin_ledger s) r \<and> cl_user r = u)
      (\<lambda>r. \<bar>cl_amount r\<bar>) (coin_ledger s)" for u
    by (simp add: refund_sum_def sum_where_def conj_commute)
  have ids: "distinct (map cl_id (coin_ledger s))" using wf by (simp add: coin_wf_def)
  then have tr: "to_reverse ?cs s"
    by (auto simp: to_reverse_def refundable_iff distinct_map_filter)
  obtain n s' where run: "refund_loop rc acty (Some actor) ?cs 0 s = Inr (n, s')"
    using refund_loop_succeeds [OF wf keys tr, of rc acty "Some actor" 0] range by (auto simp: sums)
  from refund_loop_effect [OF wf keys tr run]
  obtain rs where n: "n = sum_list (map (\<lambda>c. \<bar>cl_amount c\<bar>) ?cs)"
    and bal: "\<forall>u. balance_of s' u = balance_of s u + refund_sum u ?cs"
    and led: "coin_ledger s' = coin_ledger s @ rs" "\<forall>r\<in>set rs. cl_type r = REVERSAL"
    and rvd: "\<forall>c\<in>set ?cs. reversed_in (cl_id c) (coin_ledger s')"
    by auto
  have "filter (refundable p (coin_ledger s')) (coin_ledger s') = []"
    using led rvd by (auto simp: filter_empty_conv refundable_iff)
  then have "refundParticipant p actor' acty' rc' s' = Inr (0, s')"
    by (simp add: refundParticipant_def)
  then show ?thesis using run n bal
    by (intro exI [of _ n] exI [of _ s']) (simp add: refundParticipant_Inr sums sum_where_def)
qed

section \<open>Witnesses\<close>

lemma sample_db_money_wf: "money_wf sample_db"
proof -
  have "trust_scores sample_db = []" "trust_ledger sample_db = []" by code_simp+
  then have "trust_wf sample_db"
    by (simp add: trust_wf_def ledger_ok_def trust_cached_def ledger_sum_def)
  then show ?thesis by (simp add: money_wf_def sample_db_wf)
qed

lemma sample_late_price: "priceFor B_LT_3H sample_db = \<lparr>pp_coins = 40, pp_trust = 8\<rparr>"
  by code_simp

theorem participant_charge_outcome_witness:
  "\<exists>c s'. chargeParticipant 3 7 B_LT_3H 2 sample_db = Inr (c, s')
     \<and> ch_coins c = 40 \<and> balance_of s' 7 = 60 \<and> ch_trust c = - 8 \<and> trust_cached s' 7 = 42"
proof -
  have "coin_ledger_by_key (participantPenaltyKey 3) sample_db = None"
    "trust_ledger_by_key (participantTrustPenaltyKey 3) sample_db = None" "trust_start 7 sample_db = 50"
    by code_simp+
  then show ?thesis
    using participant_charge_outcome [OF sample_db_money_wf, of 3 B_LT_3H 7 2]
    by (auto simp: sample_late_price sample_db_balance int4_def)
qed

theorem participant_fined_once_witness:
  "\<exists>c s1 c' s3. chargeParticipant 3 7 B_LT_3H 2 sample_db = Inr (c, s1)
     \<and> chargeParticipant 3 7 B_LT_3H 2 s1 = Inr (c', s3) \<and> coin_ledger s3 = coin_ledger s1"
proof -
  have "int4 (pp_coins (priceFor B_LT_3H sample_db))" "int4 (balance_of sample_db 7)"
    by (simp_all add: sample_late_price sample_db_balance int4_def)
  then obtain r sm c s1 where
    pen: "penalizeWithin (participant_penalty_input 3 7 B_LT_3H 2 40) sample_db = Inr (r, sm)"
    and half: "trust_half 8 (participant_trust_input 3 7 B_LT_3H 8) sm = Inr (ch_trust c, s1)"
    and first: "chargeParticipant 3 7 B_LT_3H 2 sample_db = Inr (c, s1)" and l: "ch_ledger_id c = cp_ledger_id r"
    by (rule chargeParticipant_succeeds [OF sample_db_money_wf, of B_LT_3H 7 3 2]) (simp add: sample_late_price)
  have "returns_such (\<lambda>r. cp_ledger_id r = Some 2 \<and> cp_charged r = 40)
      (penalizeWithin (participant_penalty_input 3 7 B_LT_3H 2 40) sample_db)" by code_simp
  with pen l have l2: "ch_ledger_id c = Some 2" by (simp add: returns_such_def)
  have fr: "money_frame sample_db s1" by (rule tx_relD [OF chargeParticipant_frame first])
  have "balance_of s1 7 = balance_of sm 7"
    by (rule trust_frame_coins(1) [OF tx_relD [OF trust_half_frame half]])
  also have "\<dots> = 60"
  proof -
    have "coin_ledger_by_key (participantPenaltyKey 3) sample_db = None" by code_simp
    from penalizeWithin_effect [OF pen sample_db_wf] this show ?thesis by (simp add: sample_db_balance)
  qed
  finally have "int4 (pp_coins (priceFor B_LT_3H s1))" "int4 (balance_of s1 7)"
    using priceFor_settings [OF money_frame_simps(3) [OF fr], of B_LT_3H]
    by (simp_all add: sample_late_price int4_def)
  then obtain c' s3 where again: "chargeParticipant 3 7 B_LT_3H 2 s1 = Inr (c', s3)"
    using chargeParticipant_succeeds [OF chargeParticipant_wf [OF first sample_db_money_wf], of B_LT_3H 7 3 2] by metis
  show ?thesis using first again participant_fined_once [OF first l2 extends_refl again] by blast
qed

definition sample_join_db :: db where
  "sample_join_db = coin_run [Apply (sample_movement (- 20) EVENT_JOIN_SPEND ''join:3''
     \<lparr>ci_ref_type := Some ''event_participant'', ci_ref_id := Some 3\<rparr>)] sample_db"

lemma sample_join_db_wf: "coin_wf sample_join_db" "reversal_keys_reserved sample_join_db"
proof -
  show "coin_wf sample_join_db" unfolding sample_join_db_def by (rule coin_run_wf [OF sample_db_wf])
  have keys: "list_all (\<lambda>r. cl_key r = ''welcome:7'' \<or> cl_key r = ''join:3'') (coin_ledger sample_join_db)"
    by code_simp
  show "reversal_keys_reserved sample_join_db"
    unfolding reversal_keys_reserved_def
  proof (intro ballI allI impI)
    fix r :: coin_ledger_row and i
    assume r: "r \<in> set (coin_ledger sample_join_db)" and k: "cl_key r = reversalKey i"
    from keys r have "cl_key r = ''welcome:7'' \<or> cl_key r = ''join:3''" unfolding list_all_iff by blast
    with k show "cl_reverses r = Some i" by (simp add: reversalKey_def)
  qed
qed

theorem refund_gives_back_exactly_witness:
  "\<exists>n s'. refundParticipant 3 9 A_USER HOST_REFUND_REASON sample_join_db = Inr (n, s') \<and> n = 20
     \<and> refundParticipant 3 9 A_USER HOST_REFUND_REASON s' = Inr (0, s')"
proof -
  obtain a b where rows: "coin_ledger sample_join_db = [a, b]" and a: "cl_user a = 7" "cl_amount a = 100" "\<not> refundable 3 [a, b] a"
    and b: "cl_user b = 7" "cl_amount b = - 20" "refundable 3 [a, b] b"
  proof -
    have "(case coin_ledger sample_join_db of [a, b] \<Rightarrow> cl_user a = 7 \<and> cl_amount a = 100 \<and> \<not> refundable 3 [a, b] a
        \<and> cl_user b = 7 \<and> cl_amount b = - 20 \<and> refundable 3 [a, b] b | _ \<Rightarrow> False)" by code_simp
    then show thesis using that by (auto split: list.split_asm)
  qed
  have bal: "balance_of sample_join_db u = (if u = 7 then 80 else 0)" for u
    using sample_join_db_wf(1) rows a b by (simp add: coin_wf_def ledger_ok_def ledger_sum_def)
  have "sum_where (\<lambda>r. refundable 3 [a, b] r \<and> cl_user r = u) (\<lambda>r. \<bar>cl_amount r\<bar>) [a, b] = (if u = 7 then 20 else 0)" for u
    using a b by simp
  moreover have "\<forall>u. int4 (balance_of sample_join_db u + (if u = 7 then 20 else 0))"
    by (simp add: bal int4_def)
  ultimately show ?thesis
    using refund_gives_back_exactly [OF sample_join_db_wf, of 3 9 A_USER HOST_REFUND_REASON 9 A_USER HOST_REFUND_REASON]
      rows a b by (auto simp: int4_def)
qed

end
