(* ===== verification/Channel_Gate.thy ===== *)
theory Channel_Gate
  imports Database Js_Text
begin

text \<open>
  The channel gate: which channels a user has to be a member of before an action
  (\<^verbatim>\<open>packages/domain/src/channel/channel-config.service.ts\<close>, the administrators' side) and
  whether a user is let through (\<^verbatim>\<open>channel/membership.service.ts\<close>).

  The gate has tables of its own, kept in the record \<open>gate\<close>. What Telegram answers is outside
  the repository: the probe is a field of the state, any function at all. The parser of URLs
  is the parameter \<open>parse_url\<close> of the operations that use it. A service call is one step.
\<close>

section \<open>State\<close>

datatype probe_result = MEMBER | NOT_MEMBER | CHAT_UNAVAILABLE string | BOT_CANNOT_VERIFY string | UNKNOWN string

datatype bot_standing = BS_ADMIN | BS_NOT_ADMIN | BS_CHAT_UNAVAILABLE | BS_UNKNOWN

text \<open>
  \<^verbatim>\<open>MembershipProbe\<close>; \<^verbatim>\<open>botStanding\<close> and \<^verbatim>\<open>invalidate\<close> are optional methods, of the latter only
  whether it is there matters.
\<close>

record probe =
  pb_check :: "string \<Rightarrow> int \<Rightarrow> probe_result"
  pb_standing :: "(string \<Rightarrow> bot_standing) option"
  pb_invalidates :: bool

definition GATED_ACTIONS :: "string list" where
  "GATED_ACTIONS = [''APP_ACCESS'', ''EVENT_CREATE'', ''EVENT_JOIN'', ''EVENT_CHANNEL_SEND'', ''EVENT_INVITE'']"

record channel_config =
  cc_required :: bool
  cc_actions :: "string list"
  cc_verify :: bool
  cc_updated_at :: instant

record channel_row =
  rc_id :: id
  rc_title :: string
  rc_chat :: "string option"
  rc_username :: "string option"
  rc_invite :: "string option"
  rc_sort :: int
  rc_active :: bool
  rc_created_at :: instant

text \<open>\<^verbatim>\<open>RequiredChannelRecord\<close>: a row with the link a user follows to join.\<close>

record channel_record =
  cr_id :: id
  cr_title :: string
  cr_chat :: "string option"
  cr_username :: "string option"
  cr_invite :: "string option"
  cr_join :: "string option"
  cr_sort :: int
  cr_active :: bool

record gate_audit =
  ga_admin :: id
  ga_action :: string
  ga_target :: "id option"
  ga_before :: "jval option"
  ga_after :: "jval option"
  ga_at :: instant

record gate =
  gt_clock :: instant
  gt_next_id :: id
  gt_config :: "channel_config option"
  gt_channels :: "channel_row list"
  gt_telegram :: "id \<rightharpoonup> int"
  gt_probe :: "probe option"
  gt_audit :: "gate_audit list"

section \<open>Reading the configuration\<close>

definition isGatedAction :: "string \<Rightarrow> bool" where
  "isGatedAction v = List.member GATED_ACTIONS v"

definition toRecord :: "channel_row \<Rightarrow> channel_record" where
  "toRecord row =
     \<lparr>cr_id = rc_id row, cr_title = rc_title row, cr_chat = rc_chat row, cr_username = rc_username row,
      cr_invite = rc_invite row,
      cr_join = (case rc_invite row of
                   Some u \<Rightarrow> Some u
                 | None \<Rightarrow> (case rc_username row of None \<Rightarrow> None | Some n \<Rightarrow> Some (''https://t.me/'' @ n))),
      cr_sort = rc_sort row, cr_active = rc_active row\<rparr>"

definition gate_config :: "gate \<Rightarrow> channel_config" where
  "gate_config g =
     (case gt_config g of
        None \<Rightarrow> \<lparr>cc_required = False, cc_actions = [], cc_verify = True, cc_updated_at = gt_clock g\<rparr>
      | Some row \<Rightarrow> row\<lparr>cc_actions := filter isGatedAction (cc_actions row)\<rparr>)"

definition activeChannels :: "gate \<Rightarrow> channel_record list" where
  "activeChannels g =
     map toRecord (sort_key rc_sort (sort_key rc_created_at (filter rc_active (gt_channels g))))"

definition listChannels :: "gate \<Rightarrow> channel_record list" where
  "listChannels g =
     map toRecord (sort_key (\<lambda>r. if rc_active r then 0 else (1::nat))
       (sort_key rc_sort (sort_key rc_created_at (gt_channels g))))"

definition CHANNEL_POST_UNDELETABLE_ACTION :: string where
  "CHANNEL_POST_UNDELETABLE_ACTION = ''channel.post_undeletable''"

definition UNDELETABLE_WARNING_MS :: int where
  "UNDELETABLE_WARNING_MS = 24 * 3600000"

record config_status =
  cs_config :: channel_config
  cs_channels :: "channel_record list"
  cs_all :: "channel_record list"
  cs_has_join_link :: bool
  cs_can_verify :: bool
  cs_warnings :: "string list"
  cs_publishing_warnings :: "string list"
  cs_unverifiable :: "string list"

definition unverifiable :: "gate \<Rightarrow> channel_record list \<Rightarrow> string list" where
  "unverifiable g channels =
     (case gt_probe g of
        None \<Rightarrow> []
      | Some probe \<Rightarrow>
          (case pb_standing probe of
             None \<Rightarrow> []
           | Some standing \<Rightarrow>
               map cr_title (filter (\<lambda>c. case cr_chat c of
                   None \<Rightarrow> False
                 | Some chat \<Rightarrow> standing chat = BS_NOT_ADMIN \<or> standing chat = BS_CHAT_UNAVAILABLE)
                 channels)))"

definition config_status :: "gate \<Rightarrow> config_status" where
  "config_status g =
     (let config = gate_config g;
          allChannels = listChannels g;
          channels = filter cr_active allChannels;
          hasJoinLink = (channels \<noteq> [] \<and> list_all (\<lambda>c. cr_join c \<noteq> None) channels);
          canVerify = (channels \<noteq> [] \<and> list_all (\<lambda>c. cr_chat c \<noteq> None) channels);
          unverifiableChannels = (if cc_verify config then unverifiable g channels else []);
          undeletable = list_ex (\<lambda>a. ga_action a = CHANNEL_POST_UNDELETABLE_ACTION
                                    \<and> gt_clock g - UNDELETABLE_WARNING_MS \<le> ga_at a) (gt_audit g)
      in \<lparr>cs_config = config, cs_channels = channels, cs_all = allChannels,
          cs_has_join_link = hasJoinLink, cs_can_verify = canVerify,
          cs_warnings =
            (if channels = [] then [''NO_CHANNELS''] else if \<not> hasJoinLink then [''NO_JOIN_LINK''] else [])
            @ (if channels \<noteq> [] \<and> cc_verify config \<and> \<not> canVerify then [''NO_CHAT_IDENTIFIER''] else [])
            @ (if cc_required config \<and> cc_actions config = [] then [''NO_ACTIONS_SELECTED''] else [])
            @ (if unverifiableChannels \<noteq> [] then [''BOT_CANNOT_VERIFY''] else []),
          cs_publishing_warnings = (if undeletable then [''BOT_CANNOT_DELETE''] else []),
          cs_unverifiable = unverifiableChannels\<rparr>)"

section \<open>Normalising input\<close>

definition validation_failed :: "string \<Rightarrow> string \<Rightarrow> error" where
  "validation_failed path message =
     AppError ''VALIDATION_FAILED'' [(''fields'', JObj [(''path'', JStr path), (''message'', JStr message)])]"

definition normalizeTitle :: "string \<Rightarrow> error + string" where
  "normalizeTitle value =
     (let trimmed = trim value
      in if length trimmed < 2 \<or> length trimmed > 60
         then Inl (validation_failed ''title'' ''must be between 2 and 60 characters'')
         else Inr trimmed)"

text \<open>\<^verbatim>\<open>/^-?\d{5,20}$/\<close> and \<^verbatim>\<open>/^[A-Za-z0-9_]{5,32}$/\<close>.\<close>

definition numeric_chat :: "string \<Rightarrow> bool" where
  "numeric_chat s =
     (let ds = (if s \<noteq> [] \<and> hd s = CHR ''-'' then tl s else s)
      in 5 \<le> length ds \<and> length ds \<le> 20 \<and> list_all is_digit ds)"

definition username_ok :: "string \<Rightarrow> bool" where
  "username_ok s \<longleftrightarrow> 5 \<le> length s \<and> length s \<le> 32 \<and> list_all is_word_char s"

definition strip_at :: "string \<Rightarrow> string" where
  "strip_at s = (if s \<noteq> [] \<and> hd s = CHR ''@'' then tl s else s)"

definition normalizeChatIdentifier :: "string option \<Rightarrow> error + string option" where
  "normalizeChatIdentifier value =
     (case value of
        None \<Rightarrow> Inr None
      | Some v \<Rightarrow>
          (let trimmed = trim v
           in if trimmed = [] then Inr None
              else if numeric_chat trimmed then Inr (Some trimmed)
              else if username_ok (strip_at trimmed) then Inr (Some (CHR ''@'' # strip_at trimmed))
              else Inl (validation_failed ''chatIdentifier'' ''must be @username or a numeric chat id'')))"

definition normalizeUsername :: "string option \<Rightarrow> error + string option" where
  "normalizeUsername value =
     (case value of
        None \<Rightarrow> Inr None
      | Some v \<Rightarrow>
          (let trimmed = strip_at (trim v)
           in if trimmed = [] then Inr None
              else if \<not> username_ok trimmed
              then Inl (validation_failed ''publicUsername'' ''must be a Telegram username'')
              else Inr (Some trimmed)))"

record url =
  url_protocol :: string
  url_hostname :: string
  url_pathname :: string

definition normalizeInviteUrl :: "(string \<Rightarrow> url option) \<Rightarrow> string option \<Rightarrow> error + string option" where
  "normalizeInviteUrl parse_url value =
     (case value of
        None \<Rightarrow> Inr None
      | Some v \<Rightarrow>
          (let trimmed = trim v
           in if trimmed = [] then Inr None
              else case parse_url trimmed of
                None \<Rightarrow> Inl (validation_failed ''inviteUrl'' ''must be a URL'')
              | Some u \<Rightarrow>
                  (let host = map lower_char (url_hostname u)
                   in if url_protocol u \<noteq> ''https:'' \<or> (host \<noteq> ''t.me'' \<and> host \<noteq> ''telegram.me'')
                      then Inl (validation_failed ''inviteUrl'' ''must be an https://t.me/... link'')
                      else if url_pathname u = ''/'' \<or> url_pathname u = ''''
                      then Inl (validation_failed ''inviteUrl'' ''must name a channel or an invite'')
                      else Inr (Some (''https://t.me'' @ url_pathname u)))))"

definition tx_lift :: "'e + 'a \<Rightarrow> ('e, 's, 'a) tx" where
  "tx_lift r = (case r of Inl e \<Rightarrow> tx_throw e | Inr a \<Rightarrow> tx_return a)"

lemma tx_lift_Inr [tx_simps]: "tx_lift r s = Inr (a, s') \<longleftrightarrow> r = Inr a \<and> s' = s"
  by (cases r) (auto simp: tx_lift_def tx_simps)

section \<open>Administering the gate\<close>

definition SORT_STEP :: int where "SORT_STEP = 10"

definition gate_audit_record ::
  "id \<Rightarrow> string \<Rightarrow> id option \<Rightarrow> jval option \<Rightarrow> jval option \<Rightarrow> (error, gate, unit) tx" where
  "gate_audit_record admin action target before after =
     tx_modify (\<lambda>g. g\<lparr>gt_audit := gt_audit g @
       [\<lparr>ga_admin = admin, ga_action = action, ga_target = target, ga_before = before,
         ga_after = after, ga_at = gt_clock g\<rparr>]\<rparr>)"

fun join_comma :: "string list \<Rightarrow> string" where
  "join_comma [] = ''''"
| "join_comma [x] = x"
| "join_comma (x # y # xs) = x @ '','' @ join_comma (y # xs)"

definition auditShape :: "channel_config \<Rightarrow> jval option" where
  "auditShape config = Some (JObj
     [(''membershipRequired'', JBool (cc_required config)),
      (''requiredActions'', JStr (join_comma (cc_actions config))),
      (''verifyViaTelegram'', JBool (cc_verify config))])"

definition channelAuditShape :: "channel_record \<Rightarrow> jval option" where
  "channelAuditShape channel = Some (JObj
     [(''title'', JStr (cr_title channel)),
      (''chatIdentifier'', JStr (case cr_chat channel of None \<Rightarrow> '''' | Some x \<Rightarrow> x)),
      (''publicUsername'', JStr (case cr_username channel of None \<Rightarrow> '''' | Some x \<Rightarrow> x)),
      (''inviteUrl'', JStr (case cr_invite channel of None \<Rightarrow> '''' | Some x \<Rightarrow> x)),
      (''sortOrder'', JInt (cr_sort channel)),
      (''isActive'', JBool (cr_active channel))])"

definition assertReachable :: "string option \<Rightarrow> string option \<Rightarrow> (error, gate, unit) tx" where
  "assertReachable inviteUrl publicUsername =
     tx_guard (inviteUrl \<noteq> None \<or> publicUsername \<noteq> None)
       (validation_failed ''inviteUrl'' ''a channel needs an invite link or a username'')"

definition assertNotDuplicate :: "string option \<Rightarrow> id option \<Rightarrow> (error, gate, unit) tx" where
  "assertNotDuplicate chatIdentifier excludeId =
     (case chatIdentifier of
        None \<Rightarrow> tx_return ()
      | Some chat \<Rightarrow>
          tx_bind (tx_read (\<lambda>g. list_ex (\<lambda>r. rc_chat r = Some chat \<and> rc_active r
                     \<and> (case excludeId of None \<Rightarrow> True | Some i \<Rightarrow> rc_id r \<noteq> i)) (gt_channels g))) (\<lambda>clash.
          tx_guard (\<not> clash) (validation_failed ''chatIdentifier'' ''this channel is already required'')))"

definition assertNotLastActive :: "id \<Rightarrow> (error, gate, unit) tx" where
  "assertNotLastActive i =
     tx_bind (tx_read gate_config) (\<lambda>config.
     if \<not> cc_required config then tx_return ()
     else
       tx_bind (tx_read (\<lambda>g. count_where (\<lambda>r. rc_active r \<and> rc_id r \<noteq> i) (gt_channels g))) (\<lambda>others.
       tx_guard (others \<noteq> 0)
         (AppError ''CHANNEL_NOT_CONFIGURED'' [(''reason'', JStr ''LAST_ACTIVE_CHANNEL'')])))"

text \<open>The patch of \<^verbatim>\<open>update\<close>: an absent field keeps what was there.\<close>

record config_patch =
  cp_required :: "bool option"
  cp_actions :: "string list option"
  cp_verify :: "bool option"

definition patched :: "'a option \<Rightarrow> 'a \<Rightarrow> 'a" where
  "patched new old = (case new of None \<Rightarrow> old | Some x \<Rightarrow> x)"

definition config_update :: "id \<Rightarrow> config_patch \<Rightarrow> (error, gate, config_status) tx" where
  "config_update admin input =
     tx_bind (tx_read gate_config) (\<lambda>before.
     let membershipRequired = patched (cp_required input) (cc_required before);
         requiredActions = patched (cp_actions input) (cc_actions before)
     in tx_bind (tx_read activeChannels) (\<lambda>channels.
        tx_bind (tx_guard (\<not> (membershipRequired \<and> (channels = [] \<or> list_ex (\<lambda>c. cr_join c = None) channels)))
          (AppError ''CHANNEL_NOT_CONFIGURED'' [(''reason'', JStr ''NO_JOIN_LINK'')])) (\<lambda>_.
        tx_bind (tx_modify (\<lambda>g. g\<lparr>gt_config := Some
          \<lparr>cc_required = membershipRequired, cc_actions = requiredActions,
           cc_verify = patched (cp_verify input) (cc_verify before), cc_updated_at = gt_clock g\<rparr>\<rparr>)) (\<lambda>_.
        tx_bind (tx_read config_status) (\<lambda>after.
        tx_bind (gate_audit_record admin ''channel.config_updated'' None
          (auditShape before) (auditShape (cs_config after))) (\<lambda>_.
        tx_return after))))))"

text \<open>The fields of a new channel, and the patch of an existing one.\<close>

record channel_input =
  in_title :: string
  in_chat :: "string option"
  in_username :: "string option"
  in_invite :: "string option"
  in_active :: "bool option"

record channel_patch =
  up_title :: "string option"
  up_chat :: "string option option"
  up_username :: "string option option"
  up_invite :: "string option option"
  up_active :: "bool option"

definition gate_fresh :: "(error, gate, id) tx" where
  "gate_fresh = (\<lambda>g. Inr (gt_next_id g, g\<lparr>gt_next_id := gt_next_id g + 1\<rparr>))"

definition max_sort :: "channel_row list \<Rightarrow> int" where
  "max_sort rows = (case rows of [] \<Rightarrow> 0 | r # rs \<Rightarrow> foldl max (rc_sort r) (map rc_sort rs))"

definition createChannel ::
  "(string \<Rightarrow> url option) \<Rightarrow> id \<Rightarrow> channel_input \<Rightarrow> (error, gate, channel_record) tx" where
  "createChannel parse_url admin input =
     tx_bind (tx_lift (normalizeTitle (in_title input))) (\<lambda>title.
     tx_bind (tx_lift (normalizeChatIdentifier (in_chat input))) (\<lambda>chatIdentifier.
     tx_bind (tx_lift (normalizeUsername (in_username input))) (\<lambda>publicUsername.
     tx_bind (tx_lift (normalizeInviteUrl parse_url (in_invite input))) (\<lambda>inviteUrl.
     tx_bind (assertReachable inviteUrl publicUsername) (\<lambda>_.
     tx_bind (assertNotDuplicate chatIdentifier None) (\<lambda>_.
     tx_bind (tx_read (\<lambda>g. max_sort (gt_channels g))) (\<lambda>last.
     tx_bind gate_fresh (\<lambda>i.
     tx_bind (tx_read gt_clock) (\<lambda>now.
     let created = \<lparr>rc_id = i, rc_title = title, rc_chat = chatIdentifier, rc_username = publicUsername,
                    rc_invite = inviteUrl, rc_sort = last + SORT_STEP,
                    rc_active = patched (in_active input) True, rc_created_at = now\<rparr>
     in tx_bind (tx_modify (\<lambda>g. g\<lparr>gt_channels := gt_channels g @ [created]\<rparr>)) (\<lambda>_.
        tx_bind (gate_audit_record admin ''channel.required_channel_created'' (Some i)
          None (channelAuditShape (toRecord created))) (\<lambda>_.
        tx_return (toRecord created))))))))))))"

definition keep_or :: "('a \<Rightarrow> error + 'b) \<Rightarrow> 'a option \<Rightarrow> 'b \<Rightarrow> error + 'b" where
  "keep_or f patch old = (case patch of None \<Rightarrow> Inr old | Some v \<Rightarrow> f v)"

definition update_guard ::
  "bool \<Rightarrow> channel_row \<Rightarrow> string option \<Rightarrow> string option \<Rightarrow> string option \<Rightarrow> id \<Rightarrow> (error, gate, unit) tx" where
  "update_guard isActive existing inviteUrl publicUsername chatIdentifier i =
     (if isActive
      then tx_bind (assertReachable inviteUrl publicUsername) (\<lambda>_. assertNotDuplicate chatIdentifier (Some i))
      else if rc_active existing then assertNotLastActive i
      else tx_return ())"

definition updateChannel ::
  "(string \<Rightarrow> url option) \<Rightarrow> id \<Rightarrow> id \<Rightarrow> channel_patch \<Rightarrow> (error, gate, channel_record) tx" where
  "updateChannel parse_url admin i input =
     tx_bind (tx_read (\<lambda>g. find (\<lambda>r. rc_id r = i) (gt_channels g))) (\<lambda>existing.
     tx_bind (tx_some existing (app_error ''NOT_FOUND'')) (\<lambda>existing.
     tx_bind (tx_lift (keep_or normalizeTitle (up_title input) (rc_title existing))) (\<lambda>title.
     tx_bind (tx_lift (keep_or normalizeChatIdentifier (up_chat input) (rc_chat existing))) (\<lambda>chatIdentifier.
     tx_bind (tx_lift (keep_or normalizeUsername (up_username input) (rc_username existing))) (\<lambda>publicUsername.
     tx_bind (tx_lift (keep_or (normalizeInviteUrl parse_url) (up_invite input) (rc_invite existing))) (\<lambda>inviteUrl.
     let isActive = patched (up_active input) (rc_active existing)
     in tx_bind
          (update_guard isActive existing inviteUrl publicUsername chatIdentifier i) (\<lambda>_.
        let updated = existing\<lparr>rc_title := title, rc_chat := chatIdentifier, rc_username := publicUsername,
                               rc_invite := inviteUrl, rc_active := isActive\<rparr>
        in tx_bind (tx_modify (\<lambda>g. g\<lparr>gt_channels := update_where (\<lambda>r. rc_id r = i) (\<lambda>_. updated) (gt_channels g)\<rparr>)) (\<lambda>_.
           tx_bind (gate_audit_record admin ''channel.required_channel_updated'' (Some i)
             (channelAuditShape (toRecord existing)) (channelAuditShape (toRecord updated))) (\<lambda>_.
           tx_return (toRecord updated)))))))))) "

definition deleteChannel :: "id \<Rightarrow> id \<Rightarrow> (error, gate, unit) tx" where
  "deleteChannel admin i =
     tx_bind (tx_read (\<lambda>g. find (\<lambda>r. rc_id r = i) (gt_channels g))) (\<lambda>existing.
     tx_bind (tx_some existing (app_error ''NOT_FOUND'')) (\<lambda>existing.
     tx_bind (if rc_active existing then assertNotLastActive i else tx_return ()) (\<lambda>_.
     tx_bind (tx_modify (\<lambda>g. g\<lparr>gt_channels := filter (\<lambda>r. rc_id r \<noteq> i) (gt_channels g)\<rparr>)) (\<lambda>_.
     gate_audit_record admin ''channel.required_channel_deleted'' (Some i)
       (channelAuditShape (toRecord existing)) None))))"

text \<open>The position of an id in the new order gives its sort key.\<close>

fun position :: "id \<Rightarrow> id list \<Rightarrow> nat option" where
  "position i [] = None"
| "position i (x # xs) = (if x = i then Some 0 else map_option Suc (position i xs))"

definition reorderChannels :: "id \<Rightarrow> id list \<Rightarrow> (error, gate, channel_record list) tx" where
  "reorderChannels admin ids =
     tx_bind (tx_read (\<lambda>g. list_all (\<lambda>i. list_ex (\<lambda>r. rc_id r = i) (gt_channels g)) ids)) (\<lambda>known.
     tx_bind (tx_guard known (app_error ''NOT_FOUND'')) (\<lambda>_.
     tx_bind (tx_guard (distinct ids) (validation_failed ''ids'' ''must not repeat a channel'')) (\<lambda>_.
     tx_bind (tx_modify (\<lambda>g. g\<lparr>gt_channels := map (\<lambda>r.
        case position (rc_id r) ids of
          None \<Rightarrow> r
        | Some k \<Rightarrow> r\<lparr>rc_sort := (int k + 1) * SORT_STEP\<rparr>) (gt_channels g)\<rparr>)) (\<lambda>_.
     tx_bind (gate_audit_record admin ''channel.required_channels_reordered'' None None
       (Some (JObj [(''order'', JStr (join_comma (map show_id ids)))]))) (\<lambda>_.
     tx_read listChannels)))))"

section \<open>Letting a user through\<close>

record channel_state =
  st_id :: id
  st_title :: string
  st_join :: "string option"
  st_status :: probe_result
  st_allowed :: bool

record membership_state =
  ms_required :: bool
  ms_actions :: "string list"
  ms_channels :: "channel_state list"
  ms_join :: "string option"
  ms_status :: "probe_result option"
  ms_allowed :: bool
  ms_reason :: "probe_result option"

definition probeFor :: "gate \<Rightarrow> channel_record \<Rightarrow> int option \<Rightarrow> bool \<Rightarrow> probe_result" where
  "probeFor g channel telegramUserId verifyViaTelegram =
     (if \<not> verifyViaTelegram then MEMBER
      else case cr_chat channel of
        None \<Rightarrow> CHAT_UNAVAILABLE ''NOT_CONFIGURED''
      | Some chat \<Rightarrow>
          (case gt_probe g of
             None \<Rightarrow> UNKNOWN ''NO_PROBE''
           | Some probe \<Rightarrow>
               (case telegramUserId of
                  None \<Rightarrow> UNKNOWN ''NO_TELEGRAM_ACCOUNT''
                | Some t \<Rightarrow> pb_check probe chat t)))"

text \<open>The state's \<^verbatim>\<open>status\<close> is a kind; \<^verbatim>\<open>NOT_REQUIRED\<close> is \<open>None\<close>.\<close>

definition stateFor :: "id \<Rightarrow> string option \<Rightarrow> gate \<Rightarrow> membership_state" where
  "stateFor userId action g =
     (let config = gate_config g;
          switchedOn = (cc_required config \<and>
            (case action of None \<Rightarrow> length (cc_actions config) > 0
             | Some a \<Rightarrow> List.member (cc_actions config) a));
          channels = (if switchedOn then activeChannels g else []);
          gated = (switchedOn \<and> channels \<noteq> [])
      in if \<not> gated
         then \<lparr>ms_required = cc_required config, ms_actions = cc_actions config, ms_channels = [],
               ms_join = None, ms_status = None, ms_allowed = True, ms_reason = None\<rparr>
         else
           (let telegramUserId = (if cc_verify config then gt_telegram g userId else None);
                results = map (\<lambda>channel.
                  (let result = probeFor g channel telegramUserId (cc_verify config)
                   in \<lparr>st_id = cr_id channel, st_title = cr_title channel, st_join = cr_join channel,
                       st_status = result, st_allowed = (result \<noteq> NOT_MEMBER)\<rparr>)) channels;
                outstanding = filter (\<lambda>c. \<not> st_allowed c) results;
                degraded = find (\<lambda>c. st_status c \<noteq> MEMBER) results
            in \<lparr>ms_required = True, ms_actions = cc_actions config, ms_channels = results,
                ms_join = (case outstanding of [] \<Rightarrow> None | c # _ \<Rightarrow> st_join c),
                ms_status = (if outstanding \<noteq> [] then Some NOT_MEMBER
                             else case degraded of None \<Rightarrow> Some MEMBER | Some c \<Rightarrow> Some (st_status c)),
                ms_allowed = (outstanding = []),
                ms_reason = (if outstanding \<noteq> [] then Some NOT_MEMBER
                             else case degraded of None \<Rightarrow> None | Some c \<Rightarrow> Some (st_status c))\<rparr>))"

definition jopt :: "('a \<Rightarrow> jval) \<Rightarrow> 'a option \<Rightarrow> jval" where
  "jopt f x = (case x of None \<Rightarrow> JNull | Some v \<Rightarrow> f v)"

text \<open>\<^verbatim>\<open>assertAllowed\<close>: the refusal names the link and the channels still to join.\<close>

definition assertAllowed :: "gate \<Rightarrow> id \<Rightarrow> string \<Rightarrow> (error, 's, unit) tx" where
  "assertAllowed g userId action =
     (let state = stateFor userId (Some action) g
      in if ms_allowed state then tx_return ()
         else tx_throw (AppError ''CHANNEL_MEMBERSHIP_REQUIRED''
           [(''joinUrl'', jopt JStr (ms_join state)), (''action'', JStr action),
            (''channels'', JObj (map (\<lambda>c. (st_title c, jopt JStr (st_join c)))
               (filter (\<lambda>c. \<not> st_allowed c) (ms_channels state))))]))"

text \<open>\<^verbatim>\<open>recheck\<close>: the answers the probe is told to forget, and the state after.\<close>

definition recheck :: "id \<Rightarrow> string option \<Rightarrow> gate \<Rightarrow> (string \<times> int) list \<times> membership_state" where
  "recheck userId action g =
     ((case (gt_probe g, gt_telegram g userId) of
         (Some probe, Some t) \<Rightarrow> if \<not> pb_invalidates probe then [] else map (\<lambda>chat. (chat, t))
           (List.map_filter cr_chat (activeChannels g))
       | _ \<Rightarrow> []),
      stateFor userId action g)"

section \<open>The invariant of the gate\<close>

definition reachable_row :: "channel_row \<Rightarrow> bool" where
  "reachable_row r \<longleftrightarrow> rc_invite r \<noteq> None \<or> rc_username r \<noteq> None"

text \<open>
  A gate that is switched on has a channel to join; every active channel can be joined; no chat
  is required twice.
\<close>

definition gate_wf :: "gate \<Rightarrow> bool" where
  "gate_wf g \<longleftrightarrow>
     distinct (map rc_id (gt_channels g)) \<and> (\<forall>r\<in>set (gt_channels g). rc_id r < gt_next_id g)
     \<and> (\<forall>r\<in>set (gt_channels g). rc_active r \<longrightarrow> reachable_row r)
     \<and> (\<forall>r\<in>set (gt_channels g). \<forall>q\<in>set (gt_channels g).
          rc_active r \<and> rc_active q \<and> rc_chat r = rc_chat q \<and> rc_chat r \<noteq> None \<longrightarrow> rc_id r = rc_id q)
     \<and> (cc_required (gate_config g) \<longrightarrow> (\<exists>r\<in>set (gt_channels g). rc_active r))"

lemma gate_wfI:
  assumes "distinct (map rc_id (gt_channels g))" and "\<And>r. r \<in> set (gt_channels g) \<Longrightarrow> rc_id r < gt_next_id g"
    and "\<And>r. r \<in> set (gt_channels g) \<Longrightarrow> rc_active r \<Longrightarrow> reachable_row r"
    and "\<And>r q. r \<in> set (gt_channels g) \<Longrightarrow> q \<in> set (gt_channels g) \<Longrightarrow> rc_active r \<Longrightarrow> rc_active q \<Longrightarrow>
          rc_chat r = rc_chat q \<Longrightarrow> rc_chat r \<noteq> None \<Longrightarrow> rc_id r = rc_id q"
    and "cc_required (gate_config g) \<Longrightarrow> \<exists>r\<in>set (gt_channels g). rc_active r"
  shows "gate_wf g"
  using assms unfolding gate_wf_def by blast

lemma gate_wfD:
  assumes "gate_wf g"
  shows "distinct (map rc_id (gt_channels g))" and "\<And>r. r \<in> set (gt_channels g) \<Longrightarrow> rc_id r < gt_next_id g"
    and "\<And>r. r \<in> set (gt_channels g) \<Longrightarrow> rc_active r \<Longrightarrow> reachable_row r"
    and "\<And>r q. r \<in> set (gt_channels g) \<Longrightarrow> q \<in> set (gt_channels g) \<Longrightarrow> rc_active r \<Longrightarrow> rc_active q \<Longrightarrow>
          rc_chat r = rc_chat q \<Longrightarrow> rc_chat r \<noteq> None \<Longrightarrow> rc_id r = rc_id q"
    and "cc_required (gate_config g) \<Longrightarrow> \<exists>r\<in>set (gt_channels g). rc_active r"
  using assms unfolding gate_wf_def by blast+

lemma gate_config_required [simp]:
  "cc_required (gate_config g) = (case gt_config g of None \<Rightarrow> False | Some c \<Rightarrow> cc_required c)"
  by (simp add: gate_config_def split: option.split)

lemma set_activeChannels: "set (activeChannels g) = toRecord ` {r \<in> set (gt_channels g). rc_active r}"
  by (simp add: activeChannels_def)

lemma activeChannels_Nil: "activeChannels g = [] \<longleftrightarrow> (\<forall>r\<in>set (gt_channels g). \<not> rc_active r)"
  by (metis (mono_tags, lifting) empty_Collect_eq image_is_empty set_activeChannels set_empty)

lemma toRecord_join: "cr_join (toRecord r) \<noteq> None \<longleftrightarrow> reachable_row r"
  by (auto simp: toRecord_def reachable_row_def split: option.split)

lemma gate_audit_Inr [tx_simps]:
  "gate_audit_record admin ac t b a g = Inr (u, g') \<longleftrightarrow>
   g' = g\<lparr>gt_audit := gt_audit g @
       [\<lparr>ga_admin = admin, ga_action = ac, ga_target = t, ga_before = b, ga_after = a, ga_at = gt_clock g\<rparr>]\<rparr>"
  by (auto simp: gate_audit_record_def)

lemma gate_wf_audit [simp]: "gate_wf (g\<lparr>gt_audit := xs\<rparr>) = gate_wf g"
  by (simp add: gate_wf_def)

lemma gate_fresh_Inr [tx_simps]:
  "gate_fresh g = Inr (i, g') \<longleftrightarrow> i = gt_next_id g \<and> g' = g\<lparr>gt_next_id := gt_next_id g + 1\<rparr>"
  by (auto simp: gate_fresh_def)

lemma assertReachable_Inr [tx_simps]:
  "assertReachable u n g = Inr (x, g') \<longleftrightarrow> (u \<noteq> None \<or> n \<noteq> None) \<and> g' = g"
  by (auto simp: assertReachable_def tx_simps)

lemma assertNotDuplicate_Inr [tx_simps]:
  "assertNotDuplicate c ex g = Inr (x, g') \<longleftrightarrow> g' = g \<and>
     (\<forall>r\<in>set (gt_channels g). c \<noteq> None \<and> rc_chat r = c \<and> rc_active r \<longrightarrow> ex = Some (rc_id r))"
  by (cases c; cases ex) (auto simp: assertNotDuplicate_def tx_simps list_ex_iff)

lemma assertNotLastActive_Inr [tx_simps]:
  "assertNotLastActive i g = Inr (x, g') \<longleftrightarrow> g' = g \<and>
     (cc_required (gate_config g) \<longrightarrow> (\<exists>r\<in>set (gt_channels g). rc_active r \<and> rc_id r \<noteq> i))"
proof -
  have "count_where (\<lambda>r. rc_active r \<and> rc_id r \<noteq> i) (gt_channels g) \<noteq> 0 \<longleftrightarrow>
      (\<exists>r\<in>set (gt_channels g). rc_active r \<and> rc_id r \<noteq> i)"
    unfolding count_where_zero by blast
  then show ?thesis
    by (auto simp: assertNotLastActive_def tx_simps simp del: gate_config_required)
qed

lemma createChannel_effect:
  assumes "createChannel pu admin input g = Inr (r, g')"
  shows "\<exists>new. reachable_row new \<and> rc_id new = gt_next_id g
     \<and> (\<forall>r\<in>set (gt_channels g). \<not> (rc_chat new \<noteq> None \<and> rc_chat r = rc_chat new \<and> rc_active r))
     \<and> gt_channels g' = gt_channels g @ [new] \<and> gt_next_id g' = gt_next_id g + 1 \<and> gt_config g' = gt_config g"
proof -
  from assms obtain title where t: "normalizeTitle (in_title input) = Inr title"
    by (cases "normalizeTitle (in_title input)") (simp_all add: createChannel_def tx_lift_def)
  from assms t obtain chat where c: "normalizeChatIdentifier (in_chat input) = Inr chat"
    by (cases "normalizeChatIdentifier (in_chat input)") (simp_all add: createChannel_def tx_lift_def)
  from assms t c obtain user where u: "normalizeUsername (in_username input) = Inr user"
    by (cases "normalizeUsername (in_username input)") (simp_all add: createChannel_def tx_lift_def)
  from assms t c u obtain inv where v: "normalizeInviteUrl pu (in_invite input) = Inr inv"
    by (cases "normalizeInviteUrl pu (in_invite input)") (simp_all add: createChannel_def tx_lift_def)
  let ?new = "\<lparr>rc_id = gt_next_id g, rc_title = title, rc_chat = chat, rc_username = user,
                    rc_invite = inv, rc_sort = max_sort (gt_channels g) + SORT_STEP,
                    rc_active = patched (in_active input) True, rc_created_at = gt_clock g\<rparr>"
  have "(inv \<noteq> None \<or> user \<noteq> None)
      \<and> (\<forall>r\<in>set (gt_channels g). \<not> (chat \<noteq> None \<and> rc_chat r = chat \<and> rc_active r))
      \<and> gt_channels g' = gt_channels g @ [?new] \<and> gt_next_id g' = gt_next_id g + 1 \<and> gt_config g' = gt_config g"
    using assms by (auto simp: createChannel_def tx_lift_def t c u v Let_def tx_simps)
  then show ?thesis by (intro exI [of _ ?new]) (simp add: reachable_row_def)
qed

lemma createChannel_wf:
  assumes run: "createChannel pu admin input g = Inr (r, g')" and wf: "gate_wf g"
  shows "gate_wf g'"
proof -
  obtain new where reach: "reachable_row new" and id: "rc_id new = gt_next_id g" and
    dup: "\<forall>r\<in>set (gt_channels g). \<not> (rc_chat new \<noteq> None \<and> rc_chat r = rc_chat new \<and> rc_active r)" and
    ch: "gt_channels g' = gt_channels g @ [new]" and rest: "gt_next_id g' = gt_next_id g + 1" "gt_config g' = gt_config g"
    using createChannel_effect [OF run] by blast
  note D = gate_wfD [OF wf]
  show ?thesis
  proof (rule gate_wfI)
    have "gt_next_id g \<notin> rc_id ` set (gt_channels g)" using D(2) by force
    then show "distinct (map rc_id (gt_channels g'))" using D(1) by (simp add: ch id)
    show "\<And>r. r \<in> set (gt_channels g') \<Longrightarrow> rc_id r < gt_next_id g'" using D(2) by (auto simp: ch id rest less_Suc_eq)
    show "\<And>r. r \<in> set (gt_channels g') \<Longrightarrow> rc_active r \<Longrightarrow> reachable_row r"
      using D(3) reach by (auto simp: ch)
    have mem: "r \<in> set (gt_channels g') \<longleftrightarrow> r = new \<or> r \<in> set (gt_channels g)" for r by (auto simp: ch)
    show "\<And>r q. r \<in> set (gt_channels g') \<Longrightarrow> q \<in> set (gt_channels g') \<Longrightarrow> rc_active r \<Longrightarrow> rc_active q \<Longrightarrow>
          rc_chat r = rc_chat q \<Longrightarrow> rc_chat r \<noteq> None \<Longrightarrow> rc_id r = rc_id q"
      using D(4) dup unfolding mem by metis
    show "cc_required (gate_config g') \<Longrightarrow> \<exists>r\<in>set (gt_channels g'). rc_active r"
      using D(5) by (auto simp: ch rest)
  qed
qed

lemma updateChannel_effect:
  assumes "updateChannel pu admin i input g = Inr (r, g')"
  obtains existing title chat user inv act where
    "existing \<in> set (gt_channels g)" "rc_id existing = i"
    "gt_channels g' = update_where (\<lambda>r. rc_id r = i) (\<lambda>_. existing\<lparr>rc_title := title, rc_chat := chat,
        rc_username := user, rc_invite := inv, rc_active := act\<rparr>) (gt_channels g)"
    "gt_next_id g' = gt_next_id g" "gt_config g' = gt_config g"
    "act \<Longrightarrow> (inv \<noteq> None \<or> user \<noteq> None)
        \<and> (\<forall>r\<in>set (gt_channels g). chat \<noteq> None \<and> rc_chat r = chat \<and> rc_active r \<longrightarrow> rc_id r = i)"
    "\<not> act \<Longrightarrow> rc_active existing \<Longrightarrow> cc_required (gate_config g) \<Longrightarrow>
       \<exists>r\<in>set (gt_channels g). rc_active r \<and> rc_id r \<noteq> i"
proof -
  from assms obtain existing where fd: "find (\<lambda>r. rc_id r = i) (gt_channels g) = Some existing"
    by (cases "find (\<lambda>r. rc_id r = i) (gt_channels g)") (simp_all add: updateChannel_def)
  let ?t = "keep_or normalizeTitle (up_title input) (rc_title existing)"
    and ?c = "keep_or normalizeChatIdentifier (up_chat input) (rc_chat existing)"
    and ?u = "keep_or normalizeUsername (up_username input) (rc_username existing)"
    and ?v = "keep_or (normalizeInviteUrl pu) (up_invite input) (rc_invite existing)"
  from assms fd obtain title where t: "?t = Inr title"
    by (cases ?t) (simp_all add: updateChannel_def tx_lift_def)
  from assms fd t obtain chat where c: "?c = Inr chat"
    by (cases ?c) (simp_all add: updateChannel_def tx_lift_def)
  from assms fd t c obtain user where u: "?u = Inr user"
    by (cases ?u) (simp_all add: updateChannel_def tx_lift_def)
  from assms fd t c u obtain inv where v: "?v = Inr inv"
    by (cases ?v) (simp_all add: updateChannel_def tx_lift_def)
  let ?act = "patched (up_active input) (rc_active existing)"
  let ?new = "existing\<lparr>rc_title := title, rc_chat := chat,
        rc_username := user, rc_invite := inv, rc_active := ?act\<rparr>"
  have "\<exists>g1. update_guard ?act existing inv user chat i g = Inr ((), g1) \<and>
      gt_channels g' = update_where (\<lambda>r. rc_id r = i) (\<lambda>_. ?new) (gt_channels g1)
      \<and> gt_next_id g' = gt_next_id g1 \<and> gt_config g' = gt_config g1"
    using assms unfolding updateChannel_def tx_bind_read fd tx_some_Some tx_bind_return tx_lift_def t c u v sum.case Let_def
      tx_bind_Inr gate_audit_Inr tx_return_Inr tx_bind_modify by force
  then obtain g1 where guard: "update_guard ?act existing inv user chat i g = Inr ((), g1)"
    and g': "gt_channels g' = update_where (\<lambda>r. rc_id r = i) (\<lambda>_. ?new) (gt_channels g1)"
      "gt_next_id g' = gt_next_id g1" "gt_config g' = gt_config g1"
    by blast
  have g1: "g1 = g" using guard by (auto simp: update_guard_def tx_simps split: if_splits)
  show thesis
  proof (rule that [where existing = existing and title = title and chat = chat and user = user and inv = inv and act = ?act])
    show "existing \<in> set (gt_channels g)" "rc_id existing = i" using find_key_mem [OF fd] by simp_all
    show "?act \<Longrightarrow> (inv \<noteq> None \<or> user \<noteq> None)
        \<and> (\<forall>r\<in>set (gt_channels g). chat \<noteq> None \<and> rc_chat r = chat \<and> rc_active r \<longrightarrow> rc_id r = i)"
      using guard [unfolded g1] by (auto simp: update_guard_def tx_simps)
    show "\<not> ?act \<Longrightarrow> rc_active existing \<Longrightarrow> cc_required (gate_config g) \<Longrightarrow>
       \<exists>r\<in>set (gt_channels g). rc_active r \<and> rc_id r \<noteq> i"
      using guard [unfolded g1] by (auto simp: update_guard_def tx_simps simp del: gate_config_required)
  qed (rule g' [unfolded g1])+
qed

lemma updateChannel_wf:
  assumes run: "updateChannel pu admin i input g = Inr (r, g')" and wf: "gate_wf g"
  shows "gate_wf g'"
  using run
proof (rule updateChannel_effect)
  fix existing :: channel_row and title chat user inv act
  let ?new = "existing\<lparr>rc_title := title, rc_chat := chat, rc_username := user, rc_invite := inv, rc_active := act\<rparr>"
  assume ex: "existing \<in> set (gt_channels g)" "rc_id existing = i"
    and ch: "gt_channels g' = update_where (\<lambda>r. rc_id r = i) (\<lambda>_. ?new) (gt_channels g)"
    and rest: "gt_next_id g' = gt_next_id g" "gt_config g' = gt_config g"
    and on: "act \<Longrightarrow> (inv \<noteq> None \<or> user \<noteq> None)
        \<and> (\<forall>r\<in>set (gt_channels g). chat \<noteq> None \<and> rc_chat r = chat \<and> rc_active r \<longrightarrow> rc_id r = i)"
    and off: "\<not> act \<Longrightarrow> rc_active existing \<Longrightarrow> cc_required (gate_config g) \<Longrightarrow>
       \<exists>r\<in>set (gt_channels g). rc_active r \<and> rc_id r \<noteq> i"
  note D = gate_wfD [OF wf]
  have mem: "q \<in> set (gt_channels g') \<longleftrightarrow> (q = ?new \<or> q \<in> set (gt_channels g) \<and> rc_id q \<noteq> i)" for q
    using ex by (auto simp: ch set_update_where split: if_splits)
  have new: "rc_id ?new = i" "rc_chat ?new = chat" "rc_active ?new = act"
    "reachable_row ?new = (inv \<noteq> None \<or> user \<noteq> None)" using ex by (simp_all add: reachable_row_def)
  show ?thesis
  proof (rule gate_wfI)
    have "map rc_id (gt_channels g') = map rc_id (gt_channels g)"
      unfolding ch update_where_def map_map by (rule map_cong) (auto simp: ex)
    then show "distinct (map rc_id (gt_channels g'))" using D(1) by simp
    show "rc_id q < gt_next_id g'" if "q \<in> set (gt_channels g')" for q
      using that D(2) ex by (auto simp: mem rest)
    show "reachable_row q" if "q \<in> set (gt_channels g')" "rc_active q" for q
      using that D(3) on new by (auto simp: mem)
    show "rc_id p = rc_id q" if "p \<in> set (gt_channels g')" "q \<in> set (gt_channels g')" "rc_active p" "rc_active q"
        "rc_chat p = rc_chat q" "rc_chat p \<noteq> None" for p q
      using that D(4) on new unfolding mem by metis
    show "\<exists>q\<in>set (gt_channels g'). rc_active q" if req: "cc_required (gate_config g')"
    proof -
      have "cc_required (gate_config g)" using req rest by simp
      then obtain q where q: "q \<in> set (gt_channels g)" "rc_active q" using D(5) by blast
      show ?thesis
      proof (cases act)
        case True
        with new(3) mem show ?thesis by blast
      next
        case False
        show ?thesis
        proof (cases "rc_active existing")
          case True
          with off False \<open>cc_required (gate_config g)\<close> mem show ?thesis by blast
        next
          case inactive: False
          have "rc_id q \<noteq> i"
            using distinct_key_eq [OF D(1) q(1) ex(1)] q(2) inactive ex(2) by auto
          with q mem show ?thesis by blast
        qed
      qed
    qed
  qed
qed

lemma deleteChannel_wf:
  assumes run: "deleteChannel admin i g = Inr (u, g')" and wf: "gate_wf g"
  shows "gate_wf g'"
proof -
  have "\<exists>existing. existing \<in> set (gt_channels g) \<and> rc_id existing = i
      \<and> (rc_active existing \<and> cc_required (gate_config g) \<longrightarrow> (\<exists>r\<in>set (gt_channels g). rc_active r \<and> rc_id r \<noteq> i))
      \<and> gt_channels g' = filter (\<lambda>r. rc_id r \<noteq> i) (gt_channels g) \<and> gt_next_id g' = gt_next_id g \<and> gt_config g' = gt_config g"
    using run unfolding deleteChannel_def tx_bind_Inr tx_some_Inr gate_audit_Inr
    by (elim exE conjE) (auto simp: tx_simps dest!: find_key_mem split: if_splits simp del: gate_config_required)
  then obtain existing where ex: "existing \<in> set (gt_channels g)" "rc_id existing = i"
    and last: "rc_active existing \<Longrightarrow> cc_required (gate_config g) \<Longrightarrow>
       \<exists>r\<in>set (gt_channels g). rc_active r \<and> rc_id r \<noteq> i"
    and g': "gt_channels g' = filter (\<lambda>r. rc_id r \<noteq> i) (gt_channels g)"
      "gt_next_id g' = gt_next_id g" "gt_config g' = gt_config g"
    by blast
  note D = gate_wfD [OF wf]
  show ?thesis
  proof (rule gate_wfI)
    show "distinct (map rc_id (gt_channels g'))" using D(1) by (simp add: g' distinct_map_filter)
    show "\<exists>r\<in>set (gt_channels g'). rc_active r" if "cc_required (gate_config g')"
    proof -
      from that have req: "cc_required (gate_config g)" by (simp add: g')
      with D(5) obtain q where q: "q \<in> set (gt_channels g)" "rc_active q" by blast
      show ?thesis
      proof (cases "rc_active existing")
        case True
        with last req show ?thesis by (auto simp: g')
      next
        case False
        then have "rc_id q \<noteq> i" using distinct_key_eq [OF D(1) q(1) ex(1)] q(2) ex(2) by auto
        with q show ?thesis by (auto simp: g')
      qed
    qed
  qed (use D(2-4) in \<open>auto simp: g'\<close>)
qed

lemma reorderChannels_wf:
  assumes run: "reorderChannels admin ids g = Inr (u, g')" and wf: "gate_wf g"
  shows "gate_wf g'"
proof -
  let ?f = "\<lambda>r. case position (rc_id r) ids of None \<Rightarrow> r | Some k \<Rightarrow> r\<lparr>rc_sort := (int k + 1) * SORT_STEP\<rparr>"
  from run have g': "gt_channels g' = map ?f (gt_channels g)" "gt_next_id g' = gt_next_id g" "gt_config g' = gt_config g"
    by (auto simp: reorderChannels_def tx_simps)
  have f: "rc_id (?f r) = rc_id r" "rc_active (?f r) = rc_active r" "rc_chat (?f r) = rc_chat r"
    "reachable_row (?f r) = reachable_row r" for r
    by (simp_all add: reachable_row_def split: option.split)
  note D = gate_wfD [OF wf]
  show ?thesis
  proof (rule gate_wfI)
    have "map rc_id (gt_channels g') = map rc_id (gt_channels g)"
      unfolding g' map_map by (rule map_cong) (simp_all add: f)
    then show "distinct (map rc_id (gt_channels g'))" using D(1) by simp
    show "rc_id r < gt_next_id g'" if "r \<in> set (gt_channels g')" for r
      using that D(2) f unfolding g' by auto
    show "reachable_row r" if "r \<in> set (gt_channels g')" "rc_active r" for r
      using that D(3) f unfolding g' by auto
    show "rc_id r = rc_id q" if "r \<in> set (gt_channels g')" "q \<in> set (gt_channels g')" "rc_active r" "rc_active q"
        "rc_chat r = rc_chat q" "rc_chat r \<noteq> None" for r q
    proof -
      from that(1,2) obtain a b where "r = ?f a" "q = ?f b" "a \<in> set (gt_channels g)" "b \<in> set (gt_channels g)"
        unfolding g' by auto
      with that(3-6) D(4) [of a b] f show ?thesis by metis
    qed
    show "\<exists>r\<in>set (gt_channels g'). rc_active r" if "cc_required (gate_config g')"
      using that D(5) f unfolding g' by (metis (no_types, lifting) gate_config_required g'(3) imageI list.set_map)
  qed
qed

lemma config_update_wf:
  assumes run: "config_update admin input g = Inr (r, g')" and wf: "gate_wf g"
  shows "gate_wf g'"
proof -
  have "\<exists>c. (cc_required c \<longrightarrow> activeChannels g \<noteq> []) \<and> gt_channels g' = gt_channels g
      \<and> gt_next_id g' = gt_next_id g \<and> gt_config g' = Some c"
    using run by (auto simp: config_update_def tx_simps Let_def)
  then obtain c where ok: "cc_required c \<longrightarrow> activeChannels g \<noteq> []" and
    g': "gt_channels g' = gt_channels g" "gt_next_id g' = gt_next_id g" "gt_config g' = Some c"
    by blast
  have "\<exists>r\<in>set (gt_channels g'). rc_active r" if "cc_required (gate_config g')"
    using ok that by (simp add: g' activeChannels_Nil)
  then show ?thesis using wf unfolding gate_wf_def g'(1,2) by blast
qed

text \<open>The operations of an administrator.\<close>

datatype gate_op =
    GateConfig id config_patch | GateCreate id channel_input | GateUpdate id id channel_patch
  | GateDelete id id | GateReorder id "id list"

fun gate_step :: "(string \<Rightarrow> url option) \<Rightarrow> gate_op \<Rightarrow> (error, gate, unit) tx" where
  "gate_step pu (GateConfig a input) = tx_bind (config_update a input) (\<lambda>_. tx_return ())"
| "gate_step pu (GateCreate a input) = tx_bind (createChannel pu a input) (\<lambda>_. tx_return ())"
| "gate_step pu (GateUpdate a i input) = tx_bind (updateChannel pu a i input) (\<lambda>_. tx_return ())"
| "gate_step pu (GateDelete a i) = deleteChannel a i"
| "gate_step pu (GateReorder a ids) = tx_bind (reorderChannels a ids) (\<lambda>_. tx_return ())"

lemma gate_step_wf:
  assumes "gate_step pu x g = Inr (u, g')" and wf: "gate_wf g"
  shows "gate_wf g'"
proof (cases x)
  case (GateConfig a input)
  from assms(1) [unfolded this] obtain m where "config_update a input g = Inr (m, g')"
    unfolding gate_step.simps tx_bind_Inr tx_return_Inr by blast
  then show ?thesis by (rule config_update_wf) (rule wf)
next
  case (GateCreate a input)
  from assms(1) [unfolded this] obtain m where "createChannel pu a input g = Inr (m, g')"
    unfolding gate_step.simps tx_bind_Inr tx_return_Inr by blast
  then show ?thesis by (rule createChannel_wf) (rule wf)
next
  case (GateUpdate a i input)
  from assms(1) [unfolded this] obtain m where "updateChannel pu a i input g = Inr (m, g')"
    unfolding gate_step.simps tx_bind_Inr tx_return_Inr by blast
  then show ?thesis by (rule updateChannel_wf) (rule wf)
next
  case (GateDelete a i)
  from assms(1) [unfolded this] have "deleteChannel a i g = Inr (u, g')" by simp
  then show ?thesis by (rule deleteChannel_wf) (rule wf)
next
  case (GateReorder a ids)
  from assms(1) [unfolded this] obtain m where "reorderChannels a ids g = Inr (m, g')"
    unfolding gate_step.simps tx_bind_Inr tx_return_Inr by blast
  then show ?thesis by (rule reorderChannels_wf) (rule wf)
qed

interpretation gate_service: service "gate_step pu" gate_wf for pu
  by unfold_locales (rule gate_step_wf)

end
