(* ===== verification/Channel_Gate_Properties.thy ===== *)
theory Channel_Gate_Properties
  imports Channel_Gate
begin

text \<open>
  The properties of the channel gate: it can always be passed by joining, it only ever blocks on a
  definite answer, and its normal forms are stable.
\<close>

text \<open>C11. The gate never locks everybody out: from a well-formed gate, after any sequence of
  administrator actions, failed ones included, a gate that is switched on has an active channel,
  every active channel has a link to join it by, and no chat is required twice.\<close>

theorem gate_stays_joinable:
  assumes "gate_wf g"
  shows "(cc_required (gate_config (run_ops (gate_step pu) ops g)) \<longrightarrow> activeChannels (run_ops (gate_step pu) ops g) \<noteq> [])
    \<and> (\<forall>c\<in>set (activeChannels (run_ops (gate_step pu) ops g)). cr_join c \<noteq> None)
    \<and> (\<forall>c\<in>set (activeChannels (run_ops (gate_step pu) ops g)). \<forall>d\<in>set (activeChannels (run_ops (gate_step pu) ops g)).
         cr_chat c = cr_chat d \<and> cr_chat c \<noteq> None \<longrightarrow> cr_id c = cr_id d)"
proof -
  let ?g = "run_ops (gate_step pu) ops g"
  note D = gate_wfD [OF gate_service.run_inv [OF assms, of pu ops]]
  show ?thesis
    using D(3) D(5) toRecord_join by (auto simp: set_activeChannels activeChannels_Nil toRecord_def intro: D(4))
qed

text \<open>When the gate blocks: the action is gated, and Telegram says of some active channel that this
  user is not in it. Anything short of that answer lets the user through.\<close>

definition definitely_not_member :: "gate \<Rightarrow> id \<Rightarrow> string \<Rightarrow> bool" where
  "definitely_not_member g u action \<longleftrightarrow>
     cc_required (gate_config g) \<and> action \<in> set (cc_actions (gate_config g)) \<and> cc_verify (gate_config g)
     \<and> (\<exists>c\<in>set (activeChannels g). \<exists>chat p t. cr_chat c = Some chat \<and> gt_probe g = Some p
          \<and> gt_telegram g u = Some t \<and> pb_check p chat t = NOT_MEMBER)"

lemma probeFor_not_member:
  "probeFor g c t v = NOT_MEMBER \<longleftrightarrow>
   v \<and> (\<exists>chat p tid. cr_chat c = Some chat \<and> gt_probe g = Some p \<and> t = Some tid \<and> pb_check p chat tid = NOT_MEMBER)"
  by (auto simp: probeFor_def split: option.splits)

lemma member_iff: "List.member xs x \<longleftrightarrow> x \<in> set xs"
  by simp

lemma stateFor_allowed:
  "ms_allowed (stateFor u (Some action) g) \<longleftrightarrow> \<not> definitely_not_member g u action"
proof -
  let ?cfg = "gate_config g" and ?on = "cc_required (gate_config g) \<and> action \<in> set (cc_actions (gate_config g))"
  have "ms_allowed (stateFor u (Some action) g) \<longleftrightarrow>
      \<not> ?on \<or> (\<forall>c\<in>set (activeChannels g).
        probeFor g c (if cc_verify ?cfg then gt_telegram g u else None) (cc_verify ?cfg) \<noteq> NOT_MEMBER)"
    by (auto simp: stateFor_def Let_def member_iff filter_empty_conv simp del: gate_config_required)
  then show ?thesis
    unfolding probeFor_not_member definitely_not_member_def
    by (cases "cc_verify ?cfg") (auto simp del: gate_config_required)
qed

lemma stateFor_join:
  assumes "gate_wf g" and "\<not> ms_allowed (stateFor u (Some action) g)"
  shows "\<exists>link. ms_join (stateFor u (Some action) g) = Some link"
proof -
  have reach: "\<forall>c\<in>set (activeChannels g). cr_join c \<noteq> None"
    using gate_wfD(3) [OF assms(1)] toRecord_join by (auto simp: set_activeChannels)
  let ?out = "filter (\<lambda>c. \<not> st_allowed c) (ms_channels (stateFor u (Some action) g))"
  have ne: "?out \<noteq> []" and join: "ms_join (stateFor u (Some action) g) = (case ?out of [] \<Rightarrow> None | c # _ \<Rightarrow> st_join c)"
    using assms(2) unfolding stateFor_def Let_def by (simp_all split: if_splits)
  have "\<forall>c\<in>set (ms_channels (stateFor u (Some action) g)). st_join c \<noteq> None"
    using reach by (auto simp: stateFor_def Let_def)
  moreover have "hd ?out \<in> set (ms_channels (stateFor u (Some action) g))"
    using ne by (metis filter_is_subset hd_in_set subsetD)
  ultimately have "st_join (hd ?out) \<noteq> None" by blast
  then show ?thesis using join ne by (cases ?out) auto
qed

text \<open>C12. The gate fails open, and a refusal always says what to do: a user is refused exactly when the
  action is gated and Telegram definitely says not a member of an active channel, and every refusal
  carries a link to join.\<close>

theorem gate_blocks_only_a_definite_no:
  assumes "gate_wf g"
  shows "if definitely_not_member g u action
    then \<exists>link more. assertAllowed g u action s =
           Inl (AppError ''CHANNEL_MEMBERSHIP_REQUIRED'' ((''joinUrl'', JStr link) # more))
    else assertAllowed g u action s = Inr ((), s)"
  using stateFor_allowed [of u action g] stateFor_join [OF assms, of u action]
  by (auto simp: assertAllowed_def Let_def jopt_def)

section \<open>Normal forms\<close>

lemma normal_form_again:
  shows "normalizeTitle a = Inr b \<Longrightarrow> normalizeTitle b = Inr b"
    and "normalizeChatIdentifier c = Inr d \<Longrightarrow> normalizeChatIdentifier d = Inr d"
    and "normalizeUsername e = Inr f \<Longrightarrow> normalizeUsername f = Inr f"
proof -
  show "normalizeTitle a = Inr b \<Longrightarrow> normalizeTitle b = Inr b"
    by (auto simp: normalizeTitle_def Let_def split: if_splits)
  show "normalizeUsername e = Inr f \<Longrightarrow> normalizeUsername f = Inr f"
  proof (cases e)
    case (Some v)
    let ?w = "strip_at (trim v)"
    assume n: "normalizeUsername e = Inr f"
    show ?thesis
    proof (cases "?w = []")
      case True
      with n Some show ?thesis by (simp add: normalizeUsername_def)
    next
      case False
      with n Some have f: "f = Some ?w" and ok: "username_ok ?w" by (auto simp: normalizeUsername_def Let_def split: if_splits)
      then have all: "list_all is_word_char ?w" by (simp add: username_ok_def)
      then have "trim ?w = ?w" using no_space_word by (intro trim_no_space) (auto simp: list_all_iff)
      moreover have "hd ?w \<noteq> CHR ''@''" using all False
        by (cases ?w) (auto simp: is_word_char_def is_digit_def)
      ultimately show ?thesis using f ok False by (simp add: normalizeUsername_def strip_at_def [of ?w] Let_def)
    qed
  qed (simp add: normalizeUsername_def)
  show "normalizeChatIdentifier c = Inr d \<Longrightarrow> normalizeChatIdentifier d = Inr d"
  proof (cases c)
    case (Some v)
    let ?t = "trim v"
    assume n: "normalizeChatIdentifier c = Inr d"
    consider "?t = []" | "?t \<noteq> []" "numeric_chat ?t" | "?t \<noteq> []" "\<not> numeric_chat ?t" "username_ok (strip_at ?t)"
      using n Some by (auto simp: normalizeChatIdentifier_def Let_def split: if_splits)
    then show ?thesis
    proof cases
      case 1
      with n Some show ?thesis by (simp add: normalizeChatIdentifier_def)
    next
      case 2
      with n Some show ?thesis by (auto simp: normalizeChatIdentifier_def)
    next
      case 3
      let ?u = "CHR ''@'' # strip_at ?t"
      have d: "d = Some ?u" using 3 n Some by (simp add: normalizeChatIdentifier_def)
      have "list_all is_word_char (strip_at ?t)" using 3 by (simp add: username_ok_def)
      then have "list_all (\<lambda>c. \<not> is_space c) ?u" using no_space_word by (auto simp: list_all_iff is_space_def)
      then have "trim ?u = ?u" by (rule trim_no_space)
      moreover have "\<not> numeric_chat ?u" by (simp add: numeric_chat_def is_digit_def)
      ultimately show ?thesis using d 3 by (simp add: normalizeChatIdentifier_def strip_at_def [of ?u])
    qed
  qed (simp add: normalizeChatIdentifier_def)
qed

section \<open>Witnesses\<close>

definition sample_gate :: gate where
  "sample_gate = \<lparr>gt_clock = 0, gt_next_id = 2,
     gt_config = Some \<lparr>cc_required = True, cc_actions = [''EVENT_JOIN''], cc_verify = True, cc_updated_at = 0\<rparr>,
     gt_channels = [\<lparr>rc_id = 1, rc_title = ''news'', rc_chat = Some ''@newsroom'', rc_username = Some ''newsroom'',
        rc_invite = None, rc_sort = 10, rc_active = True, rc_created_at = 0\<rparr>],
     gt_telegram = (\<lambda>_. Some 77),
     gt_probe = Some \<lparr>pb_check = (\<lambda>_ _. NOT_MEMBER), pb_standing = None, pb_invalidates = False\<rparr>, gt_audit = []\<rparr>"

lemma sample_gate_wf: "gate_wf sample_gate"
  by (simp add: gate_wf_def sample_gate_def reachable_row_def)

theorem gate_stays_joinable_witness:
  "activeChannels (run_ops (gate_step (\<lambda>_. None)) [GateDelete 5 1] sample_gate) \<noteq> []"
proof -
  have "cc_required (gate_config (run_ops (gate_step (\<lambda>_. None)) [GateDelete 5 1] sample_gate))" by code_simp
  then show ?thesis using gate_stays_joinable [OF sample_gate_wf, of "\<lambda>_. None" "[GateDelete 5 1]"] by blast
qed

theorem gate_blocks_only_a_definite_no_witness:
  "\<exists>link more. assertAllowed sample_gate 7 ''EVENT_JOIN'' (0::nat) =
     Inl (AppError ''CHANNEL_MEMBERSHIP_REQUIRED'' ((''joinUrl'', JStr link) # more))"
proof -
  have "definitely_not_member sample_gate 7 ''EVENT_JOIN''"
    by (simp add: definitely_not_member_def sample_gate_def gate_config_def isGatedAction_def GATED_ACTIONS_def
        activeChannels_def toRecord_def)
  then show ?thesis using gate_blocks_only_a_definite_no [OF sample_gate_wf, of 7 "''EVENT_JOIN''" 0] by simp
qed

text \<open>Normal forms are stable: what a title, a chat identifier or a user name is stored as is
  normalised to itself, so editing a channel without changing a field never changes it.\<close>

lemma normal_forms_are_stable:
  "(normalizeTitle a = Inr b \<longrightarrow> normalizeTitle b = Inr b)
   \<and> (normalizeChatIdentifier c = Inr d \<longrightarrow> normalizeChatIdentifier d = Inr d)
   \<and> (normalizeUsername e = Inr f \<longrightarrow> normalizeUsername f = Inr f)"
  by (intro conjI impI normal_form_again)

lemma normal_forms_are_stable_witness:
  "normalizeTitle ''  news '' = Inr ''news'' \<and> normalizeTitle ''news'' = Inr ''news''
   \<and> normalizeChatIdentifier (Some ''newsroom'') = Inr (Some ''@newsroom'')
   \<and> normalizeChatIdentifier (Some ''@newsroom'') = Inr (Some ''@newsroom'')
   \<and> normalizeUsername (Some ''@newsroom'') = Inr (Some ''newsroom'')
   \<and> normalizeUsername (Some ''newsroom'') = Inr (Some ''newsroom'')"
proof -
  have a: "normalizeTitle ''  news '' = Inr ''news''" by code_simp
  have b: "normalizeChatIdentifier (Some ''newsroom'') = Inr (Some ''@newsroom'')" by code_simp
  have c: "normalizeUsername (Some ''@newsroom'') = Inr (Some ''newsroom'')" by code_simp
  show ?thesis using a b c normal_forms_are_stable [of "''  news ''" "''news''" "Some ''newsroom''" "Some ''@newsroom''"
    "Some ''@newsroom''" "Some ''newsroom''"] by blast
qed

end
