(* ===== verification/Participation.thy ===== *)
theory Participation
  imports Penalty Channel_Gate
begin

text \<open>
  Asking for a seat and everything that happens to the request
  (\<^verbatim>\<open>packages/domain/src/participation/participation.service.ts\<close> and the row locks of
  \<^verbatim>\<open>events/event-lock.ts\<close>). Definitions only, in the order of the source; the theory
  Participation_Invariant holds what they keep.

  A transaction takes the event row's lock first, so transactions on one event are serialised
  and each is one step of the model. What \<^verbatim>\<open>join\<close> reads before its transaction (the joiner, the
  policy numbers) is an argument of \<open>join_tx\<close>, so that its properties hold for stale reads too.
\<close>

section \<open>Constants and records\<close>

definition EVENT_JOIN_REASON :: string where "EVENT_JOIN_REASON = ''participation.requested''"
definition EVENT_JOIN_REFUND_REASON :: string where "EVENT_JOIN_REFUND_REASON = ''participation.rejected_refund''"
definition EVENT_JOIN_EXPIRY_REFUND_REASON :: string where
  "EVENT_JOIN_EXPIRY_REFUND_REASON = ''participation.expired_refund''"
definition EVENT_JOIN_WAITLIST_REFUND_REASON :: string where
  "EVENT_JOIN_WAITLIST_REFUND_REASON = ''participation.waitlist_refund''"

definition eventJoinSpendKey :: "id \<Rightarrow> id \<Rightarrow> string" where
  "eventJoinSpendKey eventId userId = ''join:'' @ show_id eventId @ '':'' @ show_id userId"

record participation_detail =
  pd_public_id :: id
  pd_event_public_id :: id
  pd_status :: participant_status
  pd_requested_at :: instant
  pd_host_deadline_at :: "instant option"
  pd_grace_expires_at :: "instant option"
  pd_accepted_at :: "instant option"
  pd_cancelled_at :: "instant option"
  pd_cancellation_bucket :: "cancellation_bucket option"
  pd_waitlist_rank :: "nat option"

record participant_summary =
  ps_public_id :: id
  ps_user_public_id :: id
  ps_display_name :: string
  ps_age :: "int option"
  ps_trust_score :: "int option"
  ps_founding_tier :: "int option"
  ps_status :: participant_status
  ps_requested_at :: instant
  ps_host_deadline_at :: "instant option"
  ps_waitlist_rank :: "nat option"

record joiner =
  jn_birth_year :: int
  jn_gender :: "gender option"
  jn_city :: id

record promoted_participant =
  pm_id :: id
  pm_public_id :: id
  pm_host_deadline_at :: instant

record cancellation_preview =
  cv_bucket :: "cancellation_bucket option"
  cv_price :: penalty_price
  cv_join_charge :: int
  cv_status :: participant_status

record join_preview =
  jp_event_title :: string
  jp_coins :: int
  jp_status :: participant_status

section \<open>The tables\<close>

text \<open>\<^verbatim>\<open>lockEventByPublicIdForUpdate\<close> and \<^verbatim>\<open>lockEventByParticipantPublicIdForUpdate\<close>.\<close>

definition event_by_public_id :: "id \<Rightarrow> db \<Rightarrow> event_row option" where
  "event_by_public_id p s = find (\<lambda>e. ev_public_id e = p) (events s)"

definition event_by_id :: "id \<Rightarrow> db \<Rightarrow> event_row option" where
  "event_by_id i s = find (\<lambda>e. ev_id e = i) (events s)"

definition participant_by_public_id :: "id \<Rightarrow> db \<Rightarrow> participant_row option" where
  "participant_by_public_id p s = find (\<lambda>r. pt_public_id r = p) (participants s)"

definition participant_by_id :: "id \<Rightarrow> db \<Rightarrow> participant_row option" where
  "participant_by_id i s = find (\<lambda>r. pt_id r = i) (participants s)"

definition event_by_participant :: "id \<Rightarrow> db \<Rightarrow> event_row option" where
  "event_by_participant p s =
     (case participant_by_public_id p s of
        None \<Rightarrow> None
      | Some r \<Rightarrow> event_by_id (pt_event r) s)"

text \<open>The CHECKs of migration 10 on \<^verbatim>\<open>event_participant\<close>.\<close>

definition participant_checks :: "participant_row \<Rightarrow> bool" where
  "participant_checks r \<longleftrightarrow>
     (if pt_status r = P_ACCEPTED then pt_accepted_at r \<noteq> None
      else if List.member [P_PENDING, P_WAITLISTED, P_REJECTED, P_EXPIRED] (pt_status r)
      then pt_accepted_at r = None else True)
     \<and> (List.member [P_CANCELLED_BY_PARTICIPANT, P_CANCELLED_BY_HOST] (pt_status r) \<longrightarrow> pt_cancelled_at r \<noteq> None)
     \<and> (pt_promoted_at r = None \<or> pt_status r \<noteq> P_WAITLISTED)
     \<and> (pt_penalty_ledger_id r = None \<or> pt_cancellation_bucket r \<noteq> None)"

text \<open>\<^verbatim>\<open>tx.eventParticipant.update({ where: { id } })\<close>: returns the row as updated.\<close>

definition participant_update :: "id \<Rightarrow> (participant_row \<Rightarrow> participant_row) \<Rightarrow> (error, db, participant_row) tx" where
  "participant_update i f =
     tx_bind (tx_read (participant_by_id i)) (\<lambda>r.
     tx_bind (tx_some r (DbError ''event_participant not found'')) (\<lambda>r.
     tx_bind (tx_guard (participant_checks (f r)) (DbError ''event_participant constraint'')) (\<lambda>_.
     tx_bind (tx_modify (\<lambda>s. s\<lparr>participants := update_where (\<lambda>q. pt_id q = i) (\<lambda>_. f r) (participants s)\<rparr>)) (\<lambda>_.
     tx_return (f r)))))"

text \<open>
  \<^verbatim>\<open>tx.event.update\<close> incrementing \<^verbatim>\<open>accepted_count\<close>, under the CHECK
  \<^verbatim>\<open>event_accepted_count_within_capacity\<close>.
\<close>

definition event_count_update :: "id \<Rightarrow> int \<Rightarrow> (error, db, unit) tx" where
  "event_count_update i d =
     tx_bind (tx_read (event_by_id i)) (\<lambda>e.
     tx_bind (tx_some e (DbError ''event not found'')) (\<lambda>e.
     tx_bind (tx_guard (0 \<le> ev_accepted_count e + d \<and> ev_accepted_count e + d \<le> ev_capacity e)
       (DbError ''event_accepted_count_within_capacity'')) (\<lambda>_.
     tx_modify (\<lambda>s. s\<lparr>events := update_where (\<lambda>q. ev_id q = i)
       (\<lambda>q. q\<lparr>ev_accepted_count := ev_accepted_count q + d\<rparr>) (events s)\<rparr>))))"

definition event_request_count_update :: "id \<Rightarrow> (error, db, unit) tx" where
  "event_request_count_update i =
     tx_bind (tx_read (event_by_id i)) (\<lambda>e.
     tx_bind (tx_some e (DbError ''event not found'')) (\<lambda>e.
     tx_modify (\<lambda>s. s\<lparr>events := update_where (\<lambda>q. ev_id q = i)
       (\<lambda>q. q\<lparr>ev_request_count := ev_request_count q + 1\<rparr>) (events s)\<rparr>)))"

text \<open>A new row with the columns an insert names; the rest are the column defaults.\<close>

definition new_participant :: "id \<Rightarrow> id \<Rightarrow> id \<Rightarrow> id \<Rightarrow> participant_status \<Rightarrow> instant \<Rightarrow> participant_row" where
  "new_participant i pub e u st now =
     \<lparr>pt_id = i, pt_public_id = pub, pt_event = e, pt_user = u, pt_status = st, pt_requested_at = now,
      pt_decided_at = None, pt_accepted_at = None, pt_cancelled_at = None, pt_grace_expires_at = None,
      pt_host_deadline_at = None, pt_promoted_at = None, pt_reminded_first_at = None,
      pt_reminded_second_at = None, pt_cancellation_reason = None, pt_cancellation_bucket = None,
      pt_penalty_ledger_id = None, pt_attended = None, pt_no_show_notified_at = None, pt_version = 0\<rparr>"

text \<open>
  An insert of \<open>mk i pub\<close>; \<open>None\<close> when the row is skipped as a duplicate of
  \<^verbatim>\<open>(event_id, user_id)\<close>.
\<close>

definition participant_insert ::
  "(id \<Rightarrow> id \<Rightarrow> participant_row) \<Rightarrow> (error, db, participant_row option) tx" where
  "participant_insert mk =
     tx_bind fresh_id (\<lambda>i.
     tx_bind fresh_id (\<lambda>pub.
     tx_bind (tx_read participants) (\<lambda>rows.
     if list_ex (\<lambda>r. pt_event r = pt_event (mk i pub) \<and> pt_user r = pt_user (mk i pub)) rows
     then tx_return None
     else
       tx_bind (tx_guard (participant_checks (mk i pub)) (DbError ''event_participant constraint'')) (\<lambda>_.
       tx_bind (tx_modify (\<lambda>s. s\<lparr>participants := participants s @ [mk i pub]\<rparr>)) (\<lambda>_.
       tx_return (Some (mk i pub)))))))"

text \<open>\<^verbatim>\<open>orderBy: [{ requestedAt: 'asc' }, { id: 'asc' }]\<close>.\<close>

definition queue_order :: "participant_row list \<Rightarrow> participant_row list" where
  "queue_order rows = sort_key pt_requested_at (sort_key pt_id rows)"

definition waitlist :: "id \<Rightarrow> db \<Rightarrow> participant_row list" where
  "waitlist e s = queue_order (filter (\<lambda>r. pt_event r = e \<and> pt_status r = P_WAITLISTED) (participants s))"

definition outstanding :: "id \<Rightarrow> db \<Rightarrow> nat" where
  "outstanding e s = count_where (\<lambda>r. pt_event r = e \<and> holdsSlot (pt_status r)) (participants s)"

section \<open>Small helpers\<close>

text \<open>The name shown for a user with no profile, as its UTF-8 bytes.\<close>

definition DEFAULT_DISPLAY_NAME :: string where
  "DEFAULT_DISPLAY_NAME = map (char_of :: nat \<Rightarrow> char)
     [218, 169, 216, 167, 216, 177, 216, 168, 216, 177, 32, 217, 190, 216, 167, 219, 140, 216, 170, 217, 133]"

definition ageOf :: "int option \<Rightarrow> instant \<Rightarrow> zone \<Rightarrow> int option" where
  "ageOf birthYear now tz =
     (case birthYear of None \<Rightarrow> None | Some y \<Rightarrow> Some (ageFromBirthYear y now tz))"

definition requesterIdentity :: "id \<Rightarrow> db \<Rightarrow> (string \<times> jval) list" where
  "requesterIdentity userId s =
     [(''participantDisplayName'',
         JStr (case profiles s userId of None \<Rightarrow> DEFAULT_DISPLAY_NAME | Some p \<Rightarrow> pr_display_name p)),
      (''participantAge'',
         jopt JInt (ageOf (case profiles s userId of None \<Rightarrow> None | Some p \<Rightarrow> pr_birth_year p) (clock s) (app_timezone s))),
      (''participantTrustScore'', jopt JInt (map_of (trust_scores s) userId)),
      (''participantFoundingTier'', jopt JInt (founding_tiers s userId))]"

definition waitlistRank :: "participant_row \<Rightarrow> db \<Rightarrow> nat" where
  "waitlistRank p s =
     count_where (\<lambda>r. pt_event r = pt_event p \<and> pt_status r = P_WAITLISTED
       \<and> (pt_requested_at r < pt_requested_at p
          \<or> pt_requested_at r = pt_requested_at p \<and> pt_id r < pt_id p)) (participants s) + 1"

definition toDetail :: "participant_row \<Rightarrow> id \<Rightarrow> db \<Rightarrow> participation_detail" where
  "toDetail p eventPublicId s =
     \<lparr>pd_public_id = pt_public_id p, pd_event_public_id = eventPublicId, pd_status = pt_status p,
      pd_requested_at = pt_requested_at p, pd_host_deadline_at = pt_host_deadline_at p,
      pd_grace_expires_at = pt_grace_expires_at p, pd_accepted_at = pt_accepted_at p,
      pd_cancelled_at = pt_cancelled_at p, pd_cancellation_bucket = pt_cancellation_bucket p,
      pd_waitlist_rank = (if pt_status p = P_WAITLISTED then Some (waitlistRank p s) else None)\<rparr>"

definition hostDeadline :: "instant \<Rightarrow> instant \<Rightarrow> int \<Rightarrow> int \<Rightarrow> int \<Rightarrow> instant" where
  "hostDeadline now startsAt hours minHoursBefore minResponseMinutes =
     (let byResponseWindow = now + hours * 3600000;
          byEventStart = startsAt - minHoursBefore * 3600000;
          preferred = min byResponseWindow byEventStart;
          floor = min (now + minResponseMinutes * 60000) startsAt
      in max preferred floor)"

definition bucketFor :: "participant_row \<Rightarrow> instant \<Rightarrow> instant \<Rightarrow> cancellation_bucket option" where
  "bucketFor participant startsAt now =
     (if pt_status participant \<noteq> P_ACCEPTED then None
      else if (case pt_grace_expires_at participant of None \<Rightarrow> False | Some g \<Rightarrow> now \<le> g) then Some B_GRACE
      else Some (bucketForLateness startsAt now))"

text \<open>\<^verbatim>\<open>unrefundedJoinChargeWhere\<close>.\<close>

definition unrefundedJoinCharge :: "id \<Rightarrow> coin_ledger_row list \<Rightarrow> coin_ledger_row \<Rightarrow> bool" where
  "unrefundedJoinCharge participantId rows r \<longleftrightarrow>
     cl_ref_type r = Some ''event_participant'' \<and> cl_ref_id r = Some participantId
     \<and> cl_type r = EVENT_JOIN_SPEND
     \<and> (\<forall>q\<in>set rows. cl_reverses q \<noteq> Some (cl_id r))"

definition unrefundedJoinTotal :: "id \<Rightarrow> db \<Rightarrow> int" where
  "unrefundedJoinTotal participantId s =
     \<bar>sum_where (unrefundedJoinCharge participantId (coin_ledger s)) cl_amount (coin_ledger s)\<bar>"

definition refundJoinCharge :: "id \<Rightarrow> string \<Rightarrow> actor_type \<Rightarrow> id option \<Rightarrow> (error, db, int) tx" where
  "refundJoinCharge participantId reasonCode actorType actorId =
     tx_bind (tx_read (\<lambda>s. filter (unrefundedJoinCharge participantId (coin_ledger s)) (coin_ledger s))) (\<lambda>charges.
     tx_fold (refund_step reasonCode actorType actorId) charges 0)"

definition assertSeatAvailable :: "event_row \<Rightarrow> (error, db, unit) tx" where
  "assertSeatAvailable event =
     tx_guard (\<not> ev_accepted_count event \<ge> ev_capacity event)
       (AppError ''CAPACITY_EXCEEDED''
         [(''capacity'', JInt (ev_capacity event)), (''acceptedCount'', JInt (ev_accepted_count event))])"

text \<open>
  \<^verbatim>\<open>takeSeat\<close> and \<^verbatim>\<open>releaseSeat\<close> also move the count of the locked event they were given; here
  they return it.
\<close>

definition takeSeat :: "event_row \<Rightarrow> (error, db, event_row) tx" where
  "takeSeat event =
     tx_bind (assertSeatAvailable event) (\<lambda>_.
     tx_bind (event_count_update (ev_id event) 1) (\<lambda>_.
     tx_return (event\<lparr>ev_accepted_count := ev_accepted_count event + 1\<rparr>)))"

definition releaseSeat :: "event_row \<Rightarrow> (error, db, event_row) tx" where
  "releaseSeat event =
     tx_bind (event_count_update (ev_id event) (- 1)) (\<lambda>_.
     tx_return (event\<lparr>ev_accepted_count := ev_accepted_count event - 1\<rparr>))"

text \<open>\<^verbatim>\<open>if (holdsSeat(status)) await releaseSeat(tx, event)\<close>, in \<^verbatim>\<open>reject\<close> and in \<^verbatim>\<open>cancel\<close>.\<close>

definition releaseIfHeld :: "participant_status \<Rightarrow> event_row \<Rightarrow> (error, db, event_row) tx" where
  "releaseIfHeld st event = (if holdsSeat st then releaseSeat event else tx_return event)"

definition assertJoinable :: "event_row \<Rightarrow> instant \<Rightarrow> (error, db, unit) tx" where
  "assertJoinable event now =
     tx_bind (tx_guard (\<not> (ev_deleted_at event \<noteq> None \<or> ev_status event \<noteq> E_PUBLISHED)) (app_error ''EVENT_NOT_FOUND'')) (\<lambda>_.
     tx_guard (\<not> ev_starts_at event \<le> now) (app_error ''EVENT_NOT_JOINABLE''))"

definition assertEligible :: "id \<Rightarrow> joiner \<Rightarrow> instant \<Rightarrow> (error, db, unit) tx" where
  "assertEligible eventId joiner now =
     tx_bind (tx_read (event_by_id eventId)) (\<lambda>event.
     tx_bind (tx_some event (DbError ''event not found'')) (\<lambda>event.
     tx_bind (tx_guard (\<not> jn_city joiner \<noteq> ev_city_id event) (app_error ''NOT_ELIGIBLE_CITY'')) (\<lambda>_.
     tx_bind (tx_guard (case ev_gender_preference event of
                          None \<Rightarrow> True
                        | Some MALE_ONLY \<Rightarrow> jn_gender joiner = Some G_MALE
                        | Some FEMALE_ONLY \<Rightarrow> jn_gender joiner = Some G_FEMALE)
       (app_error ''NOT_ELIGIBLE_GENDER'')) (\<lambda>_.
     tx_bind (tx_read app_timezone) (\<lambda>tz.
     let age = ageFromBirthYear (jn_birth_year joiner) now tz
     in tx_guard (\<not> ((case ev_min_age event of None \<Rightarrow> False | Some a \<Rightarrow> age < a)
                      \<or> (case ev_max_age event of None \<Rightarrow> False | Some a \<Rightarrow> age > a)))
          (app_error ''NOT_ELIGIBLE_AGE''))))))"

definition loadJoiner :: "id \<Rightarrow> (error, db, joiner) tx" where
  "loadJoiner userId =
     tx_bind (tx_read (\<lambda>s. users s userId)) (\<lambda>user.
     tx_bind (tx_some user (app_error ''UNAUTHENTICATED'')) (\<lambda>user.
     tx_bind (tx_guard (us_status user \<noteq> U_BANNED) (app_error ''USER_BANNED'')) (\<lambda>_.
     tx_bind (tx_read (\<lambda>s. profiles s userId)) (\<lambda>profile.
     tx_bind (tx_guard (us_onboarding user = O_PROFILE_COMPLETE) (app_error ''PROFILE_INCOMPLETE'')) (\<lambda>_.
     tx_bind (tx_some profile (app_error ''PROFILE_INCOMPLETE'')) (\<lambda>profile.
     tx_bind (tx_some (pr_birth_year profile) (app_error ''PROFILE_INCOMPLETE'')) (\<lambda>birthYear.
     tx_return \<lparr>jn_birth_year = birthYear, jn_gender = pr_gender profile, jn_city = pr_city_id profile\<rparr>)))))))"

section \<open>The waitlist\<close>

definition promote_payload :: "event_row \<Rightarrow> participant_row \<Rightarrow> instant \<Rightarrow> id \<Rightarrow> id \<Rightarrow> db \<Rightarrow> (string \<times> jval) list" where
  "promote_payload event nxt deadline hostPublicId userPublicId s =
     [(''participantPublicId'', JId (pt_public_id nxt)), (''eventPublicId'', JId (ev_public_id event)),
      (''eventTitle'', JStr (ev_title event)), (''hostUserPublicId'', JId hostPublicId),
      (''promotedUserPublicId'', JId userPublicId), (''hostDeadlineAt'', JInt deadline)]
     @ requesterIdentity (pt_user nxt) s"

text \<open>One round of the loop of \<^verbatim>\<open>fillFreedSeats\<close>.\<close>

definition promoteNext ::
  "event_row \<Rightarrow> instant \<Rightarrow> instant \<Rightarrow> participant_row \<Rightarrow> (error, db, promoted_participant) tx" where
  "promoteNext event now deadline nxt =
     tx_bind (assertParticipantTransition (pt_status nxt) P_PENDING (Some (pt_id nxt))) (\<lambda>_.
     tx_bind (participant_update (pt_id nxt) (\<lambda>r. r\<lparr>pt_status := P_PENDING, pt_promoted_at := Some now,
       pt_host_deadline_at := Some deadline, pt_version := pt_version r + 1\<rparr>)) (\<lambda>_.
     tx_bind (audit_record A_SYSTEM None ''waitlist.promoted'' ''event_participant'' (Some (pt_id nxt))
       (Some (JObj [(''status'', JStr ''WAITLISTED'')]))
       (Some (JObj [(''status'', JStr ''PENDING''), (''hostDeadlineAt'', JInt deadline)]))) (\<lambda>_.
     tx_bind (publicIdOf (ev_host event)) (\<lambda>hostPublicId.
     tx_bind (publicIdOf (pt_user nxt)) (\<lambda>userPublicId.
     tx_bind (tx_read (promote_payload event nxt deadline hostPublicId userPublicId)) (\<lambda>payload.
     tx_bind (outbox_emit ''event_participant'' (pt_id nxt) ''waitlist.promoted'' payload) (\<lambda>_.
     tx_return \<lparr>pm_id = pt_id nxt, pm_public_id = pt_public_id nxt, pm_host_deadline_at = deadline\<rparr>)))))))"

function fillLoop ::
  "event_row \<Rightarrow> instant \<Rightarrow> instant \<Rightarrow> int \<Rightarrow> promoted_participant list \<Rightarrow>
   (error, db, promoted_participant list) tx" where
  "fillLoop event now deadline out promoted =
     (if ev_accepted_count event + out < ev_capacity event
      then tx_bind (tx_read (waitlist (ev_id event))) (\<lambda>queue.
             case queue of
               [] \<Rightarrow> tx_return promoted
             | nxt # _ \<Rightarrow>
                 tx_bind (promoteNext event now deadline nxt) (\<lambda>p.
                 fillLoop event now deadline (out + 1) (promoted @ [p])))
      else tx_return promoted)"
  by auto

termination
  by (relation "measure (\<lambda>(event, now, deadline, out, promoted). nat (ev_capacity event - ev_accepted_count event - out))")
     auto

declare fillLoop.simps [simp del]

definition fillFreedSeats :: "event_row \<Rightarrow> instant \<Rightarrow> (error, db, promoted_participant list) tx" where
  "fillFreedSeats event now =
     tx_bind (tx_read (getInt ''waitlist.promotion_deadline_hours'')) (\<lambda>deadlineHours.
     tx_bind (tx_read (getInt ''waitlist.min_hours_before_event'')) (\<lambda>minHoursBefore.
     tx_bind (tx_read (getInt ''participation.min_response_minutes'')) (\<lambda>minResponseMinutes.
     tx_bind (tx_read (outstanding (ev_id event))) (\<lambda>out.
     fillLoop event now
       (hostDeadline now (ev_starts_at event) deadlineHours minHoursBefore minResponseMinutes) (int out) []))))"

section \<open>Asking\<close>

definition join_payload ::
  "event_row \<Rightarrow> participant_row \<Rightarrow> participant_status \<Rightarrow> id \<Rightarrow> id \<Rightarrow> db \<Rightarrow> (string \<times> jval) list" where
  "join_payload event participant status hostPublicId userPublicId s =
     [(''participantPublicId'', JId (pt_public_id participant)), (''eventPublicId'', JId (ev_public_id event)),
      (''eventTitle'', JStr (ev_title event)), (''hostUserPublicId'', JId hostPublicId),
      (''participantUserPublicId'', JId userPublicId), (''status'', JStr (participant_status_name status))]
     @ requesterIdentity (pt_user participant) s"

text \<open>The charge of asking, when there is one.\<close>

definition joinCharge :: "id \<Rightarrow> id \<Rightarrow> id \<Rightarrow> int \<Rightarrow> (error, db, unit) tx" where
  "joinCharge userId eventId participantId joinCost =
     (if joinCost > 0
      then tx_bind (coin_apply
        \<lparr>ci_user = userId, ci_amount = - joinCost, ci_type = EVENT_JOIN_SPEND, ci_reason = EVENT_JOIN_REASON,
         ci_key = eventJoinSpendKey eventId userId, ci_actor_type = A_USER, ci_actor_id = Some userId,
         ci_ref_type = Some ''event_participant'', ci_ref_id = Some participantId,
         ci_metadata = None, ci_reverses = None\<rparr>) (\<lambda>_. tx_return ())
      else tx_return ())"

definition join_tx ::
  "id \<Rightarrow> id \<Rightarrow> joiner \<Rightarrow> int \<Rightarrow> int \<Rightarrow> int \<Rightarrow> int \<Rightarrow> (error, db, participation_detail) tx" where
  "join_tx userId eventPublicId joiner hostResponseHours minHoursBefore minResponseMinutes joinCost =
     tx_bind (tx_read clock) (\<lambda>now.
     tx_bind (tx_read (event_by_public_id eventPublicId)) (\<lambda>event.
     tx_bind (tx_some event (app_error ''EVENT_NOT_FOUND'')) (\<lambda>event.
     tx_bind (assertJoinable event now) (\<lambda>_.
     tx_bind (tx_guard (ev_host event \<noteq> userId) (app_error ''HOST_CANNOT_JOIN'')) (\<lambda>_.
     tx_bind (assertEligible (ev_id event) joiner now) (\<lambda>_.
     tx_bind (tx_read (outstanding (ev_id event))) (\<lambda>out.
     let roomToAsk = ev_accepted_count event + int out < ev_capacity event;
         status = (if roomToAsk then P_PENDING else P_WAITLISTED);
         hostDeadlineAt = (if roomToAsk
           then Some (hostDeadline now (ev_starts_at event) hostResponseHours minHoursBefore minResponseMinutes)
           else None)
     in tx_bind (participant_insert (\<lambda>i pub.
          (new_participant i pub (ev_id event) userId status now)\<lparr>pt_host_deadline_at := hostDeadlineAt\<rparr>)) (\<lambda>inserted.
        tx_bind (tx_some inserted (app_error ''DUPLICATE_REQUEST'')) (\<lambda>participant.
        tx_bind (event_request_count_update (ev_id event)) (\<lambda>_.
        tx_bind (audit_record A_USER (Some userId) ''participation.requested'' ''event_participant''
          (Some (pt_id participant)) None
          (Some (JObj [(''status'', JStr (participant_status_name status)), (''eventId'', JId (ev_id event)),
                       (''seatTaken'', JBool False)]))) (\<lambda>_.
        tx_bind (publicIdOf (ev_host event)) (\<lambda>hostPublicId.
        tx_bind (publicIdOf userId) (\<lambda>userPublicId.
        tx_bind (tx_read (join_payload event participant status hostPublicId userPublicId)) (\<lambda>payload.
        tx_bind (outbox_emit ''event_participant'' (pt_id participant) ''participation.requested'' payload) (\<lambda>_.
        tx_bind (joinCharge userId (ev_id event) (pt_id participant) joinCost) (\<lambda>_.
        tx_read (toDetail participant (ev_public_id event))))))))))))))))))"

text \<open>The whole of \<^verbatim>\<open>join\<close>: the gate, the reads, the transaction.\<close>

definition join :: "gate \<Rightarrow> id \<Rightarrow> id \<Rightarrow> (error, db, participation_detail) tx" where
  "join g userId eventPublicId =
     tx_bind (assertAllowed g userId ''EVENT_JOIN'') (\<lambda>_.
     tx_bind (loadJoiner userId) (\<lambda>joiner.
     tx_bind (tx_read (getInt ''participation.host_response_hours'')) (\<lambda>hostResponseHours.
     tx_bind (tx_read (getInt ''participation.min_hours_before_event'')) (\<lambda>minHoursBefore.
     tx_bind (tx_read (getInt ''participation.min_response_minutes'')) (\<lambda>minResponseMinutes.
     tx_bind (tx_read (getInt ''economy.event_join_coins'')) (\<lambda>joinCost.
     join_tx userId eventPublicId joiner hostResponseHours minHoursBefore minResponseMinutes joinCost))))))"

definition previewJoin :: "gate \<Rightarrow> id \<Rightarrow> id \<Rightarrow> (error, db, join_preview) tx" where
  "previewJoin g userId eventPublicId =
     tx_bind (tx_read clock) (\<lambda>now.
     tx_bind (assertAllowed g userId ''EVENT_JOIN'') (\<lambda>_.
     tx_bind (loadJoiner userId) (\<lambda>joiner.
     tx_bind (tx_read (event_by_public_id eventPublicId)) (\<lambda>event.
     tx_bind (tx_some event (app_error ''EVENT_NOT_FOUND'')) (\<lambda>event.
     tx_bind (assertJoinable event now) (\<lambda>_.
     tx_bind (tx_guard (ev_host event \<noteq> userId) (app_error ''HOST_CANNOT_JOIN'')) (\<lambda>_.
     tx_bind (assertEligible (ev_id event) joiner now) (\<lambda>_.
     tx_bind (tx_read (\<lambda>s. count_where (\<lambda>r. pt_event r = ev_id event \<and> pt_user r = userId) (participants s))) (\<lambda>existing.
     tx_bind (tx_read (outstanding (ev_id event))) (\<lambda>out.
     tx_bind (tx_read (getInt ''economy.event_join_coins'')) (\<lambda>coins.
     tx_bind (tx_guard (\<not> existing > 0) (app_error ''DUPLICATE_REQUEST'')) (\<lambda>_.
     tx_return \<lparr>jp_event_title = ev_title event, jp_coins = coins,
       jp_status = (if ev_accepted_count event + int out < ev_capacity event then P_PENDING else P_WAITLISTED)\<rparr>))))))))))))"

section \<open>Deciding\<close>

definition readParticipantByPublicId :: "id \<Rightarrow> (error, db, participant_row) tx" where
  "readParticipantByPublicId publicId =
     tx_bind (tx_read (participant_by_public_id publicId)) (\<lambda>p.
     tx_some p (app_error ''NOT_FOUND''))"

definition decide ::
  "id \<Rightarrow> id \<Rightarrow> (event_row \<Rightarrow> participant_row \<Rightarrow> (error, db, participant_row) tx) \<Rightarrow> (error, db, participation_detail) tx" where
  "decide hostUserId participantPublicId app =
     tx_bind (tx_read (event_by_participant participantPublicId)) (\<lambda>event.
     tx_bind (tx_some event (app_error ''NOT_FOUND'')) (\<lambda>event.
     tx_bind (tx_guard (ev_host event = hostUserId) (app_error ''NOT_FOUND'')) (\<lambda>_.
     tx_bind (readParticipantByPublicId participantPublicId) (\<lambda>participant.
     tx_bind (app event participant) (\<lambda>updated.
     tx_read (toDetail updated (ev_public_id event)))))))"

definition status_json :: "participant_status \<Rightarrow> jval option" where
  "status_json st = Some (JObj [(''status'', JStr (participant_status_name st))])"

definition decision_payload :: "event_row \<Rightarrow> participant_row \<Rightarrow> id \<Rightarrow> (string \<times> jval) list" where
  "decision_payload event participant userPublicId =
     [(''participantPublicId'', JId (pt_public_id participant)), (''eventPublicId'', JId (ev_public_id event)),
      (''eventTitle'', JStr (ev_title event)), (''participantUserPublicId'', JId userPublicId)]"

definition accept_apply :: "id \<Rightarrow> event_row \<Rightarrow> participant_row \<Rightarrow> (error, db, participant_row) tx" where
  "accept_apply hostUserId event participant =
     tx_bind (tx_read clock) (\<lambda>now.
     tx_bind (tx_read (getInt ''participation.grace_minutes'')) (\<lambda>graceMinutes.
     tx_bind (assertParticipantTransition (pt_status participant) P_ACCEPTED (Some (pt_id participant))) (\<lambda>_.
     tx_bind (if \<not> holdsSeat (pt_status participant)
              then tx_bind (assertSeatAvailable event) (\<lambda>_. takeSeat event)
              else tx_return event) (\<lambda>event.
     tx_bind (participant_update (pt_id participant) (\<lambda>r. r\<lparr>pt_status := P_ACCEPTED, pt_decided_at := Some now,
       pt_accepted_at := Some now, pt_grace_expires_at := Some (now + graceMinutes * 60000),
       pt_version := pt_version r + 1\<rparr>)) (\<lambda>updated.
     tx_bind (audit_record A_USER (Some hostUserId) ''participation.accepted'' ''event_participant''
       (Some (pt_id participant)) (status_json (pt_status participant)) (status_json P_ACCEPTED)) (\<lambda>_.
     tx_bind (publicIdOf (pt_user participant)) (\<lambda>userPublicId.
     tx_bind (outbox_emit ''event_participant'' (pt_id participant) ''participation.accepted''
       (decision_payload event updated userPublicId)) (\<lambda>_.
     tx_return updated))))))))"

definition accept :: "id \<Rightarrow> id \<Rightarrow> (error, db, participation_detail) tx" where
  "accept hostUserId participantPublicId = decide hostUserId participantPublicId (accept_apply hostUserId)"

definition seatSeedParticipant :: "id \<Rightarrow> id \<Rightarrow> (error, db, unit) tx" where
  "seatSeedParticipant eventPublicId userId =
     tx_bind (tx_read clock) (\<lambda>now.
     tx_bind (tx_read (getInt ''participation.grace_minutes'')) (\<lambda>graceMinutes.
     tx_bind (tx_read (event_by_public_id eventPublicId)) (\<lambda>event.
     tx_bind (tx_some event (app_error ''NOT_FOUND'')) (\<lambda>event.
     tx_bind (assertSeatAvailable event) (\<lambda>_.
     tx_bind (takeSeat event) (\<lambda>event.
     tx_bind (participant_insert (\<lambda>i pub. (new_participant i pub (ev_id event) userId P_ACCEPTED now)
       \<lparr>pt_decided_at := Some now, pt_accepted_at := Some now,
        pt_grace_expires_at := Some (now + graceMinutes * 60000)\<rparr>)) (\<lambda>inserted.
     tx_bind (tx_some inserted (DbError ''event_participant_event_id_user_id_key'')) (\<lambda>participant.
     audit_record A_SYSTEM None ''participation.seed_seated'' ''event_participant''
       (Some (pt_id participant)) None (status_json P_ACCEPTED)))))))))"

definition refund_json :: "participant_status \<Rightarrow> int \<Rightarrow> jval option" where
  "refund_json st refunded =
     Some (JObj [(''status'', JStr (participant_status_name st)), (''coinsRefunded'', JInt refunded)])"

definition reject_apply :: "id \<Rightarrow> event_row \<Rightarrow> participant_row \<Rightarrow> (error, db, participant_row) tx" where
  "reject_apply hostUserId event participant =
     tx_bind (tx_read clock) (\<lambda>now.
     tx_bind (assertParticipantTransition (pt_status participant) P_REJECTED (Some (pt_id participant))) (\<lambda>_.
     tx_bind (releaseIfHeld (pt_status participant) event) (\<lambda>event.
     tx_bind (participant_update (pt_id participant) (\<lambda>r. r\<lparr>pt_status := P_REJECTED, pt_decided_at := Some now,
       pt_version := pt_version r + 1\<rparr>)) (\<lambda>updated.
     tx_bind (refundJoinCharge (pt_id participant) EVENT_JOIN_REFUND_REASON A_USER (Some hostUserId)) (\<lambda>refunded.
     tx_bind (fillFreedSeats event now) (\<lambda>_.
     tx_bind (audit_record A_USER (Some hostUserId) ''participation.rejected'' ''event_participant''
       (Some (pt_id participant)) (status_json (pt_status participant)) (refund_json P_REJECTED refunded)) (\<lambda>_.
     tx_bind (publicIdOf (pt_user participant)) (\<lambda>userPublicId.
     tx_bind (outbox_emit ''event_participant'' (pt_id participant) ''participation.rejected''
       (decision_payload event updated userPublicId @ [(''coinsRefunded'', JInt refunded)])) (\<lambda>_.
     tx_return updated)))))))))"

definition reject :: "id \<Rightarrow> id \<Rightarrow> (error, db, participation_detail) tx" where
  "reject hostUserId participantPublicId = decide hostUserId participantPublicId (reject_apply hostUserId)"

section \<open>Cancelling\<close>

definition previewCancellation :: "id \<Rightarrow> id \<Rightarrow> (error, db, cancellation_preview) tx" where
  "previewCancellation userId participantPublicId =
     tx_bind (tx_read clock) (\<lambda>now.
     tx_bind (tx_read (participant_by_public_id participantPublicId)) (\<lambda>participant.
     tx_bind (tx_some participant (app_error ''NOT_FOUND'')) (\<lambda>participant.
     tx_bind (tx_guard (pt_user participant = userId) (app_error ''NOT_FOUND'')) (\<lambda>_.
     tx_bind (assertParticipantTransition (pt_status participant) P_CANCELLED_BY_PARTICIPANT None) (\<lambda>_.
     tx_bind (tx_read (unrefundedJoinTotal (pt_id participant))) (\<lambda>charge.
     tx_bind (tx_read (event_by_id (pt_event participant))) (\<lambda>event.
     tx_bind (tx_some event (DbError ''event not found'')) (\<lambda>event.
     let bucket = bucketFor participant (ev_starts_at event) now
     in tx_bind (tx_read (\<lambda>s. case bucket of None \<Rightarrow> \<lparr>pp_coins = 0, pp_trust = 0\<rparr> | Some b \<Rightarrow> priceFor b s)) (\<lambda>price.
        tx_return \<lparr>cv_bucket = bucket, cv_price = price, cv_join_charge = charge,
                   cv_status = pt_status participant\<rparr>)))))))))"

definition chargeIfAny ::
  "id \<Rightarrow> id \<Rightarrow> cancellation_bucket option \<Rightarrow> id \<Rightarrow> (error, db, charged_penalty option) tx" where
  "chargeIfAny participantId userId bucket eventId =
     (case bucket of
        None \<Rightarrow> tx_return None
      | Some b \<Rightarrow> tx_bind (chargeParticipant participantId userId b eventId) (\<lambda>c. tx_return (Some c)))"

definition cancel_json :: "cancellation_bucket option \<Rightarrow> charged_penalty option \<Rightarrow> jval option" where
  "cancel_json bucket penalty =
     Some (JObj [(''status'', JStr ''CANCELLED_BY_PARTICIPANT''),
       (''bucket'', jopt (\<lambda>b. JStr (bucket_name b)) bucket),
       (''coinsCharged'', JInt (case penalty of None \<Rightarrow> 0 | Some c \<Rightarrow> ch_coins c)),
       (''trustApplied'', JInt (case penalty of None \<Rightarrow> 0 | Some c \<Rightarrow> ch_trust c))])"

definition cancel :: "id \<Rightarrow> id \<Rightarrow> string option \<Rightarrow> (error, db, participation_detail) tx" where
  "cancel userId participantPublicId reason =
     tx_bind (tx_read clock) (\<lambda>now.
     tx_bind (tx_read (event_by_participant participantPublicId)) (\<lambda>event.
     tx_bind (tx_some event (app_error ''NOT_FOUND'')) (\<lambda>event.
     tx_bind (readParticipantByPublicId participantPublicId) (\<lambda>participant.
     tx_bind (tx_guard (pt_user participant = userId) (app_error ''NOT_FOUND'')) (\<lambda>_.
     tx_bind (assertParticipantTransition (pt_status participant) P_CANCELLED_BY_PARTICIPANT
       (Some (pt_id participant))) (\<lambda>_.
     tx_bind (releaseIfHeld (pt_status participant) event) (\<lambda>event.
     let bucket = bucketFor participant (ev_starts_at event) now
     in tx_bind (chargeIfAny (pt_id participant) userId bucket (ev_id event)) (\<lambda>penalty.
        tx_bind (participant_update (pt_id participant) (\<lambda>r. r\<lparr>pt_status := P_CANCELLED_BY_PARTICIPANT,
          pt_cancelled_at := Some now, pt_cancellation_bucket := bucket, pt_cancellation_reason := reason,
          pt_penalty_ledger_id := (case penalty of None \<Rightarrow> None | Some c \<Rightarrow> ch_ledger_id c),
          pt_version := pt_version r + 1\<rparr>)) (\<lambda>updated.
        tx_bind (audit_record A_USER (Some userId) ''participation.cancelled'' ''event_participant''
          (Some (pt_id participant)) (status_json (pt_status participant)) (cancel_json bucket penalty)) (\<lambda>_.
        tx_bind (publicIdOf (ev_host event)) (\<lambda>hostPublicId.
        tx_bind (outbox_emit ''event_participant'' (pt_id participant) ''participation.cancelled''
          [(''participantPublicId'', JId (pt_public_id participant)), (''eventPublicId'', JId (ev_public_id event)),
           (''eventTitle'', JStr (ev_title event)), (''hostUserPublicId'', JId hostPublicId),
           (''statusBefore'', JStr (participant_status_name (pt_status participant)))]) (\<lambda>_.
        tx_bind (fillFreedSeats event now) (\<lambda>_.
        tx_read (toDetail updated (ev_public_id event)))))))))))))))"

section \<open>Expiring\<close>

definition expireOne :: "id \<Rightarrow> instant \<Rightarrow> (error, db, bool) tx" where
  "expireOne participantPublicId now =
     tx_bind (tx_read (event_by_participant participantPublicId)) (\<lambda>event.
     case event of None \<Rightarrow> tx_return False | Some event \<Rightarrow>
     tx_bind (readParticipantByPublicId participantPublicId) (\<lambda>participant.
     if pt_status participant \<noteq> P_PENDING then tx_return False
     else if (case pt_host_deadline_at participant of None \<Rightarrow> True | Some d \<Rightarrow> d > now) then tx_return False
     else
       tx_bind (assertParticipantTransition (pt_status participant) P_EXPIRED (Some (pt_id participant))) (\<lambda>_.
       tx_bind (participant_update (pt_id participant) (\<lambda>r. r\<lparr>pt_status := P_EXPIRED, pt_version := pt_version r + 1\<rparr>)) (\<lambda>_.
       tx_bind (refundJoinCharge (pt_id participant) EVENT_JOIN_EXPIRY_REFUND_REASON A_SYSTEM None) (\<lambda>refunded.
       tx_bind (audit_record A_SYSTEM None ''participation.expired'' ''event_participant''
         (Some (pt_id participant)) (status_json P_PENDING) (refund_json P_EXPIRED refunded)) (\<lambda>_.
       tx_bind (publicIdOf (pt_user participant)) (\<lambda>userPublicId.
       tx_bind (outbox_emit ''event_participant'' (pt_id participant) ''participation.expired''
         (decision_payload event participant userPublicId @ [(''coinsRefunded'', JInt refunded)])) (\<lambda>_.
       tx_bind (fillFreedSeats event now) (\<lambda>_.
       tx_return True)))))))))"

definition expireWaitlistedOne :: "id \<Rightarrow> instant \<Rightarrow> (error, db, bool) tx" where
  "expireWaitlistedOne participantPublicId now =
     tx_bind (tx_read (event_by_participant participantPublicId)) (\<lambda>event.
     case event of None \<Rightarrow> tx_return False | Some event \<Rightarrow>
     if ev_starts_at event > now then tx_return False
     else
     tx_bind (readParticipantByPublicId participantPublicId) (\<lambda>participant.
     if pt_status participant \<noteq> P_WAITLISTED then tx_return False
     else
       tx_bind (assertParticipantTransition (pt_status participant) P_EXPIRED (Some (pt_id participant))) (\<lambda>_.
       tx_bind (participant_update (pt_id participant) (\<lambda>r. r\<lparr>pt_status := P_EXPIRED, pt_version := pt_version r + 1\<rparr>)) (\<lambda>_.
       tx_bind (refundJoinCharge (pt_id participant) EVENT_JOIN_WAITLIST_REFUND_REASON A_SYSTEM None) (\<lambda>refunded.
       tx_bind (audit_record A_SYSTEM None ''waitlist.expired'' ''event_participant''
         (Some (pt_id participant)) (status_json P_WAITLISTED) (refund_json P_EXPIRED refunded)) (\<lambda>_.
       tx_bind (publicIdOf (pt_user participant)) (\<lambda>userPublicId.
       tx_bind (outbox_emit ''event_participant'' (pt_id participant) ''participation.expired''
         (decision_payload event participant userPublicId
          @ [(''coinsRefunded'', JInt refunded), (''waitlisted'', JBool True)])) (\<lambda>_.
       tx_return True))))))))"

definition promoteForEvent :: "id \<Rightarrow> (error, db, nat) tx" where
  "promoteForEvent eventPublicId =
     tx_bind (tx_read clock) (\<lambda>now.
     tx_bind (tx_read (event_by_public_id eventPublicId)) (\<lambda>event.
     case event of None \<Rightarrow> tx_return 0 | Some event \<Rightarrow>
     if ev_deleted_at event \<noteq> None \<or> ev_status event \<noteq> E_PUBLISHED then tx_return 0
     else if ev_starts_at event \<le> now then tx_return 0
     else tx_bind (fillFreedSeats event now) (\<lambda>promoted. tx_return (length promoted))))"

section \<open>Sweeps\<close>

text \<open>
  A sweep runs one transaction per candidate and adds up what they return; an error stops it,
  keeping what the earlier transactions committed. The candidates are read once, up front.
\<close>

fun tx_sweep :: "('a \<Rightarrow> (error, db, nat) tx) \<Rightarrow> 'a list \<Rightarrow> nat \<Rightarrow> db \<Rightarrow> (error + nat) \<times> db" where
  "tx_sweep f [] n s = (Inr n, s)"
| "tx_sweep f (x # xs) n s =
     (case f x s of Inl e \<Rightarrow> (Inl e, s) | Inr (k, s') \<Rightarrow> tx_sweep f xs (n + k) s')"

definition counted :: "(error, db, bool) tx \<Rightarrow> (error, db, nat) tx" where
  "counted m = tx_bind m (\<lambda>b. tx_return (if b then 1 else 0))"

definition overdue :: "nat \<Rightarrow> db \<Rightarrow> id list" where
  "overdue limit s =
     take limit (map pt_public_id (sort_key (\<lambda>r. the (pt_host_deadline_at r))
       (filter (\<lambda>r. pt_status r = P_PENDING
          \<and> (case pt_host_deadline_at r of None \<Rightarrow> False | Some d \<Rightarrow> d \<le> clock s)) (participants s))))"

definition expireOverdue :: "nat \<Rightarrow> db \<Rightarrow> (error + nat) \<times> db" where
  "expireOverdue limit s = tx_sweep (\<lambda>p. counted (expireOne p (clock s))) (overdue limit s) 0 s"

definition stranded :: "nat \<Rightarrow> db \<Rightarrow> id list" where
  "stranded limit s =
     take limit (map pt_public_id (queue_order
       (filter (\<lambda>r. pt_status r = P_WAITLISTED
          \<and> (case event_by_id (pt_event r) s of None \<Rightarrow> False | Some e \<Rightarrow> ev_starts_at e \<le> clock s)) (participants s))))"

definition expireWaitlisted :: "nat \<Rightarrow> db \<Rightarrow> (error + nat) \<times> db" where
  "expireWaitlisted limit s = tx_sweep (\<lambda>p. counted (expireWaitlistedOne p (clock s))) (stranded limit s) 0 s"

definition sweep_candidates :: "nat \<Rightarrow> db \<Rightarrow> id list" where
  "sweep_candidates limit s =
     take limit (map ev_public_id (sort_key ev_starts_at
       (filter (\<lambda>e. ev_status e = E_PUBLISHED \<and> ev_deleted_at e = None \<and> ev_starts_at e > clock s
          \<and> list_ex (\<lambda>r. pt_event r = ev_id e \<and> pt_status r = P_WAITLISTED) (participants s)) (events s))))"

definition sweepWaitlists :: "nat \<Rightarrow> db \<Rightarrow> (error + nat) \<times> db" where
  "sweepWaitlists limit s = tx_sweep promoteForEvent (sweep_candidates limit s) 0 s"

section \<open>Reads\<close>

definition pendingCounts :: "id list \<Rightarrow> db \<Rightarrow> (id \<times> nat) list" where
  "pendingCounts eventPublicIds s =
     map (\<lambda>e. (ev_public_id e, outstanding (ev_id e) s))
       (filter (\<lambda>e. List.member eventPublicIds (ev_public_id e)) (events s))"

definition summary_of :: "db \<Rightarrow> participant_row \<Rightarrow> nat option \<Rightarrow> participant_summary" where
  "summary_of s row rank =
     \<lparr>ps_public_id = pt_public_id row,
      ps_user_public_id = (case users s (pt_user row) of None \<Rightarrow> 0 | Some u \<Rightarrow> us_public_id u),
      ps_display_name = (case profiles s (pt_user row) of None \<Rightarrow> DEFAULT_DISPLAY_NAME | Some p \<Rightarrow> pr_display_name p),
      ps_age = ageOf (case profiles s (pt_user row) of None \<Rightarrow> None | Some p \<Rightarrow> pr_birth_year p) (clock s) (app_timezone s),
      ps_trust_score = map_of (trust_scores s) (pt_user row),
      ps_founding_tier = founding_tiers s (pt_user row),
      ps_status = pt_status row, ps_requested_at = pt_requested_at row,
      ps_host_deadline_at = pt_host_deadline_at row, ps_waitlist_rank = rank\<rparr>"

fun rank_rows :: "db \<Rightarrow> nat \<Rightarrow> participant_row list \<Rightarrow> participant_summary list" where
  "rank_rows s rank [] = []"
| "rank_rows s rank (row # rows) =
     (let rank' = (if pt_status row = P_WAITLISTED then rank + 1 else rank)
      in summary_of s row (if pt_status row = P_WAITLISTED then Some rank' else None) # rank_rows s rank' rows)"

definition listForEvent :: "id \<Rightarrow> id \<Rightarrow> (error, db, participant_summary list) tx" where
  "listForEvent hostUserId eventPublicId =
     tx_bind (tx_read (event_by_public_id eventPublicId)) (\<lambda>event.
     tx_bind (tx_some event (app_error ''EVENT_NOT_FOUND'')) (\<lambda>event.
     tx_bind (tx_guard (ev_deleted_at event = None) (app_error ''EVENT_NOT_FOUND'')) (\<lambda>_.
     tx_bind (tx_guard (ev_host event = hostUserId) (app_error ''EVENT_NOT_FOUND'')) (\<lambda>_.
     tx_read (\<lambda>s. rank_rows s 0 (queue_order (filter (\<lambda>r. pt_event r = ev_id event) (participants s))))))))"

definition countPendingForHost :: "id \<Rightarrow> db \<Rightarrow> nat" where
  "countPendingForHost hostUserId s =
     count_where (\<lambda>r. pt_status r = P_PENDING
       \<and> (case event_by_id (pt_event r) s of
            None \<Rightarrow> False
          | Some e \<Rightarrow> ev_host e = hostUserId \<and> ev_status e = E_PUBLISHED \<and> ev_deleted_at e = None)) (participants s)"

definition findMineForEvent :: "id \<Rightarrow> id \<Rightarrow> db \<Rightarrow> participation_detail option" where
  "findMineForEvent userId eventPublicId s =
     (case find (\<lambda>r. pt_user r = userId
        \<and> (case event_by_id (pt_event r) s of None \<Rightarrow> False | Some e \<Rightarrow> ev_public_id e = eventPublicId)
        \<and> List.member [P_PENDING, P_WAITLISTED, P_ACCEPTED] (pt_status r)) (participants s) of
        None \<Rightarrow> None
      | Some row \<Rightarrow> Some (toDetail row eventPublicId s))"

definition listMine :: "id \<Rightarrow> db \<Rightarrow> (participation_detail \<times> id \<times> string \<times> instant) list" where
  "listMine userId s =
     List.map_filter (\<lambda>row. case event_by_id (pt_event row) s of
         None \<Rightarrow> None
       | Some e \<Rightarrow> Some (toDetail row (ev_public_id e) s, ev_public_id e, ev_title e, ev_starts_at e))
       (sort_key (\<lambda>r. - pt_requested_at r) (filter (\<lambda>r. pt_user r = userId) (participants s)))"

end
