(* ===== verification/Participation_Invariant.thy ===== *)
theory Participation_Invariant
  imports Participation
begin

text \<open>
  What the operations of \<^verbatim>\<open>participation.service.ts\<close> keep. Every one of them is a sequence of
  elementary changes to the desk of one event (\<open>desk_step\<close>): a participation moving along its
  transition table together with the event's counter, a new participation, or writes to other
  tables. The invariants are proved once per elementary change: well-formedness (\<open>desk_wf\<close>), no
  oversold event (\<open>seats_ok\<close>), histories (\<open>participation_kept\<close>), and, per operation, that nobody
  is left waiting beside a free place (\<open>no_idle_seat\<close>). \<open>fillLoop_spec\<close> says exactly what the
  promotion loop does.
\<close>

section \<open>Well-formed desks\<close>

text \<open>
  The statuses counted in \<^verbatim>\<open>event.accepted_count\<close>: a seat is given back only when the person
  leaves (\<^verbatim>\<open>cancel\<close>); attending, missing the event or losing it to the host keeps it.
\<close>

definition seated :: "participant_status \<Rightarrow> bool" where
  "seated st \<longleftrightarrow> List.member [P_ACCEPTED, P_COMPLETED, P_NO_SHOW, P_CANCELLED_BY_HOST] st"

definition taken :: "id \<Rightarrow> db \<Rightarrow> nat" where
  "taken e s = count_where (\<lambda>r. pt_event r = e \<and> seated (pt_status r)) (participants s)"

definition desk_wf :: "db \<Rightarrow> bool" where
  "desk_wf s \<longleftrightarrow>
     distinct (map pt_id (participants s)) \<and> distinct (map pt_public_id (participants s))
     \<and> distinct (map (\<lambda>r. (pt_event r, pt_user r)) (participants s))
     \<and> distinct (map ev_id (events s)) \<and> distinct (map ev_public_id (events s))
     \<and> (\<forall>r\<in>set (participants s). pt_id r < next_id s \<and> pt_public_id r < next_id s
          \<and> participant_checks r \<and> pt_requested_at r \<le> clock s)"

text \<open>No event is oversold, and its counter is the number of seats taken.\<close>

definition seats_ok :: "db \<Rightarrow> bool" where
  "seats_ok s \<longleftrightarrow>
     (\<forall>e\<in>set (events s). ev_accepted_count e = int (taken (ev_id e) s) \<and> ev_accepted_count e \<le> ev_capacity e)"

lemma seated_simps [simp]:
  "seated P_ACCEPTED" "seated P_COMPLETED" "seated P_NO_SHOW" "seated P_CANCELLED_BY_HOST"
  "\<not> seated P_PENDING" "\<not> seated P_WAITLISTED" "\<not> seated P_REJECTED" "\<not> seated P_EXPIRED"
  "\<not> seated P_CANCELLED_BY_PARTICIPANT"
  by (simp_all add: seated_def)

section \<open>The elementary changes\<close>

text \<open>Everything else an operation writes leaves the two tables alone.\<close>

definition desk_frame :: "db \<Rightarrow> db \<Rightarrow> bool" where
  "desk_frame s s' \<longleftrightarrow> events s' = events s \<and> participants s' = participants s \<and> clock s' = clock s
     \<and> settings s' = settings s \<and> users s' = users s \<and> next_id s \<le> next_id s'"

definition bump :: "id \<Rightarrow> int \<Rightarrow> nat \<Rightarrow> event_row list \<Rightarrow> event_row list" where
  "bump e d c = update_where (\<lambda>q. ev_id q = e)
     (\<lambda>q. q\<lparr>ev_accepted_count := ev_accepted_count q + d, ev_request_count := ev_request_count q + c\<rparr>)"

definition seat_delta :: "participant_status \<Rightarrow> participant_status \<Rightarrow> int" where
  "seat_delta from to = (if seated to then 1 else 0) - (if seated from then 1 else 0)"

definition room_for :: "id \<Rightarrow> int \<Rightarrow> db \<Rightarrow> bool" where
  "room_for e d s \<longleftrightarrow> d = 0 \<or> (\<exists>ev. event_by_id e s = Some ev
     \<and> 0 \<le> ev_accepted_count ev + d \<and> ev_accepted_count ev + d \<le> ev_capacity ev)"

text \<open>\<open>moved r r'\<close>: one participation changes status along an edge of its table, and the counter of its event with it.\<close>

definition moved :: "participant_row \<Rightarrow> participant_row \<Rightarrow> db \<Rightarrow> db \<Rightarrow> bool" where
  "moved r r' s s' \<longleftrightarrow> r \<in> set (participants s)
     \<and> pt_id r' = pt_id r \<and> pt_public_id r' = pt_public_id r \<and> pt_event r' = pt_event r
     \<and> pt_user r' = pt_user r \<and> pt_requested_at r' = pt_requested_at r
     \<and> pt_status r' \<in> set (PARTICIPANT_TRANSITIONS (pt_status r)) \<and> participant_checks r'
     \<and> participants s' = update_where (\<lambda>q. pt_id q = pt_id r) (\<lambda>_. r') (participants s)
     \<and> room_for (pt_event r) (seat_delta (pt_status r) (pt_status r')) s
     \<and> events s' = bump (pt_event r) (seat_delta (pt_status r) (pt_status r')) 0 (events s)
     \<and> next_id s \<le> next_id s' \<and> clock s' = clock s \<and> settings s' = settings s"

definition inserted :: "participant_row \<Rightarrow> nat \<Rightarrow> db \<Rightarrow> db \<Rightarrow> bool" where
  "inserted row c s s' \<longleftrightarrow>
     (\<forall>r\<in>set (participants s). \<not> (pt_event r = pt_event row \<and> pt_user r = pt_user row))
     \<and> next_id s \<le> pt_id row \<and> next_id s \<le> pt_public_id row
     \<and> pt_id row < next_id s' \<and> pt_public_id row < next_id s'
     \<and> participant_checks row \<and> pt_requested_at row = clock s
     \<and> participants s' = participants s @ [row]
     \<and> room_for (pt_event row) (seat_delta P_PENDING (pt_status row)) s
     \<and> events s' = bump (pt_event row) (seat_delta P_PENDING (pt_status row)) c (events s)
     \<and> next_id s \<le> next_id s' \<and> clock s' = clock s \<and> settings s' = settings s"

text \<open>A step on the desk of one event.\<close>

inductive desk_step :: "id \<Rightarrow> db \<Rightarrow> db \<Rightarrow> bool" for e where
  frame: "desk_frame s s' \<Longrightarrow> desk_step e s s'"
| move: "moved r r' s s' \<Longrightarrow> pt_event r = e \<Longrightarrow> desk_step e s s'"
| insert: "inserted row c s s' \<Longrightarrow> pt_event row = e \<Longrightarrow> desk_step e s s'"

lemma desk_frame_refl: "desk_frame s s"
  by (simp add: desk_frame_def)

lemma desk_frame_reflp: "reflp desk_frame"
  by (simp add: reflp_def desk_frame_refl)

lemma desk_frame_trans: "desk_frame a b \<Longrightarrow> desk_frame b c \<Longrightarrow> desk_frame a c"
  by (auto simp: desk_frame_def)

lemma desk_frame_transp: "transp desk_frame"
  by (rule transpI) (rule desk_frame_trans)

lemma money_desk_frame: "money_frame s s' \<Longrightarrow> desk_frame s s'"
  using money_frame_simps [of s s'] by (simp add: desk_frame_def)

lemma coin_desk_frame: "coin_frame s s' \<Longrightarrow> desk_frame s s'"
  by (rule money_desk_frame) (rule coin_frame_money)

lemma bump_zero [simp]: "bump e 0 0 = (\<lambda>evs. evs)"
proof
  show "bump e 0 0 evs = evs" for evs by (induction evs) (simp_all add: bump_def)
qed

lemma bump_keys [simp]:
  "map ev_id (bump e d c evs) = map ev_id evs" "map ev_public_id (bump e d c evs) = map ev_public_id evs"
  by (simp_all add: bump_def)

lemma bump_bump: "bump e d c (bump e d' c' evs) = bump e (d + d') (c + c') evs"
  by (induction evs) (simp_all add: bump_def)

lemma moved_keys:
  assumes "moved r r' s s'"
  shows "map pt_id (participants s') = map pt_id (participants s)"
    "distinct (map pt_id (participants s)) \<Longrightarrow> map pt_public_id (participants s') = map pt_public_id (participants s)"
    "distinct (map pt_id (participants s)) \<Longrightarrow>
       map (\<lambda>r. (pt_event r, pt_user r)) (participants s') = map (\<lambda>r. (pt_event r, pt_user r)) (participants s)"
proof -
  note m = assms [unfolded moved_def]
  show "map pt_id (participants s') = map pt_id (participants s)"
    using m by (auto simp: update_where_def)
  assume d: "distinct (map pt_id (participants s))"
  have "q = r" if "q \<in> set (participants s)" "pt_id q = pt_id r" for q
    using distinct_key_eq [OF d] that m by blast
  then show "map pt_public_id (participants s') = map pt_public_id (participants s)"
    "map (\<lambda>r. (pt_event r, pt_user r)) (participants s') = map (\<lambda>r. (pt_event r, pt_user r)) (participants s)"
    using m by (auto simp: update_where_def)
qed

lemma moved_mem:
  assumes "moved r r' s s'" and "q \<in> set (participants s')"
  shows "q = r' \<or> q \<in> set (participants s) \<and> pt_id q \<noteq> pt_id r"
  using assms by (auto simp: moved_def set_update_where split: if_splits)

lemma moved_wf:
  assumes m: "moved r r' s s'" and wf: "desk_wf s"
  shows "desk_wf s'"
proof -
  have d: "distinct (map pt_id (participants s))" using wf by (simp add: desk_wf_def)
  have "pt_id q < next_id s' \<and> pt_public_id q < next_id s' \<and> participant_checks q \<and> pt_requested_at q \<le> clock s'"
    if "q \<in> set (participants s')" for q
    using moved_mem [OF m that] m wf by (auto simp: desk_wf_def moved_def)
  then show ?thesis
    using wf moved_keys [OF m] m by (simp add: desk_wf_def moved_def)
qed

lemma inserted_wf:
  assumes i: "inserted row c s s'" and wf: "desk_wf s"
  shows "desk_wf s'"
  using assms by (auto simp: desk_wf_def inserted_def)

lemma frame_wf: "desk_frame s s' \<Longrightarrow> desk_wf s \<Longrightarrow> desk_wf s'"
  by (auto simp: desk_frame_def desk_wf_def)

lemma desk_step_wf: "desk_step e s s' \<Longrightarrow> desk_wf s \<Longrightarrow> desk_wf s'"
  by (cases rule: desk_step.cases) (auto intro: frame_wf moved_wf inserted_wf)

lemma desk_steps_wf: "(desk_step e)\<^sup>*\<^sup>* s s' \<Longrightarrow> desk_wf s \<Longrightarrow> desk_wf s'"
  by (induction rule: rtranclp_induct) (auto intro: desk_step_wf)

text \<open>Counting rows of a kind after a change.\<close>

definition rows_of :: "(participant_status \<Rightarrow> bool) \<Rightarrow> id \<Rightarrow> db \<Rightarrow> nat" where
  "rows_of k e s = count_where (\<lambda>r. pt_event r = e \<and> k (pt_status r)) (participants s)"

lemma taken_rows_of: "taken e s = rows_of seated e s"
  by (simp add: taken_def rows_of_def)

lemma outstanding_rows_of: "outstanding e s = rows_of holdsSlot e s"
  by (simp add: outstanding_def rows_of_def)

lemma moved_rows_of:
  assumes m: "moved r r' s s'" and wf: "desk_wf s"
  shows "int (rows_of k e s') = int (rows_of k e s)
    + (if pt_event r = e then (if k (pt_status r') then 1 else 0) - (if k (pt_status r) then 1 else 0) else 0)"
proof -
  have "distinct (map pt_id (participants s))" using wf by (simp add: desk_wf_def)
  from count_update_key [OF this, of r "\<lambda>r. pt_event r = e \<and> k (pt_status r)" "\<lambda>_. r'"] m
  show ?thesis by (auto simp: rows_of_def moved_def split: if_splits)
qed

lemma inserted_rows_of:
  "inserted row c s s' \<Longrightarrow>
   rows_of k e s' = rows_of k e s + (if pt_event row = e \<and> k (pt_status row) then 1 else 0)"
  by (simp add: inserted_def rows_of_def)

lemma event_by_id_mem: "event_by_id i s = Some e \<Longrightarrow> e \<in> set (events s) \<and> ev_id e = i"
  unfolding event_by_id_def by (rule find_key_mem)

lemma event_by_id_iff: "distinct (map ev_id (events s)) \<Longrightarrow> e \<in> set (events s) \<Longrightarrow> event_by_id (ev_id e) s = Some e"
  unfolding event_by_id_def by (rule find_key_unique)

lemma seats_ok_bump:
  assumes ok: "seats_ok s" and wf: "desk_wf s" and room: "room_for e d s"
    and ev: "events s' = bump e d c (events s)"
    and t: "\<And>i. int (taken i s') = int (taken i s) + (if i = e then d else 0)"
  shows "seats_ok s'"
  unfolding seats_ok_def
proof
  fix q assume "q \<in> set (events s')"
  then obtain p where p: "p \<in> set (events s)" and q: "q = (if ev_id p = e
      then p\<lparr>ev_accepted_count := ev_accepted_count p + d, ev_request_count := ev_request_count p + c\<rparr> else p)"
    by (auto simp: ev bump_def set_update_where)
  have id: "ev_id q = ev_id p" and cap: "ev_capacity q = ev_capacity p" using q by auto
  have acc: "ev_accepted_count q = ev_accepted_count p + (if ev_id p = e then d else 0)" using q by auto
  have "ev_accepted_count q \<le> ev_capacity p"
  proof (cases "ev_id p = e \<and> d \<noteq> 0")
    case True
    then have "event_by_id e s = Some p" using event_by_id_iff [of s p] p wf by (auto simp: desk_wf_def)
    with room True acc show ?thesis by (auto simp: room_for_def)
  next
    case False
    with acc ok p show ?thesis by (auto simp: seats_ok_def)
  qed
  then show "ev_accepted_count q = int (taken (ev_id q) s') \<and> ev_accepted_count q \<le> ev_capacity q"
    using ok p acc t [of "ev_id p"] by (simp add: seats_ok_def id cap)
qed

lemma desk_step_seats:
  assumes step: "desk_step e s s'" and ok: "seats_ok s" and wf: "desk_wf s"
  shows "seats_ok s'"
  using step
proof cases
  case frame
  then have "taken i s' = taken i s" for i by (simp add: desk_frame_def taken_def)
  with frame ok show ?thesis unfolding seats_ok_def desk_frame_def by metis
next
  case (move r r')
  then show ?thesis using ok wf moved_rows_of [OF move(1) wf, of seated]
    by (intro seats_ok_bump [of s "pt_event r" "seat_delta (pt_status r) (pt_status r')" s' 0])
       (auto simp: moved_def taken_rows_of seat_delta_def)
next
  case (insert row c)
  then show ?thesis using ok wf inserted_rows_of [OF insert(1), of seated]
    by (intro seats_ok_bump [of s "pt_event row" "seat_delta P_PENDING (pt_status row)" s' c])
       (auto simp: inserted_def taken_rows_of seat_delta_def)
qed

lemma desk_steps_seats: "(desk_step e)\<^sup>*\<^sup>* s s' \<Longrightarrow> seats_ok s \<Longrightarrow> desk_wf s \<Longrightarrow> seats_ok s'"
proof (induction rule: rtranclp_induct)
  case (step b c)
  then show ?case using desk_step_seats desk_steps_wf by blast
qed simp

section \<open>The primitives of the tables\<close>

lemma assertParticipantTransition_wp [wp_simps]:
  "tx_wp (assertParticipantTransition from to i) Q = (\<lambda>s. (to \<in> set (PARTICIPANT_TRANSITIONS from) \<longrightarrow> Q () s))"
  by (rule ext) (simp add: assertParticipantTransition_def wp_simps)

lemma participant_by_id_iff:
  "distinct (map pt_id (participants s)) \<Longrightarrow> r \<in> set (participants s) \<Longrightarrow> participant_by_id (pt_id r) s = Some r"
  unfolding participant_by_id_def by (rule find_key_unique)

lemma participant_by_public_id_mem:
  "participant_by_public_id p s = Some r \<Longrightarrow> r \<in> set (participants s) \<and> pt_public_id r = p"
  unfolding participant_by_public_id_def by (rule find_key_mem)

lemma participant_update_wp:
  "distinct (map pt_id (participants s)) \<Longrightarrow> r \<in> set (participants s) \<Longrightarrow>
   tx_wp (participant_update (pt_id r) f) Q s =
     (participant_checks (f r) \<longrightarrow>
      Q (f r) (s\<lparr>participants := update_where (\<lambda>q. pt_id q = pt_id r) (\<lambda>_. f r) (participants s)\<rparr>))"
  by (simp add: participant_update_def wp_simps participant_by_id_iff)

lemma event_count_update_wp [wp_simps]:
  "tx_wp (event_count_update i d) Q = (\<lambda>s. (\<forall>e. event_by_id i s = Some e \<longrightarrow> 0 \<le> ev_accepted_count e + d \<and> ev_accepted_count e + d \<le> ev_capacity e \<longrightarrow>
        Q () (s\<lparr>events := bump i d 0 (events s)\<rparr>)))"
  by (rule ext) (simp add: event_count_update_def wp_simps bump_def)

lemma event_request_count_update_wp [wp_simps]:
  "tx_wp (event_request_count_update i) Q = (\<lambda>s. (\<forall>e. event_by_id i s = Some e \<longrightarrow> Q () (s\<lparr>events := bump i 0 1 (events s)\<rparr>)))"
  by (rule ext) (simp add: event_request_count_update_def wp_simps bump_def)

lemma participant_insert_wp:
  "tx_wp (participant_insert mk) Q = (\<lambda>s. (let row = mk (next_id s) (next_id s + 1)
      in if list_ex (\<lambda>r. pt_event r = pt_event row \<and> pt_user r = pt_user row) (participants s)
         then Q None (s\<lparr>next_id := next_id s + 2\<rparr>)
         else participant_checks row \<longrightarrow>
           Q (Some row) (s\<lparr>next_id := next_id s + 2, participants := participants s @ [row]\<rparr>)))"
  by (rule ext) (simp add: participant_insert_def wp_simps Let_def)

lemma assertSeatAvailable_wp [wp_simps]:
  "tx_wp (assertSeatAvailable ev) Q = (\<lambda>s. (ev_accepted_count ev < ev_capacity ev \<longrightarrow> Q () s))"
  by (rule ext) (auto simp: assertSeatAvailable_def wp_simps)

lemma readParticipantByPublicId_wp [wp_simps]:
  "tx_wp (readParticipantByPublicId p) Q = (\<lambda>s. (\<forall>r. participant_by_public_id p s = Some r \<longrightarrow> Q r s))"
  by (rule ext) (simp add: readParticipantByPublicId_def wp_simps)

lemma event_by_participant_Some:
  "event_by_participant p s = Some ev \<longleftrightarrow>
   (\<exists>r. participant_by_public_id p s = Some r \<and> event_by_id (pt_event r) s = Some ev)"
  by (auto simp: event_by_participant_def split: option.splits)

lemma reverse_desk: "tx_rel desk_frame (reverseWithin i rc acty ai md)"
  by (rule tx_relI) (rule money_desk_frame, erule reverseWithin_frame_money)

lemma refund_step_desk: "tx_rel desk_frame (refund_step rc acty ai c n)"
  unfolding refund_step_def by (intro tx_rel_rules desk_frame_reflp desk_frame_transp reverse_desk)

lemma refundJoinCharge_desk: "tx_rel desk_frame (refundJoinCharge p rc acty ai)"
  unfolding refundJoinCharge_def
  by (intro tx_rel_rules desk_frame_reflp desk_frame_transp refund_step_desk)

lemma chargeIfAny_desk: "tx_rel desk_frame (chargeIfAny p u b e)"
  unfolding chargeIfAny_def
  by (intro tx_rel_rules desk_frame_reflp desk_frame_transp)
    (rule tx_relI, rule money_desk_frame, erule tx_relD [OF chargeParticipant_frame])

lemma joinCharge_desk: "tx_rel desk_frame (joinCharge u e p c)"
  unfolding joinCharge_def
  by (intro tx_rel_rules desk_frame_reflp desk_frame_transp)
    (rule tx_relI, rule coin_desk_frame, erule coin_apply_frame)

section \<open>Steps reached from a start\<close>

definition desk_reached :: "id \<Rightarrow> db \<Rightarrow> db \<Rightarrow> bool" where
  "desk_reached e s0 s \<longleftrightarrow> desk_wf s \<and> (desk_step e)\<^sup>*\<^sup>* s0 s"

lemma desk_reached_refl: "desk_wf s \<Longrightarrow> desk_reached e s s"
  by (simp add: desk_reached_def)

lemma desk_reached_step: "desk_reached e s0 s \<Longrightarrow> desk_step e s s' \<Longrightarrow> desk_reached e s0 s'"
  by (auto simp: desk_reached_def intro: desk_step_wf)

lemma desk_reached_frame: "desk_reached e s0 s \<Longrightarrow> desk_frame s s' \<Longrightarrow> desk_reached e s0 s'"
  by (erule desk_reached_step) (rule desk_step.frame)

lemma desk_reached_move: "desk_reached e s0 s \<Longrightarrow> moved r r' s s' \<Longrightarrow> pt_event r = e \<Longrightarrow> desk_reached e s0 s'"
  by (erule desk_reached_step) (rule desk_step.move)

lemma desk_reached_insert: "desk_reached e s0 s \<Longrightarrow> inserted row c s s' \<Longrightarrow> pt_event row = e \<Longrightarrow> desk_reached e s0 s'"
  by (erule desk_reached_step) (rule desk_step.insert)

lemma desk_reached_distinct: "desk_reached e s0 s \<Longrightarrow> distinct (map pt_id (participants s))"
  by (simp add: desk_reached_def desk_wf_def)

lemma queue_order_set [simp]: "set (queue_order rows) = set rows"
  by (simp add: queue_order_def)

lemma waitlist_mem: "r \<in> set (waitlist e s) \<longleftrightarrow> r \<in> set (participants s) \<and> pt_event r = e \<and> pt_status r = P_WAITLISTED"
  by (auto simp: waitlist_def)

text \<open>The promoted row.\<close>

definition promoted_row :: "instant \<Rightarrow> instant \<Rightarrow> participant_row \<Rightarrow> participant_row" where
  "promoted_row now deadline r = r\<lparr>pt_status := P_PENDING, pt_promoted_at := Some now,
     pt_host_deadline_at := Some deadline, pt_version := pt_version r + 1\<rparr>"

lemma promoteNext_wp:
  assumes "distinct (map pt_id (participants s))" and "r \<in> set (participants s)" and "pt_status r = P_WAITLISTED"
    and "\<And>s'. moved r (promoted_row now dl r) s s' \<Longrightarrow> audit_log s' = audit_log s @
      [\<lparr>au_actor_type = A_SYSTEM, au_actor_id = None, au_action = ''waitlist.promoted'',
        au_target_type = ''event_participant'', au_target_id = Some (pt_id r),
        au_before = Some (JObj [(''status'', JStr ''WAITLISTED'')]),
        au_after = Some (JObj [(''status'', JStr ''PENDING''), (''hostDeadlineAt'', JInt dl)]),
        au_created_at = clock s\<rparr>] \<Longrightarrow>
      coin_accounts s' = coin_accounts s \<Longrightarrow> coin_ledger s' = coin_ledger s \<Longrightarrow> users s' = users s \<Longrightarrow>
      Q \<lparr>pm_id = pt_id r, pm_public_id = pt_public_id r, pm_host_deadline_at = dl\<rparr> s'"
  shows "tx_wp (promoteNext ev now dl r) Q s"
  unfolding promoteNext_def using assms(2,3)
  by (auto simp: wp_simps participant_update_wp [OF assms(1,2)] moved_def promoted_row_def seat_delta_def room_for_def
      intro!: assms(4))

text \<open>
  The event record an operation carries is the one of the database, as far as the loop reads it.
\<close>

definition in_sync :: "event_row \<Rightarrow> db \<Rightarrow> bool" where
  "in_sync ev s \<longleftrightarrow> (\<exists>e. event_by_id (ev_id ev) s = Some e
     \<and> ev_accepted_count e = ev_accepted_count ev \<and> ev_capacity e = ev_capacity ev)"

text \<open>Nobody waits for the event while there is room to ask.\<close>

definition no_idle_seat :: "id \<Rightarrow> db \<Rightarrow> bool" where
  "no_idle_seat e s \<longleftrightarrow> waitlist e s = [] \<or>
     (\<forall>ev. event_by_id e s = Some ev \<longrightarrow> ev_capacity ev \<le> ev_accepted_count ev + int (outstanding e s))"

text \<open>What the loop does to the table: the rows named are promoted, the others stay.\<close>

definition fill_rows :: "instant \<Rightarrow> instant \<Rightarrow> id list \<Rightarrow> participant_row list \<Rightarrow> participant_row list" where
  "fill_rows now dl ids rows = map (\<lambda>q. if pt_id q \<in> set ids then promoted_row now dl q else q) rows"

definition promotion :: "instant \<Rightarrow> participant_row \<Rightarrow> promoted_participant" where
  "promotion dl r = \<lparr>pm_id = pt_id r, pm_public_id = pt_public_id r, pm_host_deadline_at = dl\<rparr>"

definition seats_to_offer :: "event_row \<Rightarrow> int \<Rightarrow> participant_row list \<Rightarrow> nat" where
  "seats_to_offer ev out queue = min (length queue) (nat (ev_capacity ev - ev_accepted_count ev - out))"

lemma filter_update_where:
  "\<not> P x \<Longrightarrow> filter P (update_where (\<lambda>q. k q = i) (\<lambda>_. x) rows) = filter (\<lambda>q. k q \<noteq> i) (filter P rows)"
  by (induction rows) auto

lemma queue_order_filter: "queue_order (filter P rows) = filter P (queue_order rows)"
  by (simp add: queue_order_def filter_sort)

lemma waitlist_distinct: "distinct (map pt_id (participants s)) \<Longrightarrow> distinct (map pt_id (waitlist e s))"
  by (auto simp: waitlist_def queue_order_def distinct_map intro: inj_on_subset)

lemma waitlist_after_promotion:
  assumes d: "distinct (map pt_id (participants s))" and w: "waitlist e s = nxt # rest"
    and m: "moved nxt (promoted_row now dl nxt) s s'"
  shows "waitlist e s' = rest"
proof -
  have "waitlist e s' = filter (\<lambda>q. pt_id q \<noteq> pt_id nxt) (waitlist e s)"
    using m by (simp add: waitlist_def moved_def filter_update_where promoted_row_def queue_order_filter)
  moreover have "pt_id nxt \<notin> pt_id ` set rest" using waitlist_distinct [OF d, of e] w by simp
  ultimately show ?thesis using w by (auto simp: filter_id_conv image_iff)
qed

lemma fill_rows_Nil [simp]: "fill_rows now dl [] rows = rows"
  by (simp add: fill_rows_def)

lemma promoted_row_simps [simp]:
  "pt_id (promoted_row now dl r) = pt_id r" "pt_public_id (promoted_row now dl r) = pt_public_id r"
  "pt_event (promoted_row now dl r) = pt_event r" "pt_user (promoted_row now dl r) = pt_user r"
  "pt_status (promoted_row now dl r) = P_PENDING"
  by (simp_all add: promoted_row_def)

lemma fill_rows_Cons:
  assumes "distinct (map pt_id rows)" and "r \<in> set rows" and "pt_id r \<notin> set ids"
  shows "fill_rows now dl ids (update_where (\<lambda>q. pt_id q = pt_id r) (\<lambda>_. promoted_row now dl r) rows)
    = fill_rows now dl (pt_id r # ids) rows"
  using assms(3) distinct_key_eq [OF assms(1,2)] by (auto simp: fill_rows_def update_where_def) metis+

lemma moved_outstanding:
  "moved r (promoted_row now dl r) s s' \<Longrightarrow> desk_wf s \<Longrightarrow> pt_event r = e \<Longrightarrow> pt_status r = P_WAITLISTED \<Longrightarrow>
   int (outstanding e s') = int (outstanding e s) + 1"
  using moved_rows_of [of r "promoted_row now dl r" s s' holdsSlot e] by (simp add: outstanding_rows_of)

lemma moved_same_events:
  "moved r (promoted_row now dl r) s s' \<Longrightarrow> pt_status r = P_WAITLISTED \<Longrightarrow> events s' = events s"
  by (simp add: moved_def seat_delta_def)

lemma in_sync_events: "events s' = events s \<Longrightarrow> in_sync ev s' = in_sync ev s"
  by (simp add: in_sync_def event_by_id_def)

definition fill_done :: "event_row \<Rightarrow> instant \<Rightarrow> instant \<Rightarrow> nat \<Rightarrow> db \<Rightarrow> db \<Rightarrow> bool" where
  "fill_done ev now dl k s s' \<longleftrightarrow>
     participants s' = fill_rows now dl (map pt_id (take k (waitlist (ev_id ev) s))) (participants s)
     \<and> waitlist (ev_id ev) s' = drop k (waitlist (ev_id ev) s)
     \<and> events s' = events s \<and> clock s' = clock s
     \<and> coin_ledger s' = coin_ledger s \<and> coin_accounts s' = coin_accounts s \<and> users s' = users s
     \<and> no_idle_seat (ev_id ev) s'"

lemma fillLoop_spec:
  "desk_reached (ev_id ev) s0 s \<Longrightarrow> in_sync ev s \<Longrightarrow> out = int (outstanding (ev_id ev) s) \<Longrightarrow>
   tx_wp (fillLoop ev now dl out ps) (\<lambda>ps' s'. desk_reached (ev_id ev) s0 s'
     \<and> (let k = seats_to_offer ev out (waitlist (ev_id ev) s)
        in fill_done ev now dl k s s' \<and> ps' = ps @ map (promotion dl) (take k (waitlist (ev_id ev) s)))) s"
proof (induction ev now dl out ps arbitrary: s rule: fillLoop.induct)
  case (1 ev now dl out ps)
  show ?case
  proof (cases "waitlist (ev_id ev) s")
    case Nil
    with 1(2) show ?thesis
      by (subst fillLoop.simps) (simp add: wp_simps fill_done_def no_idle_seat_def seats_to_offer_def)
  next
    case (Cons nxt rest)
    then have nxt: "nxt \<in> set (participants s)" "pt_status nxt = P_WAITLISTED" "pt_event nxt = ev_id ev"
      using waitlist_mem [of nxt "ev_id ev" s] by auto
    note d = desk_reached_distinct [OF 1(2)]
    have wf: "desk_wf s" using 1(2) by (simp add: desk_reached_def)
    show ?thesis
    proof (cases "ev_accepted_count ev + out < ev_capacity ev")
      case True
      let ?k = "seats_to_offer ev (out + 1) rest"
      have k: "seats_to_offer ev out (nxt # rest) = Suc ?k"
        using True by (simp add: seats_to_offer_def Suc_nat_eq_nat_zadd1 algebra_simps)
      have "tx_wp (promoteNext ev now dl nxt)
        (\<lambda>p. tx_wp (fillLoop ev now dl (out + 1) (ps @ [p])) (\<lambda>ps' s'. desk_reached (ev_id ev) s0 s'
           \<and> fill_done ev now dl (Suc ?k) s s' \<and> ps' = ps @ map (promotion dl) (take (Suc ?k) (nxt # rest)))) s"
      proof (rule promoteNext_wp [OF d nxt(1,2)])
        fix s1 assume m: "moved nxt (promoted_row now dl nxt) s s1"
          and money: "coin_accounts s1 = coin_accounts s" "coin_ledger s1 = coin_ledger s" "users s1 = users s"
        have r1: "desk_reached (ev_id ev) s0 s1" by (rule desk_reached_move [OF 1(2) m nxt(3)])
        note ev1 = moved_same_events [OF m nxt(2)]
        have w1: "waitlist (ev_id ev) s1 = rest" by (rule waitlist_after_promotion [OF d Cons m])
        have new: "pt_id nxt \<notin> set (map pt_id (take ?k rest))"
          using waitlist_distinct [OF d, of "ev_id ev"] Cons by (auto dest: in_set_takeD)
        have fr: "fill_rows now dl (map pt_id (take ?k rest)) (participants s1)
            = fill_rows now dl (pt_id nxt # map pt_id (take ?k rest)) (participants s)"
          using fill_rows_Cons [OF d nxt(1) new] m by (simp add: moved_def)
        have "out + 1 = int (outstanding (ev_id ev) s1)"
          using moved_outstanding [OF m wf nxt(3,2)] 1(4) by simp
        from 1(1) [OF True r1 _ this, where xb = "promotion dl nxt"] 1(3) in_sync_events [OF ev1]
        have "tx_wp (fillLoop ev now dl (out + 1) (ps @ [promotion dl nxt])) (\<lambda>ps' s'. desk_reached (ev_id ev) s0 s'
          \<and> fill_done ev now dl ?k s1 s' \<and> ps' = (ps @ [promotion dl nxt]) @ map (promotion dl) (take ?k rest)) s1"
          by (simp add: w1 Let_def)
        then show "tx_wp (fillLoop ev now dl (out + 1) (ps @ [\<lparr>pm_id = pt_id nxt, pm_public_id = pt_public_id nxt,
            pm_host_deadline_at = dl\<rparr>])) (\<lambda>ps' s'. desk_reached (ev_id ev) s0 s'
            \<and> fill_done ev now dl (Suc ?k) s s' \<and> ps' = ps @ map (promotion dl) (take (Suc ?k) (nxt # rest))) s1"
          unfolding promotion_def [symmetric]
          by (rule tx_wp_mono) (use m ev1 money w1 Cons fr in \<open>simp add: fill_done_def moved_def\<close>)
      qed
      with True Cons k show ?thesis by (subst fillLoop.simps) (simp add: wp_simps)
    next
      case False
      then have "seats_to_offer ev out (nxt # rest) = 0" by (simp add: seats_to_offer_def)
      moreover have "no_idle_seat (ev_id ev) s"
        using False 1(3,4) by (auto simp: no_idle_seat_def in_sync_def)
      ultimately show ?thesis using False Cons 1(2) by (subst fillLoop.simps) (simp add: wp_simps fill_done_def)
    qed
  qed
qed

definition fill_deadline :: "event_row \<Rightarrow> instant \<Rightarrow> db \<Rightarrow> instant" where
  "fill_deadline ev now s = hostDeadline now (ev_starts_at ev) (getInt ''waitlist.promotion_deadline_hours'' s)
     (getInt ''waitlist.min_hours_before_event'' s) (getInt ''participation.min_response_minutes'' s)"

lemma fillFreedSeats_spec:
  assumes "desk_reached (ev_id ev) s0 s" and "in_sync ev s"
  shows "tx_wp (fillFreedSeats ev now) (\<lambda>ps s'. desk_reached (ev_id ev) s0 s'
     \<and> (let k = seats_to_offer ev (int (outstanding (ev_id ev) s)) (waitlist (ev_id ev) s);
            dl = fill_deadline ev now s
        in fill_done ev now dl k s s' \<and> ps = map (promotion dl) (take k (waitlist (ev_id ev) s)))) s"
  using fillLoop_spec [OF assms refl, of now "fill_deadline ev now s" "[]"]
  by (simp add: fillFreedSeats_def wp_simps fill_deadline_def Let_def)

lemma fillFreedSeats_reached:
  assumes "desk_reached (ev_id ev) s0 s" and "in_sync ev s"
  shows "tx_wp (fillFreedSeats ev now) (\<lambda>_ s'. desk_reached (ev_id ev) s0 s' \<and> no_idle_seat (ev_id ev) s') s"
  by (rule tx_wp_mono [OF fillFreedSeats_spec [OF assms]]) (simp add: fill_done_def Let_def)

section \<open>The operations\<close>

lemma participant_of_event:
  assumes "desk_wf s" and "event_by_participant p s = Some ev" and "participant_by_public_id p s = Some r"
  shows "r \<in> set (participants s)" "pt_event r = ev_id ev" "event_by_id (pt_event r) s = Some ev"
    "distinct (map pt_id (participants s))"
  using assms event_by_id_mem [of "pt_event r" s ev] participant_by_public_id_mem [of p s r]
  by (auto simp: event_by_participant_Some desk_wf_def)

text \<open>What an operation on the desk of \<open>e\<close> achieves.\<close>

definition desk_done :: "id \<Rightarrow> db \<Rightarrow> db \<Rightarrow> bool" where
  "desk_done e s s' \<longleftrightarrow> desk_reached e s s' \<and> (no_idle_seat e s \<longrightarrow> no_idle_seat e s')"

lemma no_idle_seat_frame: "desk_frame s s' \<Longrightarrow> no_idle_seat e s' = no_idle_seat e s"
  by (simp add: no_idle_seat_def desk_frame_def waitlist_def event_by_id_def outstanding_def)

lemma desk_done_refl: "desk_wf s \<Longrightarrow> desk_done e s s"
  by (simp add: desk_done_def desk_reached_refl)

lemma desk_done_frame: "desk_done e s s1 \<Longrightarrow> desk_frame s1 s2 \<Longrightarrow> desk_done e s s2"
  by (auto simp: desk_done_def no_idle_seat_frame intro: desk_reached_frame)

lemma desk_done_filled: "desk_reached e s s' \<Longrightarrow> no_idle_seat e s' \<Longrightarrow> desk_done e s s'"
  by (simp add: desk_done_def)

lemma find_bump:
  "find (\<lambda>e. ev_id e = i) evs = Some ev \<Longrightarrow> find (\<lambda>e. ev_id e = i) (bump i d c evs) =
     Some (ev\<lparr>ev_accepted_count := ev_accepted_count ev + d, ev_request_count := ev_request_count ev + c\<rparr>)"
  by (induction evs) (auto simp: bump_def)

lemma event_by_id_bump:
  "event_by_id i s = Some ev \<Longrightarrow> events s' = bump i d c (events s) \<Longrightarrow>
   event_by_id i s' = Some (ev\<lparr>ev_accepted_count := ev_accepted_count ev + d, ev_request_count := ev_request_count ev + c\<rparr>)"
  by (simp add: event_by_id_def find_bump)

lemma event_by_id_bump_None:
  "events s' = bump e d c (events s) \<Longrightarrow> event_by_id i s = None \<Longrightarrow> event_by_id i s' = None"
  by (auto simp: event_by_id_def bump_def find_None_iff set_update_where)

lemma event_by_id_bumped:
  assumes "events s' = bump i d c (events s)" and "event_by_id i s' = Some ev'"
  obtains ev where "event_by_id i s = Some ev" "ev_capacity ev' = ev_capacity ev"
    "ev_accepted_count ev' = ev_accepted_count ev + d"
proof (cases "event_by_id i s")
  case None
  with event_by_id_bump_None [OF assms(1) None] assms(2) show ?thesis by simp
next
  case (Some ev)
  with event_by_id_bump [OF Some assms(1)] assms(2) that show ?thesis by auto
qed

text \<open>A change that keeps everybody who waits waiting, and gives up no place.\<close>

lemma no_idle_seat_kept:
  assumes "no_idle_seat e s" and ev: "events s' = bump e d c (events s)"
    and "waitlist e s' \<noteq> [] \<Longrightarrow> waitlist e s \<noteq> []"
    and "int (outstanding e s) \<le> d + int (outstanding e s')"
  shows "no_idle_seat e s'"
  unfolding no_idle_seat_def
proof (rule disj_imp [THEN iffD2], intro allI impI)
  fix ev' assume "waitlist e s' \<noteq> []" and "event_by_id e s' = Some ev'"
  then obtain p where "event_by_id e s = Some p" "ev_capacity ev' = ev_capacity p"
    "ev_accepted_count ev' = ev_accepted_count p + d" using event_by_id_bumped [OF ev] by metis
  then show "ev_capacity ev' \<le> ev_accepted_count ev' + int (outstanding e s')"
    using assms(1,3,4) \<open>waitlist e s' \<noteq> []\<close> by (auto simp: no_idle_seat_def)
qed

lemma waitlist_Nil: "waitlist e s = [] \<longleftrightarrow> (\<forall>r\<in>set (participants s). \<not> (pt_event r = e \<and> pt_status r = P_WAITLISTED))"
  using waitlist_mem [of _ e s] by (metis empty_iff list.set(1) set_empty equals0I)

lemma moved_done:
  assumes wf: "desk_wf s" and m: "moved r r' s s'" and e: "pt_event r = e"
    and st: "pt_status r' = P_ACCEPTED \<or> pt_status r = P_WAITLISTED" and "pt_status r' \<noteq> P_WAITLISTED"
  shows "desk_done e s s'"
proof -
  have legal: "pt_status r' \<in> set (PARTICIPANT_TRANSITIONS (pt_status r))" using m by (simp add: moved_def)
  have "no_idle_seat e s \<Longrightarrow> no_idle_seat e s'"
  proof (rule no_idle_seat_kept)
    show "events s' = bump e (seat_delta (pt_status r) (pt_status r')) 0 (events s)" using m e by (simp add: moved_def)
    show "waitlist e s \<noteq> []" if "waitlist e s' \<noteq> []"
      using that moved_mem [OF m] assms(5) unfolding waitlist_Nil by blast
    show "int (outstanding e s) \<le> seat_delta (pt_status r) (pt_status r') + int (outstanding e s')"
      using moved_rows_of [OF m wf, of holdsSlot e] e st legal
      by (cases "pt_status r"; cases "pt_status r'") (simp_all add: outstanding_rows_of seat_delta_def)
  qed
  then show ?thesis using desk_reached_move [OF desk_reached_refl [OF wf] m e] by (simp add: desk_done_def)
qed

lemma takeSeat_wp [wp_simps]:
  "tx_wp (takeSeat ev) Q = (\<lambda>s. (ev_accepted_count ev < ev_capacity ev \<longrightarrow>
     (\<forall>e. event_by_id (ev_id ev) s = Some e \<longrightarrow> 0 \<le> ev_accepted_count e + 1 \<and> ev_accepted_count e + 1 \<le> ev_capacity e \<longrightarrow>
        Q (ev\<lparr>ev_accepted_count := ev_accepted_count ev + 1\<rparr>) (s\<lparr>events := bump (ev_id ev) 1 0 (events s)\<rparr>))))"
  by (rule ext) (auto simp: takeSeat_def wp_simps)

lemma releaseSeat_wp [wp_simps]:
  "tx_wp (releaseSeat ev) Q = (\<lambda>s. (\<forall>e. event_by_id (ev_id ev) s = Some e \<longrightarrow> 0 \<le> ev_accepted_count e - 1 \<and> ev_accepted_count e - 1 \<le> ev_capacity e \<longrightarrow>
        Q (ev\<lparr>ev_accepted_count := ev_accepted_count ev - 1\<rparr>) (s\<lparr>events := bump (ev_id ev) (- 1) 0 (events s)\<rparr>)))"
  by (rule ext) (auto simp: releaseSeat_def wp_simps)

lemma accept_apply_moved:
  assumes wf: "desk_wf s" and r: "r \<in> set (participants s)" "pt_event r = ev_id ev"
    and ev: "event_by_id (ev_id ev) s = Some ev"
  shows "tx_wp (accept_apply h ev r) (\<lambda>r' s'. moved r r' s s' \<and> pt_status r' = P_ACCEPTED) s"
proof -
  have d: "distinct (map pt_id (participants s))" using wf by (simp add: desk_wf_def)
  have src: "\<not> seated (pt_status r)" if "P_ACCEPTED \<in> set (PARTICIPANT_TRANSITIONS (pt_status r))"
    using that by (cases "pt_status r") simp_all
  show ?thesis
    unfolding accept_apply_def using r ev src
    by (cases "pt_status r = P_ACCEPTED")
       (auto simp: wp_simps d participant_update_wp moved_def seat_delta_def room_for_def)
qed

lemma decide_wp:
  "desk_wf s \<Longrightarrow> (\<And>ev r. event_by_participant p s = Some ev \<Longrightarrow> participant_by_public_id p s = Some r \<Longrightarrow>
      ev_host ev = h \<Longrightarrow> tx_wp (f ev r) (\<lambda>r' s'. Q (toDetail r' (ev_public_id ev) s') s') s) \<Longrightarrow>
   tx_wp (decide h p f) Q s"
  by (auto simp: decide_def wp_simps)

lemma accept_done:
  assumes wf: "desk_wf s"
  shows "tx_wp (accept h p) (\<lambda>_ s'. \<exists>e. desk_done e s s') s"
  unfolding accept_def
proof (rule decide_wp [OF wf])
  fix ev r assume "event_by_participant p s = Some ev" "participant_by_public_id p s = Some r"
  note r = participant_of_event [OF wf this]
  show "tx_wp (accept_apply h ev r) (\<lambda>_ s'. \<exists>e. desk_done e s s') s"
    by (rule tx_wp_mono [OF accept_apply_moved [OF wf r(1,2) r(3) [unfolded r(2)]]])
       (use r(2) moved_done [OF wf, of r] in fastforce)
qed

text \<open>A status change that moves no seat.\<close>

lemma moved_update:
  "r \<in> set (participants s) \<Longrightarrow> pt_id r' = pt_id r \<Longrightarrow> pt_public_id r' = pt_public_id r \<Longrightarrow>
   pt_event r' = pt_event r \<Longrightarrow> pt_user r' = pt_user r \<Longrightarrow> pt_requested_at r' = pt_requested_at r \<Longrightarrow>
   pt_status r' \<in> set (PARTICIPANT_TRANSITIONS (pt_status r)) \<Longrightarrow> participant_checks r' \<Longrightarrow>
   seat_delta (pt_status r) (pt_status r') = 0 \<Longrightarrow>
   moved r r' s (s\<lparr>participants := update_where (\<lambda>q. pt_id q = pt_id r) (\<lambda>_. r') (participants s)\<rparr>)"
  by (simp add: moved_def room_for_def)

lemma desk_frame_simps [simp]:
  "desk_frame s (s\<lparr>audit_log := a, next_id := Suc (next_id s), outbox := ob\<rparr>)"
  by (simp_all add: desk_frame_def)

lemma in_syncI: "event_by_id (ev_id ev) s = Some ev \<Longrightarrow> in_sync ev s"
  by (simp add: in_sync_def)

lemma reject_apply_done:
  assumes wf: "desk_wf s" and r: "r \<in> set (participants s)" "pt_event r = ev_id ev"
    and ev: "event_by_id (ev_id ev) s = Some ev"
  shows "tx_wp (reject_apply h ev r) (\<lambda>r' s'. desk_done (ev_id ev) s s') s"
proof (cases "P_REJECTED \<in> set (PARTICIPANT_TRANSITIONS (pt_status r))")
  case True
  then have src: "pt_status r \<noteq> P_ACCEPTED" "seat_delta (pt_status r) P_REJECTED = 0"
    by (cases "pt_status r"; simp add: seat_delta_def)+
  have d: "distinct (map pt_id (participants s))" using wf by (simp add: desk_wf_def)
  have move: "moved r r' s s1 \<Longrightarrow> desk_frame s1 s2 \<Longrightarrow> desk_reached (ev_id ev) s s2" for r' s1 s2
    using desk_reached_frame [OF desk_reached_move [OF desk_reached_refl [OF wf]]] r by auto
  show ?thesis
    unfolding reject_apply_def releaseIfHeld_def
    apply (simp add: wp_simps d participant_update_wp r src True)
    apply (intro impI)
    apply (rule tx_wp_rel [OF refundJoinCharge_desk])
    apply (rule tx_wp_mono [OF fillFreedSeats_reached])
      apply (rule move [OF moved_update])
               apply (simp_all add: r src True)
     apply (subst in_sync_events, simp add: desk_frame_def, simp add: in_syncI ev)
    by (auto intro: desk_done_frame [OF desk_done_filled])
next
  case False
  then show ?thesis by (simp add: reject_apply_def wp_simps)
qed

lemma reject_done:
  assumes wf: "desk_wf s"
  shows "tx_wp (reject h p) (\<lambda>_ s'. \<exists>e. desk_done e s s') s"
  unfolding reject_def
proof (rule decide_wp [OF wf])
  fix ev r assume "event_by_participant p s = Some ev" "participant_by_public_id p s = Some r"
  note r = participant_of_event [OF wf this]
  show "tx_wp (reject_apply h ev r) (\<lambda>_ s'. \<exists>e. desk_done e s s') s"
    by (rule tx_wp_mono [OF reject_apply_done [OF wf r(1,2) r(3) [unfolded r(2)]]]) blast
qed

lemma moved_after:
  "r \<in> set (participants s) \<Longrightarrow> pt_id r' = pt_id r \<Longrightarrow> pt_public_id r' = pt_public_id r \<Longrightarrow>
   pt_event r' = pt_event r \<Longrightarrow> pt_user r' = pt_user r \<Longrightarrow> pt_requested_at r' = pt_requested_at r \<Longrightarrow>
   pt_status r' \<in> set (PARTICIPANT_TRANSITIONS (pt_status r)) \<Longrightarrow> participant_checks r' \<Longrightarrow>
   room_for (pt_event r) (seat_delta (pt_status r) (pt_status r')) s \<Longrightarrow>
   desk_frame (s\<lparr>events := bump (pt_event r) (seat_delta (pt_status r) (pt_status r')) 0 (events s)\<rparr>) s1 \<Longrightarrow>
   moved r r' s (s1\<lparr>participants := update_where (\<lambda>q. pt_id q = pt_id r) (\<lambda>_. r') (participants s1)\<rparr>)"
  by (simp add: moved_def desk_frame_def)

lemma releaseIfHeld_wp:
  assumes "event_by_id (ev_id ev) s = Some ev" and "P_CANCELLED_BY_PARTICIPANT \<in> set (PARTICIPANT_TRANSITIONS st)"
    and "\<And>d. d = seat_delta st P_CANCELLED_BY_PARTICIPANT \<Longrightarrow> room_for (ev_id ev) d s \<Longrightarrow>
      Q (ev\<lparr>ev_accepted_count := ev_accepted_count ev + d\<rparr>) (s\<lparr>events := bump (ev_id ev) d 0 (events s)\<rparr>)"
  shows "tx_wp (releaseIfHeld st ev) Q s"
proof (cases "st = P_ACCEPTED")
  case True
  then show ?thesis using assms(1,3) by (auto simp: releaseIfHeld_def wp_simps seat_delta_def room_for_def)
next
  case False
  then have z: "seat_delta st P_CANCELLED_BY_PARTICIPANT = 0"
    using assms(2) by (cases st) (simp_all add: seat_delta_def)
  then show ?thesis using assms(3) [of 0] False by (simp add: releaseIfHeld_def wp_simps room_for_def)
qed

lemma in_sync_bump:
  "event_by_id (ev_id ev) s = Some ev \<Longrightarrow> events s' = bump (ev_id ev) d 0 (events s) \<Longrightarrow>
   in_sync (ev\<lparr>ev_accepted_count := ev_accepted_count ev + d\<rparr>) s'"
  using event_by_id_bump [of "ev_id ev" s ev s' d 0] by (simp add: in_sync_def)

lemmas wp_head = wp_bind wp_read wp_some wp_guard assertParticipantTransition_wp readParticipantByPublicId_wp

lemma cancel_done:
  assumes wf: "desk_wf s"
  shows "tx_wp (cancel u p reason) (\<lambda>_ s'. \<exists>e. desk_done e s s') s"
  unfolding cancel_def Let_def
  apply (simp only: wp_head)
  apply (intro allI impI)
  subgoal premises prems for ev r
  proof -
    note r = participant_of_event [OF wf prems(1,2)]
    show ?thesis
      apply (rule releaseIfHeld_wp [OF r(3) [unfolded r(2)] prems(4)])
      apply (rule tx_wp_rel [OF chargeIfAny_desk])
      apply (subst participant_update_wp)
        apply (use r(4) in \<open>simp add: desk_frame_def\<close>)
       apply (use r(1) in \<open>simp add: desk_frame_def\<close>)
      apply (simp add: wp_simps)
      apply (intro impI allI)
      subgoal premises q for d pen s1 hu
        apply (rule tx_wp_mono [OF fillFreedSeats_reached])
          apply (rule desk_reached_frame [OF desk_reached_move [OF desk_reached_refl [OF wf]
              moved_after [where r = r and ?s1.0 = s1]]])
                     apply (use r prems(4) q in \<open>simp_all add: desk_frame_def\<close>)
         apply (rule in_sync_bump [OF r(3) [unfolded r(2)]], use q(3) in \<open>simp add: desk_frame_def\<close>)
        by (auto intro: desk_done_filled)
      done
  qed
  done

text \<open>Expiring moves no seat.\<close>

lemma expire_delta:
  "P_EXPIRED \<in> set (PARTICIPANT_TRANSITIONS st) \<Longrightarrow> seat_delta st P_EXPIRED = 0"
  by (cases st) (simp_all add: seat_delta_def)

lemma status_then_refund:
  assumes wf: "desk_wf s" and ev: "event_by_participant p s = Some ev" and p: "participant_by_public_id p s = Some r"
    and "P_EXPIRED \<in> set (PARTICIPANT_TRANSITIONS (pt_status r))"
    and "\<And>n s'. desk_reached (ev_id ev) s s' \<Longrightarrow> desk_done (ev_id ev) s s' \<or> pt_status r = P_PENDING \<Longrightarrow>
      in_sync ev s' \<Longrightarrow> Q n s'"
  shows "tx_wp (participant_update (pt_id r) (\<lambda>r. r\<lparr>pt_status := P_EXPIRED, pt_version := pt_version r + 1\<rparr>))
     (\<lambda>r'. tx_wp (refundJoinCharge (pt_id r) rc A_SYSTEM None) Q) s"
proof -
  note r = participant_of_event [OF wf ev p]
  let ?r = "r\<lparr>pt_status := P_EXPIRED, pt_version := pt_version r + 1\<rparr>"
  let ?s = "s\<lparr>participants := update_where (\<lambda>q. pt_id q = pt_id r) (\<lambda>_. ?r) (participants s)\<rparr>"
  show ?thesis
  proof (subst participant_update_wp [OF r(4,1)], intro impI tx_wp_rel [OF refundJoinCharge_desk])
    fix n s' assume "participant_checks ?r" and fr: "desk_frame ?s s'"
    then have m: "moved r ?r s ?s" using r assms(4) expire_delta by (intro moved_update) auto
    show "Q n s'"
    proof (rule assms(5))
      show "desk_reached (ev_id ev) s s'"
        by (rule desk_reached_frame [OF desk_reached_move [OF desk_reached_refl [OF wf] m r(2)] fr])
      show "in_sync ev s'" using fr r by (auto simp: in_sync_def desk_frame_def event_by_id_def)
      have "pt_status r = P_WAITLISTED \<or> pt_status r = P_PENDING"
        using assms(4) by (cases "pt_status r") simp_all
      then show "desk_done (ev_id ev) s s' \<or> pt_status r = P_PENDING"
        using desk_done_frame [OF moved_done [OF wf m r(2)] fr] by auto
    qed
  qed
qed

lemma tx_wp_ifI: "(b \<Longrightarrow> tx_wp m Q s) \<Longrightarrow> (\<not> b \<Longrightarrow> tx_wp n Q s) \<Longrightarrow> tx_wp (if b then m else n) Q s"
  by simp

lemma expireOne_done:
  assumes wf: "desk_wf s"
  shows "tx_wp (expireOne p now) (\<lambda>_ s'. \<exists>e. desk_done e s s') s"
proof (cases "event_by_participant p s")
  case None
  then show ?thesis using desk_done_refl [OF wf] by (auto simp: expireOne_def wp_simps)
next
  case (Some ev)
  have stay: "\<exists>e. desk_done e s s" using desk_done_refl [OF wf] by blast
  show ?thesis
    unfolding expireOne_def
    apply (simp only: wp_head Some option.case)
    apply (intro allI impI tx_wp_ifI)
      apply (simp_all only: wp_head wp_return stay)
    apply (intro impI)
    apply (rule status_then_refund [OF wf Some], assumption, simp)
    apply (simp add: wp_simps)
    apply (intro allI impI)
    apply (rule tx_wp_mono [OF fillFreedSeats_reached])
      apply (erule desk_reached_frame, simp add: desk_frame_def)
     apply (subst in_sync_events, simp, assumption)
    by (auto intro: desk_done_filled)
qed

lemma expireWaitlistedOne_done:
  assumes wf: "desk_wf s"
  shows "tx_wp (expireWaitlistedOne p now) (\<lambda>_ s'. \<exists>e. desk_done e s s') s"
proof (cases "event_by_participant p s")
  case None
  then show ?thesis using desk_done_refl [OF wf] by (auto simp: expireWaitlistedOne_def wp_simps)
next
  case (Some ev)
  have stay: "\<exists>e. desk_done e s s" using desk_done_refl [OF wf] by blast
  show ?thesis
    unfolding expireWaitlistedOne_def
    apply (simp only: wp_head Some option.case)
    apply (rule tx_wp_ifI)
     apply (simp_all only: wp_head wp_return stay)
    apply (intro allI impI tx_wp_ifI)
     apply (simp_all only: wp_head wp_return stay)
    apply (intro impI)
    apply (rule status_then_refund [OF wf Some], assumption, simp)
    apply (simp add: wp_simps)
    by (auto intro!: exI [of _ "ev_id ev"] elim!: desk_done_frame simp: desk_frame_def)
qed

lemma event_by_public_id_row:
  assumes "desk_wf s" and "event_by_public_id p s = Some ev"
  shows "event_by_id (ev_id ev) s = Some ev"
  using assms event_by_id_iff [of s ev] find_key_mem [of ev_public_id p "events s" ev]
  by (auto simp: event_by_public_id_def desk_wf_def)

lemma promoteForEvent_done:
  assumes wf: "desk_wf s"
  shows "tx_wp (promoteForEvent p) (\<lambda>_ s'. \<exists>e. desk_done e s s') s"
proof (cases "event_by_public_id p s")
  case None
  then show ?thesis using desk_done_refl [OF wf] by (auto simp: promoteForEvent_def wp_simps)
next
  case (Some ev)
  have stay: "\<exists>e. desk_done e s s" using desk_done_refl [OF wf] by blast
  have ev: "event_by_id (ev_id ev) s = Some ev" by (rule event_by_public_id_row [OF wf Some])
  show ?thesis
    unfolding promoteForEvent_def
    apply (simp only: wp_head Some option.case)
    apply (intro tx_wp_ifI)
      apply (simp_all only: wp_head wp_return stay)
    by (rule tx_wp_mono [OF fillFreedSeats_reached [OF desk_reached_refl [OF wf] in_syncI [OF ev]]])
       (blast intro: desk_done_filled)
qed

lemma assertJoinable_wp [wp_simps]:
  "tx_wp (assertJoinable ev now) Q = (\<lambda>s. ev_deleted_at ev = None \<longrightarrow> ev_status ev = E_PUBLISHED
     \<longrightarrow> now < ev_starts_at ev \<longrightarrow> Q () s)"
  by (rule ext) (auto simp: assertJoinable_def wp_simps)

lemma assertEligible_frame: "tx_rel (=) (assertEligible e j now)"
  unfolding assertEligible_def Let_def by (intro tx_rel_rules) (auto simp: reflp_def transp_def)

lemma assertEligible_wp: "Q () s \<Longrightarrow> tx_wp (assertEligible e j now) Q s"
  by (rule tx_wp_rel [OF assertEligible_frame]) simp

lemma participant_insert_rule:
  assumes "Q None (s\<lparr>next_id := next_id s + 2\<rparr>)"
    and "\<And>row. row = mk (next_id s) (next_id s + 1) \<Longrightarrow> participant_checks row \<Longrightarrow>
      \<forall>r\<in>set (participants s). \<not> (pt_event r = pt_event row \<and> pt_user r = pt_user row) \<Longrightarrow>
      Q (Some row) (s\<lparr>next_id := next_id s + 2, participants := participants s @ [row]\<rparr>)"
  shows "tx_wp (participant_insert mk) Q s"
  using assms by (auto simp: participant_insert_wp Let_def list_ex_iff)

lemma new_participant_simps [simp]:
  "pt_id (new_participant i pub e u st now) = i" "pt_public_id (new_participant i pub e u st now) = pub"
  "pt_event (new_participant i pub e u st now) = e" "pt_user (new_participant i pub e u st now) = u"
  "pt_status (new_participant i pub e u st now) = st" "pt_requested_at (new_participant i pub e u st now) = now"
  by (simp_all add: new_participant_def)

text \<open>A new row waits only when there is no room.\<close>

lemma inserted_done:
  assumes wf: "desk_wf s" and i: "inserted row c s s'" and e: "pt_event row = e"
    and "pt_status row = P_WAITLISTED \<Longrightarrow> event_by_id e s = Some ev \<and> ev_capacity ev \<le> ev_accepted_count ev + int (outstanding e s)"
  shows "desk_done e s s'"
proof -
  note ins = i [unfolded inserted_def]
  have out: "int (outstanding e s) \<le> seat_delta P_PENDING (pt_status row) + int (outstanding e s')"
    using inserted_rows_of [OF i, of holdsSlot e] e by (auto simp: outstanding_rows_of seat_delta_def)
  have "no_idle_seat e s'" if idle: "no_idle_seat e s"
  proof (cases "pt_status row = P_WAITLISTED")
    case True
    then show ?thesis
      using assms(4) out event_by_id_bump [of e s ev s' "seat_delta P_PENDING (pt_status row)" c] ins e
      by (auto simp: no_idle_seat_def seat_delta_def)
  next
    case False
    then have "waitlist e s' = waitlist e s" using ins by (simp add: waitlist_def)
    then show ?thesis using no_idle_seat_kept [OF idle _ _ out] ins e by auto
  qed
  then show ?thesis using desk_reached_insert [OF desk_reached_refl [OF wf] i e] by (simp add: desk_done_def)
qed

lemma join_tx_done:
  assumes wf: "desk_wf s"
  shows "tx_wp (join_tx u p j h b m c) (\<lambda>_ s'. \<exists>e. desk_done e s s') s"
  unfolding join_tx_def Let_def
  apply (simp only: wp_head assertJoinable_wp)
  apply (intro allI impI assertEligible_wp)
  apply (rule participant_insert_rule)
   apply simp
  subgoal premises prems for ev row
  proof -
    have row: "pt_id row = next_id s" "pt_public_id row = Suc (next_id s)" "pt_event row = ev_id ev"
      "pt_user row = u" "pt_requested_at row = clock s" "seat_delta P_PENDING (pt_status row) = 0"
      using prems(6) by (simp_all add: seat_delta_def)
    have row_room: "pt_status row = P_WAITLISTED \<Longrightarrow> event_by_id (ev_id ev) s = Some ev
      \<and> ev_capacity ev \<le> ev_accepted_count ev + int (outstanding (ev_id ev) s)"
      using prems(6) event_by_public_id_row [OF wf prems(1)] by (auto split: if_splits)
    have ins: "inserted row 1 s s1"
      if "participants s1 = participants s @ [row]" "events s1 = bump (ev_id ev) 0 1 (events s)"
        "Suc (next_id s) < next_id s1" "clock s1 = clock s" "settings s1 = settings s" for s1
      using prems(7,8) that row by (simp add: inserted_def room_for_def)
    show ?thesis
      apply (simp only: wp_head option.inject all_simps simp_thms wp_simps)
      apply (intro allI impI)
      apply (rule tx_wp_rel [OF joinCharge_desk])
      apply (rule exI [of _ "ev_id ev"])
      apply (rule desk_done_frame, rule inserted_done [OF wf, where ev = ev])
         apply (rule ins)
      by (simp_all add: row row_room)
  qed
  done

lemma join_done:
  assumes wf: "desk_wf s"
  shows "tx_wp (join g u p) (\<lambda>_ s'. \<exists>e. desk_done e s s') s"
proof -
  have "tx_rel (=) (assertAllowed g u a :: (error, db, unit) tx)" for a
    unfolding assertAllowed_def Let_def by (auto intro!: tx_relI simp: tx_simps split: if_splits option.splits)
  moreover have "tx_rel (=) (loadJoiner u)"
    unfolding loadJoiner_def by (intro tx_rel_rules) (auto simp: reflp_def transp_def)
  ultimately show ?thesis
    unfolding join_def wp_bind
    by (auto intro!: tx_wp_rel [of "(=)"] join_tx_done [OF wf] simp: wp_read)
qed

lemma seatSeedParticipant_done:
  assumes wf: "desk_wf s"
  shows "tx_wp (seatSeedParticipant p u) (\<lambda>_ s'. \<exists>e. desk_done e s s') s"
  unfolding seatSeedParticipant_def
  apply (simp only: wp_head)
  apply (intro allI impI)
  subgoal premises prems for ev
  proof -
    have ev: "event_by_id (ev_id ev) s = Some ev" by (rule event_by_public_id_row [OF wf prems(1)])
    show ?thesis
      apply (simp add: wp_simps ev)
      apply (intro impI participant_insert_rule)
       apply simp
      apply (simp add: wp_simps)
      apply (rule exI [of _ "ev_id ev"], rule inserted_done [OF wf, where c = 0 and ev = ev])
        by (auto simp: inserted_def seat_delta_def room_for_def ev)
  qed
  done

section \<open>Runs of the desk\<close>

text \<open>
  Every operation that changes participations, and time passing between them. \<open>Join_Tx\<close> is
  the transaction of \<^verbatim>\<open>join\<close> for whatever its caller read beforehand.
\<close>

datatype desk_op =
    Join gate id id
  | Join_Tx id id joiner int int int int
  | Accept id id
  | Reject id id
  | Cancel id id "string option"
  | Seat_Seed id id
  | Expire_One id instant
  | Expire_Waitlisted_One id instant
  | Promote_For_Event id
  | Time_Passes nat

definition tx_void :: "('e, 's, 'a) tx \<Rightarrow> ('e, 's, unit) tx" where
  "tx_void m = tx_bind m (\<lambda>_. tx_return ())"

fun desk_do :: "desk_op \<Rightarrow> (error, db, unit) tx" where
  "desk_do (Join g u e) = tx_void (join g u e)"
| "desk_do (Join_Tx u e j h b m c) = tx_void (join_tx u e j h b m c)"
| "desk_do (Accept h p) = tx_void (accept h p)"
| "desk_do (Reject h p) = tx_void (reject h p)"
| "desk_do (Cancel u p r) = tx_void (cancel u p r)"
| "desk_do (Seat_Seed e u) = seatSeedParticipant e u"
| "desk_do (Expire_One p now) = tx_void (expireOne p now)"
| "desk_do (Expire_Waitlisted_One p now) = tx_void (expireWaitlistedOne p now)"
| "desk_do (Promote_For_Event e) = tx_void (promoteForEvent e)"
| "desk_do (Time_Passes d) = tx_modify (\<lambda>s. s\<lparr>clock := clock s + int d\<rparr>)"

lemma tx_void_wp [wp_simps]: "tx_wp (tx_void m) Q = tx_wp m (\<lambda>_. Q ())"
  by (rule ext) (simp add: tx_void_def wp_simps)

lemmas desk_ops_done = join_done join_tx_done accept_done reject_done cancel_done
  seatSeedParticipant_done expireOne_done expireWaitlistedOne_done promoteForEvent_done

lemma desk_do_wp:
  "desk_wf s \<Longrightarrow> \<forall>d. x \<noteq> Time_Passes d \<Longrightarrow> tx_wp (desk_do x) (\<lambda>_ s'. \<exists>e. desk_done e s s') s"
  by (cases x) (simp_all add: tx_void_wp desk_ops_done)

lemma desk_do_effect:
  assumes "desk_wf s" and "desk_do x s = Inr (u, s')"
  shows "(\<exists>e. desk_done e s s') \<or> (\<exists>d. s' = s\<lparr>clock := clock s + int d\<rparr>)"
proof (cases "\<exists>d. x = Time_Passes d")
  case True
  with assms(2) show ?thesis by auto
next
  case False
  then show ?thesis using tx_wpD [OF desk_do_wp [OF assms(1)] assms(2)] by auto
qed

lemma clock_wf: "desk_wf s \<Longrightarrow> desk_wf (s\<lparr>clock := clock s + int d\<rparr>)"
  by (force simp: desk_wf_def)

lemma clock_seats [simp]: "seats_ok (s\<lparr>clock := t\<rparr>) = seats_ok s"
  by (simp add: seats_ok_def taken_def)

lemma desk_do_wf: "desk_do x s = Inr (u, s') \<Longrightarrow> desk_wf s \<Longrightarrow> desk_wf s'"
  using desk_do_effect [of s x u s'] clock_wf [of s] by (auto simp: desk_done_def desk_reached_def)

lemma desk_do_seats: "desk_do x s = Inr (u, s') \<Longrightarrow> desk_wf s \<Longrightarrow> seats_ok s \<Longrightarrow> seats_ok s'"
  using desk_do_effect [of s x u s'] desk_steps_seats by (auto simp: desk_done_def desk_reached_def)

interpretation desk_seats: service desk_do "\<lambda>s. desk_wf s \<and> seats_ok s"
  by unfold_locales (auto intro: desk_do_wf desk_do_seats)

section \<open>Histories\<close>

text \<open>A participation is never deleted, keeps what it is about, and only moves along its table.\<close>

definition kept_row :: "participant_row \<Rightarrow> participant_row \<Rightarrow> bool" where
  "kept_row r r' \<longleftrightarrow> pt_id r' = pt_id r \<and> pt_public_id r' = pt_public_id r \<and> pt_event r' = pt_event r
     \<and> pt_user r' = pt_user r \<and> pt_requested_at r' = pt_requested_at r
     \<and> (\<lambda>a b. b \<in> set (PARTICIPANT_TRANSITIONS a))\<^sup>*\<^sup>* (pt_status r) (pt_status r')
     \<and> (PARTICIPANT_TRANSITIONS (pt_status r) = [] \<longrightarrow> r' = r)"

definition participation_kept :: "db \<Rightarrow> db \<Rightarrow> bool" where
  "participation_kept s s' \<longleftrightarrow> (\<forall>r\<in>set (participants s). \<exists>r'\<in>set (participants s'). kept_row r r')"

lemma kept_row_refl: "kept_row r r"
  by (simp add: kept_row_def)

lemma kept_row_trans: "kept_row a b \<Longrightarrow> kept_row b c \<Longrightarrow> kept_row a c"
  unfolding kept_row_def by (metis (no_types, lifting) rtranclp_trans)

lemma participation_kept_refl: "participation_kept s s"
  using kept_row_refl by (auto simp: participation_kept_def)

lemma participation_kept_trans:
  "participation_kept a b \<Longrightarrow> participation_kept b c \<Longrightarrow> participation_kept a c"
  unfolding participation_kept_def by (meson kept_row_trans)

lemma moved_kept:
  assumes wf: "desk_wf s" and m: "moved r r' s s'"
  shows "participation_kept s s'"
  unfolding participation_kept_def
proof
  fix q assume q: "q \<in> set (participants s)"
  show "\<exists>q'\<in>set (participants s'). kept_row q q'"
  proof (cases "pt_id q = pt_id r")
    case True
    then have "q = r" using distinct_key_eq [of pt_id "participants s" q r] m q wf by (auto simp: moved_def desk_wf_def)
    moreover have "r' \<in> set (participants s')" using m by (auto simp: moved_def set_update_where)
    moreover have "kept_row r r'" using m by (auto simp: moved_def kept_row_def)
    ultimately show ?thesis by blast
  next
    case False
    then have "q \<in> set (participants s')" using m q by (auto simp: moved_def set_update_where)
    then show ?thesis using kept_row_refl by blast
  qed
qed

lemma desk_step_kept:
  assumes "desk_step e s s'" and wf: "desk_wf s"
  shows "participation_kept s s'"
  using assms(1)
proof (cases rule: desk_step.cases)
  case frame
  then have "participants s' = participants s" by (simp add: desk_frame_def)
  then show ?thesis using kept_row_refl by (auto simp: participation_kept_def)
next
  case (move r r')
  then show ?thesis using moved_kept [OF wf] by blast
next
  case (insert row c)
  then have "participants s' = participants s @ [row]" by (simp add: inserted_def)
  then show ?thesis using kept_row_refl by (auto simp: participation_kept_def)
qed

lemma desk_steps_kept: "(desk_step e)\<^sup>*\<^sup>* s s' \<Longrightarrow> desk_wf s \<Longrightarrow> participation_kept s s'"
proof (induction rule: rtranclp_induct)
  case base
  then show ?case by (simp add: participation_kept_refl)
next
  case (step b c)
  then show ?case using desk_steps_wf desk_step_kept participation_kept_trans by blast
qed

lemma clock_kept: "participation_kept s (s\<lparr>clock := t\<rparr>)"
  by (auto simp: participation_kept_def intro: kept_row_refl)

lemma desk_do_kept: "desk_do x s = Inr (u, s') \<Longrightarrow> desk_wf s \<Longrightarrow> participation_kept s s'"
  using desk_do_effect [of s x u s'] desk_steps_kept [of _ s s'] clock_kept [of s]
  by (auto simp: desk_done_def desk_reached_def)

interpretation desk_history: monotone_service desk_do desk_wf participation_kept
  by unfold_locales
     (auto intro: desk_do_wf desk_do_kept participation_kept_refl participation_kept_trans)

section \<open>Nobody waits beside a free place\<close>

text \<open>A step on one event leaves what the others hold alone.\<close>

definition rows_at :: "id \<Rightarrow> db \<Rightarrow> participant_row list" where
  "rows_at e s = filter (\<lambda>r. pt_event r = e) (participants s)"

lemma rows_at_no_idle:
  assumes "rows_at e s' = rows_at e s" and "event_by_id e s' = event_by_id e s"
  shows "no_idle_seat e s' = no_idle_seat e s"
proof -
  have w: "waitlist e t = queue_order (filter (\<lambda>r. pt_status r = P_WAITLISTED) (rows_at e t))" for t
    by (simp add: waitlist_def rows_at_def conj_commute)
  have o: "outstanding e t = count_where (\<lambda>r. holdsSlot (pt_status r)) (rows_at e t)" for t
    by (simp add: outstanding_def rows_at_def count_where_def conj_commute)
  show ?thesis using assms by (simp add: no_idle_seat_def w o)
qed

lemma find_bump_other: "i \<noteq> e \<Longrightarrow> find (\<lambda>q. ev_id q = i) (bump e d c evs) = find (\<lambda>q. ev_id q = i) evs"
  by (induction evs) (auto simp: bump_def)

lemma filter_update_other:
  "(\<And>q. q \<in> set rows \<Longrightarrow> u q \<Longrightarrow> \<not> P q) \<Longrightarrow> \<not> P x \<Longrightarrow> filter P (update_where u (\<lambda>_. x) rows) = filter P rows"
  by (induction rows) auto

lemma desk_step_other:
  assumes "desk_step e s s'" and "i \<noteq> e" and wf: "desk_wf s"
  shows "rows_at i s' = rows_at i s \<and> event_by_id i s' = event_by_id i s"
  using assms(1)
proof (cases rule: desk_step.cases)
  case frame
  then show ?thesis by (simp add: desk_frame_def rows_at_def event_by_id_def)
next
  case (move r r')
  have "pt_event q = e" if "q \<in> set (participants s)" "pt_id q = pt_id r" for q
    using that move distinct_key_eq [of pt_id "participants s" q r] wf by (auto simp: moved_def desk_wf_def)
  with move assms(2) show ?thesis
    by (auto simp: moved_def rows_at_def event_by_id_def find_bump_other intro!: filter_update_other)
next
  case (insert row c)
  with assms(2) show ?thesis by (auto simp: inserted_def rows_at_def event_by_id_def find_bump_other)
qed

lemma desk_steps_other:
  "(desk_step e)\<^sup>*\<^sup>* s s' \<Longrightarrow> i \<noteq> e \<Longrightarrow> desk_wf s \<Longrightarrow> rows_at i s' = rows_at i s \<and> event_by_id i s' = event_by_id i s"
proof (induction rule: rtranclp_induct)
  case (step b c)
  then show ?case using desk_steps_wf desk_step_other [of e b c i] by metis
qed simp

lemma desk_done_no_idle:
  "desk_done e s s' \<Longrightarrow> desk_wf s \<Longrightarrow> no_idle_seat i s \<Longrightarrow> no_idle_seat i s'"
  using desk_steps_other [of e s s' i] rows_at_no_idle [of i s' s]
  by (cases "i = e") (auto simp: desk_done_def desk_reached_def)

lemma clock_no_idle [simp]: "no_idle_seat i (s\<lparr>clock := t\<rparr>) = no_idle_seat i s"
  by (simp add: no_idle_seat_def waitlist_def outstanding_def event_by_id_def)

lemma desk_do_no_idle:
  "desk_do x s = Inr (u, s') \<Longrightarrow> desk_wf s \<Longrightarrow> \<forall>i. no_idle_seat i s \<Longrightarrow> \<forall>i. no_idle_seat i s'"
  using desk_do_effect [of s x u s'] desk_done_no_idle [of _ s s'] by auto

interpretation desk_queue: service desk_do "\<lambda>s. desk_wf s \<and> (\<forall>i. no_idle_seat i s)"
  by unfold_locales (auto dest: desk_do_wf desk_do_no_idle)

section \<open>The queue in order\<close>

definition asked_before :: "participant_row \<Rightarrow> participant_row \<Rightarrow> bool" where
  "asked_before a b \<longleftrightarrow> pt_requested_at a < pt_requested_at b
     \<or> pt_requested_at a = pt_requested_at b \<and> pt_id a < pt_id b"

lemma asked_before_irrefl [simp]: "\<not> asked_before a a"
  by (simp add: asked_before_def)

lemma asked_before_asym: "asked_before a b \<Longrightarrow> \<not> asked_before b a"
  by (auto simp: asked_before_def)

lemma insort_asked:
  "sorted_wrt asked_before ys \<Longrightarrow> \<forall>y\<in>set ys. pt_id x < pt_id y \<Longrightarrow>
   sorted_wrt asked_before (insort_key pt_requested_at x ys)"
  by (induction ys) (auto simp: asked_before_def set_insort_key)

lemma sorted_id_strict:
  "distinct (map pt_id rows) \<Longrightarrow> sorted_wrt (\<lambda>a b. pt_id a < pt_id b) (sort_key pt_id rows)"
proof -
  assume d: "distinct (map pt_id rows)"
  have "distinct (map pt_id (sort_key pt_id rows))"
    using d by (simp add: distinct_map)
  moreover have "sorted (map pt_id (sort_key pt_id rows))" by simp
  ultimately have "sorted_wrt (<) (map pt_id (sort_key pt_id rows))" by (simp add: strict_sorted_iff)
  then show ?thesis by (simp add: sorted_wrt_map)
qed

lemma sort_requested:
  "sorted_wrt (\<lambda>a b. pt_id a < pt_id b) xs \<Longrightarrow> sorted_wrt asked_before (sort_key pt_requested_at xs)"
  by (induction xs) (auto intro!: insort_asked)

lemma queue_order_sorted: "distinct (map pt_id rows) \<Longrightarrow> sorted_wrt asked_before (queue_order rows)"
  unfolding queue_order_def by (intro sort_requested sorted_id_strict)

lemma count_queue_order: "count_where P (queue_order rows) = count_where P rows"
proof -
  have "length (filter P (queue_order rows)) = length (queue_order (filter P rows))"
    by (simp add: queue_order_filter)
  then show ?thesis by (simp add: count_where_def queue_order_def)
qed

text \<open>Counting those ahead of a row of a sorted list counts the prefix before it.\<close>

lemma count_ahead:
  assumes "sorted_wrt asked_before (xs @ p # ys)"
  shows "count_where (\<lambda>r. P r \<and> asked_before r p) (xs @ p # ys) = count_where P xs"
proof -
  have "count_where (\<lambda>r. P r \<and> asked_before r p) xs = count_where P xs"
    by (rule count_where_cong) (use assms in \<open>auto simp: sorted_wrt_append\<close>)
  moreover have "count_where (\<lambda>r. P r \<and> asked_before r p) (p # ys) = 0"
    using assms asked_before_asym by (auto simp: count_where_zero sorted_wrt_append)
  ultimately show ?thesis by (simp del: count_where_Cons)
qed

lemma waitlistRank_asked:
  "waitlistRank p s = count_where (\<lambda>r. (pt_event r = pt_event p \<and> pt_status r = P_WAITLISTED) \<and> asked_before r p)
     (participants s) + 1"
  by (simp add: waitlistRank_def asked_before_def conj_assoc)

text \<open>The rows of an event in the order the host sees them.\<close>

lemma waitlistRank_prefix:
  assumes d: "distinct (map pt_id (participants s))"
    and split: "queue_order (filter (\<lambda>r. pt_event r = e) (participants s)) = xs @ p # ys"
  shows "waitlistRank p s = count_where (\<lambda>r. pt_status r = P_WAITLISTED) xs + 1"
proof -
  have "p \<in> set (queue_order (filter (\<lambda>r. pt_event r = e) (participants s)))" by (simp add: split)
  then have p: "pt_event p = e" by simp
  have "distinct (map pt_id (filter (\<lambda>r. pt_event r = e) (participants s)))"
    using d by (auto simp: distinct_map intro: inj_on_subset)
  then have sorted: "sorted_wrt asked_before (xs @ p # ys)"
    using queue_order_sorted split by metis
  have "count_where (\<lambda>r. (pt_event r = e \<and> pt_status r = P_WAITLISTED) \<and> asked_before r p) (participants s)
      = count_where (\<lambda>r. pt_status r = P_WAITLISTED \<and> asked_before r p) (filter (\<lambda>r. pt_event r = e) (participants s))"
    by (simp add: count_where_def conj_ac)
  also have "\<dots> = count_where (\<lambda>r. pt_status r = P_WAITLISTED \<and> asked_before r p) (xs @ p # ys)"
    using count_queue_order [of "\<lambda>r. pt_status r = P_WAITLISTED \<and> asked_before r p"
        "filter (\<lambda>r. pt_event r = e) (participants s)"] by (simp only: split)
  also have "\<dots> = count_where (\<lambda>r. pt_status r = P_WAITLISTED) xs" by (rule count_ahead [OF sorted])
  finally show ?thesis by (simp add: waitlistRank_asked p)
qed

lemma rank_rows_ranks:
  "(\<And>xs p ys. rows = xs @ p # ys \<Longrightarrow> waitlistRank p s = k + count_where (\<lambda>r. pt_status r = P_WAITLISTED) xs + 1) \<Longrightarrow>
   map ps_waitlist_rank (rank_rows s k rows) = map (\<lambda>p. pd_waitlist_rank (toDetail p e s)) rows
   \<and> map ps_public_id (rank_rows s k rows) = map pt_public_id rows"
proof (induction rows arbitrary: k)
  case Nil
  then show ?case by simp
next
  case (Cons r rows)
  let ?k = "if pt_status r = P_WAITLISTED then k + 1 else k"
  have "waitlistRank p s = ?k + count_where (\<lambda>r. pt_status r = P_WAITLISTED) xs + 1" if "rows = xs @ p # ys" for xs p ys
    using Cons.prems [of "r # xs" p ys] that by simp
  from Cons.IH [OF this] Cons.prems [of "[]" r rows] show ?case
    by (simp add: Let_def summary_of_def toDetail_def)
qed

lemma listForEvent_Inr:
  "listForEvent h p s = Inr (xs, s') \<Longrightarrow> s' = s \<and> (\<exists>ev. event_by_public_id p s = Some ev \<and> ev_host ev = h
     \<and> xs = rank_rows s 0 (queue_order (filter (\<lambda>r. pt_event r = ev_id ev) (participants s))))"
  by (auto simp: listForEvent_def tx_simps)

section \<open>When the loop goes through\<close>

lemma participant_update_ok:
  "distinct (map pt_id (participants s)) \<Longrightarrow> r \<in> set (participants s) \<Longrightarrow>
   tx_ok (participant_update (pt_id r) f) s = participant_checks (f r)"
  by (simp add: participant_update_def ok_simps wp_simps participant_by_id_iff)

lemma promote_checks:
  "participant_checks r \<Longrightarrow> pt_status r = P_WAITLISTED \<Longrightarrow> participant_checks (promoted_row now dl r)"
  by (simp add: participant_checks_def promoted_row_def)

lemma assertParticipantTransition_ok [ok_simps]:
  "tx_ok (assertParticipantTransition a b i) s \<longleftrightarrow> b \<in> set (PARTICIPANT_TRANSITIONS a)"
  by (simp add: assertParticipantTransition_def ok_simps)

lemma promoteNext_ok:
  assumes "distinct (map pt_id (participants s))" "r \<in> set (participants s)" "pt_status r = P_WAITLISTED"
    and "participant_checks r" and "users s (ev_host ev) \<noteq> None" "users s (pt_user r) \<noteq> None"
  shows "tx_ok (promoteNext ev now dl r) s"
  using assms promote_checks [OF assms(4,3), of now dl]
  by (simp add: promoteNext_def ok_simps wp_simps participant_update_ok participant_update_wp promoted_row_def)

lemma fillLoop_ok:
  "desk_wf s \<Longrightarrow> users s (ev_host ev) \<noteq> None \<Longrightarrow> \<forall>r\<in>set (waitlist (ev_id ev) s). users s (pt_user r) \<noteq> None \<Longrightarrow>
   tx_ok (fillLoop ev now dl out ps) s"
proof (induction ev now dl out ps arbitrary: s rule: fillLoop.induct)
  case (1 ev now dl out ps)
  show ?case
  proof (cases "waitlist (ev_id ev) s")
    case Nil
    then show ?thesis by (subst fillLoop.simps) (simp add: wp_simps ok_simps)
  next
    case (Cons nxt rest)
    then have nxt: "nxt \<in> set (participants s)" "pt_status nxt = P_WAITLISTED" "pt_event nxt = ev_id ev"
      using waitlist_mem [of nxt "ev_id ev" s] by auto
    have d: "distinct (map pt_id (participants s))" and c: "participant_checks nxt"
      using 1(2) nxt by (auto simp: desk_wf_def)
    have "tx_ok (promoteNext ev now dl nxt) s"
      by (rule promoteNext_ok [OF d nxt(1,2) c]) (use 1(3,4) Cons in auto)
    moreover have "tx_wp (promoteNext ev now dl nxt) (\<lambda>p. tx_ok (fillLoop ev now dl (out + 1) (ps @ [p]))) s"
      if "ev_accepted_count ev + out < ev_capacity ev"
    proof (rule promoteNext_wp [OF d nxt(1,2)])
      fix s1 assume m: "moved nxt (promoted_row now dl nxt) s s1" and u: "users s1 = users s"
      have "waitlist (ev_id ev) s1 = rest" by (rule waitlist_after_promotion [OF d Cons m])
      then show "tx_ok (fillLoop ev now dl (out + 1)
          (ps @ [\<lparr>pm_id = pt_id nxt, pm_public_id = pt_public_id nxt, pm_host_deadline_at = dl\<rparr>])) s1"
        using 1(1) [OF that moved_wf [OF m 1(2)]] 1(3,4) Cons u by simp
    qed
    ultimately show ?thesis using Cons by (subst fillLoop.simps) (simp add: wp_simps ok_simps)
  qed
qed

lemma fillFreedSeats_ok:
  "desk_wf s \<Longrightarrow> users s (ev_host ev) \<noteq> None \<Longrightarrow> \<forall>r\<in>set (waitlist (ev_id ev) s). users s (pt_user r) \<noteq> None \<Longrightarrow>
   tx_ok (fillFreedSeats ev now) s"
  by (simp add: fillFreedSeats_def wp_simps ok_simps fillLoop_ok)

section \<open>A desk to try things on\<close>

definition sample_user :: "id \<Rightarrow> user_row" where
  "sample_user p = \<lparr>us_public_id = p, us_status = U_ACTIVE, us_onboarding = O_PROFILE_COMPLETE, us_is_seed = False\<rparr>"

definition sample_event :: event_row where
  "sample_event = \<lparr>ev_id = 50, ev_public_id = 150, ev_host = 7, ev_title = ''hike'', ev_city_id = 3,
     ev_starts_at = 360000000, ev_ends_at = 370000000, ev_capacity = 1, ev_accepted_count = 0,
     ev_gender_preference = None, ev_min_age = None, ev_max_age = None, ev_status = E_PUBLISHED,
     ev_deleted_at = None, ev_host_absent_at = None, ev_host_reminded_at = None,
     ev_attendance_prompted_at = None, ev_request_count = 2, ev_version = 0\<rparr>"

text \<open>
  The host 7 has 100 coins, 8 has asked and paid 20 of their 100, 9 waits and was charged
  nothing, 10 has 100 and has not asked.
\<close>

definition sample_coins :: db where
  "sample_coins = coin_run
     [Apply ((sample_movement 100 ONBOARDING_REWARD ''welcome:8'')\<lparr>ci_user := 8\<rparr>),
      Apply ((sample_movement (- 20) EVENT_JOIN_SPEND ''join:50:8'')
        \<lparr>ci_user := 8, ci_ref_type := Some ''event_participant'', ci_ref_id := Some 60\<rparr>),
      Apply ((sample_movement 100 ONBOARDING_REWARD ''welcome:10'')\<lparr>ci_user := 10\<rparr>)] sample_db"

definition sample_desk :: db where
  "sample_desk = sample_coins\<lparr>clock := 1000, app_timezone := fixed_zone 12600000, next_id := 1000,
     settings := Map.empty, trust_scores := [], trust_ledger := [],
     users := [7 \<mapsto> sample_user 107, 8 \<mapsto> sample_user 108, 9 \<mapsto> sample_user 109, 10 \<mapsto> sample_user 110],
     profiles := [10 \<mapsto> \<lparr>pr_display_name = ''Neda'', pr_gender = Some G_FEMALE, pr_birth_year = Some 1950, pr_city_id = 3\<rparr>],
     events := [sample_event],
     participants := [(new_participant 60 160 50 8 P_PENDING 500)\<lparr>pt_host_deadline_at := Some 900\<rparr>,
                      new_participant 61 161 50 9 P_WAITLISTED 600]\<rparr>"

lemma sample_desk_wf: "desk_wf sample_desk"
  by (simp add: sample_desk_def desk_wf_def new_participant_def participant_checks_def sample_event_def)

lemma sample_desk_seats: "seats_ok sample_desk"
  by (simp add: sample_desk_def seats_ok_def new_participant_def taken_def sample_event_def)

lemma sample_desk_queue: "map pt_id (waitlist 50 sample_desk) = [61]"
  by (simp add: sample_desk_def waitlist_def queue_order_def new_participant_def)

lemma sample_desk_idle: "no_idle_seat i sample_desk"
  by (simp add: sample_desk_def no_idle_seat_def waitlist_def queue_order_def new_participant_def
      event_by_id_def outstanding_def sample_event_def)

lemma sample_desk_simps [simp]:
  "event_by_public_id 150 sample_desk = Some sample_event" "event_by_id 50 sample_desk = Some sample_event"
  "users sample_desk 7 = Some (sample_user 107)" "users sample_desk 8 = Some (sample_user 108)"
  "users sample_desk 9 = Some (sample_user 109)" "users sample_desk 10 = Some (sample_user 110)"
  "clock sample_desk = 1000"
  "events sample_desk = [sample_event]"
  "participant_by_public_id 160 sample_desk = Some ((new_participant 60 160 50 8 P_PENDING 500)\<lparr>pt_host_deadline_at := Some 900\<rparr>)"
  "participant_by_public_id 161 sample_desk = Some (new_participant 61 161 50 9 P_WAITLISTED 600)"
  "waitlist 50 sample_desk = [new_participant 61 161 50 9 P_WAITLISTED 600]"
  by (simp_all add: sample_desk_def event_by_public_id_def event_by_id_def participant_by_public_id_def
      sample_event_def new_participant_def waitlist_def queue_order_def)

lemma sample_event_simps [simp]:
  "ev_id sample_event = 50" "ev_host sample_event = 7" "ev_capacity sample_event = 1"
  "ev_accepted_count sample_event = 0" "ev_public_id sample_event = 150" "ev_starts_at sample_event = 360000000"
  by (simp_all add: sample_event_def)

lemma sample_desk_by_participant [simp]:
  "event_by_participant 160 sample_desk = Some sample_event" "event_by_participant 161 sample_desk = Some sample_event"
  by (simp_all add: event_by_participant_def)

end
