(* ===== verification/Participation_Money.thy ===== *)
theory Participation_Money
  imports Participation_Invariant
begin

text \<open>
  Total correctness of the operations of \<^verbatim>\<open>participation.service.ts\<close> that move coins: what each
  needs to go through, and what the accounts hold afterwards. Asking charges the price of the
  preview, a refusal and an expiry give the charge back, a cancellation costs the price of its
  bucket.
\<close>

section \<open>Refunding a join charge\<close>

definition join_charges_negative :: "db \<Rightarrow> bool" where
  "join_charges_negative s \<longleftrightarrow> (\<forall>r\<in>set (coin_ledger s). cl_type r = EVENT_JOIN_SPEND \<longrightarrow> cl_amount r < 0)"

definition open_join_charges :: "id \<Rightarrow> db \<Rightarrow> coin_ledger_row list" where
  "open_join_charges p s = filter (unrefundedJoinCharge p (coin_ledger s)) (coin_ledger s)"

lemma unrefundedJoinCharge_iff:
  "unrefundedJoinCharge p rows r \<longleftrightarrow> cl_ref_type r = Some ''event_participant'' \<and> cl_ref_id r = Some p
     \<and> cl_type r = EVENT_JOIN_SPEND \<and> \<not> reversed_in (cl_id r) rows"
  by (auto simp: unrefundedJoinCharge_def reversed_in_def)

lemma open_join_to_reverse:
  assumes "coin_wf s" and "join_charges_negative s"
  shows "to_reverse (open_join_charges p s) s"
proof -
  have "distinct (map cl_id (coin_ledger s))" using assms(1) by (simp add: coin_wf_def)
  then have "distinct (map cl_id (open_join_charges p s))"
    by (auto simp: open_join_charges_def distinct_map intro: inj_on_subset)
  then show ?thesis using assms(2)
    by (auto simp: to_reverse_def open_join_charges_def unrefundedJoinCharge_iff join_charges_negative_def)
qed

lemma sum_abs_negative:
  "\<forall>r\<in>set rows. f r < 0 \<Longrightarrow> sum_list (map (\<lambda>r. \<bar>f r\<bar>) rows) = \<bar>sum_list (map f rows)\<bar>" for f :: "'a \<Rightarrow> int"
proof -
  assume "\<forall>r\<in>set rows. f r < 0"
  then have "sum_list (map (\<lambda>r. \<bar>f r\<bar>) rows) = - sum_list (map f rows) \<and> sum_list (map f rows) \<le> 0"
    by (induction rows) auto
  then show ?thesis by simp
qed

lemma unrefundedJoinTotal_eq:
  "join_charges_negative s \<Longrightarrow> unrefundedJoinTotal p s = sum_list (map (\<lambda>r. \<bar>cl_amount r\<bar>) (open_join_charges p s))"
  by (subst sum_abs_negative)
     (auto simp: unrefundedJoinTotal_def open_join_charges_def sum_where_def join_charges_negative_def unrefundedJoinCharge_iff)

text \<open>What must fit the columns for a refund to be written.\<close>

definition refund_fits :: "coin_ledger_row list \<Rightarrow> db \<Rightarrow> bool" where
  "refund_fits cs s \<longleftrightarrow> (\<forall>c\<in>set cs. int4 (- cl_amount c)) \<and> (\<forall>u. int4 (balance_of s u + refund_sum u cs))"

lemma refundJoinCharge_total:
  assumes wf: "coin_wf s" and keys: "reversal_keys_reserved s" and neg: "join_charges_negative s"
    and fits: "refund_fits (open_join_charges p s) s"
  shows "\<exists>n s'. refundJoinCharge p rc acty ai s = Inr (n, s') \<and> n = unrefundedJoinTotal p s
    \<and> (\<forall>u. balance_of s' u = balance_of s u + refund_sum u (open_join_charges p s))
    \<and> unrefundedJoinTotal p s' = 0 \<and> desk_frame s s'"
proof -
  let ?cs = "open_join_charges p s"
  note tr = open_join_to_reverse [OF wf neg, of p]
  obtain n s' where run: "refund_loop rc acty ai ?cs 0 s = Inr (n, s')"
    using refund_loop_succeeds [OF wf keys tr, of rc acty ai 0] fits unfolding refund_fits_def by blast
  then have call: "refundJoinCharge p rc acty ai s = Inr (n, s')"
    by (simp add: refundJoinCharge_def open_join_charges_def)
  from refund_loop_effect [OF wf keys tr run] obtain rs where
    n: "n = sum_list (map (\<lambda>c. \<bar>cl_amount c\<bar>) ?cs)" and bal: "\<forall>u. balance_of s' u = balance_of s u + refund_sum u ?cs"
    and led: "coin_ledger s' = coin_ledger s @ rs" and rs: "\<forall>r\<in>set rs. cl_type r = REVERSAL"
    and gone: "\<forall>c\<in>set ?cs. reversed_in (cl_id c) (coin_ledger s')" by auto
  have "open_join_charges p s' = []"
  proof -
    have "\<not> unrefundedJoinCharge p (coin_ledger s') r" if "r \<in> set (coin_ledger s')" for r
    proof
      assume u: "unrefundedJoinCharge p (coin_ledger s') r"
      then have "r \<in> set (coin_ledger s)" using that led rs by (auto simp: unrefundedJoinCharge_iff)
      moreover have "\<not> reversed_in (cl_id r) (coin_ledger s)" using u led by (auto simp: unrefundedJoinCharge_iff)
      ultimately have "r \<in> set ?cs" using u by (auto simp: open_join_charges_def unrefundedJoinCharge_iff)
      then show False using gone u by (auto simp: unrefundedJoinCharge_iff)
    qed
    then show ?thesis by (auto simp: open_join_charges_def filter_empty_conv)
  qed
  moreover have "unrefundedJoinTotal p s' = \<bar>sum_list (map cl_amount (open_join_charges p s'))\<bar>"
    by (simp add: unrefundedJoinTotal_def open_join_charges_def sum_where_def)
  ultimately have "unrefundedJoinTotal p s' = 0" by simp
  then show ?thesis
    using call n bal unrefundedJoinTotal_eq [OF neg, of p] tx_relD [OF refundJoinCharge_desk call] by auto
qed

lemma balance_of_accounts: "coin_accounts s' = coin_accounts s \<Longrightarrow> balance_of s' u = balance_of s u"
  by (simp add: balance_of_def)

lemma unrefundedJoinTotal_ledger: "coin_ledger s' = coin_ledger s \<Longrightarrow> unrefundedJoinTotal p s' = unrefundedJoinTotal p s"
  by (simp add: unrefundedJoinTotal_def)

lemma coin_wf_same:
  "coin_wf s \<Longrightarrow> coin_accounts s' = coin_accounts s \<Longrightarrow> coin_ledger s' = coin_ledger s \<Longrightarrow>
   next_id s \<le> next_id s' \<Longrightarrow> coin_wf s'"
  using balance_of_accounts [of s' s] by (fastforce simp: coin_wf_def ledger_ok_def)

text \<open>The people the loop of promotions writes to.\<close>

definition desk_people :: "event_row \<Rightarrow> db \<Rightarrow> bool" where
  "desk_people ev s \<longleftrightarrow> users s (ev_host ev) \<noteq> None
     \<and> (\<forall>r\<in>set (participants s). pt_event r = ev_id ev \<longrightarrow> users s (pt_user r) \<noteq> None)"

lemma desk_people_moved:
  assumes p: "desk_people ev s" and m: "moved r r' s s1" and u: "users s1 = users s"
  shows "desk_people ev s1"
proof -
  have "users s (pt_user q) \<noteq> None" if "q \<in> set (participants s1)" "pt_event q = ev_id ev" for q
    using moved_mem [OF m that(1)] that(2) p m by (auto simp: desk_people_def moved_def)
  then show ?thesis using p u by (simp add: desk_people_def)
qed

text \<open>Filling goes through and touches no money.\<close>

lemma fill_total:
  assumes wf: "desk_wf s" and sync: "in_sync ev s" and people: "desk_people ev s"
  shows "\<exists>ps s'. fillFreedSeats ev now s = Inr (ps, s') \<and> coin_accounts s' = coin_accounts s
    \<and> coin_ledger s' = coin_ledger s \<and> users s' = users s \<and> desk_wf s'"
proof -
  have "tx_ok (fillFreedSeats ev now) s"
    by (rule fillFreedSeats_ok [OF wf]) (use people in \<open>auto simp: desk_people_def waitlist_mem\<close>)
  from tx_total [OF this fillFreedSeats_spec [OF desk_reached_refl [OF wf] sync]]
  show ?thesis by (auto simp: Let_def fill_done_def desk_reached_def)
qed

section \<open>Refusing and expiring, as a whole\<close>

text \<open>
  The row is closed, the charge comes back, the queue moves: the common part of \<^verbatim>\<open>reject\<close> and
  of \<^verbatim>\<open>expireOne\<close>, up to the rows they write about it.
\<close>

lemma close_and_refund:
  assumes wf: "desk_wf s" and money: "coin_wf s" "reversal_keys_reserved s" "join_charges_negative s"
    and fits: "refund_fits (open_join_charges (pt_id r) s) s"
    and r: "r \<in> set (participants s)" and m: "moved r r' s s1" and people: "desk_people ev s"
    and same: "coin_accounts s1 = coin_accounts s" "coin_ledger s1 = coin_ledger s" "users s1 = users s"
  shows "\<exists>n s2. refundJoinCharge (pt_id r) rc acty ai s1 = Inr (n, s2) \<and> n = unrefundedJoinTotal (pt_id r) s
    \<and> (\<forall>u. balance_of s2 u = balance_of s u + refund_sum u (open_join_charges (pt_id r) s))
    \<and> unrefundedJoinTotal (pt_id r) s2 = 0 \<and> desk_wf s2 \<and> desk_people ev s2 \<and> events s2 = events s1
    \<and> users s2 = users s \<and> participants s2 = participants s1 \<and> clock s2 = clock s"
proof -
  have opens: "open_join_charges p s1 = open_join_charges p s" "unrefundedJoinTotal p s1 = unrefundedJoinTotal p s" for p
    by (simp_all add: open_join_charges_def unrefundedJoinTotal_def same)
  have bal: "balance_of s1 u = balance_of s u" for u by (rule balance_of_accounts [OF same(1)])
  have "coin_wf s1" using coin_wf_same [OF money(1) same(1,2)] m by (simp add: moved_def)
  moreover have "reversal_keys_reserved s1" "join_charges_negative s1"
    using money(2,3) by (simp_all add: reversal_keys_reserved_def join_charges_negative_def same)
  moreover have "refund_fits (open_join_charges (pt_id r) s1) s1"
    using fits by (simp add: refund_fits_def opens bal)
  ultimately obtain n s2 where run: "refundJoinCharge (pt_id r) rc acty ai s1 = Inr (n, s2)"
    and n: "n = unrefundedJoinTotal (pt_id r) s" and fr: "desk_frame s1 s2"
    and b: "\<forall>u. balance_of s2 u = balance_of s u + refund_sum u (open_join_charges (pt_id r) s)"
    and z: "unrefundedJoinTotal (pt_id r) s2 = 0"
    using refundJoinCharge_total [of s1 "pt_id r" rc acty ai] unfolding opens bal by blast
  have "desk_wf s2" using frame_wf [OF fr moved_wf [OF m wf]] .
  moreover have "desk_people ev s2"
    using desk_people_moved [OF people m same(3)] fr by (simp add: desk_people_def desk_frame_def)
  ultimately show ?thesis using run n b z fr m same(3) by (auto simp: desk_frame_def moved_def)
qed

lemma closed_row_checks:
  "participant_checks r \<Longrightarrow> pt_status r = P_PENDING \<or> pt_status r = P_WAITLISTED \<Longrightarrow>
   participant_checks (r\<lparr>pt_status := P_REJECTED, pt_decided_at := t, pt_version := v\<rparr>)
   \<and> participant_checks (r\<lparr>pt_status := P_EXPIRED, pt_version := v\<rparr>)"
  by (auto simp: participant_checks_def)

text \<open>
  What a refusal of \<open>r\<close> needs to go through, and what it does: the charge of asking comes back,
  all of it and to whoever paid it, and nothing is left to give back.
\<close>

definition refusable :: "event_row \<Rightarrow> participant_row \<Rightarrow> db \<Rightarrow> bool" where
  "refusable ev r s \<longleftrightarrow> desk_wf s \<and> coin_wf s \<and> reversal_keys_reserved s \<and> join_charges_negative s
     \<and> refund_fits (open_join_charges (pt_id r) s) s \<and> desk_people ev s"

definition refunded :: "id \<Rightarrow> db \<Rightarrow> db \<Rightarrow> bool" where
  "refunded p s s' \<longleftrightarrow> (\<forall>u. balance_of s' u = balance_of s u + refund_sum u (open_join_charges p s))
     \<and> unrefundedJoinTotal p s' = 0"

lemma refunded_same:
  "refunded p s s1 \<Longrightarrow> coin_accounts s2 = coin_accounts s1 \<Longrightarrow> coin_ledger s2 = coin_ledger s1 \<Longrightarrow> refunded p s s2"
  using balance_of_accounts [of s2 s1] unrefundedJoinTotal_ledger [of s2 s1 p] by (simp add: refunded_def)

lemma reject_total:
  assumes ok: "refusable ev r s" and ev: "event_by_participant p s = Some ev" and r: "participant_by_public_id p s = Some r"
    and st: "pt_status r = P_PENDING \<or> pt_status r = P_WAITLISTED"
  shows "\<exists>d s'. reject (ev_host ev) p s = Inr (d, s') \<and> pd_status d = P_REJECTED \<and> refunded (pt_id r) s s'"
proof -
  have wf: "desk_wf s" and people: "desk_people ev s" using ok by (simp_all add: refusable_def)
  note row = participant_of_event [OF wf ev r]
  let ?r = "r\<lparr>pt_status := P_REJECTED, pt_decided_at := Some (clock s), pt_version := Suc (pt_version r)\<rparr>"
  let ?s1 = "s\<lparr>participants := update_where (\<lambda>q. pt_id q = pt_id r) (\<lambda>_. ?r) (participants s)\<rparr>"
  have checks: "participant_checks ?r" using closed_row_checks st row(1) wf by (auto simp: desk_wf_def)
  have m: "moved r ?r s ?s1" by (rule moved_update) (use row st checks in \<open>auto simp: seat_delta_def\<close>)
  obtain n s2 where refund: "refundJoinCharge (pt_id r) EVENT_JOIN_REFUND_REASON A_USER (Some (ev_host ev)) ?s1 = Inr (n, s2)"
    and backed: "refunded (pt_id r) s s2" and s2: "desk_wf s2" "desk_people ev s2" "events s2 = events s" "users s2 = users s"
    using close_and_refund [OF wf _ _ _ _ row(1) m people, of EVENT_JOIN_REFUND_REASON A_USER "Some (ev_host ev)"] ok
    by (auto simp: refusable_def refunded_def)
  have "in_sync ev s2" using s2(3) row(3) row(2) by (simp add: in_sync_def event_by_id_def)
  from fill_total [OF s2(1) this s2(2), of "clock s"] obtain ps s3 where
    fill: "fillFreedSeats ev (clock s) s2 = Inr (ps, s3)" and s3: "coin_accounts s3 = coin_accounts s2"
      "coin_ledger s3 = coin_ledger s2" "users s3 = users s2" by blast
  have guest: "users s (pt_user r) \<noteq> None" using people row(1,2) by (simp add: desk_people_def)
  then obtain gu where gu: "users s (pt_user r) = Some gu" by blast
  have upd: "participant_update (pt_id r) (\<lambda>q. q\<lparr>pt_status := P_REJECTED, pt_decided_at := Some (clock s), pt_version := Suc (pt_version q)\<rparr>) s
      = Inr (?r, ?s1)"
    using checks by (simp add: participant_update_def participant_by_id_iff [OF row(4,1)] tx_bind_def)
  have legal: "assertParticipantTransition (pt_status r) P_REJECTED i = tx_return ()" for i
    using st by (auto simp: assertParticipantTransition_def assertTransition_def canTransition_def)
  have rel: "releaseIfHeld (pt_status r) ev = tx_return ev"
    using st by (auto simp: releaseIfHeld_def)
  show ?thesis
    using backed s3 refund fill gu s2(4)
    by (auto simp: reject_def decide_def reject_apply_def ev r legal rel upd
        refund fill readParticipantByPublicId_def tx_bind_def
        audit_record_def outbox_emit_def publicIdOf_def toDetail_def intro!: refunded_same [OF backed])
qed

lemma expireOne_total:
  assumes ok: "refusable ev r s" and ev: "event_by_participant p s = Some ev" and r: "participant_by_public_id p s = Some r"
    and st: "pt_status r = P_PENDING" and late: "pt_host_deadline_at r = Some dl" "dl \<le> now"
  shows "\<exists>s'. expireOne p now s = Inr (True, s') \<and> refunded (pt_id r) s s'
    \<and> (\<forall>q\<in>set (participants s'). pt_id q = pt_id r \<longrightarrow> pt_status q = P_EXPIRED)"
proof -
  have wf: "desk_wf s" and people: "desk_people ev s" using ok by (simp_all add: refusable_def)
  note row = participant_of_event [OF wf ev r]
  let ?r = "r\<lparr>pt_status := P_EXPIRED, pt_version := Suc (pt_version r)\<rparr>"
  let ?s1 = "s\<lparr>participants := update_where (\<lambda>q. pt_id q = pt_id r) (\<lambda>_. ?r) (participants s)\<rparr>"
  have checks: "participant_checks ?r" using closed_row_checks st row(1) wf by (auto simp: desk_wf_def)
  have m: "moved r ?r s ?s1" by (rule moved_update) (use row st checks in \<open>auto simp: seat_delta_def\<close>)
  obtain n s2 where refund: "refundJoinCharge (pt_id r) EVENT_JOIN_EXPIRY_REFUND_REASON A_SYSTEM None ?s1 = Inr (n, s2)"
    and backed: "refunded (pt_id r) s s2" and s2: "desk_wf s2" "desk_people ev s2" "events s2 = events s" "users s2 = users s"
      "participants s2 = participants ?s1"
    using close_and_refund [OF wf _ _ _ _ row(1) m people, of EVENT_JOIN_EXPIRY_REFUND_REASON A_SYSTEM None] ok
    by (auto simp: refusable_def refunded_def)
  obtain gu where gu: "users s (pt_user r) = Some gu" using people row(1,2) by (auto simp: desk_people_def)
  have upd: "participant_update (pt_id r) (\<lambda>q. q\<lparr>pt_status := P_EXPIRED, pt_version := Suc (pt_version q)\<rparr>) s
      = Inr (?r, ?s1)"
    using checks by (simp add: participant_update_def participant_by_id_iff [OF row(4,1)] tx_bind_def)
  have legal: "assertParticipantTransition P_PENDING P_EXPIRED i = tx_return ()" for i
    by (simp add: assertParticipantTransition_def assertTransition_def canTransition_def)
  have fill: "\<exists>ps s3. fillFreedSeats ev now (s2\<lparr>audit_log := au, next_id := Suc (next_id s2), outbox := ob\<rparr>) = Inr (ps, s3)
      \<and> coin_accounts s3 = coin_accounts s2 \<and> coin_ledger s3 = coin_ledger s2
      \<and> (\<forall>q\<in>set (participants s3). pt_id q = pt_id r \<longrightarrow> pt_status q = P_EXPIRED)" for au ob
  proof -
    let ?t = "s2\<lparr>audit_log := au, next_id := Suc (next_id s2), outbox := ob\<rparr>"
    have wft: "desk_wf ?t" by (rule frame_wf [OF desk_frame_simps s2(1)])
    have sync: "in_sync ev ?t" using s2(3) row(3) row(2) by (simp add: in_sync_def event_by_id_def)
    have "desk_people ev ?t" using s2(2) by (simp add: desk_people_def)
    from fill_total [OF wft sync this, of now] obtain ps s3 where f: "fillFreedSeats ev now ?t = Inr (ps, s3)"
      "coin_accounts s3 = coin_accounts s2" "coin_ledger s3 = coin_ledger s2" "desk_wf s3" by auto
    have "desk_reached (ev_id ev) ?t s3"
      using tx_wpD [OF fillFreedSeats_reached [OF desk_reached_refl [OF wft] sync] f(1)] by simp
    then have kept: "participation_kept ?t s3" using desk_steps_kept wft by (auto simp: desk_reached_def)
    have "?r \<in> set (participants ?t)" using s2(5) row(1) by (auto simp: set_update_where)
    then have "?r \<in> set (participants s3)" using kept by (fastforce simp: participation_kept_def kept_row_def)
    then have "pt_status q = P_EXPIRED" if "q \<in> set (participants s3)" "pt_id q = pt_id r" for q
      using distinct_key_eq [of pt_id "participants s3" q ?r] that f(4) by (auto simp: desk_wf_def)
    then show ?thesis using f by blast
  qed
  have fin: "\<exists>s'. (case fillFreedSeats ev now (s2\<lparr>audit_log := au, next_id := Suc (next_id s2), outbox := ob\<rparr>) of
        Inl e \<Rightarrow> Inl e | Inr (a, s') \<Rightarrow> tx_return True s') = Inr (True, s') \<and> refunded (pt_id r) s s'
      \<and> (\<forall>q\<in>set (participants s'). pt_id q = pt_id r \<longrightarrow> pt_status q = P_EXPIRED)" for au ob
    using fill [of ob au] refunded_same [OF backed] by auto
  show ?thesis
    using refund gu s2(4) late
    by (simp add: expireOne_def ev r st legal upd readParticipantByPublicId_def tx_bind_def
        audit_record_def outbox_emit_def publicIdOf_def) (rule fin)
qed

section \<open>Cancelling, as a whole\<close>

lemma chargeIfAny_total:
  assumes wf: "money_wf s" and fresh: "coin_ledger_by_key (participantPenaltyKey p) s = None"
    and price: "price = (case b of None \<Rightarrow> \<lparr>pp_coins = 0, pp_trust = 0\<rparr> | Some k \<Rightarrow> priceFor k s)"
    and range: "int4 (pp_coins price)" "int4 (balance_of s u)"
  shows "\<exists>c s'. chargeIfAny p u b e s = Inr (c, s') \<and> desk_frame s s'
    \<and> (c \<noteq> None \<longrightarrow> b \<noteq> None)
    \<and> (\<forall>v. balance_of s' v = balance_of s v - (if v = u then min (pp_coins price) (balance_of s u) else 0))"
proof (cases b)
  case None
  have "0 \<le> balance_of s u" using wf balance_of_nonneg by (simp add: money_wf_def)
  then show ?thesis using None price by (auto simp: chargeIfAny_def desk_frame_refl)
next
  case (Some k)
  have range': "int4 (pp_coins (priceFor k s))" using range price Some by simp
  obtain r sm c s' where pen: "penalizeWithin (participant_penalty_input p u k e (pp_coins (priceFor k s))) s = Inr (r, sm)"
    and half: "trust_half (pp_trust (priceFor k s)) (participant_trust_input p u k (pp_trust (priceFor k s))) sm = Inr (ch_trust c, s')"
    and run: "chargeParticipant p u k e s = Inr (c, s')"
    by (rule chargeParticipant_succeeds [OF wf range' range(2)])
  have cwf: "coin_wf s" using wf by (simp add: money_wf_def)
  note eff = penalizeWithin_effect [OF pen cwf, simplified, OF fresh]
  have bal: "balance_of s' v = balance_of sm v" for v
    by (rule trust_frame_coins(1) [OF tx_relD [OF trust_half_frame half]])
  have "balance_of s' v = balance_of s v - (if v = u then min (pp_coins (priceFor k s)) (balance_of s u) else 0)" for v
    using eff penalizeWithin_others [OF pen, simplified] priceFor_nonneg(1) [of k s] bal by auto
  moreover have "desk_frame s s'" by (rule money_desk_frame [OF tx_relD [OF chargeParticipant_frame run]])
  ultimately show ?thesis using run Some price by (auto simp: chargeIfAny_def tx_bind_def)
qed

lemma money_wf_events: "money_wf s \<Longrightarrow> money_wf (s\<lparr>events := x\<rparr>)"
proof -
  have "balance_of (s\<lparr>events := x\<rparr>) = balance_of s" "trust_cached (s\<lparr>events := x\<rparr>) = trust_cached s"
    by (auto simp: balance_of_def trust_cached_def)
  then show "money_wf s \<Longrightarrow> money_wf (s\<lparr>events := x\<rparr>)"
    by (auto simp: money_wf_def coin_wf_def trust_wf_def ledger_ok_def)
qed

lemma taken_pos:
  "r \<in> set (participants s) \<Longrightarrow> pt_status r = P_ACCEPTED \<Longrightarrow> 0 < taken (pt_event r) s"
  unfolding taken_def by (rule count_where_pos) auto

lemma seats_ok_event:
  "seats_ok s \<Longrightarrow> event_by_id i s = Some ev \<Longrightarrow> ev_accepted_count ev = int (taken i s) \<and> ev_accepted_count ev \<le> ev_capacity ev"
  using event_by_id_mem [of i s ev] by (auto simp: seats_ok_def)

lemma cancelled_row_checks:
  "participant_checks r \<Longrightarrow> b = None \<longrightarrow> l = None \<Longrightarrow> pt_status r \<noteq> P_REJECTED \<Longrightarrow>
   participant_checks (r\<lparr>pt_status := P_CANCELLED_BY_PARTICIPANT, pt_cancelled_at := Some t,
     pt_cancellation_bucket := b, pt_cancellation_reason := rs, pt_penalty_ledger_id := l, pt_version := v\<rparr>)"
  by (auto simp: participant_checks_def)

text \<open>
  What a cancellation needs to go through, and what it does: the person pays the price of the
  moment, no more than they have, and nobody else's coins move.
\<close>

lemma cancel_total:
  assumes wf: "desk_wf s" and seats: "seats_ok s" and money: "money_wf s" and people: "desk_people ev s"
    and ev: "event_by_participant p s = Some ev" and r: "participant_by_public_id p s = Some r"
    and legal: "P_CANCELLED_BY_PARTICIPANT \<in> set (PARTICIPANT_TRANSITIONS (pt_status r))"
    and fresh: "coin_ledger_by_key (participantPenaltyKey (pt_id r)) s = None"
    and bucket: "b = bucketFor r (ev_starts_at ev) (clock s)"
    and price: "price = (case b of None \<Rightarrow> \<lparr>pp_coins = 0, pp_trust = 0\<rparr> | Some k \<Rightarrow> priceFor k s)"
    and range: "int4 (pp_coins price)" "int4 (balance_of s (pt_user r))"
  shows "\<exists>d s'. cancel (pt_user r) p reason s = Inr (d, s') \<and> pd_status d = P_CANCELLED_BY_PARTICIPANT
    \<and> pd_cancellation_bucket d = b
    \<and> (\<forall>v. balance_of s' v = balance_of s v - (if v = pt_user r then min (pp_coins price) (balance_of s (pt_user r)) else 0))"
proof -
  note row = participant_of_event [OF wf ev r]
  let ?d = "seat_delta (pt_status r) P_CANCELLED_BY_PARTICIPANT"
  let ?s1 = "s\<lparr>events := bump (ev_id ev) ?d 0 (events s)\<rparr>" and ?ev = "ev\<lparr>ev_accepted_count := ev_accepted_count ev + ?d\<rparr>"
  have rel: "releaseIfHeld (pt_status r) ev s = Inr (?ev, ?s1)"
  proof (cases "pt_status r = P_ACCEPTED")
    case True
    then have "0 < ev_accepted_count ev \<and> ev_accepted_count ev \<le> ev_capacity ev"
      using seats_ok_event [OF seats row(3)] taken_pos [OF row(1)] by simp
    then show ?thesis using True row(2,3)
      by (simp add: releaseIfHeld_def releaseSeat_def event_count_update_def tx_bind_def seat_delta_def bump_def)
  next
    case False
    then have "?d = 0" using legal by (cases "pt_status r") (simp_all add: seat_delta_def)
    then show ?thesis using False by (simp add: releaseIfHeld_def)
  qed
  have bal1: "balance_of ?s1 v = balance_of s v" for v by (simp add: balance_of_def)
  have key1: "coin_ledger_by_key k ?s1 = coin_ledger_by_key k s" for k by (simp add: coin_ledger_by_key_def)
  have price1: "price = (case b of None \<Rightarrow> \<lparr>pp_coins = 0, pp_trust = 0\<rparr> | Some k \<Rightarrow> priceFor k ?s1)"
    using price priceFor_settings [of ?s1 s] by (simp split: option.splits)
  have wf1: "money_wf ?s1" by (rule money_wf_events [OF money])
  obtain c s2 where charge: "chargeIfAny (pt_id r) (pt_user r) b (ev_id ev) ?s1 = Inr (c, s2)"
    and fr: "desk_frame ?s1 s2" and cb: "c \<noteq> None \<longrightarrow> b \<noteq> None"
    and bal: "\<forall>v. balance_of s2 v = balance_of s v - (if v = pt_user r then min (pp_coins price) (balance_of s (pt_user r)) else 0)"
    using chargeIfAny_total [OF wf1, of "pt_id r" price b "pt_user r" "ev_id ev"] fresh price1 range by (auto simp: bal1 key1)
  let ?l = "case c of None \<Rightarrow> None | Some c \<Rightarrow> ch_ledger_id c"
  let ?r = "r\<lparr>pt_status := P_CANCELLED_BY_PARTICIPANT, pt_cancelled_at := Some (clock s), pt_cancellation_bucket := b,
      pt_cancellation_reason := reason, pt_penalty_ledger_id := ?l, pt_version := Suc (pt_version r)\<rparr>"
  let ?s3 = "s2\<lparr>participants := update_where (\<lambda>q. pt_id q = pt_id r) (\<lambda>_. ?r) (participants s2)\<rparr>"
  have checks: "participant_checks ?r"
    by (rule cancelled_row_checks) (use wf row(1) cb legal in \<open>auto simp: desk_wf_def split: option.splits\<close>)
  have upd: "participant_update (pt_id r) (\<lambda>q. q\<lparr>pt_status := P_CANCELLED_BY_PARTICIPANT, pt_cancelled_at := Some (clock s),
      pt_cancellation_bucket := b, pt_cancellation_reason := reason, pt_penalty_ledger_id := ?l,
      pt_version := Suc (pt_version q)\<rparr>) s2 = Inr (?r, ?s3)"
  proof -
    have "participant_by_id (pt_id r) s2 = Some r"
      using participant_by_id_iff [OF row(4,1)] fr by (simp add: participant_by_id_def desk_frame_def)
    then show ?thesis using checks by (simp add: participant_update_def tx_bind_def)
  qed
  have m: "moved r ?r s ?s3"
  proof (rule moved_after)
    show "room_for (pt_event r) (seat_delta (pt_status r) (pt_status ?r)) s"
      using seats_ok_event [OF seats row(3)] taken_pos [OF row(1)] row(3) legal
      by (cases "pt_status r") (auto simp: room_for_def seat_delta_def)
  qed (use row legal checks fr in auto)
  have people3: "desk_people ev ?s3"
    by (rule desk_people_moved [OF people m]) (use fr in \<open>simp add: desk_frame_def\<close>)
  have fill: "\<exists>ps s4. fillFreedSeats ?ev (clock s) (?s3\<lparr>audit_log := au, next_id := Suc (next_id s2), outbox := ob\<rparr>) = Inr (ps, s4)
      \<and> coin_accounts s4 = coin_accounts s2" for au ob
  proof -
    let ?t = "?s3\<lparr>audit_log := au, next_id := Suc (next_id s2), outbox := ob\<rparr>"
    have "desk_frame ?s3 ?t" by (simp add: desk_frame_def)
    then have "desk_wf ?t" by (rule frame_wf) (rule moved_wf [OF m wf])
    moreover have "in_sync ?ev ?t"
      by (rule in_sync_bump [OF row(3) [unfolded row(2)]]) (use fr in \<open>simp add: desk_frame_def\<close>)
    moreover have "desk_people ?ev ?t" using people3 by (simp add: desk_people_def)
    ultimately show ?thesis using fill_total [of ?t ?ev "clock s"] by auto
  qed
  obtain hu where hu: "users s2 (ev_host ev) = Some hu"
    using people fr by (auto simp: desk_people_def desk_frame_def)
  have lg: "assertParticipantTransition (pt_status r) P_CANCELLED_BY_PARTICIPANT i = tx_return ()" for i
    using legal by (simp add: assertParticipantTransition_def assertTransition_def canTransition_def)
  define Q where "Q d s' \<longleftrightarrow> pd_status d = P_CANCELLED_BY_PARTICIPANT \<and> pd_cancellation_bucket d = b
      \<and> (\<forall>v. balance_of s' v = balance_of s v - (if v = pt_user r then min (pp_coins price) (balance_of s (pt_user r)) else 0))"
    for d :: participation_detail and s' :: db
  have fin: "\<exists>d s'. (case fillFreedSeats ?ev (clock s) (?s3\<lparr>audit_log := au, next_id := Suc (next_id s2), outbox := ob\<rparr>) of
        Inl e \<Rightarrow> Inl e | Inr (a, s') \<Rightarrow> tx_read (toDetail ?r (ev_public_id ?ev)) s') = Inr (d, s') \<and> Q d s'" for au ob
  proof -
    obtain ps s4 where f: "fillFreedSeats ?ev (clock s) (?s3\<lparr>audit_log := au, next_id := Suc (next_id s2), outbox := ob\<rparr>) = Inr (ps, s4)"
      and acc: "coin_accounts s4 = coin_accounts s2" using fill [of ob au] by blast
    have "Q (toDetail ?r (ev_public_id ?ev) s4) s4"
      unfolding Q_def using bal by (simp add: balance_of_accounts [OF acc]) (simp add: toDetail_def)
    then show ?thesis unfolding f by simp
  qed
  have "\<exists>d s'. cancel (pt_user r) p reason s = Inr (d, s') \<and> Q d s'"
    using hu by (simp add: cancel_def ev r readParticipantByPublicId_def lg rel bucket [symmetric] Let_def charge upd tx_bind_def
        audit_record_def outbox_emit_def publicIdOf_def) (rule fin)
  then show ?thesis unfolding Q_def .
qed

section \<open>Asking, as a whole\<close>

lemma tx_read_Inr: "tx_read f s = Inr (a, s') \<longleftrightarrow> a = f s \<and> s' = s"
  by auto

lemma assertAllowed_state: "assertAllowed g u a s = Inr (x, s') \<Longrightarrow> s' = s"
  by (auto simp: assertAllowed_def Let_def tx_simps split: if_splits)

lemma loadJoiner_state: "loadJoiner u s = Inr (j, s') \<Longrightarrow> s' = s \<and> (\<exists>row. users s u = Some row)"
  by (auto simp: loadJoiner_def tx_simps)

lemma assertEligible_state: "assertEligible e j now s = Inr (x, s') \<Longrightarrow> s' = s"
  using tx_relD [OF assertEligible_frame] by metis

lemma assertJoinable_state: "assertJoinable ev now s = Inr (x, s') \<Longrightarrow> s' = s"
  by (simp add: assertJoinable_def tx_simps)

lemma previewJoin_Inr:
  assumes pre: "previewJoin g u p s = Inr (pv, s1)" and ev: "event_by_public_id p s = Some ev"
  obtains j where "assertAllowed g u ''EVENT_JOIN'' s = Inr ((), s)"
    "loadJoiner u s = Inr (j, s)" "assertJoinable ev (clock s) s = Inr ((), s)" "ev_host ev \<noteq> u"
    "assertEligible (ev_id ev) j (clock s) s = Inr ((), s)" "s1 = s"
    "\<forall>r\<in>set (participants s). \<not> (pt_event r = ev_id ev \<and> pt_user r = u)"
    "pv = \<lparr>jp_event_title = ev_title ev, jp_coins = getInt ''economy.event_join_coins'' s,
       jp_status = (if ev_accepted_count ev + int (outstanding (ev_id ev) s) < ev_capacity ev then P_PENDING else P_WAITLISTED)\<rparr>"
proof -
  from pre obtain a1 t1 j t2 e a3 t3 a4 t4 where
    g: "assertAllowed g u ''EVENT_JOIN'' s = Inr (a1, t1)" "loadJoiner u t1 = Inr (j, t2)"
      "event_by_public_id p t2 = Some e" "assertJoinable e (clock s) t2 = Inr (a3, t3)" "ev_host e \<noteq> u"
      "assertEligible (ev_id e) j (clock s) t3 = Inr (a4, t4)" "s1 = t4"
      "\<forall>r\<in>set (participants t4). \<not> (pt_event r = ev_id e \<and> pt_user r = u)"
      "pv = \<lparr>jp_event_title = ev_title e, jp_coins = getInt ''economy.event_join_coins'' t4,
       jp_status = (if ev_accepted_count e + int (outstanding (ev_id e) t4) < ev_capacity e then P_PENDING else P_WAITLISTED)\<rparr>"
    unfolding previewJoin_def tx_bind_Inr tx_read_Inr tx_some_Inr tx_guard_Inr tx_return_Inr
    by (auto simp: count_where_zero)
  have "t1 = s" using assertAllowed_state [OF g(1)] .
  moreover from this have "t2 = s" using loadJoiner_state [OF g(2)] by simp
  moreover from this have "t3 = s" using assertJoinable_state [OF g(4)] by simp
  moreover from this have "t4 = s" using assertEligible_state [OF g(6)] by simp
  moreover from \<open>t2 = s\<close> have "e = ev" using g(3) ev by simp
  ultimately show thesis using g by (intro that [of j]) simp_all
qed

definition join_input :: "id \<Rightarrow> id \<Rightarrow> id \<Rightarrow> int \<Rightarrow> coin_input" where
  "join_input u e p cost = \<lparr>ci_user = u, ci_amount = - cost, ci_type = EVENT_JOIN_SPEND, ci_reason = EVENT_JOIN_REASON,
     ci_key = eventJoinSpendKey e u, ci_actor_type = A_USER, ci_actor_id = Some u,
     ci_ref_type = Some ''event_participant'', ci_ref_id = Some p, ci_metadata = None, ci_reverses = None\<rparr>"

lemma join_input_simps [simp]:
  "ci_user (join_input u e p c) = u" "ci_amount (join_input u e p c) = - c" "ci_key (join_input u e p c) = eventJoinSpendKey e u"
  "ci_type (join_input u e p c) = EVENT_JOIN_SPEND" "ci_reverses (join_input u e p c) = None"
  by (simp_all add: join_input_def)

lemma joinCharge_input:
  "joinCharge u e p c = (if c > 0 then tx_bind (coin_apply (join_input u e p c)) (\<lambda>_. tx_return ()) else tx_return ())"
  by (simp add: joinCharge_def join_input_def)

text \<open>The charge, in a state with the ledger of \<open>s\<close>.\<close>

lemma joinCharge_outcome:
  assumes same: "coin_accounts t = coin_accounts s" "coin_ledger t = coin_ledger s"
    and fresh: "coin_ledger_by_key (eventJoinSpendKey e u) s = None"
    and range: "int4 (- c)" "int4 (balance_of s u - c)"
  shows "if 0 < c \<and> balance_of s u < c
    then joinCharge u e p c t = Inl (AppError ''INSUFFICIENT_COINS'' [(''balance'', JInt (balance_of s u)), (''required'', JInt c)])
    else \<exists>t'. joinCharge u e p c t = Inr ((), t')
       \<and> (\<forall>v. balance_of t' v = balance_of s v - (if v = u then max 0 c else 0))"
proof -
  have bal: "balance_of t v = balance_of s v" for v by (rule balance_of_accounts [OF same(1)])
  have fr: "coin_ledger_by_key (ci_key (join_input u e p c)) t = None"
    using fresh by (simp add: coin_ledger_by_key_def same)
  show ?thesis
  proof (cases "0 < c")
    case False
    then show ?thesis by (simp add: joinCharge_input bal)
  next
    case True
    show ?thesis
    proof (cases "balance_of s u < c")
      case poor: True
      have nz: "ci_amount (join_input u e p c) \<noteq> 0" using True by simp
      show ?thesis
        using True poor applyWithin_new [OF nz fr, of None]
        by (simp add: joinCharge_input coin_apply_def tx_bind_InlI Let_def moved_amount_def bal)
    next
      case False
      obtain m t' where "coin_apply (join_input u e p c) t = Inr (m, t')"
        "\<forall>v. balance_of t' v = balance_of t v + (if v = u then - c else 0)"
        by (rule coin_apply_succeeds [of "join_input u e p c" t]) (use True False fr range bal in auto)
      then show ?thesis using True False by (simp add: joinCharge_input tx_bind_def bal)
    qed
  qed
qed

lemma join_after_preview:
  assumes wf: "desk_wf s" and pre: "previewJoin g u p s = Inr (pv, s1)" and ev: "event_by_public_id p s = Some ev"
    and host: "users s (ev_host ev) \<noteq> None"
    and fresh: "coin_ledger_by_key (eventJoinSpendKey (ev_id ev) u) s = None"
    and range: "int4 (- jp_coins pv)" "int4 (balance_of s u - jp_coins pv)"
  shows "if 0 < jp_coins pv \<and> balance_of s u < jp_coins pv
    then join g u p s = Inl (AppError ''INSUFFICIENT_COINS'' [(''balance'', JInt (balance_of s u)), (''required'', JInt (jp_coins pv))])
    else \<exists>d s'. join g u p s = Inr (d, s') \<and> pd_status d = jp_status pv \<and> pd_event_public_id d = p
       \<and> (\<forall>v. balance_of s' v = balance_of s v - (if v = u then max 0 (jp_coins pv) else 0))"
proof -
  obtain j where g: "assertAllowed g u ''EVENT_JOIN'' s = Inr ((), s)"
    "loadJoiner u s = Inr (j, s)" "assertJoinable ev (clock s) s = Inr ((), s)" "ev_host ev \<noteq> u"
    "assertEligible (ev_id ev) j (clock s) s = Inr ((), s)"
    and new: "\<forall>r\<in>set (participants s). \<not> (pt_event r = ev_id ev \<and> pt_user r = u)"
    and pv: "pv = \<lparr>jp_event_title = ev_title ev, jp_coins = getInt ''economy.event_join_coins'' s,
       jp_status = (if ev_accepted_count ev + int (outstanding (ev_id ev) s) < ev_capacity ev then P_PENDING else P_WAITLISTED)\<rparr>"
    by (rule previewJoin_Inr [OF pre ev])
  obtain gu hu where people: "users s u = Some gu" "users s (ev_host ev) = Some hu"
    using loadJoiner_state [OF g(2)] host by auto
  have byid: "event_by_id (ev_id ev) s = Some ev" by (rule event_by_public_id_row [OF wf ev])
  have pub: "ev_public_id ev = p" using ev find_key_mem [of ev_public_id p "events s" ev] by (simp add: event_by_public_id_def)
  define st where "st = jp_status pv"
  have st: "(if ev_accepted_count ev + int (outstanding (ev_id ev) s) < ev_capacity ev then P_PENDING else P_WAITLISTED) = st"
    using pv by (simp add: st_def)
  define cost where "cost = jp_coins pv"
  have cost: "getInt ''economy.event_join_coins'' s = cost" using pv by (simp add: cost_def)
  define hd where "hd = (if ev_accepted_count ev + int (outstanding (ev_id ev) s) < ev_capacity ev
    then Some (hostDeadline (clock s) (ev_starts_at ev) (getInt ''participation.host_response_hours'' s)
       (getInt ''participation.min_hours_before_event'' s) (getInt ''participation.min_response_minutes'' s)) else None)"
  define mk where "mk i pub = (new_participant i pub (ev_id ev) u st (clock s))\<lparr>pt_host_deadline_at := hd\<rparr>" for i pub
  define row where "row = mk (next_id s) (Suc (next_id s))"
  have mk_simps: "pt_event (mk i k) = ev_id ev" "pt_user (mk i k) = u" "pt_id (mk i k) = i" "pt_status (mk i k) = st" for i k
    by (simp_all add: mk_def)
  have checks: "participant_checks row"
    using st by (auto simp: row_def mk_def participant_checks_def new_participant_def split: if_splits)
  have row_id: "pt_id row = next_id s" by (simp add: row_def mk_simps)
  let ?s2 = "s\<lparr>next_id := Suc (Suc (next_id s)), participants := participants s @ [row]\<rparr>"
  have ins: "participant_insert mk s = Inr (Some row, ?s2)"
    using new checks by (auto simp: participant_insert_def tx_bind_def list_ex_iff mk_simps row_def)
  have req: "event_request_count_update (ev_id ev) ?s2 = Inr ((), ?s2\<lparr>events := bump (ev_id ev) 0 1 (events s)\<rparr>)"
    using byid by (simp add: event_request_count_update_def tx_bind_def event_by_id_def bump_def)
  define fin where "fin r \<longleftrightarrow> (if 0 < cost \<and> balance_of s u < cost
     then r = Inl (AppError ''INSUFFICIENT_COINS'' [(''balance'', JInt (balance_of s u)), (''required'', JInt cost)])
     else \<exists>d s'. r = Inr (d, s') \<and> pd_status d = st \<and> pd_event_public_id d = p
       \<and> (\<forall>v. balance_of s' v = balance_of s v - (if v = u then max 0 cost else 0)))"
    for r :: "error + participation_detail \<times> db"
  have last: "fin (case joinCharge u (ev_id ev) (next_id s) cost (s\<lparr>participants := ps, events := es, audit_log := au, next_id := k, outbox := ob\<rparr>) of
      Inl e \<Rightarrow> Inl e | Inr (a, s') \<Rightarrow> tx_read (toDetail row (ev_public_id ev)) s')" for k ps es au ob
  proof -
    let ?t = "s\<lparr>participants := ps, events := es, audit_log := au, next_id := k, outbox := ob\<rparr>"
    have "pd_status (toDetail row q t) = st" "pd_event_public_id (toDetail row q t) = q" for q t
      by (simp_all add: toDetail_def row_def mk_simps)
    moreover note joinCharge_outcome [of ?t s "ev_id ev" u cost "next_id s"]
    ultimately show ?thesis using fresh range pub by (auto simp: fin_def cost_def)
  qed
  have "fin (join g u p s)"
    using people
    apply (simp add: join_def join_tx_def Let_def tx_bind_def g ev st cost hd_def [symmetric] mk_def [symmetric] split del: if_split)
    apply (simp add: ins req row_def [symmetric] row_id audit_record_def outbox_emit_def publicIdOf_def tx_bind_def cost last)
    done
  then show ?thesis unfolding fin_def cost_def st_def .
qed

section \<open>Money on the sample desk\<close>

lemma sample_coins_wf: "coin_wf sample_coins"
  unfolding sample_coins_def by (rule coin_run_wf [OF sample_db_wf])

lemma sample_coins_rows: "length (coin_ledger sample_coins) = 4" "next_id sample_coins \<le> 1000"
  "list_all (\<lambda>r. cl_reverses r = None \<and> (cl_type r = EVENT_JOIN_SPEND \<longrightarrow> cl_amount r < 0)) (coin_ledger sample_coins)"
  "map cl_key (coin_ledger sample_coins) = [''welcome:7'', ''welcome:8'', ''join:50:8'', ''welcome:10'']"
  by code_simp+

lemma sample_coins_balances: "balance_of sample_coins 7 = 100" "balance_of sample_coins 8 = 80" "balance_of sample_coins 10 = 100"
  by code_simp+

lemma sample_coins_range: "0 \<le> balance_of sample_coins u \<and> balance_of sample_coins u \<le> 100"
proof -
  have "map (\<lambda>(u, a). ca_balance a) (coin_accounts sample_coins) = [100, 80, 100]" by code_simp
  then have "\<forall>(v, a)\<in>set (coin_accounts sample_coins). ca_balance a = 100 \<or> ca_balance a = 80"
    by (auto simp: map_eq_Cons_conv)
  then show ?thesis by (auto simp: balance_of_def split: option.splits dest!: map_of_SomeD)
qed

lemma sample_coins_open: "map (\<lambda>r. (cl_user r, cl_amount r)) (open_join_charges 60 sample_coins) = [(8, - 20)]"
  by code_simp

lemma sample_desk_coins: "coin_accounts sample_desk = coin_accounts sample_coins" "coin_ledger sample_desk = coin_ledger sample_coins"
  by (simp_all add: sample_desk_def)

lemma sample_desk_coin_wf: "coin_wf sample_desk"
  by (rule coin_wf_same [OF sample_coins_wf sample_desk_coins])
     (simp add: sample_desk_def sample_coins_rows(2))

lemma sample_desk_keys: "coin_ledger_by_key k sample_desk = coin_ledger_by_key k sample_coins"
  by (simp add: coin_ledger_by_key_def sample_desk_coins)

lemma sample_desk_balance [simp]: "balance_of sample_desk u = balance_of sample_coins u"
  by (rule balance_of_accounts [OF sample_desk_coins(1)])

lemma sample_desk_money_wf: "money_wf sample_desk"
proof -
  have "trust_ledger sample_desk = []" "trust_scores sample_desk = []" by (simp_all add: sample_desk_def)
  then show ?thesis using sample_desk_coin_wf
    by (simp add: money_wf_def trust_wf_def ledger_ok_def ledger_sum_def trust_cached_def)
qed

lemma sample_fresh_keys: "coin_ledger_by_key (eventJoinSpendKey 50 10) sample_desk = None"
  "coin_ledger_by_key (participantPenaltyKey 60) sample_desk = None"
  unfolding sample_desk_keys by code_simp+

lemma sample_reversal_keys: "reversal_keys_reserved sample_desk"
proof -
  have "cl_key r \<noteq> reversalKey i" if "r \<in> set (coin_ledger sample_coins)" for r i
  proof -
    have "cl_key r \<in> set (map cl_key (coin_ledger sample_coins))" using that by simp
    then show ?thesis unfolding sample_coins_rows(4) by (auto simp: reversalKey_def)
  qed
  then show ?thesis by (auto simp: reversal_keys_reserved_def sample_desk_coins)
qed

lemma sample_desk_setting: "getInt k sample_desk = \<lfloor>setting_default k\<rfloor>"
  by (simp add: getInt_def setting_read_def sample_desk_def)

lemma sample_desk_people: "desk_people sample_event sample_desk"
  by (simp add: desk_people_def sample_desk_def new_participant_def)

lemma sample_desk_refusable:
  "refusable sample_event ((new_participant 60 160 50 8 P_PENDING 500)\<lparr>pt_host_deadline_at := Some 900\<rparr>) sample_desk"
proof -
  have neg: "join_charges_negative sample_desk"
    using sample_coins_rows(3) by (auto simp: join_charges_negative_def sample_desk_coins list_all_iff)
  obtain c where c: "open_join_charges 60 sample_coins = [c]" "cl_user c = 8" "cl_amount c = - 20"
    using sample_coins_open by (auto simp: map_eq_Cons_conv)
  have "open_join_charges 60 sample_desk = [c]"
    using c(1) by (simp add: open_join_charges_def sample_desk_coins)
  moreover have "int4 (balance_of sample_coins u)" for u
    using sample_coins_range [of u] by (simp add: int4_def)
  ultimately show ?thesis using sample_desk_wf sample_desk_coin_wf sample_reversal_keys neg sample_desk_people c
    by (auto simp: refusable_def refund_fits_def refund_sum_def int4_def [of 20] int4_def [of 100] sample_coins_balances)
qed

definition open_gate :: gate where
  "open_gate = \<lparr>gt_clock = 0, gt_next_id = 1, gt_config = None, gt_channels = [], gt_telegram = Map.empty,
     gt_probe = None, gt_audit = []\<rparr>"

lemma sample_preview:
  "previewJoin open_gate 10 150 sample_desk =
     Inr (\<lparr>jp_event_title = ''hike'', jp_coins = 20, jp_status = P_WAITLISTED\<rparr>, sample_desk)"
proof -
  have a: "assertAllowed open_gate 10 ''EVENT_JOIN'' sample_desk = Inr ((), sample_desk)"
    by (simp add: assertAllowed_def stateFor_def gate_config_def open_gate_def Let_def activeChannels_def)
  have c: "\<lfloor>setting_default ''economy.event_join_coins''\<rfloor> = 20" by code_simp
  have j: "loadJoiner 10 sample_desk = Inr (\<lparr>jn_birth_year = 1950, jn_gender = Some G_FEMALE, jn_city = 3\<rparr>, sample_desk)"
    by (simp add: loadJoiner_def tx_bind_def sample_user_def) (simp add: sample_desk_def)
  have e: "ev_city_id sample_event = 3" "ev_gender_preference sample_event = None" "ev_min_age sample_event = None"
    "ev_max_age sample_event = None" "ev_status sample_event = E_PUBLISHED" "ev_deleted_at sample_event = None"
    "ev_title sample_event = ''hike''" by (simp_all add: sample_event_def)
  have o: "outstanding 50 sample_desk = 1" "count_where (\<lambda>r. pt_event r = 50 \<and> pt_user r = 10) (participants sample_desk) = 0"
    by (simp_all add: outstanding_def sample_desk_def new_participant_def)
  show ?thesis
    by (simp add: previewJoin_def tx_bind_def a j assertJoinable_def assertEligible_def e o c sample_desk_setting Let_def)
qed

lemma filter_nth_split:
  "i < length (filter P xs) \<Longrightarrow> \<exists>as bs. xs = as @ (filter P xs ! i) # bs \<and> count_where P as = i"
proof (induction xs arbitrary: i)
  case Nil
  then show ?case by simp
next
  case (Cons x xs)
  show ?case
  proof (cases "P x \<and> i = 0")
    case True
    then show ?thesis by (intro exI [of _ "[]"] exI [of _ xs]) simp
  next
    case False
    define j where "j = (if P x then i - 1 else i)"
    have "j < length (filter P xs)" and n: "filter P (x # xs) ! i = filter P xs ! j"
      using Cons.prems False by (auto simp: j_def nth_Cons split: nat.splits if_splits)
    from Cons.IH [OF this(1)] obtain as bs where "xs = as @ (filter P xs ! j) # bs" "count_where P as = j" by blast
    then show ?thesis unfolding n using False by (intro exI [of _ "x # as"] exI [of _ bs]) (auto simp: j_def)
  qed
qed

section \<open>Accepting, branch by branch\<close>

lemma accept_stranger:
  "event_by_participant p s = Some ev \<Longrightarrow> ev_host ev \<noteq> h \<Longrightarrow> accept h p s = Inl (app_error ''NOT_FOUND'')"
  by (simp add: accept_def decide_def tx_bind_def)

lemma accept_decided:
  "event_by_participant p s = Some ev \<Longrightarrow> participant_by_public_id p s = Some r \<Longrightarrow> ev_host ev = h \<Longrightarrow>
   pt_status r \<noteq> P_PENDING \<Longrightarrow> pt_status r \<noteq> P_WAITLISTED \<Longrightarrow>
   \<exists>d. accept h p s = Inl (AppError ''INVALID_STATE_TRANSITION'' d)"
  by (cases "pt_status r")
     (simp_all add: accept_def decide_def accept_apply_def tx_bind_def readParticipantByPublicId_def
       assertParticipantTransition_def assertTransition_def canTransition_def)

lemma accept_full:
  "event_by_participant p s = Some ev \<Longrightarrow> participant_by_public_id p s = Some r \<Longrightarrow> ev_host ev = h \<Longrightarrow>
   pt_status r = P_PENDING \<or> pt_status r = P_WAITLISTED \<Longrightarrow> ev_capacity ev \<le> ev_accepted_count ev \<Longrightarrow>
   accept h p s = Inl (AppError ''CAPACITY_EXCEEDED''
     [(''capacity'', JInt (ev_capacity ev)), (''acceptedCount'', JInt (ev_accepted_count ev))])"
  by (auto simp: accept_def decide_def accept_apply_def tx_bind_def readParticipantByPublicId_def
       assertParticipantTransition_def assertTransition_def canTransition_def assertSeatAvailable_def)

lemma accept_goes_through:
  assumes wf: "desk_wf s" and seats: "seats_ok s"
    and ev: "event_by_participant p s = Some ev" and r: "participant_by_public_id p s = Some r"
    and guest: "users s (pt_user r) \<noteq> None" and host: "ev_host ev = h"
    and st: "pt_status r = P_PENDING \<or> pt_status r = P_WAITLISTED" and room: "ev_accepted_count ev < ev_capacity ev"
  shows "\<exists>d s'. accept h p s = Inr (d, s') \<and> pd_status d = P_ACCEPTED \<and> pd_accepted_at d = Some (clock s)
    \<and> pd_grace_expires_at d = Some (clock s + getInt ''participation.grace_minutes'' s * 60000)
    \<and> taken (ev_id ev) s' = taken (ev_id ev) s + 1"
proof -
  note row = participant_of_event [OF wf ev r]
  have nonneg: "0 \<le> ev_accepted_count ev" using seats_ok_event [OF seats row(3)] by simp
  let ?r = "r\<lparr>pt_status := P_ACCEPTED, pt_decided_at := Some (clock s), pt_accepted_at := Some (clock s),
    pt_grace_expires_at := Some (clock s + getInt ''participation.grace_minutes'' s * 60000), pt_version := Suc (pt_version r)\<rparr>"
  let ?s1 = "s\<lparr>events := bump (ev_id ev) 1 0 (events s)\<rparr>"
  let ?s2 = "?s1\<lparr>participants := update_where (\<lambda>q. pt_id q = pt_id r) (\<lambda>_. ?r) (participants s)\<rparr>"
  have take: "takeSeat ev s = Inr (ev\<lparr>ev_accepted_count := ev_accepted_count ev + 1\<rparr>, ?s1)" "assertSeatAvailable ev = tx_return ()"
    using row(2,3) room nonneg by (simp_all add: takeSeat_def assertSeatAvailable_def event_count_update_def tx_bind_def bump_def)
  have checks: "participant_checks ?r" using wf row(1) st by (auto simp: desk_wf_def participant_checks_def)
  have upd: "participant_update (pt_id r) (\<lambda>q. q\<lparr>pt_status := P_ACCEPTED, pt_decided_at := Some (clock s), pt_accepted_at := Some (clock s),
    pt_grace_expires_at := Some (clock s + getInt ''participation.grace_minutes'' s * 60000), pt_version := Suc (pt_version q)\<rparr>) ?s1
      = Inr (?r, ?s2)"
    using checks participant_by_id_iff [OF row(4,1)] by (simp add: participant_update_def participant_by_id_def tx_bind_def)
  have legal: "assertParticipantTransition (pt_status r) P_ACCEPTED i = tx_return ()" "\<not> holdsSeat (pt_status r)" for i
    using st by (auto simp: assertParticipantTransition_def assertTransition_def canTransition_def)
  obtain gu where gu: "users s (pt_user r) = Some gu" using guest by blast
  have "\<exists>s'. accept_apply h ev r s = Inr (?r, s')"
    by (use st in \<open>auto simp: accept_apply_def tx_bind_def legal take upd audit_record_def outbox_emit_def publicIdOf_def gu\<close>)
  then obtain s' where run: "accept_apply h ev r s = Inr (?r, s')" by blast
  have m: "moved r ?r s s'" using tx_wpD [OF accept_apply_moved [OF wf row(1,2)] run] row(2,3) by simp
  have "int (rows_of seated (ev_id ev) s') = int (rows_of seated (ev_id ev) s) + 1"
    using moved_rows_of [OF m wf, of seated "ev_id ev"] row(2) st by auto
  then have "taken (ev_id ev) s' = taken (ev_id ev) s + 1" by (simp add: taken_rows_of)
  moreover have "accept h p s = Inr (toDetail ?r (ev_public_id ev) s', s')"
    using run by (simp add: accept_def decide_def ev r host readParticipantByPublicId_def tx_bind_def)
  ultimately show ?thesis by (simp add: toDetail_def)
qed

end
