(* ===== verification/Participation_Properties.thy ===== *)
theory Participation_Properties
  imports Participation_Money
begin

text \<open>
  The properties of joining, deciding, cancelling and expiring, over runs of the operations and
  operation by operation, each with an application to the sample desk.
\<close>







text \<open>C16. Promotion is first come, first served: filling goes through and promotes exactly the first rows of
  the queue, as many as there are places neither taken nor offered, in one deadline; nothing else
  changes and no money moves.\<close>

theorem promotion_is_first_come_first_served:
  assumes wf: "desk_wf s" and ev: "event_by_id (ev_id ev) s = Some ev" and host: "users s (ev_host ev) \<noteq> None"
    and guests: "\<forall>r\<in>set (waitlist (ev_id ev) s). users s (pt_user r) \<noteq> None"
  shows "\<exists>ps s'. fillFreedSeats ev now s = Inr (ps, s') \<and>
    (let queue = waitlist (ev_id ev) s;
         k = min (length queue) (nat (ev_capacity ev - ev_accepted_count ev - int (outstanding (ev_id ev) s)))
     in map pm_id ps = map pt_id (take k queue)
        \<and> waitlist (ev_id ev) s' = drop k queue
        \<and> participants s' = map (\<lambda>q. if pt_id q \<in> pt_id ` set (take k queue)
              then q\<lparr>pt_status := P_PENDING, pt_promoted_at := Some now,
                     pt_host_deadline_at := Some (fill_deadline ev now s), pt_version := pt_version q + 1\<rparr>
              else q) (participants s)
        \<and> events s' = events s \<and> coin_ledger s' = coin_ledger s)"
proof -
  from tx_total [OF fillFreedSeats_ok [OF wf host guests]
      fillFreedSeats_spec [OF desk_reached_refl [OF wf] in_syncI [OF ev]]]
  obtain ps s' where run: "fillFreedSeats ev now s = Inr (ps, s')"
    and ps: "let k = seats_to_offer ev (int (outstanding (ev_id ev) s)) (waitlist (ev_id ev) s)
      in fill_done ev now (fill_deadline ev now s) k s s' \<and> ps = map (promotion (fill_deadline ev now s)) (take k (waitlist (ev_id ev) s))"
    unfolding Let_def by blast
  show ?thesis
    by (rule exI [of _ ps], rule exI [of _ s'])
       (use run ps in \<open>simp add: Let_def fill_done_def seats_to_offer_def fill_rows_def promotion_def promoted_row_def o_def\<close>)
qed

theorem promotion_is_first_come_first_served_witness:
  "\<exists>ps s'. fillFreedSeats (sample_event\<lparr>ev_capacity := 2\<rparr>) 1000 (sample_desk\<lparr>events := [sample_event\<lparr>ev_capacity := 2\<rparr>]\<rparr>) = Inr (ps, s')
     \<and> map pm_id ps = [61] \<and> waitlist 50 s' = []"
proof -
  let ?ev = "sample_event\<lparr>ev_capacity := 2\<rparr>" and ?s = "sample_desk\<lparr>events := [sample_event\<lparr>ev_capacity := 2\<rparr>]\<rparr>"
  have "desk_wf ?s" using sample_desk_wf by (simp add: desk_wf_def)
  moreover have w: "waitlist 50 ?s = [new_participant 61 161 50 9 P_WAITLISTED 600]"
    by (simp add: sample_desk_def waitlist_def queue_order_def new_participant_def)
  moreover have o: "outstanding 50 ?s = 1" by (simp add: sample_desk_def outstanding_def)
  ultimately show ?thesis
    using promotion_is_first_come_first_served [of ?s ?ev 1000]
    by (simp add: event_by_id_def Let_def) (elim exE conjE, intro exI conjI)
qed

text \<open>C21. The host always gets a window: a deadline computed before the activity starts is never in the past,
  never after the start, never earlier than the configured minimum answer time (or the start, when
  that is sooner), and is the plain one of the policy whenever that leaves at least the minimum.\<close>

theorem host_deadline_window:
  assumes "now \<le> startsAt" and "0 \<le> hours" and "0 \<le> minHoursBefore" and "0 \<le> minResponseMinutes"
  shows "let d = hostDeadline now startsAt hours minHoursBefore minResponseMinutes
    in now \<le> d \<and> d \<le> startsAt \<and> min (now + minResponseMinutes * 60000) startsAt \<le> d
       \<and> d \<le> max (now + hours * 3600000) (now + minResponseMinutes * 60000)
       \<and> (now + minResponseMinutes * 60000 \<le> min (now + hours * 3600000) (startsAt - minHoursBefore * 3600000) \<longrightarrow>
          d = min (now + hours * 3600000) (startsAt - minHoursBefore * 3600000))"
  using assms by (auto simp: hostDeadline_def Let_def)

theorem host_deadline_window_witness:
  "hostDeadline 0 7200000 24 3 30 = 1800000 \<and> (0::int) \<le> 1800000"
proof -
  have "0 \<le> hostDeadline 0 7200000 24 3 30"
    using host_deadline_window [of 0 7200000 24 3 30] by (simp add: Let_def)
  then show ?thesis by (simp add: hostDeadline_def Let_def)
qed

text \<open>C20. The rank a guest is shown is their place in the host's list: for every row of an event, in the order
  the host sees them, the rank computed by counting those ahead equals the rank the list counts
  off, and the first of the waitlist has rank 1.\<close>

theorem waitlist_rank_is_the_place_in_the_list:
  assumes wf: "desk_wf s" and run: "listForEvent h p s = Inr (xs, s')"
  shows "\<exists>ev. event_by_public_id p s = Some ev \<and>
    (let rows = queue_order (filter (\<lambda>r. pt_event r = ev_id ev) (participants s))
     in map ps_public_id xs = map pt_public_id rows
        \<and> map ps_waitlist_rank xs = map (\<lambda>r. pd_waitlist_rank (toDetail r p s)) rows
        \<and> (\<forall>i<length (waitlist (ev_id ev) s). waitlistRank (waitlist (ev_id ev) s ! i) s = i + 1))"
proof -
  from listForEvent_Inr [OF run] obtain ev where ev: "event_by_public_id p s = Some ev"
    and xs: "xs = rank_rows s 0 (queue_order (filter (\<lambda>r. pt_event r = ev_id ev) (participants s)))" by blast
  have d: "distinct (map pt_id (participants s))" using wf by (simp add: desk_wf_def)
  let ?rows = "queue_order (filter (\<lambda>r. pt_event r = ev_id ev) (participants s))"
  have ranks: "waitlistRank q s = count_where (\<lambda>r. pt_status r = P_WAITLISTED) as + 1" if "?rows = as @ q # bs" for as q bs
    using waitlistRank_prefix [OF d that] .
  have w: "waitlist (ev_id ev) s = filter (\<lambda>r. pt_status r = P_WAITLISTED) ?rows"
    by (simp add: waitlist_def queue_order_filter [symmetric] conj_commute)
  have place: "waitlistRank (waitlist (ev_id ev) s ! i) s = i + 1" if i: "i < length (waitlist (ev_id ev) s)" for i
  proof -
    have "\<exists>as bs. ?rows = as @ (filter P ?rows ! i) # bs \<and> count_where P as = i" if "i < length (filter P ?rows)" for P
      by (rule filter_nth_split [OF that])
    from this [of "\<lambda>r. pt_status r = P_WAITLISTED"] i ranks show ?thesis unfolding w by metis
  qed
  show ?thesis
    using ev place rank_rows_ranks [of ?rows s 0 p] ranks by (auto simp: xs Let_def)
qed

theorem waitlist_rank_is_the_place_in_the_list_witness:
  "waitlistRank (waitlist 50 sample_desk ! 0) sample_desk = 1"
proof -
  have run: "\<exists>xs. listForEvent 7 150 sample_desk = Inr (xs, sample_desk)"
    by (simp add: listForEvent_def tx_bind_def) (simp add: sample_event_def)
  then obtain xs where "listForEvent 7 150 sample_desk = Inr (xs, sample_desk)" ..
  from waitlist_rank_is_the_place_in_the_list [OF sample_desk_wf this] show ?thesis by (simp add: Let_def)
qed



text \<open>A refusal gives the price of asking back: it goes through, the row is rejected, everybody's balance
  grows by exactly their open charges for this request, and nothing is left to give back.\<close>

lemma rejection_refunds:
  assumes "refusable ev r s" and "event_by_participant p s = Some ev" and "participant_by_public_id p s = Some r"
    and "pt_status r = P_PENDING \<or> pt_status r = P_WAITLISTED"
  shows "\<exists>d s'. reject (ev_host ev) p s = Inr (d, s') \<and> pd_status d = P_REJECTED
    \<and> (\<forall>u. balance_of s' u = balance_of s u + sum_where (\<lambda>c. cl_user c = u) (\<lambda>c. \<bar>cl_amount c\<bar>) (open_join_charges (pt_id r) s))
    \<and> unrefundedJoinTotal (pt_id r) s' = 0"
  using reject_total [OF assms] by (auto simp: refunded_def refund_sum_def)

lemma rejection_refunds_witness:
  "\<exists>d s'. reject 7 160 sample_desk = Inr (d, s') \<and> pd_status d = P_REJECTED \<and> balance_of s' 8 = 100"
proof -
  have o: "map (\<lambda>r. (cl_user r, cl_amount r)) (open_join_charges 60 sample_desk) = [(8, - 20)]"
    using sample_coins_open by (simp add: open_join_charges_def sample_desk_coins)
  show ?thesis
    using rejection_refunds [OF sample_desk_refusable sample_desk_by_participant(1) sample_desk_simps(9)] o
    by (auto simp: new_participant_def map_eq_Cons_conv sample_coins_balances)
qed

text \<open>Silence is refunded like a refusal: expiring a request whose deadline has passed goes through, closes
  the row and gives the price of asking back.\<close>

lemma expiry_refunds:
  assumes "refusable ev r s" and "event_by_participant p s = Some ev" and "participant_by_public_id p s = Some r"
    and "pt_status r = P_PENDING" and "pt_host_deadline_at r = Some dl" and "dl \<le> now"
  shows "\<exists>s'. expireOne p now s = Inr (True, s')
    \<and> (\<forall>u. balance_of s' u = balance_of s u + sum_where (\<lambda>c. cl_user c = u) (\<lambda>c. \<bar>cl_amount c\<bar>) (open_join_charges (pt_id r) s))
    \<and> unrefundedJoinTotal (pt_id r) s' = 0
    \<and> (\<forall>q\<in>set (participants s'). pt_id q = pt_id r \<longrightarrow> pt_status q = P_EXPIRED)"
  using expireOne_total [OF assms] by (auto simp: refunded_def refund_sum_def)

lemma expiry_refunds_witness:
  "\<exists>s'. expireOne 160 900 sample_desk = Inr (True, s') \<and> unrefundedJoinTotal 60 s' = 0"
  using expiry_refunds [OF sample_desk_refusable sample_desk_by_participant(1) sample_desk_simps(9), of 900 900] by (auto simp: new_participant_def)

text \<open>C18. Asking does what its preview showed: when the preview went through, joining from the same state
  either refuses because the price shown exceeds the balance, naming both, or creates the request
  with the status shown, charges exactly the price shown and moves nobody else's coins.\<close>

theorem join_follows_preview:
  assumes "desk_wf s" and "previewJoin g u p s = Inr (pv, s1)" and "event_by_public_id p s = Some ev"
    and "users s (ev_host ev) \<noteq> None" and "coin_ledger_by_key (eventJoinSpendKey (ev_id ev) u) s = None"
    and "int4 (- jp_coins pv)" and "int4 (balance_of s u - jp_coins pv)"
  shows "if 0 < jp_coins pv \<and> balance_of s u < jp_coins pv
    then join g u p s = Inl (AppError ''INSUFFICIENT_COINS'' [(''balance'', JInt (balance_of s u)), (''required'', JInt (jp_coins pv))])
    else \<exists>d s'. join g u p s = Inr (d, s') \<and> pd_status d = jp_status pv \<and> pd_event_public_id d = p
       \<and> (\<forall>v. balance_of s' v = balance_of s v - (if v = u then max 0 (jp_coins pv) else 0))"
  by (rule join_after_preview [OF assms])

theorem join_follows_preview_witness:
  "\<exists>d s'. join open_gate 10 150 sample_desk = Inr (d, s') \<and> pd_status d = P_WAITLISTED \<and> balance_of s' 10 = 80"
  using join_follows_preview [OF sample_desk_wf sample_preview sample_desk_simps(1)] sample_fresh_keys(1)
  by (auto simp: sample_coins_balances int4_def)



end
