(* ===== verification/Persian_Normalizer.thy ===== *)
theory Persian_Normalizer
  imports Prelude
begin

text \<open>
  The normalisation pipeline moderation and search share
  (\<^verbatim>\<open>packages/domain/src/moderation/persian-normalizer.ts\<close>). A text is its list of Unicode code
  points. The eleven rules are the source's, in its order, each regular expression written
  out as the scan it describes. What the code takes from the JavaScript runtime and its
  Unicode tables is a parameter: NFC composition, \<^verbatim>\<open>toLowerCase\<close> and the classes \<^verbatim>\<open>\p{L}\<close>, \<^verbatim>\<open>\p{N}\<close>.
\<close>

type_synonym code_point = nat
type_synonym utext = "code_point list"

record unicode =
  uc_nfc :: "utext \<Rightarrow> utext"
  uc_lower :: "utext \<Rightarrow> utext"
  uc_letter_or_number :: "code_point \<Rightarrow> bool"

section \<open>Character classes\<close>

text \<open>The class \<^verbatim>\<open>\s\<close>, which is also what \<^verbatim>\<open>trim\<close> removes.\<close>

definition white :: "code_point \<Rightarrow> bool" where
  "white c \<longleftrightarrow> List.member [9, 10, 11, 12, 13, 32, 160, 5760, 8232, 8233, 8239, 8287, 12288, 65279] c
     \<or> 8192 \<le> c \<and> c \<le> 8202"

text \<open>What \<^verbatim>\<open>.\<close> does not match.\<close>

definition line_terminator :: "code_point \<Rightarrow> bool" where
  "line_terminator c \<longleftrightarrow> List.member [10, 13, 8232, 8233] c"

definition arabic_block :: "code_point \<Rightarrow> bool" where
  "arabic_block c \<longleftrightarrow> 1536 \<le> c \<and> c \<le> 1791"

definition latin_or_cyrillic :: "code_point \<Rightarrow> bool" where
  "latin_or_cyrillic c \<longleftrightarrow> 65 \<le> c \<and> c \<le> 90 \<or> 97 \<le> c \<and> c \<le> 122 \<or> 1024 \<le> c \<and> c \<le> 1279"

text \<open>\<^verbatim>\<open>input.replace(/[...]/g, (char) => TABLE[char] ?? char)\<close>.\<close>

definition fold_table :: "(code_point \<times> code_point) list \<Rightarrow> code_point \<Rightarrow> code_point" where
  "fold_table table c = (case map_of table c of None \<Rightarrow> c | Some d \<Rightarrow> d)"

section \<open>The rules\<close>

definition toNfc :: "unicode \<Rightarrow> utext \<Rightarrow> utext" where
  "toNfc u input = uc_nfc u input"

definition ARABIC_LETTER_FOLDING :: "(code_point \<times> code_point) list" where
  "ARABIC_LETTER_FOLDING = [
    (1610, 1740), (1609, 1740), (1603, 1705), (1577, 1607), (1571, 1575), (1573, 1575),
    (1570, 1575), (1572, 1608), (1574, 1740)]"

definition foldArabicLetters :: "utext \<Rightarrow> utext" where
  "foldArabicLetters input = map (fold_table ARABIC_LETTER_FOLDING) input"

definition diacritic :: "code_point \<Rightarrow> bool" where
  "diacritic c \<longleftrightarrow> 1611 \<le> c \<and> c \<le> 1618 \<or> c = 1648 \<or> c = 1600"

definition removeDiacritics :: "utext \<Rightarrow> utext" where
  "removeDiacritics input = filter (\<lambda>c. \<not> diacritic c) input"

text \<open>ZWNJ separates words; ZWSP, ZWJ, the bidi marks and the BOM only break them.\<close>

definition zero_width :: "code_point \<Rightarrow> bool" where
  "zero_width c \<longleftrightarrow> List.member [8203, 8205, 8206, 8207, 1564, 65279] c"

definition foldZeroWidth :: "utext \<Rightarrow> utext" where
  "foldZeroWidth input = filter (\<lambda>c. \<not> zero_width c) (map (\<lambda>c. if c = 8204 then 32 else c) input)"

definition unify_digit :: "code_point \<Rightarrow> code_point" where
  "unify_digit c =
     (if 1776 \<le> c \<and> c \<le> 1785 \<or> 1632 \<le> c \<and> c \<le> 1641
      then 48 + (c - (if 1776 \<le> c then 1776 else 1632)) else c)"

definition unifyDigits :: "utext \<Rightarrow> utext" where
  "unifyDigits input = map unify_digit input"

definition PUNCTUATION_FOLDING :: "(code_point \<times> code_point) list" where
  "PUNCTUATION_FOLDING = [
    (1567, 63), (1548, 44), (1563, 59), (171, 34), (187, 34), (8216, 39), (8217, 39),
    (8220, 34), (8221, 34), (8211, 45), (8212, 45), (1643, 46), (1644, 44)]"

definition unifyPunctuation :: "utext \<Rightarrow> utext" where
  "unifyPunctuation input = map (fold_table PUNCTUATION_FOLDING) input"

text \<open>\<^verbatim>\<open>replace(/\s+/g, ' ')\<close>: the flag says that the run being read has left its space.\<close>

fun squeeze :: "bool \<Rightarrow> utext \<Rightarrow> utext" where
  "squeeze b [] = []"
| "squeeze b (c # cs) =
     (if white c then (if b then squeeze True cs else 32 # squeeze True cs)
      else c # squeeze False cs)"

definition trim_text :: "utext \<Rightarrow> utext" where
  "trim_text input = rev (dropWhile white (rev (dropWhile white input)))"

definition collapseWhitespace :: "utext \<Rightarrow> utext" where
  "collapseWhitespace input = trim_text (squeeze False input)"

text \<open>\<^verbatim>\<open>replace(/(.)\1{2,}/gu, '$1')\<close>.\<close>

function collapseRepetition :: "utext \<Rightarrow> utext" where
  "collapseRepetition [] = []"
| "collapseRepetition (c # cs) =
     (if \<not> line_terminator c \<and> 2 \<le> length (takeWhile ((=) c) cs)
      then c # collapseRepetition (dropWhile ((=) c) cs)
      else c # collapseRepetition cs)"
  by pat_completeness auto
termination
  by (relation "measure length") (auto intro: le_less_trans [OF length_dropWhile_le])

definition HOMOGLYPH_FOLDING :: "(code_point \<times> code_point) list" where
  "HOMOGLYPH_FOLDING = [
    (1726, 1607), (1728, 1607), (1749, 1607), (1663, 1578), (1657, 1578), (1674, 1583),
    (1677, 1583), (1685, 1585), (1686, 1585), (1691, 1587), (1706, 1705), (1707, 1705),
    (1708, 1705), (1741, 1740), (1744, 1740), (1649, 1575)]"

definition mapHomoglyphs :: "utext \<Rightarrow> utext" where
  "mapHomoglyphs input = map (fold_table HOMOGLYPH_FOLDING) input"

text \<open>
  \<^verbatim>\<open>(?<=[arabic])[latin]+(?=[arabic])\<close>: the flag says that the character before is of the
  Arabic block. A run that is not followed by one is kept whole, since no position inside it
  has such a character before it.
\<close>

function strip_intrusive :: "bool \<Rightarrow> utext \<Rightarrow> utext" where
  "strip_intrusive b [] = []"
| "strip_intrusive b (c # cs) =
     (if b \<and> latin_or_cyrillic c
      then (let rest = dropWhile latin_or_cyrillic cs
            in if rest \<noteq> [] \<and> arabic_block (hd rest)
               then strip_intrusive False rest
               else c # strip_intrusive False cs)
      else c # strip_intrusive (arabic_block c) cs)"
  by pat_completeness auto
termination
  by (relation "measure (length \<circ> snd)") (auto intro: le_less_trans [OF length_dropWhile_le])

definition stripIntrusiveLatin :: "utext \<Rightarrow> utext" where
  "stripIntrusiveLatin input = strip_intrusive False input"

definition foldCase :: "unicode \<Rightarrow> utext \<Rightarrow> utext" where
  "foldCase u input = uc_lower u input"

definition normalize :: "unicode \<Rightarrow> utext \<Rightarrow> utext" where
  "normalize u input =
     foldl (\<lambda>text rule. rule text) input
       [toNfc u, foldArabicLetters, removeDiacritics, foldZeroWidth, unifyDigits,
        unifyPunctuation, collapseWhitespace, collapseRepetition, mapHomoglyphs,
        stripIntrusiveLatin, foldCase u]"

text \<open>\<^verbatim>\<open>split(/[^\p{L}\p{N}]+/u)\<close> without the empty pieces: the maximal runs of word characters.\<close>

function tokenize :: "unicode \<Rightarrow> utext \<Rightarrow> utext list" where
  "tokenize u [] = []"
| "tokenize u (c # cs) =
     (if uc_letter_or_number u c
      then (c # takeWhile (uc_letter_or_number u) cs) # tokenize u (dropWhile (uc_letter_or_number u) cs)
      else tokenize u cs)"
  by pat_completeness auto
termination
  by (relation "measure (length \<circ> snd)") (auto intro: le_less_trans [OF length_dropWhile_le])

end
