(* ===== verification/Normalizer_Properties.thy ===== *)
theory Normalizer_Properties
  imports Persian_Normalizer
begin

text \<open>
  What the pipeline leaves alone. Each rule is shown to establish its own clause of the normal
  form and every later rule to keep it, with one exception the source's order makes: a rule
  after \<open>collapseRepetition\<close> can put equal letters side by side again.
\<close>

section \<open>The clauses of the normal form\<close>

text \<open>No character an earlier table folds or drops.\<close>

definition folded :: "code_point \<Rightarrow> bool" where
  "folded c \<longleftrightarrow> map_of ARABIC_LETTER_FOLDING c = None \<and> \<not> diacritic c \<and> \<not> zero_width c
     \<and> c \<noteq> 8204 \<and> unify_digit c = c \<and> map_of PUNCTUATION_FOLDING c = None"

definition no_homoglyph :: "code_point \<Rightarrow> bool" where
  "no_homoglyph c \<longleftrightarrow> map_of HOMOGLYPH_FOLDING c = None"

definition single_spaced :: "utext \<Rightarrow> bool" where
  "single_spaced t \<longleftrightarrow> successively (\<lambda>a b. \<not> (white a \<and> white b)) t \<and> list_all (\<lambda>c. white c \<longrightarrow> c = 32) t
     \<and> (t \<noteq> [] \<longrightarrow> \<not> white (hd t) \<and> \<not> white (last t))"

text \<open>Three equal characters in a row.\<close>

fun stretched :: "utext \<Rightarrow> bool" where
  "stretched (a # b # c # t) = (a = b \<and> b = c \<or> stretched (b # c # t))"
| "stretched t = False"

text \<open>
  The case mapping of the scripts the product is written in: ASCII, Latin-1, Cyrillic; the
  Arabic block and the general punctuation have no case.
\<close>

definition simple_case :: "code_point \<Rightarrow> code_point" where
  "simple_case c =
     (if 65 \<le> c \<and> c \<le> 90 \<or> 192 \<le> c \<and> c \<le> 222 \<and> c \<noteq> 215 \<or> 1040 \<le> c \<and> c \<le> 1071 then c + 32
      else if 1024 \<le> c \<and> c \<le> 1039 then c + 80 else c)"

definition plain :: "code_point \<Rightarrow> bool" where
  "plain c \<longleftrightarrow> c < 256 \<or> 1024 \<le> c \<and> c \<le> 1119 \<or> arabic_block c
     \<or> 8192 \<le> c \<and> c \<le> 8303 \<or> c = 65279"

definition lowers_plainly :: "unicode \<Rightarrow> bool" where
  "lowers_plainly u \<longleftrightarrow> (\<forall>t. list_all plain t \<longrightarrow> uc_lower u t = map simple_case t)"

section \<open>Folding tables\<close>

lemma fold_table_out:
  assumes "\<And>k v. (k, v) \<in> set table \<Longrightarrow> P v" and "map_of table c = None \<Longrightarrow> P c"
  shows "P (fold_table table c)"
  using assms by (auto simp: fold_table_def dest: map_of_SomeD split: option.splits)

lemma fold_table_id: "map_of table c = None \<Longrightarrow> fold_table table c = c"
  by (simp add: fold_table_def)

text \<open>A property of the values, or of both columns, of a table is checked entry by entry.\<close>

lemma table_values: "list_all (\<lambda>(k, v). P k v) table \<Longrightarrow> (k, v) \<in> set table \<Longrightarrow> P k v"
  by (auto simp: list_all_iff)

definition quiet :: "code_point \<Rightarrow> bool" where
  "quiet c \<longleftrightarrow> folded c \<and> plain c \<and> \<not> white c"

lemmas class_defs = quiet_def folded_def no_homoglyph_def plain_def white_def arabic_block_def
  diacritic_def zero_width_def unify_digit_def

lemma quiet_numerals:
  "quiet 34" "quiet 39" "quiet 44" "quiet 45" "quiet 46" "quiet 59" "quiet 63" "quiet 1575" "quiet 1578"
  "quiet 1583" "quiet 1585" "quiet 1587" "quiet 1607" "quiet 1608" "quiet 1705" "quiet 1740"
  by (simp_all add: class_defs ARABIC_LETTER_FOLDING_def PUNCTUATION_FOLDING_def)

lemma arabic_entries: "list_all (\<lambda>(k, v). quiet v) ARABIC_LETTER_FOLDING"
  by (simp add: ARABIC_LETTER_FOLDING_def quiet_numerals)

lemma punctuation_entries: "list_all (\<lambda>(k, v). quiet v) PUNCTUATION_FOLDING"
  by (simp add: PUNCTUATION_FOLDING_def quiet_numerals)

lemma homoglyph_entries:
  "list_all (\<lambda>(k, v). quiet v \<and> no_homoglyph v \<and> arabic_block v \<and> \<not> white k \<and> arabic_block k) HOMOGLYPH_FOLDING"
  by (simp add: HOMOGLYPH_FOLDING_def quiet_numerals no_homoglyph_def arabic_block_def white_def)

lemmas arabic_values = table_values [OF arabic_entries]
lemmas punctuation_values = table_values [OF punctuation_entries]
lemmas homoglyph_values = table_values [OF homoglyph_entries]

lemma homoglyph_keeps:
  "folded c \<Longrightarrow> folded (fold_table HOMOGLYPH_FOLDING c)"
  "plain c \<Longrightarrow> plain (fold_table HOMOGLYPH_FOLDING c)"
  "white (fold_table HOMOGLYPH_FOLDING c) \<longleftrightarrow> white c"
  "white c \<Longrightarrow> fold_table HOMOGLYPH_FOLDING c = c"
  "no_homoglyph (fold_table HOMOGLYPH_FOLDING c)"
  by (auto simp: fold_table_def no_homoglyph_def quiet_def dest!: map_of_SomeD homoglyph_values
      split: option.splits)

text \<open>Lowering changes a letter into a small letter of its own script.\<close>

definition small_letter :: "code_point \<Rightarrow> bool" where
  "small_letter c \<longleftrightarrow> 97 \<le> c \<and> c \<le> 122 \<or> 224 \<le> c \<and> c \<le> 254 \<or> 1072 \<le> c \<and> c \<le> 1119"

lemma simple_case_cases: "simple_case c = c \<or> small_letter (simple_case c)"
  by (auto simp: simple_case_def small_letter_def)

lemma small_letter_keys:
  "k \<in> fst ` set ARABIC_LETTER_FOLDING \<union> fst ` set PUNCTUATION_FOLDING \<union> fst ` set HOMOGLYPH_FOLDING
   \<Longrightarrow> \<not> small_letter k"
  by (auto simp: ARABIC_LETTER_FOLDING_def PUNCTUATION_FOLDING_def HOMOGLYPH_FOLDING_def small_letter_def)

lemma small_letter_quiet: "small_letter c \<Longrightarrow> quiet c \<and> no_homoglyph c \<and> \<not> arabic_block c"
proof -
  assume s: "small_letter c"
  then have "map_of ARABIC_LETTER_FOLDING c = None" "map_of PUNCTUATION_FOLDING c = None"
    "map_of HOMOGLYPH_FOLDING c = None"
    using small_letter_keys by (auto simp: map_of_eq_None_iff)
  moreover have "plain c \<and> \<not> white c \<and> \<not> arabic_block c" "\<not> diacritic c" "\<not> zero_width c" "c \<noteq> 8204"
    "unify_digit c = c"
    using s by (auto simp: small_letter_def class_defs)
  ultimately show ?thesis by (simp add: quiet_def folded_def no_homoglyph_def)
qed

lemma fold_case_keeps:
  "folded c \<Longrightarrow> folded (simple_case c)" "no_homoglyph c \<Longrightarrow> no_homoglyph (simple_case c)"
  "plain c \<Longrightarrow> plain (simple_case c)"
  using simple_case_cases [of c] small_letter_quiet [of "simple_case c"] by (auto simp: quiet_def)

lemma fold_case_classes:
  "white (simple_case c) \<longleftrightarrow> white c" "white c \<Longrightarrow> simple_case c = c"
  "arabic_block (simple_case c) \<longleftrightarrow> arabic_block c"
  "latin_or_cyrillic (simple_case c) \<longleftrightarrow> latin_or_cyrillic c"
  "simple_case (simple_case c) = simple_case c"
  by (auto simp: simple_case_def white_def arabic_block_def latin_or_cyrillic_def)

lemma unify_digit_keeps:
  assumes "map_of ARABIC_LETTER_FOLDING c = None" and "\<not> diacritic c" and "\<not> zero_width c" and "c \<noteq> 8204"
  defines "d \<equiv> unify_digit c"
  shows "map_of ARABIC_LETTER_FOLDING d = None" "\<not> diacritic d" "\<not> zero_width d" "d \<noteq> 8204" "unify_digit d = d"
proof -
  have "d = c \<or> 48 \<le> d \<and> d \<le> 57" by (auto simp: d_def unify_digit_def)
  moreover have "48 \<le> d \<and> d \<le> 57 \<Longrightarrow> map_of ARABIC_LETTER_FOLDING d = None \<and> \<not> diacritic d \<and> \<not> zero_width d \<and> d \<noteq> 8204"
    by (auto simp: ARABIC_LETTER_FOLDING_def diacritic_def zero_width_def)
  ultimately show "map_of ARABIC_LETTER_FOLDING d = None" "\<not> diacritic d" "\<not> zero_width d" "d \<noteq> 8204"
    using assms(1-4) by auto
  show "unify_digit d = d" by (auto simp: d_def unify_digit_def)
qed

section \<open>The folding rules\<close>

definition fold_stage :: "utext \<Rightarrow> utext" where
  "fold_stage t = unifyPunctuation (unifyDigits (foldZeroWidth (removeDiacritics (foldArabicLetters t))))"

lemma fold_stage_folded: "list_all folded (fold_stage t)"
proof -
  have "folded (fold_table PUNCTUATION_FOLDING (unify_digit d))"
    if c: "map_of ARABIC_LETTER_FOLDING c = None" "\<not> diacritic c"
      and d: "d = (if c = 8204 then 32 else c)" "\<not> zero_width d" for c d
  proof -
    have "map_of ARABIC_LETTER_FOLDING d = None" "\<not> diacritic d" "d \<noteq> 8204"
      using c d(1) by (auto simp: ARABIC_LETTER_FOLDING_def diacritic_def split: if_splits)
    note u = unify_digit_keeps [OF this(1,2) d(2) this(3)]
    show ?thesis
      by (rule fold_table_out) (use u in \<open>auto simp: folded_def [of "unify_digit d"] quiet_def dest: punctuation_values\<close>)
  qed
  moreover have "map_of ARABIC_LETTER_FOLDING (fold_table ARABIC_LETTER_FOLDING c) = None" for c
    by (rule fold_table_out [where P = "\<lambda>d. map_of ARABIC_LETTER_FOLDING d = None"])
      (auto simp: quiet_def folded_def dest: arabic_values)
  ultimately show ?thesis
    unfolding fold_stage_def unifyPunctuation_def unifyDigits_def foldZeroWidth_def removeDiacritics_def
      foldArabicLetters_def list_all_iff
    by (fastforce split: if_splits)
qed

lemma fold_stage_id: "list_all folded t \<Longrightarrow> fold_stage t = t"
  unfolding fold_stage_def unifyPunctuation_def unifyDigits_def foldZeroWidth_def removeDiacritics_def
    foldArabicLetters_def
  by (induction t) (auto simp: folded_def fold_table_id)

lemma fold_stage_plain: "list_all plain t \<Longrightarrow> list_all plain (fold_stage t)"
proof -
  have "plain (fold_table ARABIC_LETTER_FOLDING c)" "plain (fold_table PUNCTUATION_FOLDING c)"
    "plain (unify_digit c)" if "plain c" for c
    using that by (auto simp: fold_table_def quiet_def dest!: map_of_SomeD arabic_values punctuation_values
        split: option.splits) (auto simp: unify_digit_def plain_def)
  moreover have "plain 32" by (simp add: plain_def)
  ultimately show "list_all plain t \<Longrightarrow> list_all plain (fold_stage t)"
    unfolding fold_stage_def unifyPunctuation_def unifyDigits_def foldZeroWidth_def removeDiacritics_def
      foldArabicLetters_def list_all_iff
    by auto
qed

section \<open>White space\<close>

lemma squeeze_set: "c \<in> set (squeeze b t) \<Longrightarrow> c \<in> set t \<and> \<not> white c \<or> c = 32"
  by (induction b t rule: squeeze.induct) (auto split: if_splits)

lemma squeeze_hd: "squeeze True t \<noteq> [] \<Longrightarrow> \<not> white (hd (squeeze True t))"
  by (induction t) auto

lemma squeeze_single: "successively (\<lambda>a b. \<not> (white a \<and> white b)) (squeeze b t)"
proof (induction b t rule: squeeze.induct)
  case (2 b c cs)
  then show ?case using squeeze_hd [of cs] by (auto simp: successively_Cons)
qed simp

lemma squeeze_id:
  "successively (\<lambda>a b. \<not> (white a \<and> white b)) t \<Longrightarrow> list_all (\<lambda>c. white c \<longrightarrow> c = 32) t \<Longrightarrow>
   (b \<Longrightarrow> t \<noteq> [] \<Longrightarrow> \<not> white (hd t)) \<Longrightarrow> squeeze b t = t"
  by (induction b t rule: squeeze.induct) (auto simp: successively_Cons)

lemma trim_text_parts: "\<exists>xs zs. t = xs @ trim_text t @ zs"
proof -
  have "t = takeWhile white t @ dropWhile white t" by simp
  moreover have "dropWhile white t = trim_text t @ rev (takeWhile white (rev (dropWhile white t)))"
    unfolding trim_text_def by (metis rev_append rev_rev_ident takeWhile_dropWhile_id)
  ultimately show ?thesis by metis
qed

lemma trim_text_ends: "trim_text t \<noteq> [] \<Longrightarrow> \<not> white (hd (trim_text t)) \<and> \<not> white (last (trim_text t))"
proof -
  assume ne: "trim_text t \<noteq> []"
  let ?d = "dropWhile white t"
  have r: "dropWhile white (rev ?d) \<noteq> []" using ne by (simp add: trim_text_def)
  have "\<not> white (last (trim_text t))"
    using hd_dropWhile [OF r] by (simp add: trim_text_def last_rev)
  moreover have "\<not> white (hd (trim_text t))"
  proof -
    have "?d \<noteq> []"
    proof
      assume "?d = []"
      with r show False by (metis dropWhile.simps(1) rev.simps(1))
    qed
    moreover have "?d = trim_text t @ rev (takeWhile white (rev ?d))"
      unfolding trim_text_def by (metis rev_append rev_rev_ident takeWhile_dropWhile_id)
    ultimately show ?thesis using hd_dropWhile [of white t] ne by (metis hd_append2)
  qed
  ultimately show ?thesis by simp
qed

lemma trim_text_id: "t \<noteq> [] \<Longrightarrow> \<not> white (hd t) \<Longrightarrow> \<not> white (last t) \<Longrightarrow> trim_text t = t"
proof -
  have keep: "xs \<noteq> [] \<Longrightarrow> \<not> white (hd xs) \<Longrightarrow> dropWhile white xs = xs" for xs
    by (cases xs) simp_all
  assume "t \<noteq> []" "\<not> white (hd t)" "\<not> white (last t)"
  then show ?thesis by (simp add: trim_text_def keep hd_rev)
qed

lemma collapseWhitespace_single: "single_spaced (collapseWhitespace t)"
proof -
  let ?q = "squeeze False t"
  obtain xs zs where q: "?q = xs @ trim_text ?q @ zs" using trim_text_parts by blast
  have "successively (\<lambda>a b. \<not> (white a \<and> white b)) (trim_text ?q)"
    using squeeze_single [of False t] q by (metis successively_append_iff)
  moreover have "list_all (\<lambda>c. white c \<longrightarrow> c = 32) ?q"
    using squeeze_set by (fastforce simp: list_all_iff)
  then have "list_all (\<lambda>c. white c \<longrightarrow> c = 32) (trim_text ?q)"
    using q by (metis list_all_append)
  ultimately show ?thesis
    unfolding single_spaced_def collapseWhitespace_def using trim_text_ends by blast
qed

lemma collapseWhitespace_id: "single_spaced t \<Longrightarrow> collapseWhitespace t = t"
  unfolding collapseWhitespace_def single_spaced_def
  by (cases "t = []") (simp_all add: squeeze_id trim_text_id, simp add: trim_text_def)

lemma collapseWhitespace_all: "list_all P t \<Longrightarrow> P 32 \<Longrightarrow> list_all P (collapseWhitespace t)"
proof -
  assume "list_all P t" "P 32"
  then have "list_all P (squeeze False t)" using squeeze_set by (fastforce simp: list_all_iff)
  then show ?thesis unfolding collapseWhitespace_def
    by (metis list_all_append trim_text_parts)
qed

section \<open>Repetition\<close>

declare collapseRepetition.simps(2) [simp del] dropWhile_eq_Nil_conv [simp del]

lemma successively_ConsD: "successively P (c # cs) \<Longrightarrow> successively P cs \<and> (cs \<noteq> [] \<longrightarrow> P c (hd cs))"
  by (cases cs) simp_all

lemma collapse_run:
  "\<not> line_terminator c \<Longrightarrow> 2 \<le> length (takeWhile ((=) c) cs) \<Longrightarrow>
   collapseRepetition (c # cs) = c # collapseRepetition (dropWhile ((=) c) cs)"
  by (simp add: collapseRepetition.simps(2))

lemma collapse_step:
  "\<not> (\<not> line_terminator c \<and> 2 \<le> length (takeWhile ((=) c) cs)) \<Longrightarrow>
   collapseRepetition (c # cs) = c # collapseRepetition cs"
  by (simp only: collapseRepetition.simps(2) if_False)

lemma collapseRepetition_hd: "t \<noteq> [] \<Longrightarrow> collapseRepetition t \<noteq> [] \<and> hd (collapseRepetition t) = hd t"
  by (cases t) (simp_all add: collapseRepetition.simps(2))

lemma collapseRepetition_set: "set (collapseRepetition t) \<subseteq> set t"
  by (induction t rule: collapseRepetition.induct)
    (auto simp: collapseRepetition.simps(2) dest: set_dropWhileD)

lemma collapseRepetition_length: "length (collapseRepetition t) \<le> length t"
proof (induction t rule: collapseRepetition.induct)
  case (2 c cs)
  then show ?case using length_dropWhile_le [of "(=) c" cs]
    by (auto simp: collapseRepetition.simps(2) intro: le_trans)
qed simp

lemma dropWhile_same: "dropWhile ((=) c) cs \<noteq> [] \<Longrightarrow> \<exists>ys. c # cs = ys @ c # dropWhile ((=) c) cs"
proof -
  have "\<forall>x\<in>set (takeWhile ((=) c) cs). x = c" by (auto dest: set_takeWhileD)
  then have "takeWhile ((=) c) cs = replicate (length (takeWhile ((=) c) cs)) c"
    by (metis replicate_length_same)
  then obtain n where "cs = replicate n c @ dropWhile ((=) c) cs"
    by (metis takeWhile_dropWhile_id)
  then have "c # cs = replicate n c @ c # dropWhile ((=) c) cs"
    by (metis append_Cons replicate_Suc replicate_app_Cons_same append.assoc)
  then show ?thesis by blast
qed

lemma collapseRepetition_successively:
  "successively P t \<Longrightarrow> successively P (collapseRepetition t)"
proof (induction t rule: collapseRepetition.induct)
  case (2 c cs)
  let ?d = "dropWhile ((=) c) cs"
  have tail: "successively P (c # u)" if "u \<noteq> [] \<longrightarrow> P c (hd u)" "successively P u" for u
    using that by (auto simp: successively_Cons)
  have d: "successively P ?d \<and> (?d \<noteq> [] \<longrightarrow> P c (hd ?d))"
  proof (cases "?d = []")
    case False
    then obtain ys where e: "c # cs = ys @ c # ?d" using dropWhile_same [of c cs] by iprover
    have "successively P (ys @ c # ?d)"
      by (rule iffD1 [OF arg_cong [OF e, of "successively P"] "2.prems"])
    then have "successively P (c # ?d)" by (simp only: successively_append_iff)
    with False show ?thesis by (simp only: successively_Cons) blast
  next
    case True
    then show ?thesis by (simp only: successively.simps) simp
  qed
  have c: "successively P cs" "cs \<noteq> [] \<longrightarrow> P c (hd cs)"
    using successively_ConsD [OF "2.prems"] by blast+
  have hd: "collapseRepetition u \<noteq> [] \<longrightarrow> P c (hd (collapseRepetition u))" if "u \<noteq> [] \<longrightarrow> P c (hd u)" for u
    using that collapseRepetition_hd [of u] by (cases "u = []") simp_all
  show ?case
  proof (cases "\<not> line_terminator c \<and> 2 \<le> length (takeWhile ((=) c) cs)")
    case True
    have "successively P (c # collapseRepetition ?d)"
      using d by (intro tail hd "2.IH"(1) [OF True]) blast+
    with True show ?thesis by (simp add: collapse_run)
  next
    case False
    have "successively P (c # collapseRepetition cs)"
      using c by (intro tail hd "2.IH"(2) [OF False]) blast+
    with False show ?thesis by (simp only: collapse_step simp_thms)
  qed
qed simp

lemma collapseRepetition_last: "t \<noteq> [] \<Longrightarrow> last (collapseRepetition t) = last t"
proof (induction t rule: collapseRepetition.induct)
  case (2 c cs)
  let ?d = "dropWhile ((=) c) cs"
  have "?d = [] \<Longrightarrow> last (c # cs) = c"
    by (auto simp: dropWhile_eq_Nil_conv)
  moreover have "?d \<noteq> [] \<Longrightarrow> last (c # cs) = last ?d"
    using dropWhile_same [of c cs] by (metis last_appendR last_ConsR list.discI)
  moreover have "t \<noteq> [] \<Longrightarrow> collapseRepetition t \<noteq> []" for t
    using collapseRepetition_hd by blast
  ultimately show ?case using 2
    by (simp add: collapseRepetition.simps(2) del: dropWhile_eq_Nil_conv last.simps)
       (metis last.simps collapseRepetition.simps(1))
qed simp

lemma collapseRepetition_id: "\<not> stretched t \<Longrightarrow> collapseRepetition t = t"
proof (induction t rule: stretched.induct)
  case (1 a b c t)
  then have "collapseRepetition (b # c # t) = b # c # t" and "\<not> (a = b \<and> b = c)" by auto
  then have "\<not> 2 \<le> length (takeWhile ((=) a) (b # c # t))" by auto
  with \<open>collapseRepetition (b # c # t) = b # c # t\<close> show ?case
    by (simp only: collapse_step simp_thms)
qed (simp_all add: collapseRepetition.simps(2))

lemma collapseRepetition_shrinks:
  "stretched t \<Longrightarrow> list_all (\<lambda>c. \<not> line_terminator c) t \<Longrightarrow> length (collapseRepetition t) < length t"
proof (induction t rule: stretched.induct)
  case (1 a b c t)
  show ?case
  proof (cases "a = b \<and> b = c")
    case True
    then have "collapseRepetition (a # b # c # t) = a # collapseRepetition (dropWhile ((=) a) t)"
      using "1.prems" by (simp add: collapse_run)
    moreover have "length (collapseRepetition (dropWhile ((=) a) t)) \<le> length t"
      using collapseRepetition_length length_dropWhile_le le_trans by metis
    ultimately show ?thesis by simp
  next
    case False
    then have "length (collapseRepetition (b # c # t)) < length (b # c # t)" using 1 by auto
    moreover have "\<not> 2 \<le> length (takeWhile ((=) a) (b # c # t))" using False by auto
    ultimately show ?thesis by (simp only: collapse_step simp_thms length_Cons Suc_less_eq)
  qed
qed simp_all

section \<open>Latin inside a word\<close>

declare strip_intrusive.simps(2) [simp del]

text \<open>A run that is not deleted stays whole, so deleting again deletes nothing.\<close>

lemma arabic_not_latin: "arabic_block c \<Longrightarrow> \<not> latin_or_cyrillic c"
  by (auto simp: arabic_block_def latin_or_cyrillic_def)

lemma latin_not_arabic [simp]: "latin_or_cyrillic c \<Longrightarrow> \<not> arabic_block c"
  using arabic_not_latin by blast

lemma strip_intrusive_Cons:
  "strip_intrusive b (c # cs) =
     (if b \<and> latin_or_cyrillic c
          \<and> dropWhile latin_or_cyrillic cs \<noteq> [] \<and> arabic_block (hd (dropWhile latin_or_cyrillic cs))
      then strip_intrusive False (dropWhile latin_or_cyrillic cs)
      else c # strip_intrusive (arabic_block c) cs)"
  using arabic_not_latin [of c] by (auto simp: strip_intrusive.simps(2) Let_def)

text \<open>The head of what follows a kept Latin character: the rest of its run and the character after it.\<close>

lemma strip_run:
  "strip_intrusive False cs = [] \<longleftrightarrow> cs = []"
  "cs \<noteq> [] \<Longrightarrow> hd (strip_intrusive False cs) = hd cs"
  "dropWhile latin_or_cyrillic (strip_intrusive False cs) = strip_intrusive False (dropWhile latin_or_cyrillic cs)"
proof -
  show "strip_intrusive False cs = [] \<longleftrightarrow> cs = []"
    by (cases cs) (simp_all add: strip_intrusive_Cons)
  show "cs \<noteq> [] \<Longrightarrow> hd (strip_intrusive False cs) = hd cs"
    by (cases cs) (simp_all add: strip_intrusive_Cons)
  show "dropWhile latin_or_cyrillic (strip_intrusive False cs) = strip_intrusive False (dropWhile latin_or_cyrillic cs)"
    using arabic_not_latin by (induction cs) (auto simp: strip_intrusive_Cons)
qed

lemma strip_induct [case_names Nil Cons]:
  assumes "\<And>b. P b []"
    and "\<And>b c cs. P False (dropWhile latin_or_cyrillic cs) \<Longrightarrow> P (arabic_block c) cs \<Longrightarrow> P b (c # cs)"
  shows "P b t"
proof (induction t arbitrary: b rule: length_induct)
  case (1 t)
  show ?case
  proof (cases t)
    case (Cons c cs)
    have "P False (dropWhile latin_or_cyrillic cs)"
      using 1 Cons length_dropWhile_le [of latin_or_cyrillic cs] by (simp add: le_imp_less_Suc)
    with 1 Cons show ?thesis by (simp add: assms(2))
  qed (simp add: assms(1))
qed

lemma strip_intrusive_idem: "strip_intrusive b (strip_intrusive b t) = strip_intrusive b t"
proof (induction b t rule: strip_induct)
  case (Cons b c cs)
  let ?r = "dropWhile latin_or_cyrillic cs"
  show ?case
  proof (cases "b \<and> latin_or_cyrillic c \<and> ?r \<noteq> [] \<and> arabic_block (hd ?r)")
    case True
    then obtain d ds where r: "?r = d # ds" and d: "arabic_block d" by (cases ?r) auto
    have "strip_intrusive b (c # cs) = d # strip_intrusive True ds"
      using True r d by (simp add: strip_intrusive_Cons)
    moreover have "strip_intrusive False (strip_intrusive False ?r) = strip_intrusive False ?r"
      using Cons by blast
    then have "strip_intrusive True (strip_intrusive True ds) = strip_intrusive True ds"
      using r d by (simp add: strip_intrusive_Cons)
    ultimately show ?thesis using d arabic_not_latin by (simp add: strip_intrusive_Cons)
  next
    case False
    then have e: "strip_intrusive b (c # cs) = c # strip_intrusive (arabic_block c) cs"
      by (simp only: strip_intrusive_Cons if_False)
    have ih: "strip_intrusive (arabic_block c) (strip_intrusive (arabic_block c) cs) = strip_intrusive (arabic_block c) cs"
      using Cons by blast
    show ?thesis
    proof (cases "b \<and> latin_or_cyrillic c")
      case True
      with False have "\<not> (?r \<noteq> [] \<and> arabic_block (hd ?r))" and "\<not> arabic_block c"
        using arabic_not_latin by auto
      then have "\<not> (strip_intrusive False ?r \<noteq> [] \<and> arabic_block (hd (strip_intrusive False ?r)))"
        using strip_run(1,2) [of ?r] by auto
      then show ?thesis unfolding e using ih \<open>\<not> arabic_block c\<close>
        by (subst strip_intrusive_Cons) (auto simp: strip_run(3))
    next
      case False
      then show ?thesis unfolding e using ih by (subst strip_intrusive_Cons) auto
    qed
  qed
qed simp

lemma strip_intrusive_map:
  assumes "\<And>c. arabic_block (g c) = arabic_block c" and "\<And>c. latin_or_cyrillic (g c) = latin_or_cyrillic c"
  shows "strip_intrusive b (map g t) = map g (strip_intrusive b t)"
proof (induction b t rule: strip_induct)
  case (Cons b c cs)
  have "dropWhile latin_or_cyrillic (map g cs) = map g (dropWhile latin_or_cyrillic cs)"
    using assms by (simp add: dropWhile_map comp_def)
  then show ?case using Cons assms arabic_not_latin [of c]
    by (auto simp: strip_intrusive_Cons list.map_sel(1))
qed simp

lemma strip_intrusive_set: "set (strip_intrusive b t) \<subseteq> set t"
  by (induction b t rule: strip_induct)
    (auto simp: strip_intrusive_Cons dest: set_dropWhileD split: if_splits)

lemma strip_intrusive_length: "length (strip_intrusive b t) \<le> length t"
proof (induction b t rule: strip_induct)
  case (Cons b c cs)
  then show ?case using length_dropWhile_le [of latin_or_cyrillic cs] arabic_not_latin [of c]
    by (auto simp: strip_intrusive_Cons intro: le_trans)
qed simp

section \<open>The whole pipeline\<close>

definition core :: "utext \<Rightarrow> utext" where
  "core t = stripIntrusiveLatin (mapHomoglyphs (collapseRepetition (collapseWhitespace (fold_stage t))))"

lemma normalize_stages: "normalize u t = uc_lower u (core (uc_nfc u t))"
  by (simp add: normalize_def core_def fold_stage_def toNfc_def foldCase_def)

lemma list_all_subset: "set t' \<subseteq> set t \<Longrightarrow> list_all P t \<Longrightarrow> list_all P t'"
  by (auto simp: list_all_iff)

lemma strip_successively:
  assumes "\<And>a b. arabic_block a \<Longrightarrow> arabic_block b \<Longrightarrow> P a b" and "successively P t"
    and "flag \<Longrightarrow> arabic_block p" and "t \<noteq> [] \<Longrightarrow> P p (hd t)"
  shows "successively P (p # strip_intrusive flag t)"
  using assms(2-4)
proof (induction flag t arbitrary: p rule: strip_induct)
  case (Cons b c cs)
  let ?r = "dropWhile latin_or_cyrillic cs"
  show ?case
  proof (cases "b \<and> latin_or_cyrillic c \<and> ?r \<noteq> [] \<and> arabic_block (hd ?r)")
    case True
    have "successively P (takeWhile latin_or_cyrillic cs @ ?r)"
      using successively_ConsD [OF Cons.prems(1)] by simp
    then have r: "successively P ?r" by (simp only: successively_append_iff)
    have "successively P (p # strip_intrusive False ?r)"
      using Cons.IH(1) [OF r, of p] True Cons.prems(2) assms(1) by blast
    then show ?thesis using True by (simp add: strip_intrusive_Cons)
  next
    case False
    have cs: "successively P cs" and hd: "cs \<noteq> [] \<Longrightarrow> P c (hd cs)"
      using successively_ConsD [OF Cons.prems(1)] by blast+
    have "successively P (c # strip_intrusive (arabic_block c) cs)"
      using Cons.IH(2) [OF cs, of c] hd by blast
    then have "successively P (p # c # strip_intrusive (arabic_block c) cs)"
      using Cons.prems(3) by simp
    with False show ?thesis by (simp only: strip_intrusive_Cons if_False)
  qed
qed simp

lemma strip_last: "t \<noteq> [] \<Longrightarrow> strip_intrusive b t \<noteq> [] \<and> last (strip_intrusive b t) = last t"
proof (induction b t rule: strip_induct)
  case (Cons b c cs)
  let ?r = "dropWhile latin_or_cyrillic cs"
  have "?r \<noteq> [] \<Longrightarrow> last (c # cs) = last ?r"
  proof -
    assume "?r \<noteq> []"
    then have "last ((c # takeWhile latin_or_cyrillic cs) @ ?r) = last ?r" by (rule last_appendR)
    then show ?thesis by (simp only: append_Cons takeWhile_dropWhile_id)
  qed
  then show ?case using Cons.IH
    by (cases "b \<and> latin_or_cyrillic c \<and> ?r \<noteq> [] \<and> arabic_block (hd ?r)"; cases "cs = []")
      (simp_all only: strip_intrusive_Cons if_True if_False list.discI last_ConsR last_ConsL simp_thms
        strip_intrusive.simps(1) not_False_eq_True)
qed simp

lemma single_spaced_map:
  assumes "\<And>c. white (g c) = white c" and "\<And>c. white c \<Longrightarrow> g c = c"
  shows "single_spaced t \<Longrightarrow> single_spaced (map g t)"
  using assms by (auto simp: single_spaced_def successively_map list_all_iff hd_map last_map)

lemma arabic_not_white: "arabic_block c \<Longrightarrow> \<not> white c"
  by (auto simp: arabic_block_def white_def)

lemma latin_not_white: "latin_or_cyrillic c \<Longrightarrow> \<not> white c"
  by (auto simp: latin_or_cyrillic_def white_def)

lemma single_spaced_collapse: "single_spaced t \<Longrightarrow> single_spaced (collapseRepetition t)"
  by (cases "t = []")
    (auto simp: single_spaced_def collapseRepetition_hd collapseRepetition_last
      intro: collapseRepetition_successively list_all_subset [OF collapseRepetition_set])

lemma single_spaced_strip:
  assumes "single_spaced t"
  shows "single_spaced (strip_intrusive False t)"
proof (cases t)
  case (Cons c cs)
  let ?P = "\<lambda>a b. \<not> (white a \<and> white b)"
  have e: "strip_intrusive False t = c # strip_intrusive (arabic_block c) cs"
    by (simp add: Cons strip_intrusive_Cons)
  have succ: "successively ?P (strip_intrusive False t)"
    unfolding e using assms
    by (intro strip_successively) (auto simp: Cons single_spaced_def successively_Cons arabic_not_white)
  have "hd (strip_intrusive False t) = hd t" and "last (strip_intrusive False t) = last t"
    using e strip_last [of t False] Cons by simp_all
  moreover have "list_all (\<lambda>c. white c \<longrightarrow> c = 32) (strip_intrusive False t)"
    using assms by (auto simp: single_spaced_def intro: list_all_subset [OF strip_intrusive_set])
  ultimately show ?thesis
    using assms succ unfolding single_spaced_def by (metis Cons list.discI)
qed (simp add: single_spaced_def)

text \<open>The normal form: every clause, for the text before lowering and after it.\<close>

definition normal :: "utext \<Rightarrow> bool" where
  "normal t \<longleftrightarrow> list_all folded t \<and> list_all no_homoglyph t \<and> single_spaced t \<and> strip_intrusive False t = t"

lemma core_normal: "normal (core t)"
proof -
  let ?w = "collapseWhitespace (fold_stage t)"
  let ?r = "collapseRepetition ?w"
  let ?h = "mapHomoglyphs ?r"
  have "folded 32"
    by (simp add: folded_def ARABIC_LETTER_FOLDING_def PUNCTUATION_FOLDING_def diacritic_def
        zero_width_def unify_digit_def)
  then have "list_all folded ?r"
    by (intro list_all_subset [OF collapseRepetition_set] collapseWhitespace_all fold_stage_folded)
  then have "list_all folded ?h" by (auto simp: mapHomoglyphs_def list_all_iff homoglyph_keeps)
  moreover have "list_all no_homoglyph ?h" by (simp add: mapHomoglyphs_def list_all_iff homoglyph_keeps)
  moreover have "single_spaced ?h"
    unfolding mapHomoglyphs_def
    by (intro single_spaced_map single_spaced_collapse collapseWhitespace_single homoglyph_keeps)
  ultimately show ?thesis
    unfolding normal_def core_def stripIntrusiveLatin_def
    by (simp add: strip_intrusive_idem single_spaced_strip list_all_subset [OF strip_intrusive_set])
qed

lemma core_plain: "list_all plain t \<Longrightarrow> list_all plain (core t)"
proof -
  assume "list_all plain t"
  then have "list_all plain (collapseWhitespace (fold_stage t))"
    by (intro collapseWhitespace_all fold_stage_plain) (simp_all add: plain_def)
  then have "list_all plain (mapHomoglyphs (collapseRepetition (collapseWhitespace (fold_stage t))))"
    using collapseRepetition_set by (fastforce simp: mapHomoglyphs_def list_all_iff homoglyph_keeps)
  then show ?thesis unfolding core_def stripIntrusiveLatin_def
    by (rule list_all_subset [OF strip_intrusive_set])
qed

lemma normal_lower: "normal t \<Longrightarrow> normal (map simple_case t)"
  by (auto simp: normal_def list_all_iff fold_case_keeps fold_case_classes strip_intrusive_map
      intro: single_spaced_map)

lemma core_of_normal:
  assumes "normal t"
  shows "core t = strip_intrusive False (mapHomoglyphs (collapseRepetition t))"
  using assms by (simp add: core_def normal_def fold_stage_id collapseWhitespace_id stripIntrusiveLatin_def)

lemma core_length: "normal t \<Longrightarrow> length (core t) \<le> length (collapseRepetition t)"
  using strip_intrusive_length [of False "mapHomoglyphs (collapseRepetition t)"]
  by (simp add: core_of_normal mapHomoglyphs_def)

lemma core_unstretched: "normal t \<Longrightarrow> \<not> stretched t \<Longrightarrow> core t = t"
proof -
  assume n: "normal t" and s: "\<not> stretched t"
  have "mapHomoglyphs t = t"
    using n by (auto simp: normal_def mapHomoglyphs_def list_all_iff no_homoglyph_def fold_table_id
        intro: map_idI)
  with n s show ?thesis by (simp add: core_of_normal collapseRepetition_id) (simp add: normal_def)
qed

lemma normal_no_terminator: "normal t \<Longrightarrow> list_all (\<lambda>c. \<not> line_terminator c) t"
proof -
  have "line_terminator c \<Longrightarrow> white c \<and> c \<noteq> 32" for c
    by (auto simp: line_terminator_def white_def)
  then show "normal t \<Longrightarrow> ?thesis" by (auto simp: normal_def single_spaced_def list_all_iff)
qed


text \<open>A runtime for the scripts above, and a word drawn out with one Urdu kaf and one Latin letter.\<close>

definition sample_unicode :: unicode where
  "sample_unicode = \<lparr>uc_nfc = (\<lambda>t. t), uc_lower = map simple_case,
     uc_letter_or_number = (\<lambda>c. latin_or_cyrillic c \<or> 48 \<le> c \<and> c \<le> 57 \<or> 1568 \<le> c \<and> c \<le> 1791)\<rparr>"

definition drawn_out :: utext where
  "drawn_out = [1588, 1585, 1575, 1575, 120, 1575, 1576]"

lemma drawn_out_normal: "normalize sample_unicode drawn_out = [1588, 1585, 1575, 1575, 1575, 1576]"
proof -
  have "fold_stage drawn_out = drawn_out"
    by (rule fold_stage_id)
      (simp add: drawn_out_def folded_def ARABIC_LETTER_FOLDING_def PUNCTUATION_FOLDING_def
        diacritic_def zero_width_def unify_digit_def)
  moreover have "collapseWhitespace drawn_out = drawn_out"
    by (rule collapseWhitespace_id) (simp add: drawn_out_def single_spaced_def white_def)
  moreover have "collapseRepetition drawn_out = drawn_out"
    by (rule collapseRepetition_id) (simp add: drawn_out_def)
  moreover have "mapHomoglyphs drawn_out = drawn_out"
    by (simp add: drawn_out_def mapHomoglyphs_def fold_table_def HOMOGLYPH_FOLDING_def)
  ultimately have "core drawn_out = strip_intrusive False drawn_out"
    by (simp add: core_def stripIntrusiveLatin_def)
  also have "\<dots> = [1588, 1585, 1575, 1575, 1575, 1576]"
    by (simp add: drawn_out_def strip_intrusive_Cons latin_or_cyrillic_def arabic_block_def)
  finally show ?thesis
    by (simp add: normalize_stages sample_unicode_def simple_case_def)
qed


end
