(* ===== verification/World.thy ===== *)
theory World
  imports Participation Persian_Normalizer
begin

text \<open>
  The tables of the services that sit on top of the shared database: reviews and review
  pairs, moderation cases and the blacklist, referrals, gift codes. A world is the shared
  database with these tables beside it; \<open>on_db\<close> runs an operation of the shared services
  inside a transaction of a service that owns a table here, so that both commit or neither.
\<close>

section \<open>Rows\<close>

datatype blacklist_pattern_type = BP_EXACT | BP_SUBSTRING | BP_REGEX
datatype blacklist_severity = BS_BLOCK | BS_FLAG

record blacklist_term_row =
  bt_id :: id
  bt_raw :: utext
  bt_normalized :: utext
  bt_pattern :: blacklist_pattern_type
  bt_severity :: blacklist_severity
  bt_category :: "string option"
  bt_active :: bool

record blacklist_match =
  bm_id :: id
  bm_raw :: utext
  bm_pattern :: blacklist_pattern_type
  bm_severity :: blacklist_severity
  bm_category :: "string option"

datatype moderation_subject_type = SUBJECT_EVENT | SUBJECT_USER | SUBJECT_MESSAGE | SUBJECT_REVIEW | SUBJECT_PARTICIPATION
datatype moderation_trigger = TRIGGER_AUTO_BLACKLIST | TRIGGER_REPORT_THRESHOLD | TRIGGER_MANUAL | TRIGGER_NO_SHOW_CLAIM
datatype moderation_case_status = CASE_OPEN | CASE_IN_REVIEW | CASE_APPROVED | CASE_REJECTED | CASE_ESCALATED

record moderation_case_row =
  mc_id :: id
  mc_subject_type :: moderation_subject_type
  mc_subject :: id
  mc_trigger :: moderation_trigger
  mc_status :: moderation_case_status
  mc_blacklist_version :: "nat option"
  mc_matched_terms :: "blacklist_match list option"

datatype moderation_status = M_PENDING | M_APPROVED | M_FLAGGED | M_REJECTED

record review_row =
  rw_id :: id
  rw_public_id :: id
  rw_event :: id
  rw_participant :: id
  rw_reviewer :: id
  rw_reviewee :: id
  rw_rating :: int
  rw_tags :: "string list"
  rw_comment :: "utext option"
  rw_status :: review_status
  rw_moderation :: moderation_status
  rw_submitted_at :: instant
  rw_revealed_at :: "instant option"
  rw_edit_deadline_at :: instant

record pair_row =
  pair_id :: id
  pair_participant :: id
  pair_event :: id
  pair_host_review :: "id option"
  pair_guest_review :: "id option"
  pair_opens_at :: instant
  pair_deadline_at :: instant
  pair_status :: review_pair_status
  pair_revealed_at :: "instant option"
  pair_reminded_at :: "instant option"

record referral_row =
  rf_id :: id
  rf_referrer :: id
  rf_referred :: id
  rf_code :: utext
  rf_status :: referral_status
  rf_qualified_at :: "instant option"
  rf_reward_ledger_id :: "id option"
  rf_fraud_signals :: "jval option"
  rf_created_at :: instant

record gift_code_row =
  gc_id :: id
  gc_code :: utext
  gc_coins :: int
  gc_max_redemptions :: "int option"
  gc_per_user_limit :: int
  gc_redeemed_count :: int
  gc_starts_at :: "instant option"
  gc_expires_at :: "instant option"
  gc_is_active :: bool

record gift_redemption_row =
  gr_id :: id
  gr_gift_code :: id
  gr_user :: id
  gr_seq :: int
  gr_coins :: int
  gr_coin_ledger_id :: id
  gr_created_at :: instant

text \<open>
  Of \<^verbatim>\<open>user\<close>, two more columns: \<^verbatim>\<open>referral_code\<close>, and \<^verbatim>\<open>created_at\<close> with the rows in insertion order.
\<close>

record world =
  base :: db
  blacklist_versions :: "nat list"
  blacklist_terms :: "blacklist_term_row list"
  moderation_cases :: "moderation_case_row list"
  reviews :: "review_row list"
  review_pairs :: "pair_row list"
  referrals :: "referral_row list"
  referral_codes :: "(id \<times> utext) list"
  user_created_at :: "(id \<times> instant) list"
  gift_codes :: "gift_code_row list"
  gift_redemptions :: "gift_redemption_row list"

definition empty_world :: world where
  "empty_world = \<lparr>base = empty_db, blacklist_versions = [], blacklist_terms = [], moderation_cases = [],
     reviews = [], review_pairs = [], referrals = [], referral_codes = [],
     user_created_at = [], gift_codes = [], gift_redemptions = []\<rparr>"

section \<open>Calling the shared services\<close>

definition on_db :: "(error, db, 'a) tx \<Rightarrow> (error, world, 'a) tx" where
  "on_db m = (\<lambda>w. case m (base w) of Inl e \<Rightarrow> Inl e | Inr (a, s) \<Rightarrow> Inr (a, w\<lparr>base := s\<rparr>))"

lemma on_db_Inr [tx_simps]:
  "on_db m w = Inr (a, w') \<longleftrightarrow> (\<exists>s. m (base w) = Inr (a, s) \<and> w' = w\<lparr>base := s\<rparr>)"
  by (auto simp: on_db_def split: sum.splits prod.splits)

lemma on_db_app: "m (base w) = Inr (a, s) \<Longrightarrow> on_db m w = Inr (a, w\<lparr>base := s\<rparr>)"
  by (simp add: on_db_def)

lemma on_db_wp [wp_simps]: "tx_wp (on_db m) Q = (\<lambda>w. tx_wp m (\<lambda>a s. Q a (w\<lparr>base := s\<rparr>)) (base w))"
  by (rule ext) (simp add: tx_wp_def on_db_def split: sum.splits prod.splits)

lemma on_db_ok [ok_simps]: "tx_ok (on_db m) w \<longleftrightarrow> tx_ok m (base w)"
  by (auto simp: tx_ok_def on_db_def split: sum.splits prod.splits)

lemma on_db_rel: "tx_rel R m \<Longrightarrow> tx_rel (\<lambda>w w'. R (base w) (base w') \<and> w' = w\<lparr>base := base w'\<rparr>) (on_db m)"
  by (auto simp: tx_rel_def tx_simps)

section \<open>Reading a successful run\<close>

lemma tx_bindE:
  assumes "tx_bind m f s = Inr r"
  obtains a s1 where "m s = Inr (a, s1)" and "f a s1 = Inr r"
  using assms by (auto simp: tx_bind_Inr)

lemma tx_guardE:
  assumes "tx_bind (tx_guard b e) f s = Inr r"
  obtains "b" and "f () s = Inr r"
  using assms by (auto simp: tx_bind_Inr tx_guard_Inr)

lemma tx_someE:
  assumes "tx_bind (tx_some x e) f s = Inr r"
  obtains a where "x = Some a" and "f a s = Inr r"
  using assms by (auto simp: tx_bind_Inr tx_some_Inr)

lemma tx_readE:
  assumes "tx_bind (tx_read g) f s = Inr r"
  obtains "f (g s) s = Inr r"
  using assms by simp

lemma on_dbE:
  assumes "tx_bind (on_db m) f w = Inr r"
  obtains a s where "m (base w) = Inr (a, s)" and "f a (w\<lparr>base := s\<rparr>) = Inr r"
  using assms by (auto simp: tx_bind_Inr on_db_Inr)

lemma tx_returnE:
  assumes "tx_return a s = Inr (b, s')"
  obtains "b = a" and "s' = s"
  using assms by (auto simp: tx_return_Inr)

section \<open>What every service reads and draws\<close>

text \<open>The clock the services read, and what they return of a run of their own.\<close>

abbreviation now_of :: "world \<Rightarrow> instant" where
  "now_of w \<equiv> clock (base w)"

text \<open>An identifier a table draws for a new row.\<close>

definition fresh :: "(error, world, id) tx" where
  "fresh = on_db fresh_id"

lemma fresh_Inr [tx_simps]:
  "fresh w = Inr (i, w') \<longleftrightarrow>
   i = next_id (base w) \<and> w' = w\<lparr>base := (base w)\<lparr>next_id := next_id (base w) + 1\<rparr>\<rparr>"
  by (auto simp: fresh_def tx_simps)

lemma fresh_wp [wp_simps]:
  "tx_wp fresh Q = (\<lambda>w. Q (next_id (base w)) (w\<lparr>base := (base w)\<lparr>next_id := next_id (base w) + 1\<rparr>\<rparr>))"
  by (rule ext) (simp add: fresh_def wp_simps)

lemma fresh_ok [ok_simps]: "tx_ok fresh w"
  by (simp add: fresh_def ok_simps)

section \<open>Calls made of several transactions\<close>

text \<open>
  A call that is not one transaction: it may fail and still leave behind what it committed.
  \<open>in_tx\<close> is \<^verbatim>\<open>prisma.$transaction\<close>, which leaves nothing behind when it fails.
\<close>

type_synonym ('e, 's, 'a) act = "'s \<Rightarrow> ('e + 'a) \<times> 's"

definition act_return :: "'a \<Rightarrow> ('e, 's, 'a) act" where
  "act_return a = (\<lambda>s. (Inr a, s))"

definition act_throw :: "'e \<Rightarrow> ('e, 's, 'a) act" where
  "act_throw e = (\<lambda>s. (Inl e, s))"

definition act_bind :: "('e, 's, 'a) act \<Rightarrow> ('a \<Rightarrow> ('e, 's, 'b) act) \<Rightarrow> ('e, 's, 'b) act" where
  "act_bind m f = (\<lambda>s. case m s of (Inl e, s') \<Rightarrow> (Inl e, s') | (Inr a, s') \<Rightarrow> f a s')"

text \<open>\<open>try m catch h\<close>.\<close>

definition act_catch :: "('e, 's, 'a) act \<Rightarrow> ('e \<Rightarrow> ('e, 's, 'a) act) \<Rightarrow> ('e, 's, 'a) act" where
  "act_catch m h = (\<lambda>s. case m s of (Inl e, s') \<Rightarrow> h e s' | (Inr a, s') \<Rightarrow> (Inr a, s'))"

definition in_tx :: "('e, 's, 'a) tx \<Rightarrow> ('e, 's, 'a) act" where
  "in_tx m = (\<lambda>s. case m s of Inl e \<Rightarrow> (Inl e, s) | Inr (a, s') \<Rightarrow> (Inr a, s'))"

definition act_read :: "('s \<Rightarrow> 'a) \<Rightarrow> ('e, 's, 'a) act" where
  "act_read f = (\<lambda>s. (Inr (f s), s))"

text \<open>A \<open>for\<close> loop whose body is such a call.\<close>

fun act_fold :: "('a \<Rightarrow> 'b \<Rightarrow> ('e, 's, 'b) act) \<Rightarrow> 'a list \<Rightarrow> 'b \<Rightarrow> ('e, 's, 'b) act" where
  "act_fold f [] b = act_return b"
| "act_fold f (x # xs) b = act_bind (f x b) (\<lambda>b'. act_fold f xs b')"

lemma act_return_app [simp]: "act_return a s = (Inr a, s)"
  by (simp add: act_return_def)

lemma act_throw_app [simp]: "act_throw e s = (Inl e, s)"
  by (simp add: act_throw_def)

lemma act_read_app [simp]: "act_read f s = (Inr (f s), s)"
  by (simp add: act_read_def)

lemma act_bind_read [simp]: "act_bind (act_read f) g s = g (f s) s"
  by (simp add: act_bind_def)

lemma in_tx_Inr: "m s = Inr (a, s') \<Longrightarrow> in_tx m s = (Inr a, s')"
  by (simp add: in_tx_def)

lemma in_tx_Inl: "m s = Inl e \<Longrightarrow> in_tx m s = (Inl e, s)"
  by (simp add: in_tx_def)

text \<open>What every call, failed or not, keeps of the state it leaves.\<close>

definition act_inv :: "('s \<Rightarrow> bool) \<Rightarrow> ('e, 's, 'a) act \<Rightarrow> bool" where
  "act_inv P m \<longleftrightarrow> (\<forall>s. P s \<longrightarrow> P (snd (m s)))"

lemma act_inv_in_tx: "(\<And>s a s'. P s \<Longrightarrow> m s = Inr (a, s') \<Longrightarrow> P s') \<Longrightarrow> act_inv P (in_tx m)"
  by (auto simp: act_inv_def in_tx_def split: sum.splits)

lemma act_inv_pure: "act_inv P (act_return a)" "act_inv P (act_throw e)" "act_inv P (act_read f)"
  by (simp_all add: act_inv_def)

lemma act_inv_bind: "act_inv P m \<Longrightarrow> (\<And>a. act_inv P (f a)) \<Longrightarrow> act_inv P (act_bind m f)"
  by (auto simp: act_inv_def act_bind_def split: prod.splits sum.splits)

lemma act_inv_catch: "act_inv P m \<Longrightarrow> (\<And>e. act_inv P (h e)) \<Longrightarrow> act_inv P (act_catch m h)"
  by (auto simp: act_inv_def act_catch_def split: prod.splits sum.splits)

lemma act_inv_if: "act_inv P m \<Longrightarrow> act_inv P n \<Longrightarrow> act_inv P (if b then m else n)"
  by simp

lemma act_inv_option: "act_inv P m \<Longrightarrow> (\<And>x. act_inv P (f x)) \<Longrightarrow> act_inv P (case v of None \<Rightarrow> m | Some x \<Rightarrow> f x)"
  by (cases v) auto

lemma act_inv_fold: "(\<And>x b. act_inv P (f x b)) \<Longrightarrow> act_inv P (act_fold f xs b)"
  by (induction xs arbitrary: b) (auto intro: act_inv_pure act_inv_bind)

lemmas act_inv_rules = act_inv_pure act_inv_bind act_inv_catch act_inv_if act_inv_option act_inv_fold

text \<open>What every call, failed or not, did to the state it found.\<close>

definition act_rel :: "('s \<Rightarrow> 's \<Rightarrow> bool) \<Rightarrow> ('e, 's, 'a) act \<Rightarrow> bool" where
  "act_rel R m \<longleftrightarrow> (\<forall>s. R s (snd (m s)))"

lemma act_rel_pure: "reflp R \<Longrightarrow> act_rel R (act_return a)" "reflp R \<Longrightarrow> act_rel R (act_throw e)" "reflp R \<Longrightarrow> act_rel R (act_read f)"
  by (simp_all add: act_rel_def reflpD)

lemma act_rel_bind:
  assumes "transp R" and "act_rel R m" and "\<And>a. act_rel R (f a)"
  shows "act_rel R (act_bind m f)"
  unfolding act_rel_def
proof
  fix s
  have "R s (snd (m s))" "\<And>a. R (snd (m s)) (snd (f a (snd (m s))))" using assms(2,3) by (simp_all add: act_rel_def)
  then show "R s (snd (act_bind m f s))"
    by (auto simp: act_bind_def split: prod.split sum.split intro: transpD [OF assms(1)])
qed

lemma act_rel_catch:
  assumes "transp R" and "act_rel R m" and "\<And>e. act_rel R (h e)"
  shows "act_rel R (act_catch m h)"
  unfolding act_rel_def
proof
  fix s
  have "R s (snd (m s))" "\<And>e. R (snd (m s)) (snd (h e (snd (m s))))" using assms(2,3) by (simp_all add: act_rel_def)
  then show "R s (snd (act_catch m h s))"
    by (auto simp: act_catch_def split: prod.split sum.split intro: transpD [OF assms(1)])
qed

lemma act_rel_if: "act_rel R m \<Longrightarrow> act_rel R n \<Longrightarrow> act_rel R (if b then m else n)"
  by simp

lemma act_rel_option: "act_rel R m \<Longrightarrow> (\<And>x. act_rel R (f x)) \<Longrightarrow> act_rel R (case v of None \<Rightarrow> m | Some x \<Rightarrow> f x)"
  by (cases v) auto

lemma act_rel_prod: "(\<And>a b. act_rel R (f a b)) \<Longrightarrow> act_rel R (case v of (a, b) \<Rightarrow> f a b)"
  by (cases v) auto

lemma act_rel_in_tx: "reflp R \<Longrightarrow> tx_rel R m \<Longrightarrow> act_rel R (in_tx m)"
  by (auto simp: act_rel_def in_tx_def tx_rel_def reflpD split: sum.splits)

lemma act_rel_fold:
  assumes "reflp R" "transp R" "\<And>x b. act_rel R (f x b)"
  shows "act_rel R (act_fold f xs b)"
  using assms by (induction xs arbitrary: b) (auto intro: act_rel_pure act_rel_bind)

lemmas act_rel_rules = act_rel_pure act_rel_bind act_rel_catch act_rel_if act_rel_option act_rel_prod act_rel_in_tx act_rel_fold

lemma act_inv_prod: "(\<And>a b. act_inv P (f a b)) \<Longrightarrow> act_inv P (case v of (a, b) \<Rightarrow> f a b)"
  by (cases v) auto

text \<open>A run of such calls, each leaving what it committed, and the contract of a service of them.\<close>

fun run_acts :: "('o \<Rightarrow> ('e, 's, 'a) act) \<Rightarrow> 'o list \<Rightarrow> 's \<Rightarrow> 's" where
  "run_acts step [] s = s"
| "run_acts step (x # xs) s = run_acts step xs (snd (step x s))"

locale calls =
  fixes step :: "'o \<Rightarrow> ('e, 's, 'a) act" and inv :: "'s \<Rightarrow> bool"
  assumes step_inv: "act_inv inv (step x)"
begin

lemma run_inv: "inv s \<Longrightarrow> inv (run_acts step xs s)"
  using step_inv by (induction xs arbitrary: s) (auto simp: act_inv_def)

end

section \<open>Numbers\<close>

text \<open>
  \<^verbatim>\<open>new Date(x)\<close> of a number of milliseconds drops the fraction (\<^verbatim>\<open>TimeClip\<close>). A policy
  number may have one.
\<close>

definition js_date :: "rat \<Rightarrow> instant" where
  "js_date x = (if 0 \<le> x then \<lfloor>x\<rfloor> else \<lceil>x\<rceil>)"

text \<open>
  \<^verbatim>\<open>CoinService.apply\<close> with an amount that comes from a policy number: \<^verbatim>\<open>Number.isInteger\<close> is
  tested before anything else.
\<close>

definition coin_apply_number :: "rat \<Rightarrow> (int \<Rightarrow> coin_input) \<Rightarrow> (error, db, coin_movement) tx" where
  "coin_apply_number amount mk =
     tx_bind (tx_guard (isInteger amount) (app_error ''INTERNAL_ERROR'')) (\<lambda>_. coin_apply (mk \<lfloor>amount\<rfloor>))"

lemma isInteger_of_int [simp]: "isInteger (of_int i)"
  by (simp add: isInteger_def)

lemma coin_apply_number_int [simp]: "coin_apply_number (of_int i) mk = coin_apply (mk i)"
  by (simp add: coin_apply_number_def)

end
