(* ===== verification/Moderation.thy ===== *)
theory Moderation
  imports World
begin

text \<open>
  What judges a text (\<^verbatim>\<open>moderation/blacklist.service.ts\<close>, \<^verbatim>\<open>moderation/moderation.service.ts\<close>):
  the blacklist in force, the three ways a term matches, the verdict and the case it opens.
  The engine behind \<^verbatim>\<open>new RegExp(source, 'u')\<close> belongs to the runtime: it answers nothing for a
  source that does not compile.
\<close>

record text_runtime =
  tr_unicode :: unicode
  tr_regex :: "utext \<Rightarrow> utext \<Rightarrow> bool option"

definition MAX_REGEX_SUBJECT_LENGTH :: nat where "MAX_REGEX_SUBJECT_LENGTH = 4000"

text \<open>\<^verbatim>\<open>s.length\<close> counts UTF-16 units.\<close>

definition utf16_length :: "utext \<Rightarrow> nat" where
  "utf16_length t = sum_list (map (\<lambda>c. if c < 65536 then 1 else 2) t)"

text \<open>\<^verbatim>\<open>s.text_includes(p)\<close> and \<^verbatim>\<open>s.split(' ')\<close>.\<close>

fun text_includes :: "utext \<Rightarrow> utext \<Rightarrow> bool" where
  "text_includes [] p = (p = [])"
| "text_includes (c # cs) p = (take (length p) (c # cs) = p \<or> text_includes cs p)"

fun split_spaces :: "utext \<Rightarrow> utext list" where
  "split_spaces [] = [[]]"
| "split_spaces (c # cs) =
     (if c = 32 then [] # split_spaces cs
      else (case split_spaces cs of [] \<Rightarrow> [[c]] | word # words \<Rightarrow> (c # word) # words))"

record blacklist =
  bl_version :: nat
  bl_rules :: "blacklist_term_row list"

definition load_blacklist :: "world \<Rightarrow> blacklist" where
  "load_blacklist w = \<lparr>bl_version = foldr max (blacklist_versions w) 0, bl_rules = filter bt_active (blacklist_terms w)\<rparr>"

definition regexMatches :: "text_runtime \<Rightarrow> blacklist_term_row \<Rightarrow> utext \<Rightarrow> bool" where
  "regexMatches rt rule normalized =
     (if MAX_REGEX_SUBJECT_LENGTH < utf16_length normalized then False
      else (case tr_regex rt (bt_normalized rule) normalized of None \<Rightarrow> False | Some b \<Rightarrow> b))"

definition ruleMatches :: "text_runtime \<Rightarrow> blacklist_term_row \<Rightarrow> utext \<Rightarrow> utext list \<Rightarrow> bool" where
  "ruleMatches rt rule normalized tokens =
     (case bt_pattern rule of
        BP_EXACT \<Rightarrow> list_all (\<lambda>part. part = [] \<or> List.member tokens part) (split_spaces (bt_normalized rule))
      | BP_SUBSTRING \<Rightarrow> text_includes normalized (bt_normalized rule)
      | BP_REGEX \<Rightarrow> regexMatches rt rule normalized)"

definition toMatch :: "blacklist_term_row \<Rightarrow> blacklist_match" where
  "toMatch rule = \<lparr>bm_id = bt_id rule, bm_raw = bt_raw rule, bm_pattern = bt_pattern rule,
     bm_severity = bt_severity rule, bm_category = bt_category rule\<rparr>"

definition blacklist_match_text :: "text_runtime \<Rightarrow> utext \<Rightarrow> blacklist_term_row list \<Rightarrow> blacklist_match list" where
  "blacklist_match_text rt rawText rules =
     (let normalized = normalize (tr_unicode rt) rawText;
          tokens = tokenize (tr_unicode rt) normalized
      in map toMatch (filter (\<lambda>rule. ruleMatches rt rule normalized tokens) rules))"

datatype moderation_decision = CLEAN | FLAG | BLOCK

record content_scan =
  cs_decision :: moderation_decision
  cs_matches :: "blacklist_match list"
  cs_version :: nat

definition decisionFor :: "blacklist_match list \<Rightarrow> moderation_decision" where
  "decisionFor matches =
     (if length matches = 0 then CLEAN
      else if list_ex (\<lambda>m. bm_severity m = BS_BLOCK) matches then BLOCK else FLAG)"

definition scanText :: "text_runtime \<Rightarrow> utext \<Rightarrow> world \<Rightarrow> content_scan" where
  "scanText rt txt w =
     (let blacklist = load_blacklist w;
          matches = blacklist_match_text rt txt (bl_rules blacklist)
      in \<lparr>cs_decision = decisionFor matches, cs_matches = matches, cs_version = bl_version blacklist\<rparr>)"

text \<open>The title, the description and the two free labels of an event, judged as one text.\<close>

fun join_lines :: "utext list \<Rightarrow> utext" where
  "join_lines [] = []"
| "join_lines [t] = t"
| "join_lines (t # ts) = t @ 10 # join_lines ts"

definition scanEventContent ::
  "text_runtime \<Rightarrow> utext \<Rightarrow> utext \<Rightarrow> utext option \<Rightarrow> utext option \<Rightarrow> world \<Rightarrow> content_scan \<times> utext \<times> utext" where
  "scanEventContent rt title description customCategoryLabel districtLabel w =
     (let blacklist = load_blacklist w;
          parts = [title, description, case_option [] (\<lambda>t. t) customCategoryLabel, case_option [] (\<lambda>t. t) districtLabel];
          matches = blacklist_match_text rt (join_lines (filter (\<lambda>part. part \<noteq> []) parts)) (bl_rules blacklist)
      in (\<lparr>cs_decision = decisionFor matches, cs_matches = matches, cs_version = bl_version blacklist\<rparr>,
          normalize (tr_unicode rt) title, normalize (tr_unicode rt) description))"

definition openCase :: "moderation_subject_type \<Rightarrow> id \<Rightarrow> content_scan \<Rightarrow> (error, world, id) tx" where
  "openCase subjectType subjectId scan =
     tx_bind fresh (\<lambda>i.
     tx_bind (tx_modify (\<lambda>w. w\<lparr>moderation_cases := moderation_cases w @
       [\<lparr>mc_id = i, mc_subject_type = subjectType, mc_subject = subjectId, mc_trigger = TRIGGER_AUTO_BLACKLIST,
         mc_status = CASE_OPEN, mc_blacklist_version = Some (cs_version scan), mc_matched_terms = Some (cs_matches scan)\<rparr>]\<rparr>)) (\<lambda>_.
     tx_return i))"

lemma openCase_wp [wp_simps]:
  "tx_wp (openCase st i scan) Q = (\<lambda>w. Q (next_id (base w)) (w\<lparr>base := (base w)\<lparr>next_id := next_id (base w) + 1\<rparr>,
     moderation_cases := moderation_cases w @
       [\<lparr>mc_id = next_id (base w), mc_subject_type = st, mc_subject = i, mc_trigger = TRIGGER_AUTO_BLACKLIST,
         mc_status = CASE_OPEN, mc_blacklist_version = Some (cs_version scan), mc_matched_terms = Some (cs_matches scan)\<rparr>]\<rparr>))"
  by (rule ext) (simp add: openCase_def wp_simps)

lemma openCase_ok [ok_simps]: "tx_ok (openCase st i scan) w"
  by (simp add: openCase_def ok_simps wp_simps)

end
