(* ===== verification/Reviews.thy ===== *)
theory Reviews
  imports Moderation
begin

text \<open>
  Double-blind reviews (\<^verbatim>\<open>packages/domain/src/reviews/review.service.ts\<close>), in the order of the
  source. A pair is opened when an attendance is settled; each side writes one review in its
  window; both become visible together, or at the deadline, or never. Definitions only; the
  theory Review_Invariant holds what they keep.

  The policy numbers \<^verbatim>\<open>submit\<close> reads before its transaction are read at the state the
  transaction starts in.
\<close>

section \<open>Constants and projections\<close>

definition REVIEW_REWARD_REASON :: string where "REVIEW_REWARD_REASON = ''review.submitted''"
definition REVIEW_RATING_REASON :: string where "REVIEW_RATING_REASON = ''review.rating''"

definition reviewRewardKey :: "id \<Rightarrow> string" where
  "reviewRewardKey reviewId = ''review-reward:'' @ show_id reviewId"

definition reviewTrustKey :: "id \<Rightarrow> string" where
  "reviewTrustKey reviewId = ''trust-review:'' @ show_id reviewId"

datatype reviewer_role = HOST | GUEST

record submit_review_input =
  sr_rating :: rat
  sr_tags :: "string list option"
  sr_comment :: "utext option"

record pending_review =
  pn_participant_public_id :: id
  pn_event_public_id :: id
  pn_event_title :: string
  pn_reviewee_public_id :: id
  pn_reviewee_display_name :: string
  pn_role :: reviewer_role
  pn_opens_at :: instant
  pn_deadline_at :: instant

record revealed_review =
  rr_public_id :: id
  rr_rating :: int
  rr_tags :: "string list"
  rr_comment :: "utext option"
  rr_submitted_at :: instant
  rr_revealed_at :: "instant option"
  rr_without_counterpart :: bool

record editable_review =
  er_participant_public_id :: id
  er_event_title :: string
  er_reviewee_display_name :: string
  er_rating :: int
  er_editable_until :: instant

record own_review =
  or_public_id :: id
  or_participant_public_id :: id
  or_rating :: int
  or_tags :: "string list"
  or_comment :: "utext option"
  or_submitted_at :: instant
  or_editable_until :: "instant option"
  or_revealed :: bool

text \<open>The name shown for an account without a profile; its Persian text is left out.\<close>

definition NAMELESS :: string where "NAMELESS = ''user''"

definition display_name :: "db \<Rightarrow> id \<Rightarrow> string" where
  "display_name s u = (case profiles s u of None \<Rightarrow> NAMELESS | Some p \<Rightarrow> pr_display_name p)"

section \<open>The tables\<close>

definition review_by_id :: "id \<Rightarrow> world \<Rightarrow> review_row option" where
  "review_by_id i w = find (\<lambda>r. rw_id r = i) (reviews w)"

definition pair_by_id :: "id \<Rightarrow> world \<Rightarrow> pair_row option" where
  "pair_by_id i w = find (\<lambda>p. pair_id p = i) (review_pairs w)"

definition pair_by_participant :: "id \<Rightarrow> world \<Rightarrow> pair_row option" where
  "pair_by_participant i w = find (\<lambda>p. pair_participant p = i) (review_pairs w)"

definition review_of :: "id \<Rightarrow> id \<Rightarrow> world \<Rightarrow> review_row option" where
  "review_of participant reviewer w =
     find (\<lambda>r. rw_participant r = participant \<and> rw_reviewer r = reviewer) (reviews w)"

text \<open>The CHECKs of migration 11 on the two tables.\<close>

definition review_checks :: "review_row \<Rightarrow> bool" where
  "review_checks r \<longleftrightarrow> 1 \<le> rw_rating r \<and> rw_rating r \<le> 5 \<and> rw_reviewer r \<noteq> rw_reviewee r
     \<and> (case rw_comment r of None \<Rightarrow> True | Some c \<Rightarrow> length c \<le> 500)
     \<and> (rw_status r = RV_SUBMITTED) = (rw_revealed_at r = None)
     \<and> length (rw_tags r) \<le> 5"

definition pair_contents :: "pair_row \<Rightarrow> bool" where
  "pair_contents p =
     (case pair_status p of
        RP_PENDING \<Rightarrow> pair_host_review p = None \<and> pair_guest_review p = None
      | RP_PARTIAL \<Rightarrow> (pair_host_review p = None) \<noteq> (pair_guest_review p = None)
      | RP_REVEALED \<Rightarrow> pair_host_review p \<noteq> None \<and> pair_guest_review p \<noteq> None
      | RP_EXPIRED_PARTIAL \<Rightarrow> (pair_host_review p = None) \<noteq> (pair_guest_review p = None)
      | RP_EXPIRED_EMPTY \<Rightarrow> pair_host_review p = None \<and> pair_guest_review p = None)"

definition pair_checks :: "pair_row \<Rightarrow> bool" where
  "pair_checks p \<longleftrightarrow> pair_opens_at p < pair_deadline_at p \<and> pair_contents p
     \<and> List.member [RP_PENDING, RP_PARTIAL] (pair_status p) = (pair_revealed_at p = None)"

text \<open>The UNIQUE indices on the two review columns of a pair.\<close>

definition pair_unique :: "pair_row \<Rightarrow> pair_row list \<Rightarrow> bool" where
  "pair_unique p rows \<longleftrightarrow> (\<forall>q\<in>set rows. pair_id q \<noteq> pair_id p \<longrightarrow>
     (pair_host_review p = None \<or> pair_host_review q \<noteq> pair_host_review p)
     \<and> (pair_guest_review p = None \<or> pair_guest_review q \<noteq> pair_guest_review p))"

definition review_create :: "(id \<Rightarrow> id \<Rightarrow> review_row) \<Rightarrow> (error, world, review_row) tx" where
  "review_create mk =
     tx_bind fresh (\<lambda>i.
     tx_bind fresh (\<lambda>pub.
     tx_bind (tx_guard (review_checks (mk i pub)) (DbError ''review constraint'')) (\<lambda>_.
     tx_bind (tx_read (review_of (rw_participant (mk i pub)) (rw_reviewer (mk i pub)))) (\<lambda>clash.
     tx_bind (tx_guard (clash = None) (app_error ''ALREADY_REVIEWED'')) (\<lambda>_.
     tx_bind (tx_modify (\<lambda>w. w\<lparr>reviews := reviews w @ [mk i pub]\<rparr>)) (\<lambda>_.
     tx_return (mk i pub)))))))"

definition review_update :: "id \<Rightarrow> (review_row \<Rightarrow> review_row) \<Rightarrow> (error, world, unit) tx" where
  "review_update i f =
     tx_bind (tx_read (review_by_id i)) (\<lambda>r.
     tx_bind (tx_some r (DbError ''review not found'')) (\<lambda>r.
     tx_bind (tx_guard (review_checks (f r)) (DbError ''review constraint'')) (\<lambda>_.
     tx_modify (\<lambda>w. w\<lparr>reviews := update_where (\<lambda>q. rw_id q = i) (\<lambda>_. f r) (reviews w)\<rparr>))))"

definition pair_update :: "id \<Rightarrow> (pair_row \<Rightarrow> pair_row) \<Rightarrow> (error, world, unit) tx" where
  "pair_update i f =
     tx_bind (tx_read (pair_by_id i)) (\<lambda>p.
     tx_bind (tx_some p (DbError ''review_pair not found'')) (\<lambda>p.
     tx_bind (tx_read review_pairs) (\<lambda>rows.
     tx_bind (tx_guard (pair_checks (f p) \<and> pair_unique (f p) rows) (DbError ''review_pair constraint'')) (\<lambda>_.
     tx_modify (\<lambda>w. w\<lparr>review_pairs := update_where (\<lambda>q. pair_id q = i) (\<lambda>_. f p) (review_pairs w)\<rparr>)))))"

section \<open>What is public\<close>

text \<open>\<^verbatim>\<open>pairAsHost\<close> and \<^verbatim>\<open>pairAsGuest\<close>: the pair a review stands in.\<close>

definition pair_as_host :: "id \<Rightarrow> world \<Rightarrow> pair_row option" where
  "pair_as_host i w = find (\<lambda>p. pair_host_review p = Some i) (review_pairs w)"

definition pair_as_guest :: "id \<Rightarrow> world \<Rightarrow> pair_row option" where
  "pair_as_guest i w = find (\<lambda>p. pair_guest_review p = Some i) (review_pairs w)"

definition in_revealed_pair :: "pair_row option \<Rightarrow> bool" where
  "in_revealed_pair p = (case p of None \<Rightarrow> False | Some p \<Rightarrow> List.member REVEALED_PAIR_STATUSES (pair_status p))"

definition visibleAbout :: "id \<Rightarrow> world \<Rightarrow> review_row \<Rightarrow> bool" where
  "visibleAbout revieweeUserId w r \<longleftrightarrow>
     rw_reviewee r = revieweeUserId \<and> rw_status r = RV_REVEALED
     \<and> List.member [M_APPROVED, M_FLAGGED] (rw_moderation r)
     \<and> (in_revealed_pair (pair_as_host (rw_id r) w) \<or> in_revealed_pair (pair_as_guest (rw_id r) w))"

definition RATING_TRUST_KEYS :: "int \<Rightarrow> string option" where
  "RATING_TRUST_KEYS rating = map_of [(5, ''trust.review_rating_5''), (4, ''trust.review_rating_4''),
     (3, ''trust.review_rating_3''), (2, ''trust.review_rating_2''), (1, ''trust.review_rating_1'')] rating"

definition user_by_public_id :: "id \<Rightarrow> world \<Rightarrow> id option" where
  "user_by_public_id p w = List.find (\<lambda>u. case users (base w) u of None \<Rightarrow> False | Some r \<Rightarrow> us_public_id r = p)
     (map fst (user_created_at w))"

section \<open>The service\<close>

definition rewardFor :: "id \<Rightarrow> rat \<Rightarrow> rat \<Rightarrow> rat \<Rightarrow> instant \<Rightarrow> db \<Rightarrow> rat" where
  "rewardFor userId reward cap days now s =
     (if reward \<le> 0 \<or> cap \<le> 0 \<or> days \<le> 0 then max reward 0
      else (let since = js_date (of_int now - days * 24 * 3600000);
                earned = earnedSince userId since [REVIEW_REWARD] None s
            in max 0 (min reward (cap - of_int (fst earned)))))"

definition judge :: "text_runtime \<Rightarrow> utext option \<Rightarrow> world \<Rightarrow> moderation_status \<times> content_scan option" where
  "judge rt comment w =
     (case comment of
        None \<Rightarrow> (M_APPROVED, None)
      | Some c \<Rightarrow>
          if trim_text c = [] then (M_APPROVED, None)
          else (let scan = scanText rt c w
                in if cs_decision scan = CLEAN then (M_APPROVED, None)
                   else (if cs_decision scan = FLAG then M_FLAGGED else M_PENDING, Some scan)))"

definition openForParticipant :: "id \<Rightarrow> id \<Rightarrow> instant \<Rightarrow> (error, world, unit) tx" where
  "openForParticipant participantId eventId endsAt =
     tx_bind (tx_read (\<lambda>w. (getInt ''review.window_opens_hours'' (base w), getInt ''review.window_deadline_days'' (base w)))) (\<lambda>(opensHours, deadlineDays).
     (let opensAt = endsAt + opensHours * 3600000;
          deadlineAt = endsAt + deadlineDays * 24 * 3600000
      in tx_bind fresh (\<lambda>i.
         tx_bind (tx_guard (opensAt < deadlineAt) (DbError ''review_pair_window_ordered'')) (\<lambda>_.
         tx_bind (tx_read (\<lambda>w. (participant_by_id participantId (base w), event_by_id eventId (base w)))) (\<lambda>(participant, event).
         tx_bind (tx_guard (participant \<noteq> None \<and> event \<noteq> None) (DbError ''review_pair foreign key'')) (\<lambda>_.
         tx_modify (\<lambda>w.
           case pair_by_participant participantId w of
             Some _ \<Rightarrow> w
           | None \<Rightarrow> w\<lparr>review_pairs := review_pairs w @
               [\<lparr>pair_id = i, pair_participant = participantId, pair_event = eventId, pair_host_review = None,
                 pair_guest_review = None, pair_opens_at = opensAt, pair_deadline_at = deadlineAt,
                 pair_status = RP_PENDING, pair_revealed_at = None, pair_reminded_at = None\<rparr>]\<rparr>)))))))"

text \<open>The participation and the event a pair joins to; the foreign keys say that both exist.\<close>

definition pair_joins :: "pair_row \<Rightarrow> db \<Rightarrow> (participant_row \<times> event_row) option" where
  "pair_joins p s =
     (case participant_by_id (pair_participant p) s of
        None \<Rightarrow> None
      | Some participant \<Rightarrow>
          (case event_by_id (pt_event participant) s of
             None \<Rightarrow> None
           | Some event \<Rightarrow> Some (participant, event)))"

definition public_id :: "db \<Rightarrow> id \<Rightarrow> id" where
  "public_id s u = (case users s u of None \<Rightarrow> 0 | Some row \<Rightarrow> us_public_id row)"

definition pending_entry :: "id \<Rightarrow> db \<Rightarrow> pair_row \<Rightarrow> pending_review option" where
  "pending_entry userId s pair =
     (case pair_joins pair s of
        None \<Rightarrow> None
      | Some (participant, event) \<Rightarrow>
          (let role = (if ev_host event = userId then HOST else GUEST);
               counterpart = (if role = HOST then pt_user participant else ev_host event);
               mine = (if role = HOST then pair_host_review pair else pair_guest_review pair)
           in if mine \<noteq> None then None
              else Some \<lparr>pn_participant_public_id = pt_public_id participant, pn_event_public_id = ev_public_id event,
                pn_event_title = ev_title event, pn_reviewee_public_id = public_id s counterpart,
                pn_reviewee_display_name = display_name s counterpart, pn_role = role,
                pn_opens_at = pair_opens_at pair, pn_deadline_at = pair_deadline_at pair\<rparr>))"

definition listPending :: "id \<Rightarrow> bool \<Rightarrow> world \<Rightarrow> pending_review list" where
  "listPending userId includeUnopened w =
     (let s = base w; now = clock s;
          pairs = take 100 (sort_key pair_deadline_at (filter (\<lambda>p.
            List.member [RP_PENDING, RP_PARTIAL] (pair_status p)
            \<and> (includeUnopened \<or> pair_opens_at p \<le> now)
            \<and> now < pair_deadline_at p
            \<and> (case pair_joins p s of None \<Rightarrow> False
               | Some (participant, event) \<Rightarrow> pt_user participant = userId \<or> ev_host event = userId))
            (review_pairs w)))
      in List.map_filter (pending_entry userId s) pairs)"

record writable =
  wt_participant_id :: id
  wt_event_id :: id
  wt_pair_id :: id
  wt_pair_status :: review_pair_status
  wt_reviewee :: id
  wt_role :: reviewer_role

definition loadWritable :: "id \<Rightarrow> id \<Rightarrow> instant \<Rightarrow> (error, world, writable) tx" where
  "loadWritable userId participantPublicId now =
     tx_bind (tx_read (\<lambda>w. participant_by_public_id participantPublicId (base w))) (\<lambda>participant.
     tx_bind (tx_some participant (app_error ''NOT_FOUND'')) (\<lambda>participant.
     tx_bind (tx_read (\<lambda>w. event_by_id (pt_event participant) (base w))) (\<lambda>event.
     tx_bind (tx_some event (DbError ''event not found'')) (\<lambda>event.
     (let isHost = ev_host event = userId;
          isGuest = pt_user participant = userId
      in tx_bind (tx_guard (isHost \<or> isGuest) (app_error ''NOT_FOUND'')) (\<lambda>_.
         tx_bind (tx_read (pair_by_participant (pt_id participant))) (\<lambda>pair.
         tx_bind (tx_some pair (app_error ''REVIEW_WINDOW_CLOSED'')) (\<lambda>pair.
         tx_bind (tx_guard (\<not> (now < pair_opens_at pair \<or> pair_deadline_at pair \<le> now))
           (app_error ''REVIEW_WINDOW_CLOSED'')) (\<lambda>_.
         tx_bind (tx_guard (pair_status pair = RP_PENDING \<or> pair_status pair = RP_PARTIAL)
           (app_error ''REVIEW_WINDOW_CLOSED'')) (\<lambda>_.
         tx_return \<lparr>wt_participant_id = pt_id participant, wt_event_id = pt_event participant,
           wt_pair_id = pair_id pair, wt_pair_status = pair_status pair,
           wt_reviewee = (if isHost then pt_user participant else ev_host event),
           wt_role = (if isHost then HOST else GUEST)\<rparr>))))))))))"

definition applyRatingTrust :: "review_row \<Rightarrow> (error, db, unit) tx" where
  "applyRatingTrust review =
     (case RATING_TRUST_KEYS (rw_rating review) of
        None \<Rightarrow> tx_return ()
      | Some key \<Rightarrow>
          tx_bind (tx_read (getInt key)) (\<lambda>delta.
          if delta = 0 then tx_return ()
          else tx_bind (trust_apply
            \<lparr>ti_user = rw_reviewee review, ti_delta = delta, ti_type = T_REVIEW, ti_reason = REVIEW_RATING_REASON,
             ti_key = reviewTrustKey (rw_id review), ti_actor_type = A_SYSTEM, ti_actor_id = None,
             ti_ref_type = Some ''review'', ti_ref_id = Some (rw_id review),
             ti_metadata = Some (JObj [(''rating'', JInt (rw_rating review))])\<rparr>) (\<lambda>_. tx_return ())))"

text \<open>One turn of the loop over \<^verbatim>\<open>[pair.hostReview, pair.guestReview]\<close>, both read before it starts.\<close>

definition revealOne :: "bool \<Rightarrow> instant \<Rightarrow> review_row option \<Rightarrow> (error, world, unit) tx" where
  "revealOne affectsTrust now review =
     (case review of
        None \<Rightarrow> tx_return ()
      | Some r \<Rightarrow>
          if rw_status r \<noteq> RV_SUBMITTED then tx_return ()
          else
            tx_bind (assertReviewTransition (rw_status r) RV_REVEALED (Some (rw_id r))) (\<lambda>_.
            tx_bind (review_update (rw_id r) (\<lambda>q. q\<lparr>rw_status := RV_REVEALED, rw_revealed_at := Some now\<rparr>)) (\<lambda>_.
            if affectsTrust then on_db (applyRatingTrust r) else tx_return ())))"

definition review_at :: "id option \<Rightarrow> world \<Rightarrow> review_row option" where
  "review_at i w = (case i of None \<Rightarrow> None | Some i \<Rightarrow> review_by_id i w)"

definition emitRevealed :: "id \<Rightarrow> participant_row \<Rightarrow> event_row \<Rightarrow> instant \<Rightarrow> review_pair_status \<Rightarrow> (error, db, unit) tx" where
  "emitRevealed pairId participant event now outcome =
     tx_bind (publicIdOf (ev_host event)) (\<lambda>hostPub.
     tx_bind (publicIdOf (pt_user participant)) (\<lambda>guestPub.
     outbox_emit ''review_pair'' pairId ''review.revealed''
       [(''participantPublicId'', JId (pt_public_id participant)), (''eventPublicId'', JId (ev_public_id event)),
        (''eventTitle'', JStr (ev_title event)), (''hostUserPublicId'', JId hostPub),
        (''guestUserPublicId'', JId guestPub), (''outcome'', JStr (review_pair_status_name outcome)),
        (''revealedAt'', JInt now)]))"

definition revealPair :: "id \<Rightarrow> instant \<Rightarrow> review_pair_status \<Rightarrow> (error, world, unit) tx" where
  "revealPair pairId now outcome =
     tx_bind (tx_read (pair_by_id pairId)) (\<lambda>pair.
     tx_bind (tx_some pair (DbError ''review_pair not found'')) (\<lambda>pair.
     tx_bind (tx_read (\<lambda>w. pair_joins pair (base w))) (\<lambda>joins.
     tx_bind (tx_some joins (DbError ''event_participant not found'')) (\<lambda>(participant, event).
     tx_bind (tx_read (\<lambda>w. (review_at (pair_host_review pair) w, review_at (pair_guest_review pair) w))) (\<lambda>(hostReview, guestReview).
     tx_bind (tx_read (\<lambda>w. outcome = RP_REVEALED
       \<or> getInt ''review.partial_reveal_affects_trust'' (base w) = 1)) (\<lambda>affectsTrust.
     tx_bind (revealOne affectsTrust now hostReview) (\<lambda>_.
     tx_bind (revealOne affectsTrust now guestReview) (\<lambda>_.
     on_db (emitRevealed pairId participant event now outcome)))))))))"

definition valid_rating :: "rat \<Rightarrow> bool" where
  "valid_rating r \<longleftrightarrow> \<not> (\<not> isInteger r \<or> r < 1 \<or> r > 5)"

definition review_reward_input :: "id \<Rightarrow> id \<Rightarrow> int \<Rightarrow> coin_input" where
  "review_reward_input userId reviewId amount =
     \<lparr>ci_user = userId, ci_amount = amount, ci_type = REVIEW_REWARD, ci_reason = REVIEW_REWARD_REASON,
      ci_key = reviewRewardKey reviewId, ci_actor_type = A_SYSTEM, ci_actor_id = None,
      ci_ref_type = Some ''review'', ci_ref_id = Some reviewId, ci_metadata = None, ci_reverses = None\<rparr>"

definition openCaseIfAny :: "id \<Rightarrow> content_scan option \<Rightarrow> (error, world, unit) tx" where
  "openCaseIfAny reviewId scan =
     (case scan of
        None \<Rightarrow> tx_return ()
      | Some sc \<Rightarrow> tx_bind (openCase SUBJECT_REVIEW reviewId sc) (\<lambda>_. tx_return ()))"

definition payReview :: "id \<Rightarrow> id \<Rightarrow> rat \<Rightarrow> (error, db, unit) tx" where
  "payReview userId reviewId reward =
     (if 0 < reward
      then tx_bind (coin_apply_number reward (review_reward_input userId reviewId)) (\<lambda>_. tx_return ())
      else tx_return ())"

text \<open>The transaction of \<open>submit\<close> from the inserted row on.\<close>

definition afterReview ::
  "id \<Rightarrow> id \<Rightarrow> submit_review_input \<Rightarrow> instant \<Rightarrow> writable \<Rightarrow> content_scan option \<Rightarrow> review_row
   \<Rightarrow> (error, world, own_review) tx" where
  "afterReview userId participantPublicId input now context scan review =
     tx_bind (openCaseIfAny (rw_id review) scan) (\<lambda>_.
     (let isHost = wt_role context = HOST;
          nextStatus = (if wt_pair_status context = RP_PENDING then RP_PARTIAL else RP_REVEALED)
      in
     tx_bind (assertReviewPairTransition (wt_pair_status context) nextStatus (Some (wt_pair_id context))) (\<lambda>_.
     tx_bind (pair_update (wt_pair_id context) (\<lambda>p.
       (if isHost then p\<lparr>pair_host_review := Some (rw_id review)\<rparr> else p\<lparr>pair_guest_review := Some (rw_id review)\<rparr>)
         \<lparr>pair_status := nextStatus,
          pair_revealed_at := (if nextStatus = RP_REVEALED then Some now else pair_revealed_at p)\<rparr>)) (\<lambda>_.
     tx_bind (tx_read (\<lambda>w. rewardFor userId (getNumber ''economy.review_reward_coins'' (base w))
       (getNumber ''economy.review_reward_cap'' (base w)) (getNumber ''economy.earning_cap_days'' (base w)) now (base w))) (\<lambda>reward.
     tx_bind (on_db (payReview userId (rw_id review) reward)) (\<lambda>_.
     tx_bind (if nextStatus = RP_REVEALED then revealPair (wt_pair_id context) now RP_REVEALED else tx_return ()) (\<lambda>_.
     tx_bind (on_db (audit_record A_USER (Some userId) ''review.submitted'' ''review'' (Some (rw_id review)) None
       (Some (JObj [(''rating'', JInt \<lfloor>sr_rating input\<rfloor>), (''pairStatus'', JStr (review_pair_status_name nextStatus))])))) (\<lambda>_.
     tx_return
       \<lparr>or_public_id = rw_public_id review, or_participant_public_id = participantPublicId,
        or_rating = \<lfloor>sr_rating input\<rfloor>, or_tags = (case sr_tags input of None \<Rightarrow> [] | Some t \<Rightarrow> t),
        or_comment = sr_comment input, or_submitted_at = now,
        or_editable_until = (if nextStatus = RP_REVEALED then None else Some (rw_edit_deadline_at review)),
        or_revealed = (nextStatus = RP_REVEALED)\<rparr>))))))))"

definition new_review ::
  "writable \<Rightarrow> id \<Rightarrow> submit_review_input \<Rightarrow> moderation_status \<Rightarrow> instant \<Rightarrow> int \<Rightarrow> id \<Rightarrow> id \<Rightarrow> review_row" where
  "new_review context userId input verdict now editMinutes i pub =
     \<lparr>rw_id = i, rw_public_id = pub, rw_event = wt_event_id context, rw_participant = wt_participant_id context,
      rw_reviewer = userId, rw_reviewee = wt_reviewee context, rw_rating = \<lfloor>sr_rating input\<rfloor>,
      rw_tags = (case sr_tags input of None \<Rightarrow> [] | Some t \<Rightarrow> t), rw_comment = sr_comment input,
      rw_status = RV_SUBMITTED, rw_moderation = verdict, rw_submitted_at = now, rw_revealed_at = None,
      rw_edit_deadline_at = now + editMinutes * 60000\<rparr>"

definition review_submit :: "text_runtime \<Rightarrow> id \<Rightarrow> id \<Rightarrow> submit_review_input \<Rightarrow> (error, world, own_review) tx" where
  "review_submit rt userId participantPublicId input =
     tx_bind (tx_read now_of) (\<lambda>now.
     tx_bind (tx_guard (valid_rating (sr_rating input))
       (AppError ''VALIDATION_FAILED'' [(''field'', JStr ''rating'')])) (\<lambda>_.
     tx_bind (tx_read (\<lambda>w. getInt ''review.edit_window_minutes'' (base w))) (\<lambda>editMinutes.
     tx_bind (loadWritable userId participantPublicId now) (\<lambda>context.
     tx_bind (tx_read (judge rt (sr_comment input))) (\<lambda>(verdict, scan).
     tx_bind (review_create (new_review context userId input verdict now editMinutes)) (\<lambda>review.
     afterReview userId participantPublicId input now context scan review))))))"

definition review_edit :: "text_runtime \<Rightarrow> id \<Rightarrow> id \<Rightarrow> submit_review_input \<Rightarrow> (error, world, own_review) tx" where
  "review_edit rt userId participantPublicId input =
     tx_bind (tx_read now_of) (\<lambda>now.
     tx_bind (tx_guard (valid_rating (sr_rating input))
       (AppError ''VALIDATION_FAILED'' [(''field'', JStr ''rating'')])) (\<lambda>_.
     tx_bind (tx_read (\<lambda>w. participant_by_public_id participantPublicId (base w))) (\<lambda>participant.
     tx_bind (tx_some participant (app_error ''NOT_FOUND'')) (\<lambda>participant.
     tx_bind (tx_read (review_of (pt_id participant) userId)) (\<lambda>review.
     tx_bind (tx_some review (app_error ''NOT_FOUND'')) (\<lambda>review.
     tx_bind (tx_guard (rw_status review = RV_SUBMITTED) (app_error ''REVIEW_NOT_EDITABLE'')) (\<lambda>_.
     tx_bind (tx_guard (\<not> rw_edit_deadline_at review \<le> now) (app_error ''REVIEW_NOT_EDITABLE'')) (\<lambda>_.
     tx_bind (tx_read (judge rt (sr_comment input))) (\<lambda>(verdict, scan).
     tx_bind (review_update (rw_id review) (\<lambda>r. r
       \<lparr>rw_rating := \<lfloor>sr_rating input\<rfloor>, rw_tags := (case sr_tags input of None \<Rightarrow> [] | Some t \<Rightarrow> t),
        rw_comment := sr_comment input, rw_moderation := verdict\<rparr>)) (\<lambda>_.
     tx_bind (openCaseIfAny (rw_id review) scan) (\<lambda>_.
     tx_bind (on_db (audit_record A_USER (Some userId) ''review.edited'' ''review'' (Some (rw_id review)) None
       (Some (JObj [(''rating'', JInt \<lfloor>sr_rating input\<rfloor>)])))) (\<lambda>_.
     tx_return
       \<lparr>or_public_id = rw_public_id review, or_participant_public_id = participantPublicId,
        or_rating = \<lfloor>sr_rating input\<rfloor>, or_tags = (case sr_tags input of None \<Rightarrow> [] | Some t \<Rightarrow> t),
        or_comment = sr_comment input, or_submitted_at = rw_submitted_at review,
        or_editable_until = Some (rw_edit_deadline_at review), or_revealed = False\<rparr>))))))))))))"

definition listForUser :: "id \<Rightarrow> int \<Rightarrow> (error, world, revealed_review list) tx" where
  "listForUser revieweePublicId limit =
     tx_bind (tx_read (\<lambda>w. user_by_public_id revieweePublicId w)) (\<lambda>user.
     tx_bind (tx_some user (app_error ''NOT_FOUND'')) (\<lambda>user.
     tx_read (\<lambda>w.
       map (\<lambda>row. \<lparr>rr_public_id = rw_public_id row, rr_rating = rw_rating row, rr_tags = rw_tags row,
              rr_comment = rw_comment row, rr_submitted_at = rw_submitted_at row, rr_revealed_at = rw_revealed_at row,
              rr_without_counterpart =
                ((case pair_as_host (rw_id row) w of Some p \<Rightarrow> Some (pair_status p)
                  | None \<Rightarrow> map_option pair_status (pair_as_guest (rw_id row) w)) = Some RP_EXPIRED_PARTIAL)\<rparr>)
         (take (nat (min (max limit 1) 100))
           (sort_key (\<lambda>r. - rw_submitted_at r) (filter (visibleAbout user w) (reviews w)))))))"

definition summaryForUser :: "id \<Rightarrow> world \<Rightarrow> nat \<times> rat option" where
  "summaryForUser revieweePublicId w =
     (case user_by_public_id revieweePublicId w of
        None \<Rightarrow> (0, None)
      | Some user \<Rightarrow>
          (let rows = filter (visibleAbout user w) (reviews w)
           in (length rows,
               if rows = [] then None
               else Some (of_int (sum_list (map rw_rating rows)) / of_nat (length rows)))))"

definition listEditable :: "id \<Rightarrow> world \<Rightarrow> editable_review list" where
  "listEditable userId w =
     (let s = base w; now = clock s
      in map (\<lambda>row. \<lparr>er_participant_public_id =
                (case participant_by_id (rw_participant row) s of None \<Rightarrow> 0 | Some p \<Rightarrow> pt_public_id p),
              er_event_title = (case event_by_id (rw_event row) s of None \<Rightarrow> [] | Some e \<Rightarrow> ev_title e),
              er_reviewee_display_name = display_name s (rw_reviewee row), er_rating = rw_rating row,
              er_editable_until = rw_edit_deadline_at row\<rparr>)
           (take 20 (sort_key rw_edit_deadline_at
             (filter (\<lambda>r. rw_reviewer r = userId \<and> rw_status r = RV_SUBMITTED \<and> now < rw_edit_deadline_at r) (reviews w)))))"

definition findOwn :: "id \<Rightarrow> id \<Rightarrow> (error, world, own_review option) tx" where
  "findOwn userId participantPublicId =
     tx_bind (tx_read now_of) (\<lambda>now.
     tx_bind (tx_read (\<lambda>w. participant_by_public_id participantPublicId (base w))) (\<lambda>participant.
     tx_bind (tx_some participant (app_error ''NOT_FOUND'')) (\<lambda>participant.
     tx_bind (tx_read (review_of (pt_id participant) userId)) (\<lambda>review.
     tx_return
       (case review of
          None \<Rightarrow> None
        | Some r \<Rightarrow>
            (let editable = (rw_status r = RV_SUBMITTED \<and> now < rw_edit_deadline_at r)
             in Some \<lparr>or_public_id = rw_public_id r, or_participant_public_id = participantPublicId,
                  or_rating = rw_rating r, or_tags = rw_tags r, or_comment = rw_comment r,
                  or_submitted_at = rw_submitted_at r,
                  or_editable_until = (if editable then Some (rw_edit_deadline_at r) else None),
                  or_revealed = (rw_status r = RV_REVEALED)\<rparr>))))))"

section \<open>The sweeps\<close>

definition review_settleOne :: "id \<Rightarrow> instant \<Rightarrow> (error, world, review_pair_status option) tx" where
  "review_settleOne pairId now =
     tx_bind (tx_read (pair_by_id pairId)) (\<lambda>pair.
     tx_bind (tx_some pair (DbError ''review_pair not found'')) (\<lambda>pair.
     if pair_status pair \<noteq> RP_PENDING \<and> pair_status pair \<noteq> RP_PARTIAL then tx_return None
     else if now < pair_deadline_at pair then tx_return None
     else
       (let nxt = (if pair_status pair = RP_PARTIAL then RP_EXPIRED_PARTIAL else RP_EXPIRED_EMPTY)
        in tx_bind (assertReviewPairTransition (pair_status pair) nxt (Some pairId)) (\<lambda>_.
           tx_bind (pair_update pairId (\<lambda>p. p\<lparr>pair_status := nxt, pair_revealed_at := Some now\<rparr>)) (\<lambda>_.
           tx_bind (if nxt = RP_EXPIRED_PARTIAL then revealPair pairId now nxt else tx_return ()) (\<lambda>_.
           tx_bind (on_db (audit_record A_SYSTEM None ''review_pair.expired'' ''review_pair'' (Some pairId)
             (Some (JObj [(''status'', JStr (review_pair_status_name (pair_status pair)))]))
             (Some (JObj [(''status'', JStr (review_pair_status_name nxt))])))) (\<lambda>_.
           tx_return (Some nxt))))))))"

definition review_due :: "world \<Rightarrow> pair_row list" where
  "review_due w = filter (\<lambda>p. List.member [RP_PENDING, RP_PARTIAL] (pair_status p) \<and> pair_deadline_at p \<le> now_of w)
     (review_pairs w)"

text \<open>Each pair in its own transaction; an error ends the sweep and keeps what is settled.\<close>

definition settleExpired :: "nat \<Rightarrow> (error, world, nat \<times> nat) act" where
  "settleExpired limit =
     act_bind (act_read now_of) (\<lambda>now.
     act_bind (act_read (\<lambda>w. map pair_id (take limit (sort_key pair_deadline_at (review_due w))))) (\<lambda>due.
     act_fold (\<lambda>i (partial, empty).
       act_bind (in_tx (review_settleOne i now)) (\<lambda>settled.
       act_return (partial + (if settled = Some RP_EXPIRED_PARTIAL then 1 else 0),
                   empty + (if settled = Some RP_EXPIRED_EMPTY then 1 else 0)))) due (0, 0)))"

definition emitWindowOpen :: "pair_row \<Rightarrow> participant_row \<Rightarrow> event_row \<Rightarrow> instant \<Rightarrow> (error, db, unit) tx" where
  "emitWindowOpen pair participant event now =
     tx_bind (publicIdOf (ev_host event)) (\<lambda>hostPub.
     tx_bind (publicIdOf (pt_user participant)) (\<lambda>guestPub.
     tx_bind (tx_read (\<lambda>s. (display_name s (ev_host event), display_name s (pt_user participant)))) (\<lambda>(hostName, guestName).
     outbox_emit ''review_pair'' (pair_id pair) ''review.window_open''
       [(''participantPublicId'', JId (pt_public_id participant)), (''eventPublicId'', JId (ev_public_id event)),
        (''eventTitle'', JStr (ev_title event)), (''hostUserPublicId'', JId hostPub),
        (''guestUserPublicId'', JId guestPub), (''hostDisplayName'', JStr hostName),
        (''guestDisplayName'', JStr guestName),
        (''daysLeft'', JInt (max (- ((now - pair_deadline_at pair) div 86400000)) 1))])))"

definition announceOne :: "id \<Rightarrow> instant \<Rightarrow> (error, world, bool) tx" where
  "announceOne pairId now =
     tx_bind (tx_read (pair_by_id pairId)) (\<lambda>pair.
     case pair of
       None \<Rightarrow> tx_return False
     | Some pair \<Rightarrow>
         if pair_reminded_at pair \<noteq> None then tx_return False
         else
           tx_bind (pair_update pairId (\<lambda>p. p\<lparr>pair_reminded_at := Some now\<rparr>)) (\<lambda>_.
           tx_bind (tx_read (\<lambda>w. pair_joins pair (base w))) (\<lambda>joins.
           tx_bind (tx_some joins (DbError ''event_participant not found'')) (\<lambda>(participant, event).
           tx_bind (on_db (emitWindowOpen pair participant event now)) (\<lambda>_.
           tx_return True)))))"

definition announceOpenWindows :: "nat \<Rightarrow> (error, world, nat) act" where
  "announceOpenWindows limit =
     act_bind (act_read now_of) (\<lambda>now.
     act_bind (act_read (\<lambda>w. map pair_id (take limit (sort_key pair_opens_at (filter (\<lambda>p.
       pair_reminded_at p = None \<and> pair_opens_at p \<le> now \<and> now < pair_deadline_at p
       \<and> List.member [RP_PENDING, RP_PARTIAL] (pair_status p)) (review_pairs w)))))) (\<lambda>due.
     act_fold (\<lambda>i announced.
       act_bind (in_tx (announceOne i now)) (\<lambda>sent. act_return (announced + (if sent then 1 else 0)))) due 0))"

end
