(* ===== verification/Review_Invariant.thy ===== *)
theory Review_Invariant
  imports Reviews Participation_Invariant
begin

text \<open>
  What the review operations keep. Their effect on the two tables is a step relation; the
  invariants and the histories are proved of its steps by cases, of runs by induction.
\<close>

lemma assertPairE:
  assumes "assertReviewPairTransition a b i w = Inr (u, w')"
  obtains "w' = w"
  using assms by (auto simp: assertReviewPairTransition_def assertTransition_Inr)

section \<open>What other services do to the shared database\<close>

text \<open>
  \<open>elsewhere s s'\<close>: time does not run back, and every participation that stood on an event still
  stands on it, with the same guest and the same host.
\<close>

definition elsewhere :: "db \<Rightarrow> db \<Rightarrow> bool" where
  "elsewhere s s' \<longleftrightarrow> clock s \<le> clock s' \<and> next_id s \<le> next_id s'
     \<and> (\<forall>p part ev. pair_joins p s = Some (part, ev) \<longrightarrow>
          (\<exists>part' ev'. pair_joins p s' = Some (part', ev') \<and> pt_user part' = pt_user part \<and> ev_host ev' = ev_host ev))"

lemma elsewhere_refl: "elsewhere s s"
  by (simp add: elsewhere_def)

lemma elsewhereD:
  "elsewhere s s' \<Longrightarrow> pair_joins p s = Some (part, ev) \<Longrightarrow>
   \<exists>part' ev'. pair_joins p s' = Some (part', ev') \<and> pt_user part' = pt_user part \<and> ev_host ev' = ev_host ev"
  by (simp add: elsewhere_def)

lemma elsewhere_trans:
  assumes "elsewhere a b" and "elsewhere b c"
  shows "elsewhere a c"
  unfolding elsewhere_def
proof (intro conjI allI impI)
  show "clock a \<le> clock c" "next_id a \<le> next_id c" using assms by (auto simp: elsewhere_def)
  fix p part ev assume "pair_joins p a = Some (part, ev)"
  from elsewhereD [OF assms(1) this] obtain part1 ev1 where
    1: "pair_joins p b = Some (part1, ev1)" "pt_user part1 = pt_user part" "ev_host ev1 = ev_host ev" by blast
  from elsewhereD [OF assms(2) 1(1)] 1(2,3) show "\<exists>part' ev'. pair_joins p c = Some (part', ev')
      \<and> pt_user part' = pt_user part \<and> ev_host ev' = ev_host ev" by metis
qed

lemma pair_joins_frame: "desk_frame s s' \<Longrightarrow> pair_joins p s' = pair_joins p s"
proof -
  assume "desk_frame s s'"
  then have "participant_by_id i s' = participant_by_id i s" "event_by_id i s' = event_by_id i s" for i
    by (simp_all add: desk_frame_def participant_by_id_def event_by_id_def)
  then show ?thesis by (simp add: pair_joins_def split: option.split)
qed

lemma desk_frame_elsewhere: "desk_frame s s' \<Longrightarrow> elsewhere s s'"
  unfolding elsewhere_def by (simp add: pair_joins_frame) (simp add: desk_frame_def)

lemma participation_kept_elsewhere:
  assumes kept: "participation_kept s s'" and wf: "desk_wf s" "desk_wf s'"
    and hosts: "\<forall>i ev. event_by_id i s = Some ev \<longrightarrow> (\<exists>ev'. event_by_id i s' = Some ev' \<and> ev_host ev' = ev_host ev)"
    and "clock s \<le> clock s'" "next_id s \<le> next_id s'"
  shows "elsewhere s s'"
proof -
  have "\<exists>part' ev'. pair_joins p s' = Some (part', ev') \<and> pt_user part' = pt_user part \<and> ev_host ev' = ev_host ev"
    if j: "pair_joins p s = Some (part, ev)" for p part ev
  proof -
    from j have part: "participant_by_id (pair_participant p) s = Some part" and ev: "event_by_id (pt_event part) s = Some ev"
      by (auto simp: pair_joins_def split: option.splits)
    then have "part \<in> set (participants s)" and i: "pt_id part = pair_participant p"
      by (auto simp: participant_by_id_def dest: find_key_mem)
    with kept obtain part' where "part' \<in> set (participants s')" "pt_id part' = pt_id part"
      "pt_event part' = pt_event part" "pt_user part' = pt_user part"
      by (auto simp: participation_kept_def kept_row_def)
    moreover then have "participant_by_id (pair_participant p) s' = Some part'"
      using wf(2) i find_key_unique [of pt_id "participants s'" part'] by (simp add: participant_by_id_def desk_wf_def)
    moreover obtain ev' where "event_by_id (pt_event part) s' = Some ev'" "ev_host ev' = ev_host ev"
      using hosts ev by blast
    ultimately show ?thesis by (simp add: pair_joins_def)
  qed
  with assms(5,6) show ?thesis by (simp add: elsewhere_def)
qed

section \<open>What the writes of one operation do\<close>

text \<open>Everything but the two review tables.\<close>

definition review_frame :: "world \<Rightarrow> world \<Rightarrow> bool" where
  "review_frame w w' \<longleftrightarrow> desk_frame (base w) (base w') \<and> reviews w' = reviews w \<and> review_pairs w' = review_pairs w"

lemma review_frame_refl: "review_frame w w"
  by (simp add: review_frame_def desk_frame_refl)

lemma review_frame_trans: "review_frame a b \<Longrightarrow> review_frame b c \<Longrightarrow> review_frame a c"
  by (auto simp: review_frame_def intro: desk_frame_trans)

lemma on_db_frame: "tx_rel desk_frame m \<Longrightarrow> on_db m w = Inr (a, w') \<Longrightarrow> review_frame w w'"
  by (auto simp: review_frame_def on_db_Inr dest: tx_relD)

lemma audit_desk: "tx_rel desk_frame (audit_record acty ai ac tt ti b a)"
  by (rule tx_relI) (auto simp: audit_record_Inr desk_frame_def)

lemma outbox_desk: "tx_rel desk_frame (outbox_emit agg i et pl)"
  by (rule tx_relI) (auto simp: outbox_emit_Inr desk_frame_def)

lemma coin_apply_desk: "tx_rel desk_frame (coin_apply input)"
  by (rule tx_relI) (rule coin_desk_frame, erule coin_apply_frame)

lemma trust_apply_desk: "tx_rel desk_frame (trust_apply input)"
  by (rule tx_relI) (rule money_desk_frame, rule trust_frame_money, erule trust_apply_frame)

lemma publicIdOf_desk: "tx_rel desk_frame (publicIdOf i)"
  by (rule tx_relI) (auto simp: publicIdOf_Inr desk_frame_refl)

lemmas desk_rules = tx_rel_rules desk_frame_reflp desk_frame_transp
  audit_desk outbox_desk coin_apply_desk trust_apply_desk publicIdOf_desk

lemma applyRatingTrust_desk: "tx_rel desk_frame (applyRatingTrust r)"
  unfolding applyRatingTrust_def by (intro desk_rules)

lemma payReview_desk: "tx_rel desk_frame (payReview u i x)"
  unfolding payReview_def coin_apply_number_def by (intro desk_rules)

lemma fresh_frame: "fresh w = Inr (i, w') \<Longrightarrow> review_frame w w' \<and> i = next_id (base w) \<and> next_id (base w') = Suc i"
  by (simp add: fresh_Inr review_frame_def desk_frame_def)

lemma openCaseIfAny_frame: "openCaseIfAny i sc w = Inr (u, w') \<Longrightarrow> review_frame w w'"
  by (auto simp: openCaseIfAny_def openCase_def tx_simps review_frame_def desk_frame_def split: option.splits)

section \<open>Revealing\<close>

definition reveal_ids :: "instant \<Rightarrow> id set \<Rightarrow> review_row list \<Rightarrow> review_row list" where
  "reveal_ids now I = map (\<lambda>r. if rw_id r \<in> I \<and> rw_status r = RV_SUBMITTED
     then r\<lparr>rw_status := RV_REVEALED, rw_revealed_at := Some now\<rparr> else r)"

definition slot_ids :: "pair_row \<Rightarrow> id set" where
  "slot_ids p = set_option (pair_host_review p) \<union> set_option (pair_guest_review p)"

lemma reveal_ids_keys [simp]: "map rw_id (reveal_ids now I rows) = map rw_id rows"
  by (auto simp: reveal_ids_def)

lemma reveal_ids_empty [simp]: "reveal_ids now {} rows = rows"
  by (simp add: reveal_ids_def)

lemma reveal_ids_Un: "reveal_ids now J (reveal_ids now I rows) = reveal_ids now (I \<union> J) rows"
  by (auto simp: reveal_ids_def)

definition reveals :: "instant \<Rightarrow> id set \<Rightarrow> world \<Rightarrow> world \<Rightarrow> bool" where
  "reveals now I w w' \<longleftrightarrow> desk_frame (base w) (base w') \<and> review_pairs w' = review_pairs w
     \<and> reviews w' = reveal_ids now I (reviews w)"

lemma reveals_frame: "reveals now I w w1 \<Longrightarrow> review_frame w1 w' \<Longrightarrow> reveals now I w w'"
  by (auto simp: reveals_def review_frame_def intro: desk_frame_trans)

lemma reveals_trans: "reveals now I w w1 \<Longrightarrow> reveals now J w1 w' \<Longrightarrow> reveals now (I \<union> J) w w'"
  by (auto simp: reveals_def reveal_ids_Un intro: desk_frame_trans)

lemma reveal_one_row:
  assumes "distinct (map rw_id rows)" and "r \<in> set rows" and "rw_status r = RV_SUBMITTED"
  shows "update_where (\<lambda>q. rw_id q = rw_id r) (\<lambda>_. r\<lparr>rw_status := RV_REVEALED, rw_revealed_at := Some now\<rparr>) rows
    = reveal_ids now {rw_id r} rows"
  unfolding update_where_def reveal_ids_def
  by (rule map_cong) (use assms distinct_key_eq [of rw_id rows] in auto)

lemma reveal_nothing:
  assumes "distinct (map rw_id rows)" and "r \<in> set rows" and "rw_status r \<noteq> RV_SUBMITTED"
  shows "reveal_ids now {rw_id r} rows = rows"
  unfolding reveal_ids_def
  by (rule map_idI) (use assms distinct_key_eq [of rw_id rows] in auto)

lemma review_by_id_mem:
  "distinct (map rw_id (reviews w)) \<Longrightarrow> r \<in> set (reviews w) \<Longrightarrow> review_by_id (rw_id r) w = Some r"
  unfolding review_by_id_def by (rule find_key_unique)

lemma review_by_id_Some: "review_by_id i w = Some r \<Longrightarrow> r \<in> set (reviews w) \<and> rw_id r = i"
  unfolding review_by_id_def by (rule find_key_mem)

lemma revealOne_effect:
  assumes "revealOne b now ro w = Inr (u, w')" and "distinct (map rw_id (reviews w))"
    and "\<And>r. ro = Some r \<Longrightarrow> r \<in> set (reviews w)"
  shows "reveals now (rw_id ` set_option ro) w w'"
proof (cases ro)
  case None
  with assms(1) show ?thesis by (simp add: revealOne_def tx_simps reveals_def desk_frame_refl)
next
  case (Some r)
  note mem = assms(3) [OF Some]
  show ?thesis
  proof (cases "rw_status r = RV_SUBMITTED")
    case False
    with assms(1) Some have "w' = w" by (simp add: revealOne_def tx_simps)
    with Some show ?thesis by (simp add: reveals_def desk_frame_refl reveal_nothing [OF assms(2) mem False])
  next
    case True
    let ?w = "w\<lparr>reviews := reveal_ids now {rw_id r} (reviews w)\<rparr>"
    from assms(1) have "(if b then on_db (applyRatingTrust r) else tx_return ()) ?w = Inr (u, w')"
      by (auto simp: revealOne_def Some True review_update_def tx_simps tx_bind_Inr review_by_id_mem [OF assms(2) mem]
          reveal_one_row [OF assms(2) mem True] assertReviewTransition_def)
    then have "review_frame ?w w'"
      by (auto simp: tx_simps review_frame_refl dest!: tx_relD [OF applyRatingTrust_desk] split: if_splits)
        (auto simp: review_frame_def)
    then show ?thesis by (simp add: reveals_def review_frame_def Some)
  qed
qed

lemma tx_rel_prod: "(\<And>x y. tx_rel R (f x y)) \<Longrightarrow> tx_rel R (case p of (x, y) \<Rightarrow> f x y)"
  by (cases p) auto

lemma emit_desk: "tx_rel desk_frame (emitRevealed i part ev now out)" "tx_rel desk_frame (emitWindowOpen p part ev now)"
  unfolding emitRevealed_def emitWindowOpen_def by (intro desk_rules tx_rel_prod)+

lemma revealPair_effect:
  assumes run: "revealPair i now out w = Inr (u, w')" and dist: "distinct (map rw_id (reviews w))"
    and p: "pair_by_id i w = Some p" and slots: "slot_ids p \<subseteq> rw_id ` set (reviews w)"
    and differ: "\<And>j. pair_host_review p = Some j \<Longrightarrow> pair_guest_review p \<noteq> Some j"
  shows "reveals now (slot_ids p) w w'"
proof -
  have at: "rw_id ` set_option (review_at io w) = set_option io" if "set_option io \<subseteq> rw_id ` set (reviews w)" for io
    using that dist by (cases io) (auto simp: review_at_def review_by_id_mem)
  have mem: "r \<in> set (reviews w) \<and> io = Some (rw_id r)" if "review_at io w = Some r" for io r
    using that by (cases io) (auto simp: review_at_def dest: review_by_id_Some)
  from run obtain part ev where "pair_joins p (base w) = Some (part, ev)"
    by (auto simp: revealPair_def p elim!: tx_someE)
  with run obtain b w1 w2 where
    1: "revealOne b now (review_at (pair_host_review p) w) w = Inr ((), w1)" and
    2: "revealOne b now (review_at (pair_guest_review p) w) w1 = Inr ((), w2)" and
    3: "on_db (emitRevealed i part ev now out) w2 = Inr (u, w')"
    by (auto simp: revealPair_def p tx_bind_Inr)
  have r1: "reveals now (rw_id ` set_option (review_at (pair_host_review p) w)) w w1"
    using revealOne_effect [OF 1 dist] mem by blast
  have r2: "reveals now (rw_id ` set_option (review_at (pair_guest_review p) w)) w1 w2"
  proof (rule revealOne_effect [OF 2])
    show "distinct (map rw_id (reviews w1))" using r1 dist by (simp add: reveals_def)
    fix r assume r: "review_at (pair_guest_review p) w = Some r"
    then have "r \<in> set (reviews w)" and g: "pair_guest_review p = Some (rw_id r)" using mem by blast+
    moreover have "rw_id r \<notin> rw_id ` set_option (review_at (pair_host_review p) w)"
      using mem differ g by auto
    ultimately show "r \<in> set (reviews w1)" using r1 by (force simp: reveals_def reveal_ids_def)
  qed
  have "rw_id ` set_option (review_at (pair_host_review p) w) \<union> rw_id ` set_option (review_at (pair_guest_review p) w) = slot_ids p"
    using slots at by (simp add: slot_ids_def)
  with reveals_trans [OF r1 r2] reveals_frame [OF _ on_db_frame [OF emit_desk(1) 3]] show ?thesis by metis
qed

section \<open>The steps\<close>

definition stays :: "world \<Rightarrow> world \<Rightarrow> bool" where
  "stays w w' \<longleftrightarrow> elsewhere (base w) (base w')"

text \<open>The pair after one side has written, and the roles of the two slots.\<close>

definition put_review :: "reviewer_role \<Rightarrow> id \<Rightarrow> instant \<Rightarrow> pair_row \<Rightarrow> pair_row" where
  "put_review role i now p =
     (let nxt = (if pair_status p = RP_PENDING then RP_PARTIAL else RP_REVEALED)
      in (if role = HOST then p\<lparr>pair_host_review := Some i\<rparr> else p\<lparr>pair_guest_review := Some i\<rparr>)
           \<lparr>pair_status := nxt, pair_revealed_at := (if nxt = RP_REVEALED then Some now else pair_revealed_at p)\<rparr>)"

definition slot_of :: "reviewer_role \<Rightarrow> pair_row \<Rightarrow> id option" where
  "slot_of role p = (if role = HOST then pair_host_review p else pair_guest_review p)"

definition writer_of :: "reviewer_role \<Rightarrow> participant_row \<Rightarrow> event_row \<Rightarrow> id" where
  "writer_of role part ev = (if role = HOST then ev_host ev else pt_user part)"

definition subject_of :: "reviewer_role \<Rightarrow> participant_row \<Rightarrow> event_row \<Rightarrow> id" where
  "subject_of role part ev = (if role = HOST then pt_user part else ev_host ev)"

definition settled_pair :: "instant \<Rightarrow> pair_row \<Rightarrow> pair_row" where
  "settled_pair now p = p\<lparr>pair_status := (if pair_status p = RP_PARTIAL then RP_EXPIRED_PARTIAL else RP_EXPIRED_EMPTY),
     pair_revealed_at := Some now\<rparr>"

definition same_review :: "review_row \<Rightarrow> review_row \<Rightarrow> bool" where
  "same_review r r' \<longleftrightarrow> rw_id r' = rw_id r \<and> rw_public_id r' = rw_public_id r \<and> rw_event r' = rw_event r
     \<and> rw_participant r' = rw_participant r \<and> rw_reviewer r' = rw_reviewer r \<and> rw_reviewee r' = rw_reviewee r
     \<and> rw_submitted_at r' = rw_submitted_at r \<and> rw_edit_deadline_at r' = rw_edit_deadline_at r"

abbreviation in_play :: "pair_row \<Rightarrow> bool" where
  "in_play p \<equiv> pair_status p = RP_PENDING \<or> pair_status p = RP_PARTIAL"

abbreviation pairs_become :: "pair_row \<Rightarrow> pair_row \<Rightarrow> world \<Rightarrow> world \<Rightarrow> bool" where
  "pairs_become p p' w w' \<equiv> review_pairs w' = update_where (\<lambda>q. pair_id q = pair_id p) (\<lambda>_. p') (review_pairs w)"

inductive review_step :: "world \<Rightarrow> world \<Rightarrow> bool" where
  apart: "stays w w' \<Longrightarrow> reviews w' = reviews w \<Longrightarrow> review_pairs w' = review_pairs w \<Longrightarrow> review_step w w'"
| opens: "stays w w' \<Longrightarrow> reviews w' = reviews w \<Longrightarrow> review_pairs w' = review_pairs w @ [p] \<Longrightarrow>
    next_id (base w) \<le> pair_id p \<Longrightarrow> pair_id p < next_id (base w') \<Longrightarrow>
    pair_participant p \<notin> pair_participant ` set (review_pairs w) \<Longrightarrow> pair_joins p (base w) \<noteq> None \<Longrightarrow>
    pair_status p = RP_PENDING \<Longrightarrow> pair_checks p \<Longrightarrow> review_step w w'"
| reminds: "stays w w' \<Longrightarrow> reviews w' = reviews w \<Longrightarrow> p \<in> set (review_pairs w) \<Longrightarrow>
    pairs_become p (p\<lparr>pair_reminded_at := Some t\<rparr>) w w' \<Longrightarrow> review_step w w'"
| edits: "stays w w' \<Longrightarrow> review_pairs w' = review_pairs w \<Longrightarrow> r \<in> set (reviews w) \<Longrightarrow>
    rw_status r = RV_SUBMITTED \<Longrightarrow> now_of w < rw_edit_deadline_at r \<Longrightarrow> same_review r r' \<Longrightarrow>
    rw_status r' = rw_status r \<Longrightarrow> review_checks r' \<Longrightarrow>
    reviews w' = update_where (\<lambda>q. rw_id q = rw_id r) (\<lambda>_. r') (reviews w) \<Longrightarrow> review_step w w'"
| writes: "stays w w' \<Longrightarrow> p \<in> set (review_pairs w) \<Longrightarrow> in_play p \<Longrightarrow> pair_opens_at p \<le> now_of w \<Longrightarrow>
    now_of w < pair_deadline_at p \<Longrightarrow> pair_joins p (base w) = Some (part, ev) \<Longrightarrow> slot_of role p = None \<Longrightarrow>
    rw_participant r = pair_participant p \<Longrightarrow> rw_reviewer r = writer_of role part ev \<Longrightarrow>
    rw_reviewee r = subject_of role part ev \<Longrightarrow> next_id (base w) \<le> rw_id r \<Longrightarrow> rw_id r < next_id (base w') \<Longrightarrow>
    rw_status r = RV_SUBMITTED \<Longrightarrow> review_checks r \<Longrightarrow> rw_submitted_at r = now_of w \<Longrightarrow>
    review_of (rw_participant r) (rw_reviewer r) w = None \<Longrightarrow>
    p' = put_review role (rw_id r) (now_of w) p \<Longrightarrow> pair_checks p' \<Longrightarrow> pairs_become p p' w w' \<Longrightarrow>
    reviews w' = reveal_ids (now_of w) (if pair_status p' = RP_REVEALED then slot_ids p' else {}) (reviews w @ [r])
    \<Longrightarrow> review_step w w'"
| settles: "stays w w' \<Longrightarrow> p \<in> set (review_pairs w) \<Longrightarrow> in_play p \<Longrightarrow> pair_deadline_at p \<le> now_of w \<Longrightarrow>
    p' = settled_pair (now_of w) p \<Longrightarrow> pair_checks p' \<Longrightarrow> pairs_become p p' w w' \<Longrightarrow>
    reviews w' = reveal_ids (now_of w) (if pair_status p' = RP_EXPIRED_PARTIAL then slot_ids p else {}) (reviews w)
    \<Longrightarrow> review_step w w'"

section \<open>The invariant\<close>

definition slot_ok :: "review_row list \<Rightarrow> id option \<Rightarrow> id \<Rightarrow> id \<Rightarrow> id \<Rightarrow> bool" where
  "slot_ok rows io participant reviewer reviewee \<longleftrightarrow> (\<forall>i. io = Some i \<longrightarrow>
     (\<exists>r\<in>set rows. rw_id r = i \<and> rw_participant r = participant \<and> rw_reviewer r = reviewer \<and> rw_reviewee r = reviewee))"

definition pair_ok :: "world \<Rightarrow> pair_row \<Rightarrow> bool" where
  "pair_ok w p \<longleftrightarrow> pair_id p < next_id (base w) \<and> pair_checks p
     \<and> (pair_status p = RP_EXPIRED_PARTIAL \<or> pair_status p = RP_EXPIRED_EMPTY \<longrightarrow> pair_deadline_at p \<le> now_of w)
     \<and> (\<exists>part ev. pair_joins p (base w) = Some (part, ev)
          \<and> (\<forall>role. slot_ok (reviews w) (slot_of role p) (pair_participant p) (writer_of role part ev) (subject_of role part ev)))"

definition row_ok :: "world \<Rightarrow> review_row \<Rightarrow> bool" where
  "row_ok w r \<longleftrightarrow> rw_id r < next_id (base w) \<and> review_checks r
     \<and> (\<exists>p\<in>set (review_pairs w). pair_participant p = rw_participant r \<and> rw_id r \<in> slot_ids p
          \<and> (rw_status r \<noteq> RV_SUBMITTED \<longrightarrow> pair_status p \<in> set REVEALED_PAIR_STATUSES))"

definition review_wf :: "world \<Rightarrow> bool" where
  "review_wf w \<longleftrightarrow> distinct (map rw_id (reviews w)) \<and> distinct (map pair_id (review_pairs w))
     \<and> distinct (map pair_participant (review_pairs w))
     \<and> (\<forall>p\<in>set (review_pairs w). pair_ok w p) \<and> (\<forall>r\<in>set (reviews w). row_ok w r)"

lemma slot_ids_role: "i \<in> slot_ids p \<longleftrightarrow> (\<exists>role. slot_of role p = Some i)"
  by (auto simp: slot_ids_def slot_of_def)

lemma put_review_simps [simp]:
  "pair_id (put_review role i t p) = pair_id p" "pair_participant (put_review role i t p) = pair_participant p"
  "pair_deadline_at (put_review role i t p) = pair_deadline_at p"
  "pair_opens_at (put_review role i t p) = pair_opens_at p"
  "pair_status (put_review role i t p) = (if pair_status p = RP_PENDING then RP_PARTIAL else RP_REVEALED)"
  "slot_of role' (put_review role i t p) = (if role' = role then Some i else slot_of role' p)"
  "pair_joins (put_review role i t p) s = pair_joins p s"
  by (cases role; cases role'; simp add: put_review_def slot_of_def pair_joins_def Let_def)+

lemma settled_pair_simps [simp]:
  "pair_id (settled_pair t p) = pair_id p" "pair_participant (settled_pair t p) = pair_participant p"
  "pair_deadline_at (settled_pair t p) = pair_deadline_at p"
  "pair_status (settled_pair t p) = (if pair_status p = RP_PARTIAL then RP_EXPIRED_PARTIAL else RP_EXPIRED_EMPTY)"
  "slot_of role (settled_pair t p) = slot_of role p" "slot_ids (settled_pair t p) = slot_ids p"
  "pair_joins (settled_pair t p) s = pair_joins p s"
  by (simp_all add: settled_pair_def slot_of_def slot_ids_def pair_joins_def)

lemma reminded_simps [simp]:
  "slot_of role (p\<lparr>pair_reminded_at := x\<rparr>) = slot_of role p" "slot_ids (p\<lparr>pair_reminded_at := x\<rparr>) = slot_ids p"
  "pair_joins (p\<lparr>pair_reminded_at := x\<rparr>) s = pair_joins p s" "pair_checks (p\<lparr>pair_reminded_at := x\<rparr>) = pair_checks p"
  by (simp_all add: slot_of_def slot_ids_def pair_joins_def pair_checks_def pair_contents_def
      split: review_pair_status.split)

text \<open>How the rows of one world are found again in the next.\<close>

definition rows_kept :: "review_row list \<Rightarrow> review_row list \<Rightarrow> bool" where
  "rows_kept rows rows' \<longleftrightarrow> (\<forall>r\<in>set rows. \<exists>r'\<in>set rows'. same_review r r')"

lemma slot_ok_kept: "slot_ok rows io p a b \<Longrightarrow> rows_kept rows rows' \<Longrightarrow> slot_ok rows' io p a b"
  unfolding slot_ok_def rows_kept_def same_review_def by metis

lemma pair_ok_kept:
  assumes ok: "pair_ok w p" and stays: "stays w w'" and rows: "rows_kept (reviews w) (reviews w')"
  shows "pair_ok w' p"
proof -
  from ok obtain part ev where j: "pair_joins p (base w) = Some (part, ev)"
    and slots: "\<And>role. slot_ok (reviews w) (slot_of role p) (pair_participant p) (writer_of role part ev) (subject_of role part ev)"
    by (auto simp: pair_ok_def)
  from stays have e: "elsewhere (base w) (base w')" by (simp add: stays_def)
  from elsewhereD [OF e j] obtain part' ev' where j': "pair_joins p (base w') = Some (part', ev')"
    and same: "pt_user part' = pt_user part" "ev_host ev' = ev_host ev" by blast
  have "slot_ok (reviews w') (slot_of role p) (pair_participant p) (writer_of role part' ev') (subject_of role part' ev')" for role
    using slot_ok_kept [OF slots rows, of role] same by (cases role) (simp_all add: writer_of_def subject_of_def)
  moreover have "now_of w \<le> now_of w'" "next_id (base w) \<le> next_id (base w')"
    using e by (auto simp: elsewhere_def)
  ultimately show ?thesis using ok j' by (auto simp: pair_ok_def)
qed

lemma same_review_refl: "same_review r r"
  by (simp add: same_review_def)

lemma same_review_trans: "same_review a b \<Longrightarrow> same_review b c \<Longrightarrow> same_review a c"
  by (simp add: same_review_def)

lemma reveal_same: "same_review r (if b then r\<lparr>rw_status := RV_REVEALED, rw_revealed_at := Some t\<rparr> else r)"
  by (simp add: same_review_def)

lemma rows_kept_reveal: "rows_kept rows (reveal_ids t I rows)"
  unfolding rows_kept_def reveal_ids_def set_map using reveal_same by blast

lemma rows_kept_refl: "rows_kept rows rows"
  using same_review_refl by (auto simp: rows_kept_def)

lemma rows_kept_append: "rows_kept rows (rows @ [r])"
  using same_review_refl by (auto simp: rows_kept_def)

lemma rows_kept_trans: "rows_kept a b \<Longrightarrow> rows_kept b c \<Longrightarrow> rows_kept a c"
  unfolding rows_kept_def using same_review_trans by meson

lemma rows_kept_update:
  "distinct (map rw_id rows) \<Longrightarrow> r \<in> set rows \<Longrightarrow> same_review r r' \<Longrightarrow>
   rows_kept rows (update_where (\<lambda>q. rw_id q = rw_id r) (\<lambda>_. r') rows)"
  unfolding rows_kept_def
proof (intro ballI)
  fix q assume *: "distinct (map rw_id rows)" "r \<in> set rows" "same_review r r'" "q \<in> set rows"
  show "\<exists>q'\<in>set (update_where (\<lambda>q. rw_id q = rw_id r) (\<lambda>_. r') rows). same_review q q'"
  proof (cases "rw_id q = rw_id r")
    case True
    then have "q = r" using * by (metis distinct_key_eq)
    then show ?thesis using * by (force simp: set_update_where)
  next
    case False
    then have "q \<in> set (update_where (\<lambda>q. rw_id q = rw_id r) (\<lambda>_. r') rows)"
      using * by (force simp: set_update_where)
    then show ?thesis using same_review_refl by blast
  qed
qed

definition pairs_kept :: "pair_row list \<Rightarrow> pair_row list \<Rightarrow> bool" where
  "pairs_kept ps ps' \<longleftrightarrow> (\<forall>q\<in>set ps. \<exists>q'\<in>set ps'. pair_participant q' = pair_participant q
     \<and> slot_ids q \<subseteq> slot_ids q' \<and> (pair_status q \<in> set REVEALED_PAIR_STATUSES \<longrightarrow> pair_status q' \<in> set REVEALED_PAIR_STATUSES))"

lemma pairs_kept_refl: "pairs_kept ps ps"
  by (auto simp: pairs_kept_def)

lemma pairs_kept_append: "pairs_kept ps (ps @ [p])"
  by (auto simp: pairs_kept_def)

lemma pairs_kept_update:
  assumes "distinct (map pair_id ps)" and "p \<in> set ps" and "pair_participant p' = pair_participant p"
    and "slot_ids p \<subseteq> slot_ids p'"
    and "pair_status p \<in> set REVEALED_PAIR_STATUSES \<Longrightarrow> pair_status p' \<in> set REVEALED_PAIR_STATUSES"
  shows "pairs_kept ps (update_where (\<lambda>q. pair_id q = pair_id p) (\<lambda>_. p') ps)"
  unfolding pairs_kept_def
proof
  fix q assume q: "q \<in> set ps"
  let ?ps = "update_where (\<lambda>q. pair_id q = pair_id p) (\<lambda>_. p') ps"
  show "\<exists>q'\<in>set ?ps. pair_participant q' = pair_participant q \<and> slot_ids q \<subseteq> slot_ids q'
      \<and> (pair_status q \<in> set REVEALED_PAIR_STATUSES \<longrightarrow> pair_status q' \<in> set REVEALED_PAIR_STATUSES)"
  proof (cases "pair_id q = pair_id p")
    case True
    with assms(1,2) q have "q = p" by (metis distinct_key_eq)
    moreover have "p' \<in> set ?ps" using assms(2) by (force simp: set_update_where)
    ultimately show ?thesis using assms(3-5) by blast
  next
    case False
    then have "q \<in> set ?ps" using q by (force simp: set_update_where)
    then show ?thesis by blast
  qed
qed

lemma row_ok_kept:
  assumes "row_ok w r" and "stays w w'" and "pairs_kept (review_pairs w) (review_pairs w')"
  shows "row_ok w' r"
proof -
  from assms(1) obtain q where "q \<in> set (review_pairs w)" "pair_participant q = rw_participant r" "rw_id r \<in> slot_ids q"
    "rw_status r \<noteq> RV_SUBMITTED \<longrightarrow> pair_status q \<in> set REVEALED_PAIR_STATUSES"
    by (auto simp: row_ok_def)
  moreover obtain q' where "q' \<in> set (review_pairs w')" "pair_participant q' = pair_participant q" "slot_ids q \<subseteq> slot_ids q'"
    "pair_status q \<in> set REVEALED_PAIR_STATUSES \<longrightarrow> pair_status q' \<in> set REVEALED_PAIR_STATUSES"
    using assms(3) calculation(1) unfolding pairs_kept_def by meson
  moreover have "next_id (base w) \<le> next_id (base w')" using assms(2) by (simp add: stays_def elsewhere_def)
  ultimately show ?thesis using assms(1) unfolding row_ok_def by (metis in_mono less_le_trans)
qed

text \<open>Every kind of step keeps the rows and the pairs, and adds what it says.\<close>

lemma distinct_append_new:
  assumes "distinct (map k rows)" and "\<forall>q\<in>set rows. k q < n" and "n \<le> (k r :: nat)"
  shows "distinct (map k (rows @ [r]))"
  using assms by (auto dest: leD)

lemma review_wfD:
  assumes "review_wf w"
  shows "distinct (map rw_id (reviews w))" "distinct (map pair_id (review_pairs w))"
    "distinct (map pair_participant (review_pairs w))"
    "\<And>p. p \<in> set (review_pairs w) \<Longrightarrow> pair_ok w p" "\<And>r. r \<in> set (reviews w) \<Longrightarrow> row_ok w r"
  using assms by (auto simp: review_wf_def)

lemma review_step_wf_quiet:
  assumes wf: "review_wf w" and stays: "stays w w'"
    and rows: "rows_kept (reviews w) (reviews w')" "map rw_id (reviews w') = map rw_id (reviews w)"
    and pairs: "pairs_kept (review_pairs w) (review_pairs w')" "map pair_id (review_pairs w') = map pair_id (review_pairs w)"
      "map pair_participant (review_pairs w') = map pair_participant (review_pairs w)"
    and new_pairs: "\<And>q. q \<in> set (review_pairs w') \<Longrightarrow> q \<notin> set (review_pairs w) \<Longrightarrow> pair_ok w' q"
    and new_rows: "\<And>r. r \<in> set (reviews w') \<Longrightarrow> r \<notin> set (reviews w) \<Longrightarrow> row_ok w' r"
  shows "review_wf w'"
  unfolding review_wf_def
proof (intro conjI ballI)
  note d = review_wfD [OF wf]
  show "distinct (map rw_id (reviews w'))" "distinct (map pair_id (review_pairs w'))"
    "distinct (map pair_participant (review_pairs w'))"
    using d(1-3) rows pairs by simp_all
  show "pair_ok w' q" if "q \<in> set (review_pairs w')" for q
    using that new_pairs pair_ok_kept [OF d(4) stays rows(1)] by blast
  show "row_ok w' r" if "r \<in> set (reviews w')" for r
    using that new_rows row_ok_kept [OF d(5) stays pairs(1)] by blast
qed

text \<open>A revealed row stands in a revealed pair, when the pair whose slots were revealed is one.\<close>

lemma row_ok_revealed:
  assumes base: "row_ok w' r0" and q: "q \<in> set (review_pairs w')" "pair_status q \<in> set REVEALED_PAIR_STATUSES"
    and slots: "\<And>i. i \<in> I \<Longrightarrow> i \<in> slot_ids q" and part: "rw_id r0 \<in> I \<Longrightarrow> pair_participant q = rw_participant r0"
    and r: "r = (if rw_id r0 \<in> I \<and> rw_status r0 = RV_SUBMITTED then r0\<lparr>rw_status := RV_REVEALED, rw_revealed_at := Some t\<rparr> else r0)"
  shows "row_ok w' r"
proof (cases "rw_id r0 \<in> I \<and> rw_status r0 = RV_SUBMITTED")
  case True
  then have "r = r0\<lparr>rw_status := RV_REVEALED, rw_revealed_at := Some t\<rparr>" using r by simp
  moreover have "review_checks r0 \<Longrightarrow> review_checks (r0\<lparr>rw_status := RV_REVEALED, rw_revealed_at := Some t\<rparr>)"
    by (simp add: review_checks_def)
  ultimately show ?thesis using base True q slots part unfolding row_ok_def by fastforce
next
  case False
  then have "r = r0" using r by auto
  with base show ?thesis by simp
qed

lemma reveal_ids_mem:
  "r \<in> set (reveal_ids t I rows) \<Longrightarrow> \<exists>r0\<in>set rows. r = (if rw_id r0 \<in> I \<and> rw_status r0 = RV_SUBMITTED
     then r0\<lparr>rw_status := RV_REVEALED, rw_revealed_at := Some t\<rparr> else r0)"
  by (auto simp: reveal_ids_def)

lemma slot_participant:
  assumes wf: "review_wf w" and p: "p \<in> set (review_pairs w)" and i: "rw_id r \<in> slot_ids p" and r: "r \<in> set (reviews w)"
  shows "rw_participant r = pair_participant p"
proof -
  from i obtain role where role: "slot_of role p = Some (rw_id r)" by (auto simp: slot_ids_role)
  from review_wfD(4) [OF wf p] obtain a b where "slot_ok (reviews w) (slot_of role p) (pair_participant p) a b"
    by (auto simp: pair_ok_def)
  with role obtain q where "q \<in> set (reviews w)" "rw_id q = rw_id r" "rw_participant q = pair_participant p"
    by (auto simp: slot_ok_def)
  moreover then have "q = r" using review_wfD(1) [OF wf] r by (metis distinct_key_eq)
  ultimately show ?thesis by simp
qed

lemma pair_ok_change:
  assumes "pair_ok w p" and "pair_id p' = pair_id p" and "pair_participant p' = pair_participant p"
    and "\<And>role. slot_of role p' = slot_of role p" and "pair_checks p'"
    and "pair_status p' = RP_EXPIRED_PARTIAL \<or> pair_status p' = RP_EXPIRED_EMPTY \<Longrightarrow> pair_deadline_at p' \<le> now_of w"
  shows "pair_ok w p'"
proof -
  have "pair_joins p' s = pair_joins p s" for s using assms(3) by (simp add: pair_joins_def)
  with assms show ?thesis by (auto simp: pair_ok_def)
qed

lemma pairs_become_keys:
  assumes "review_wf w" and "p \<in> set (review_pairs w)" and "pair_id p' = pair_id p" "pair_participant p' = pair_participant p"
    and "pairs_become p p' w w'"
  shows "map pair_id (review_pairs w') = map pair_id (review_pairs w)"
    "map pair_participant (review_pairs w') = map pair_participant (review_pairs w)"
proof -
  have "q = p" if "q \<in> set (review_pairs w)" "pair_id q = pair_id p" for q
    using review_wfD(2) [OF assms(1)] that assms(2) by (metis distinct_key_eq)
  then show "map pair_id (review_pairs w') = map pair_id (review_pairs w)"
    "map pair_participant (review_pairs w') = map pair_participant (review_pairs w)"
    using assms(3-5) by (auto intro!: update_where_key)
qed

lemma revealed_statuses [simp]: "st \<in> set REVEALED_PAIR_STATUSES \<longleftrightarrow> st = RP_REVEALED \<or> st = RP_EXPIRED_PARTIAL"
  by (auto simp: REVEALED_PAIR_STATUSES_def)

lemma step_edits:
  assumes wf: "review_wf w" and stays: "stays w w'" and pairs: "review_pairs w' = review_pairs w"
    and r: "r \<in> set (reviews w)" "rw_status r = RV_SUBMITTED" "same_review r r'" "rw_status r' = rw_status r" "review_checks r'"
    and rows: "reviews w' = update_where (\<lambda>q. rw_id q = rw_id r) (\<lambda>_. r') (reviews w)"
  shows "review_wf w'"
proof (rule review_step_wf_quiet [OF wf stays])
  note d = review_wfD [OF wf]
  show "rows_kept (reviews w) (reviews w')" unfolding rows by (rule rows_kept_update [OF d(1) r(1,3)])
  show "map rw_id (reviews w') = map rw_id (reviews w)"
    unfolding rows by (rule update_where_key) (use r(3) in \<open>auto simp: same_review_def\<close>)
  show "pairs_kept (review_pairs w) (review_pairs w')" by (simp add: pairs pairs_kept_refl)
  fix q assume "q \<in> set (reviews w')" "q \<notin> set (reviews w)"
  then have "q = r'" unfolding rows by (rule update_where_new)
  moreover have "row_ok w r'" using d(5) [OF r(1)] r by (auto simp: row_ok_def same_review_def)
  ultimately show "row_ok w' q" using row_ok_kept [OF _ stays] by (metis pairs pairs_kept_refl)
qed (simp_all add: pairs)

lemma step_opens:
  assumes wf: "review_wf w" and stays: "stays w w'" and rows: "reviews w' = reviews w"
    and pairs: "review_pairs w' = review_pairs w @ [p]"
    and p: "next_id (base w) \<le> pair_id p" "pair_id p < next_id (base w')" "pair_participant p \<notin> pair_participant ` set (review_pairs w)"
      "pair_joins p (base w) \<noteq> None" "pair_status p = RP_PENDING" "pair_checks p"
  shows "review_wf w'"
  unfolding review_wf_def
proof (intro conjI ballI)
  note d = review_wfD [OF wf]
  show "distinct (map rw_id (reviews w'))" using d(1) rows by simp
  show "distinct (map pair_id (review_pairs w'))"
    unfolding pairs by (rule distinct_append_new [OF d(2) _ p(1)]) (use d(4) in \<open>auto simp: pair_ok_def\<close>)
  show "distinct (map pair_participant (review_pairs w'))" using d(3) p(3) pairs by auto
  have empty: "slot_of role p = None" for role
    using p(5,6) by (auto simp: pair_checks_def pair_contents_def slot_of_def)
  from p(4) obtain part ev where "pair_joins p (base w) = Some (part, ev)" by auto
  then obtain part' ev' where "pair_joins p (base w') = Some (part', ev')"
    using stays elsewhereD by (metis stays_def)
  then have "pair_ok w' p" using p by (auto simp: pair_ok_def empty slot_ok_def)
  then show "pair_ok w' q" if "q \<in> set (review_pairs w')" for q
    using that d(4) pair_ok_kept [OF _ stays] rows by (auto simp: pairs rows_kept_refl)
  show "row_ok w' r" if "r \<in> set (reviews w')" for r
    using that d(5) row_ok_kept [OF _ stays] by (simp add: rows pairs pairs_kept_append)
qed

lemma step_settles:
  assumes wf: "review_wf w" and stays: "stays w w'" and p: "p \<in> set (review_pairs w)" "in_play p" "pair_deadline_at p \<le> now_of w"
    and p': "p' = settled_pair (now_of w) p" "pair_checks p'" and pairs: "pairs_become p p' w w'"
    and rows: "reviews w' = reveal_ids (now_of w) (if pair_status p' = RP_EXPIRED_PARTIAL then slot_ids p else {}) (reviews w)"
  shows "review_wf w'"
proof (rule review_step_wf_quiet [OF wf stays])
  note d = review_wfD [OF wf]
  let ?I = "if pair_status p' = RP_EXPIRED_PARTIAL then slot_ids p else {}"
  show kept: "rows_kept (reviews w) (reviews w')" unfolding rows by (rule rows_kept_reveal)
  show "map rw_id (reviews w') = map rw_id (reviews w)" by (simp add: rows)
  show pk: "pairs_kept (review_pairs w) (review_pairs w')"
    unfolding pairs by (rule pairs_kept_update [OF d(2) p(1)]) (use p(2) in \<open>auto simp: p'\<close>)
  show "map pair_id (review_pairs w') = map pair_id (review_pairs w)"
    "map pair_participant (review_pairs w') = map pair_participant (review_pairs w)"
    using pairs_become_keys [OF wf p(1) _ _ pairs] p' by simp_all
  have "now_of w \<le> now_of w'" using stays by (simp add: stays_def elsewhere_def)
  then have "pair_ok w' p'"
    using p(3) by (intro pair_ok_change [OF pair_ok_kept [OF d(4) [OF p(1)] stays kept]] p'(2)) (simp_all add: p')
  then show "pair_ok w' q" if "q \<in> set (review_pairs w')" "q \<notin> set (review_pairs w)" for q
    using update_where_new that unfolding pairs by metis
  show "row_ok w' r" if r: "r \<in> set (reviews w')" "r \<notin> set (reviews w)" for r
  proof -
    from reveal_ids_mem [OF r(1) [unfolded rows]] obtain r0 where r0: "r0 \<in> set (reviews w)"
      "r = (if rw_id r0 \<in> ?I \<and> rw_status r0 = RV_SUBMITTED then r0\<lparr>rw_status := RV_REVEALED, rw_revealed_at := Some (now_of w)\<rparr> else r0)"
      by blast
    with r(2) have i: "rw_id r0 \<in> ?I" by (auto split: if_splits)
    show ?thesis
    proof (rule row_ok_revealed [OF row_ok_kept [OF d(5) [OF r0(1)] stays pk] _ _ _ _ r0(2)])
      show "p' \<in> set (review_pairs w')" unfolding pairs by (rule update_where_in [OF p(1)]) simp
      show "pair_status p' \<in> set REVEALED_PAIR_STATUSES" using i by (auto split: if_splits)
      show "pair_participant p' = rw_participant r0"
        using slot_participant [OF wf p(1) _ r0(1)] i by (auto simp: p' split: if_splits)
    qed (auto simp: p' split: if_splits)
  qed
qed

lemma step_writes:
  assumes wf: "review_wf w" and stays: "stays w w'" and p: "p \<in> set (review_pairs w)" "in_play p"
    and j: "pair_joins p (base w) = Some (part, ev)" and slot: "slot_of role p = None"
    and r: "rw_participant r = pair_participant p" "rw_reviewer r = writer_of role part ev" "rw_reviewee r = subject_of role part ev"
      "next_id (base w) \<le> rw_id r" "rw_id r < next_id (base w')" "rw_status r = RV_SUBMITTED" "review_checks r"
    and p': "p' = put_review role (rw_id r) (now_of w) p" "pair_checks p'" and pairs: "pairs_become p p' w w'"
    and rows: "reviews w' = reveal_ids (now_of w) (if pair_status p' = RP_REVEALED then slot_ids p' else {}) (reviews w @ [r])"
  shows "review_wf w'"
proof -
  note d = review_wfD [OF wf]
  let ?I = "if pair_status p' = RP_REVEALED then slot_ids p' else {}"
  have kept1: "rows_kept (reviews w @ [r]) (reviews w')" unfolding rows by (rule rows_kept_reveal)
  have kept: "rows_kept (reviews w) (reviews w')" by (rule rows_kept_trans [OF rows_kept_append kept1])
  have sub: "slot_ids p \<subseteq> slot_ids p'" using slot by (auto simp: slot_ids_role p') (metis option.discI)
  have pk: "pairs_kept (review_pairs w) (review_pairs w')"
    unfolding pairs by (rule pairs_kept_update [OF d(2) p(1) _ sub]) (use p(2) in \<open>auto simp: p'\<close>)
  have p'_in: "p' \<in> set (review_pairs w')" unfolding pairs by (rule update_where_in [OF p(1)]) simp
  have ok: "pair_ok w' p" by (rule pair_ok_kept [OF d(4) [OF p(1)] stays kept])
  have "elsewhere (base w) (base w')" using stays by (simp add: stays_def)
  from elsewhereD [OF this j] obtain part' ev' where j': "pair_joins p (base w') = Some (part', ev')"
    and same: "pt_user part' = pt_user part" "ev_host ev' = ev_host ev" by blast
  have roles: "writer_of ro part' ev' = writer_of ro part ev" "subject_of ro part' ev' = subject_of ro part ev" for ro
    using same by (simp_all add: writer_of_def subject_of_def)
  obtain r' where r': "r' \<in> set (reviews w')" "same_review r r'" using kept1 by (auto simp: rows_kept_def)
  have "slot_ok (reviews w') (slot_of ro p') (pair_participant p') (writer_of ro part' ev') (subject_of ro part' ev')" for ro
  proof (cases "ro = role")
    case True
    then show ?thesis using r' r(1-3) by (auto simp: slot_ok_def p' roles same_review_def)
  next
    case False
    then show ?thesis using ok j' by (auto simp: pair_ok_def p')
  qed
  then have p'_ok: "pair_ok w' p'"
    using ok j' p(2) p'(2) by (auto simp: pair_ok_def p' split: if_splits)
  have r_ok: "row_ok w' r"
  proof -
    have "rw_id r \<in> slot_ids p'" by (auto simp: slot_ids_role p')
    then show ?thesis using r p'_in by (auto simp: row_ok_def p' intro!: bexI [of _ p'])
  qed
  show ?thesis
    unfolding review_wf_def
  proof (intro conjI ballI)
    show "distinct (map rw_id (reviews w'))"
      unfolding rows reveal_ids_keys
      by (rule distinct_append_new [OF d(1) _ r(4)]) (use d(5) in \<open>auto simp: row_ok_def\<close>)
    have "map pair_id (review_pairs w') = map pair_id (review_pairs w)"
      "map pair_participant (review_pairs w') = map pair_participant (review_pairs w)"
      using pairs_become_keys [OF wf p(1) _ _ pairs] p' by simp_all
    then show "distinct (map pair_id (review_pairs w'))" "distinct (map pair_participant (review_pairs w'))"
      using d(2,3) by simp_all
    show "pair_ok w' q" if "q \<in> set (review_pairs w')" for q
      using that p'_ok update_where_new pair_ok_kept [OF d(4) stays kept] unfolding pairs by metis
    fix q assume q: "q \<in> set (reviews w')"
    from reveal_ids_mem [OF q [unfolded rows]] obtain r0 where r0: "r0 \<in> set (reviews w) \<or> r0 = r"
      "q = (if rw_id r0 \<in> ?I \<and> rw_status r0 = RV_SUBMITTED then r0\<lparr>rw_status := RV_REVEALED, rw_revealed_at := Some (now_of w)\<rparr> else r0)"
      by auto
    have r0_ok: "row_ok w' r0" using r0(1) r_ok row_ok_kept [OF d(5) stays pk] by auto
    show "row_ok w' q"
    proof (cases "rw_id r0 \<in> ?I")
      case False
      then show ?thesis using r0(2) r0_ok by auto
    next
      case True
      then have st: "pair_status p' = RP_REVEALED" and i: "rw_id r0 \<in> slot_ids p'" by (auto split: if_splits)
      have part: "pair_participant p' = rw_participant r0"
      proof (cases "r0 = r")
        case False
        with r0(1) have r0w: "r0 \<in> set (reviews w)" by simp
        then have "rw_id r0 < rw_id r" using d(5) [OF r0w] r(4) by (auto simp: row_ok_def)
        then have "rw_id r0 \<in> slot_ids p" using i by (auto simp: slot_ids_role p' split: if_splits)
        then show ?thesis using slot_participant [OF wf p(1) _ r0w] by (simp add: p')
      qed (simp add: r(1) p')
      show ?thesis
        by (rule row_ok_revealed [OF r0_ok p'_in _ _ part r0(2)]) (use st in auto)
    qed
  qed
qed

lemma review_step_wf: "review_step w w' \<Longrightarrow> review_wf w \<Longrightarrow> review_wf w'"
proof (induction rule: review_step.induct)
  case (apart w w')
  then show ?case
    by (intro review_step_wf_quiet [of w w']) (simp_all add: rows_kept_refl pairs_kept_refl)
next
  case (opens w w' p)
  then show ?case by (intro step_opens [of w w' p]) simp_all
next
  case (reminds w w' p t)
  note d = review_wfD [OF reminds.prems]
  show ?case
  proof (rule review_step_wf_quiet [OF reminds.prems reminds.hyps(1)])
    show "rows_kept (reviews w) (reviews w')" "map rw_id (reviews w') = map rw_id (reviews w)"
      using reminds.hyps(2) by (simp_all add: rows_kept_refl)
    then have ok: "pair_ok w' p" using pair_ok_kept [OF d(4) [OF reminds.hyps(3)] reminds.hyps(1)] by blast
    show "pairs_kept (review_pairs w) (review_pairs w')"
      unfolding reminds.hyps(4) by (rule pairs_kept_update [OF d(2) reminds.hyps(3)]) simp_all
    show "map pair_id (review_pairs w') = map pair_id (review_pairs w)"
      "map pair_participant (review_pairs w') = map pair_participant (review_pairs w)"
      using pairs_become_keys [OF reminds.prems reminds.hyps(3) _ _ reminds.hyps(4)] by simp_all
    have "pair_ok w' (p\<lparr>pair_reminded_at := Some t\<rparr>)"
      using ok by (intro pair_ok_change [OF ok]) (auto simp: pair_ok_def)
    then show "pair_ok w' q" if "q \<in> set (review_pairs w')" "q \<notin> set (review_pairs w)" for q
      using update_where_new that unfolding reminds.hyps(4) by metis
  qed (simp add: reminds.hyps(2))
next
  case (edits w w' r r')
  then show ?case by (intro step_edits [of w w' r r']) simp_all
next
  case (writes w w' p part ev role r p')
  then show ?case by (intro step_writes [of w w' p part ev role r p']) simp_all
next
  case (settles w w' p p')
  then show ?case by (intro step_settles [of w w' p p']) simp_all
qed

section \<open>The operations take steps\<close>

lemma pair_by_id_Some: "pair_by_id i w = Some p \<Longrightarrow> p \<in> set (review_pairs w) \<and> pair_id p = i"
  unfolding pair_by_id_def by (rule find_key_mem)

lemma pair_by_id_mem: "review_wf w \<Longrightarrow> p \<in> set (review_pairs w) \<Longrightarrow> pair_by_id (pair_id p) w = Some p"
  unfolding pair_by_id_def by (rule find_key_unique) (simp_all add: review_wfD)

lemma pair_by_participant_Some: "pair_by_participant i w = Some p \<Longrightarrow> p \<in> set (review_pairs w) \<and> pair_participant p = i"
  unfolding pair_by_participant_def by (rule find_key_mem)

lemma pair_by_participant_None: "pair_by_participant i w = None \<Longrightarrow> i \<notin> pair_participant ` set (review_pairs w)"
  by (auto simp: pair_by_participant_def find_None_iff)

lemma pair_update_Inr:
  "pair_update i f w = Inr (u, w') \<longleftrightarrow> (\<exists>p. pair_by_id i w = Some p \<and> pair_checks (f p) \<and> pair_unique (f p) (review_pairs w)
     \<and> w' = w\<lparr>review_pairs := update_where (\<lambda>q. pair_id q = i) (\<lambda>_. f p) (review_pairs w)\<rparr>)"
  by (auto simp: pair_update_def tx_simps)

lemma review_update_Inr:
  "review_update i f w = Inr (u, w') \<longleftrightarrow> (\<exists>r. review_by_id i w = Some r \<and> review_checks (f r)
     \<and> w' = w\<lparr>reviews := update_where (\<lambda>q. rw_id q = i) (\<lambda>_. f r) (reviews w)\<rparr>)"
  by (auto simp: review_update_def tx_simps)

lemma review_create_Inr:
  "review_create mk w = Inr (r, w') \<longleftrightarrow> r = mk (next_id (base w)) (Suc (next_id (base w))) \<and> review_checks r
     \<and> review_of (rw_participant r) (rw_reviewer r) w = None
     \<and> w' = w\<lparr>base := (base w)\<lparr>next_id := Suc (Suc (next_id (base w)))\<rparr>, reviews := reviews w @ [r]\<rparr>"
  by (auto simp: review_create_def tx_simps review_of_def)

lemma review_frame_stays: "review_frame w w' \<Longrightarrow> stays w w'"
  by (simp add: review_frame_def stays_def desk_frame_elsewhere)

lemma reveals_stays: "reveals t I w w' \<Longrightarrow> stays w w'"
  by (simp add: reveals_def stays_def desk_frame_elsewhere)

lemma loadWritable_Inr:
  assumes "loadWritable u p now w = Inr (c, w')"
  obtains part ev pair role where "w' = w" "participant_by_public_id p (base w) = Some part"
    "event_by_id (pt_event part) (base w) = Some ev" "pair_by_participant (pt_id part) w = Some pair"
    "u = writer_of role part ev" "in_play pair" "pair_opens_at pair \<le> now" "now < pair_deadline_at pair"
    "c = \<lparr>wt_participant_id = pt_id part, wt_event_id = pt_event part, wt_pair_id = pair_id pair,
       wt_pair_status = pair_status pair, wt_reviewee = subject_of role part ev, wt_role = role\<rparr>"
proof -
  from assms obtain part where part: "participant_by_public_id p (base w) = Some part"
    by (auto simp: loadWritable_def elim!: tx_readE tx_someE)
  with assms obtain ev where ev: "event_by_id (pt_event part) (base w) = Some ev"
    by (auto simp: loadWritable_def elim!: tx_readE tx_someE)
  with assms part obtain pair where pair: "pair_by_participant (pt_id part) w = Some pair"
    by (auto simp: loadWritable_def Let_def elim!: tx_readE tx_someE tx_guardE)
  let ?role = "if ev_host ev = u then HOST else GUEST"
  show thesis
  proof (rule that [of part ev pair ?role])
    show "w' = w" "u = writer_of ?role part ev" "in_play pair" "pair_opens_at pair \<le> now" "now < pair_deadline_at pair"
      "c = \<lparr>wt_participant_id = pt_id part, wt_event_id = pt_event part, wt_pair_id = pair_id pair,
       wt_pair_status = pair_status pair, wt_reviewee = subject_of ?role part ev, wt_role = ?role\<rparr>"
      using assms by (auto simp: loadWritable_def part ev pair Let_def tx_simps writer_of_def subject_of_def not_less)
  qed (rule part ev pair)+
qed

lemma participant_by_public_id_by_id:
  assumes "desk_wf s" and "participant_by_public_id p s = Some part"
  shows "participant_by_id (pt_id part) s = Some part"
  using assms find_key_unique [of pt_id "participants s" part]
  by (auto simp: participant_by_public_id_def participant_by_id_def desk_wf_def dest: find_key_mem)

lemma tx_if_reveal:
  "(if b then revealPair i now out else tx_return ()) w = Inr (u, w') \<Longrightarrow>
   (b \<and> revealPair i now out w = Inr (u, w')) \<or> (\<not> b \<and> w' = w)"
  by (auto simp: tx_simps split: if_splits)

lemma afterReview_effect:
  assumes run: "afterReview u pp input now c sc r w = Inr (res, w')"
    and c: "wt_pair_id c = pair_id p" "wt_pair_status c = pair_status p" and p: "pair_by_id (pair_id p) w = Some p"
    and dist: "distinct (map rw_id (reviews w))"
    and p': "p' = put_review (wt_role c) (rw_id r) now p"
    and slots: "slot_ids p' \<subseteq> rw_id ` set (reviews w)"
    and differ: "\<And>j. pair_host_review p' = Some j \<Longrightarrow> pair_guest_review p' \<noteq> Some j"
    and in_keys: "distinct (map pair_id (review_pairs w))"
  shows "stays w w' \<and> pair_checks p' \<and> pairs_become p p' w w'
    \<and> reviews w' = reveal_ids now (if pair_status p' = RP_REVEALED then slot_ids p' else {}) (reviews w)"
proof -
  define nxt where "nxt = (if pair_status p = RP_PENDING then RP_PARTIAL else RP_REVEALED)"
  have upd: "(if wt_role c = HOST then p\<lparr>pair_host_review := Some (rw_id r)\<rparr> else p\<lparr>pair_guest_review := Some (rw_id r)\<rparr>)
      \<lparr>pair_status := nxt, pair_revealed_at := (if nxt = RP_REVEALED then Some now else pair_revealed_at p)\<rparr> = p'"
    by (simp add: p' put_review_def nxt_def)
  have st: "pair_status p' = nxt" by (simp add: p' nxt_def)
  from run obtain w1 where w1: "openCaseIfAny (rw_id r) sc w = Inr ((), w1)"
    and rest: "tx_bind (assertReviewPairTransition (pair_status p) nxt (Some (pair_id p))) (\<lambda>_.
     tx_bind (pair_update (pair_id p) (\<lambda>p.
       (if wt_role c = HOST then p\<lparr>pair_host_review := Some (rw_id r)\<rparr> else p\<lparr>pair_guest_review := Some (rw_id r)\<rparr>)
         \<lparr>pair_status := nxt, pair_revealed_at := (if nxt = RP_REVEALED then Some now else pair_revealed_at p)\<rparr>)) (\<lambda>_.
     tx_bind (tx_read (\<lambda>w. rewardFor u (getNumber ''economy.review_reward_coins'' (base w))
       (getNumber ''economy.review_reward_cap'' (base w)) (getNumber ''economy.earning_cap_days'' (base w)) now (base w))) (\<lambda>reward.
     tx_bind (on_db (payReview u (rw_id r) reward)) (\<lambda>_.
     tx_bind (if nxt = RP_REVEALED then revealPair (pair_id p) now RP_REVEALED else tx_return ()) (\<lambda>_.
     tx_bind (on_db (audit_record A_USER (Some u) ''review.submitted'' ''review'' (Some (rw_id r)) None
       (Some (JObj [(''rating'', JInt \<lfloor>sr_rating input\<rfloor>), (''pairStatus'', JStr (review_pair_status_name nxt))])))) (\<lambda>_.
     tx_return
       \<lparr>or_public_id = rw_public_id r, or_participant_public_id = pp,
        or_rating = \<lfloor>sr_rating input\<rfloor>, or_tags = (case sr_tags input of None \<Rightarrow> [] | Some t \<Rightarrow> t),
        or_comment = sr_comment input, or_submitted_at = now,
        or_editable_until = (if nxt = RP_REVEALED then None else Some (rw_edit_deadline_at r)),
        or_revealed = (nxt = RP_REVEALED)\<rparr>)))))) w1 = Inr (res, w')"
    unfolding afterReview_def Let_def c nxt_def [symmetric] by (elim tx_bindE [of "openCaseIfAny i sc" for i sc]) simp
  have f1: "review_frame w w1" by (rule openCaseIfAny_frame [OF w1])
  then have p1: "pair_by_id (pair_id p) w1 = Some p" using p by (simp add: pair_by_id_def review_frame_def)
  from rest obtain w2 w3 w4 reward x2 x3 x4 where
    w2: "pair_update (pair_id p) (\<lambda>p.
       (if wt_role c = HOST then p\<lparr>pair_host_review := Some (rw_id r)\<rparr> else p\<lparr>pair_guest_review := Some (rw_id r)\<rparr>)
         \<lparr>pair_status := nxt, pair_revealed_at := (if nxt = RP_REVEALED then Some now else pair_revealed_at p)\<rparr>) w1 = Inr (x2, w2)"
    and w3: "on_db (payReview u (rw_id r) reward) w2 = Inr (x3, w3)"
    and w4: "(if nxt = RP_REVEALED then revealPair (pair_id p) now RP_REVEALED else tx_return ()) w3 = Inr (x4, w4)"
    and w5: "\<exists>a x. on_db (audit_record A_USER (Some u) ''review.submitted'' ''review'' (Some (rw_id r)) None a) w4 = Inr (x, w')"
    by (elim tx_bindE tx_readE assertPairE tx_returnE) (hypsubst, blast)
  from w2 p1 upd have w2': "pair_checks p'" "w2 = w1\<lparr>review_pairs := update_where (\<lambda>q. pair_id q = pair_id p) (\<lambda>_. p') (review_pairs w1)\<rparr>"
    by (auto simp: pair_update_Inr)
  have f3: "review_frame w2 w3" by (rule on_db_frame [OF payReview_desk w3])
  have f5: "review_frame w4 w'" using w5 on_db_frame [OF audit_desk] by blast
  have mem: "p \<in> set (review_pairs w)" using pair_by_id_Some [OF p] by blast
  have p3: "pair_by_id (pair_id p) w3 = Some p'"
  proof -
    have "review_pairs w3 = update_where (\<lambda>q. pair_id q = pair_id p) (\<lambda>_. p') (review_pairs w)"
      using f3 f1 by (simp add: w2' review_frame_def)
    moreover have "map pair_id (update_where (\<lambda>q. pair_id q = pair_id p) (\<lambda>_. p') (review_pairs w)) = map pair_id (review_pairs w)"
      by (rule update_where_key) (simp add: p')
    moreover have "p' \<in> set (update_where (\<lambda>q. pair_id q = pair_id p) (\<lambda>_. p') (review_pairs w))"
      by (rule update_where_in [OF mem]) simp
    ultimately show ?thesis using in_keys find_key_unique [of pair_id "review_pairs w3" p']
      by (simp add: pair_by_id_def p')
  qed
  have r3: "reviews w3 = reviews w" using f3 f1 by (simp add: w2' review_frame_def)
  have r4: "reveals now (if nxt = RP_REVEALED then slot_ids p' else {}) w3 w4"
  proof (cases "nxt = RP_REVEALED")
    case True
    with w4 have "revealPair (pair_id p) now RP_REVEALED w3 = Inr (x4, w4)" by simp
    then have "reveals now (slot_ids p') w3 w4"
      by (rule revealPair_effect) (simp_all add: r3 dist p3 slots differ)
    with True show ?thesis by simp
  next
    case False
    with w4 have "w4 = w3" by (simp add: tx_simps)
    with False show ?thesis by (simp add: reveals_def desk_frame_refl)
  qed
  have "reveals now (if nxt = RP_REVEALED then slot_ids p' else {}) w3 w'" by (rule reveals_frame [OF r4 f5])
  moreover have "desk_frame (base w) (base w3)" using f1 f3 by (auto simp: w2' review_frame_def intro: desk_frame_trans)
  ultimately have "desk_frame (base w) (base w')" "review_pairs w' = review_pairs w3"
    "reviews w' = reveal_ids now (if nxt = RP_REVEALED then slot_ids p' else {}) (reviews w)"
    by (auto simp: reveals_def r3 intro: desk_frame_trans)
  moreover have "review_pairs w3 = update_where (\<lambda>q. pair_id q = pair_id p) (\<lambda>_. p') (review_pairs w)"
    using f1 f3 by (simp add: w2' review_frame_def)
  ultimately show ?thesis using w2' by (simp add: stays_def desk_frame_elsewhere st)
qed

lemma review_of_None: "review_of p u w = None \<longleftrightarrow> (\<forall>r\<in>set (reviews w). \<not> (rw_participant r = p \<and> rw_reviewer r = u))"
  by (auto simp: review_of_def find_None_iff)

lemma slot_taken:
  assumes "review_wf w" and "p \<in> set (review_pairs w)" and "pair_joins p (base w) = Some (part, ev)"
    and "slot_of role p = Some i"
  shows "review_of (pair_participant p) (writer_of role part ev) w \<noteq> None"
  using review_wfD(4) [OF assms(1,2)] assms(3,4) by (auto simp: pair_ok_def slot_ok_def review_of_None)

lemma slot_ids_rows:
  assumes "review_wf w" and "p \<in> set (review_pairs w)"
  shows "slot_ids p \<subseteq> rw_id ` set (reviews w)"
proof
  fix i assume "i \<in> slot_ids p"
  then obtain role where "slot_of role p = Some i" by (auto simp: slot_ids_role)
  moreover obtain a b where "slot_ok (reviews w) (slot_of role p) (pair_participant p) a b"
    using review_wfD(4) [OF assms] by (auto simp: pair_ok_def)
  ultimately show "i \<in> rw_id ` set (reviews w)" by (auto simp: slot_ok_def)
qed

lemma slots_differ:
  assumes "review_wf w" and p: "p \<in> set (review_pairs w)" and "pair_host_review p = Some j"
  shows "pair_guest_review p \<noteq> Some j"
proof
  assume g: "pair_guest_review p = Some j"
  from review_wfD(4) [OF assms(1) p] obtain part ev where
    "\<And>role. slot_ok (reviews w) (slot_of role p) (pair_participant p) (writer_of role part ev) (subject_of role part ev)"
    by (auto simp: pair_ok_def)
  from this [of HOST] this [of GUEST] obtain r r' where "r \<in> set (reviews w)" "rw_id r = j" "rw_reviewer r = ev_host ev" "rw_reviewee r = pt_user part"
    "r' \<in> set (reviews w)" "rw_id r' = j" "rw_reviewer r' = pt_user part"
    using assms(3) g by (auto simp: slot_ok_def slot_of_def writer_of_def subject_of_def)
  moreover then have "r = r'" using review_wfD(1) [OF assms(1)] by (metis distinct_key_eq)
  moreover have "review_checks r" using calculation(1) review_wfD(5) [OF assms(1)] by (auto simp: row_ok_def)
  ultimately show False by (simp add: review_checks_def)
qed

lemma submit_step:
  assumes wf: "review_wf w" and desk: "desk_wf (base w)" and run: "review_submit rt u pp input w = Inr (res, w')"
  shows "review_step w w'"
proof -
  let ?m = "getInt ''review.edit_window_minutes'' (base w)"
  from run have "tx_bind (loadWritable u pp (now_of w)) (\<lambda>c. tx_bind (tx_read (judge rt (sr_comment input))) (\<lambda>(v, sc).
      tx_bind (review_create (new_review c u input v (now_of w) ?m)) (\<lambda>r. afterReview u pp input (now_of w) c sc r))) w = Inr (res, w')"
    unfolding review_submit_def by (elim tx_readE tx_guardE)
  then obtain c w0 where load0: "loadWritable u pp (now_of w) w = Inr (c, w0)"
    and rest: "tx_bind (tx_read (judge rt (sr_comment input))) (\<lambda>(v, sc).
      tx_bind (review_create (new_review c u input v (now_of w) ?m)) (\<lambda>r. afterReview u pp input (now_of w) c sc r)) w0 = Inr (res, w')"
    by (rule tx_bindE)
  have w0: "w0 = w" using load0 by (rule loadWritable_Inr)
  note load = load0 [unfolded w0]
  obtain verdict sc where judged: "judge rt (sr_comment input) w = (verdict, sc)" by (cases "judge rt (sr_comment input) w")
  from rest have "tx_bind (review_create (new_review c u input verdict (now_of w) ?m)) (\<lambda>r. afterReview u pp input (now_of w) c sc r) w = Inr (res, w')"
    by (simp add: w0 judged)
  then obtain r w1 where
    create: "review_create (new_review c u input verdict (now_of w) ?m) w = Inr (r, w1)"
    and after: "afterReview u pp input (now_of w) c sc r w1 = Inr (res, w')" by (rule tx_bindE)
  from load obtain part ev p role where
    part: "participant_by_public_id pp (base w) = Some part" and ev: "event_by_id (pt_event part) (base w) = Some ev"
    and pair: "pair_by_participant (pt_id part) w = Some p" and u: "u = writer_of role part ev"
    and play: "in_play p" "pair_opens_at p \<le> now_of w" "now_of w < pair_deadline_at p"
    and c: "c = \<lparr>wt_participant_id = pt_id part, wt_event_id = pt_event part, wt_pair_id = pair_id p,
       wt_pair_status = pair_status p, wt_reviewee = subject_of role part ev, wt_role = role\<rparr>"
    by (rule loadWritable_Inr)
  have p: "p \<in> set (review_pairs w)" "pair_participant p = pt_id part" using pair_by_participant_Some [OF pair] by auto
  have j: "pair_joins p (base w) = Some (part, ev)"
    using participant_by_public_id_by_id [OF desk part] ev by (simp add: pair_joins_def p)
  let ?n = "next_id (base w)"
  from create have r: "r = new_review c u input verdict (now_of w) (getInt ''review.edit_window_minutes'' (base w)) ?n (Suc ?n)"
    and chk: "review_checks r" and first: "review_of (rw_participant r) (rw_reviewer r) w = None"
    and w1: "w1 = w\<lparr>base := (base w)\<lparr>next_id := Suc (Suc ?n)\<rparr>, reviews := reviews w @ [r]\<rparr>"
    by (auto simp: review_create_Inr)
  have rid: "rw_id r = ?n" "rw_participant r = pair_participant p" "rw_reviewer r = writer_of role part ev"
    "rw_reviewee r = subject_of role part ev" "rw_status r = RV_SUBMITTED" "rw_submitted_at r = now_of w"
    by (simp_all add: r new_review_def c p u)
  have slot: "slot_of role p = None"
    using slot_taken [OF wf p(1) j, of role] first rid by (cases "slot_of role p") auto
  define p' where "p' = put_review role (rw_id r) (now_of w) p"
  note d = review_wfD [OF wf]
  have old: "i \<in> slot_ids p \<Longrightarrow> i < ?n" for i
    using slot_ids_rows [OF wf p(1)] d(5) by (auto simp: row_ok_def)
  have "stays w1 w' \<and> pair_checks p' \<and> pairs_become p p' w1 w'
    \<and> reviews w' = reveal_ids (now_of w) (if pair_status p' = RP_REVEALED then slot_ids p' else {}) (reviews w1)"
  proof (rule afterReview_effect [OF after])
    show "wt_pair_id c = pair_id p" "wt_pair_status c = pair_status p" by (simp_all add: c)
    show "pair_by_id (pair_id p) w1 = Some p" using pair_by_id_mem [OF wf p(1)] by (simp add: pair_by_id_def w1)
    show "distinct (map rw_id (reviews w1))"
      using distinct_append_new [OF d(1), of ?n r] d(5) rid by (simp add: w1 row_ok_def)
    show "p' = put_review (wt_role c) (rw_id r) (now_of w) p" by (simp add: p'_def c)
    show "slot_ids p' \<subseteq> rw_id ` set (reviews w1)"
    proof
      fix i assume "i \<in> slot_ids p'"
      then have "i = rw_id r \<or> i \<in> slot_ids p" by (auto simp: slot_ids_role p'_def split: if_splits)
      then show "i \<in> rw_id ` set (reviews w1)" using slot_ids_rows [OF wf p(1)] by (auto simp: w1)
    qed
    show "distinct (map pair_id (review_pairs w1))" using d(2) by (simp add: w1)
    fix i assume "pair_host_review p' = Some i"
    then show "pair_guest_review p' \<noteq> Some i"
      using slots_differ [OF wf p(1)] old rid(1)
      by (cases role) (auto simp: p'_def put_review_def slot_ids_def Let_def)
  qed
  then have eff: "stays w1 w'" "pair_checks p'" "pairs_become p p' w w'"
    "reviews w' = reveal_ids (now_of w) (if pair_status p' = RP_REVEALED then slot_ids p' else {}) (reviews w @ [r])"
    by (simp_all add: w1)
  have s: "stays w w'" and n: "?n < next_id (base w')"
  proof -
    have "elsewhere (base w) (base w1)"
      by (rule desk_frame_elsewhere) (simp add: w1 desk_frame_def)
    then show "stays w w'" using eff(1) elsewhere_trans by (auto simp: stays_def)
    show "?n < next_id (base w')" using eff(1) by (simp add: stays_def elsewhere_def w1)
  qed
  show ?thesis
    by (rule review_step.writes [OF s p(1) play(1,2,3) j slot rid(2-4) _ _ rid(5) chk rid(6) first p'_def eff(2-4)])
      (simp_all add: rid n)
qed

lemma review_of_Some: "review_of p u w = Some r \<Longrightarrow> r \<in> set (reviews w) \<and> rw_participant r = p \<and> rw_reviewer r = u"
  by (auto simp: review_of_def find_Some_iff)

lemma edit_step:
  assumes wf: "review_wf w" and run: "review_edit rt u pp input w = Inr (res, w')"
  shows "review_step w w'"
proof -
  from run obtain part where part: "participant_by_public_id pp (base w) = Some part"
    by (auto simp: review_edit_def elim!: tx_readE tx_guardE tx_someE)
  with run obtain r where r: "review_of (pt_id part) u w = Some r"
    by (auto simp: review_edit_def elim!: tx_readE tx_guardE tx_someE)
  obtain verdict sc where judged: "judge rt (sr_comment input) w = (verdict, sc)" by (cases "judge rt (sr_comment input) w")
  let ?f = "\<lambda>r. r\<lparr>rw_rating := \<lfloor>sr_rating input\<rfloor>, rw_tags := (case sr_tags input of None \<Rightarrow> [] | Some t \<Rightarrow> t),
        rw_comment := sr_comment input, rw_moderation := verdict\<rparr>"
  have st: "rw_status r = RV_SUBMITTED" "now_of w < rw_edit_deadline_at r"
    using run by (auto simp: review_edit_def part r not_le elim!: tx_guardE)
  from run have "tx_bind (review_update (rw_id r) ?f) (\<lambda>_. tx_bind (openCaseIfAny (rw_id r) sc) (\<lambda>_.
     tx_bind (on_db (audit_record A_USER (Some u) ''review.edited'' ''review'' (Some (rw_id r)) None
       (Some (JObj [(''rating'', JInt \<lfloor>sr_rating input\<rfloor>)])))) (\<lambda>_.
     tx_return
       \<lparr>or_public_id = rw_public_id r, or_participant_public_id = pp,
        or_rating = \<lfloor>sr_rating input\<rfloor>, or_tags = (case sr_tags input of None \<Rightarrow> [] | Some t \<Rightarrow> t),
        or_comment = sr_comment input, or_submitted_at = rw_submitted_at r,
        or_editable_until = Some (rw_edit_deadline_at r), or_revealed = False\<rparr>))) w = Inr (res, w')"
    using st by (auto simp: review_edit_def part r judged elim!: tx_guardE)
  then obtain w1 w2 a x x1 x2 where w1: "review_update (rw_id r) ?f w = Inr (x1, w1)" and w2: "openCaseIfAny (rw_id r) sc w1 = Inr (x2, w2)"
    and w3: "on_db (audit_record A_USER (Some u) ''review.edited'' ''review'' (Some (rw_id r)) None a) w2 = Inr (x, w')"
    by (elim tx_bindE tx_returnE) (hypsubst, blast)
  have mem: "r \<in> set (reviews w)" using review_of_Some [OF r] by blast
  have frame: "review_frame w1 w'"
    using openCaseIfAny_frame [OF w2] on_db_frame [OF audit_desk w3] review_frame_trans by blast
  from w1 have chk: "review_checks (?f r)"
    and w1': "w1 = w\<lparr>reviews := update_where (\<lambda>q. rw_id q = rw_id r) (\<lambda>_. ?f r) (reviews w)\<rparr>"
    using review_by_id_mem [OF review_wfD(1) [OF wf] mem] by (auto simp: review_update_Inr)
  show ?thesis
  proof (rule review_step.edits [OF _ _ mem st, where r' = "?f r"])
    show "stays w w'" using review_frame_stays [OF frame] by (simp add: w1' stays_def)
    show "reviews w' = update_where (\<lambda>q. rw_id q = rw_id r) (\<lambda>_. ?f r) (reviews w)"
      "review_pairs w' = review_pairs w"
      using frame by (simp_all add: w1' review_frame_def)
  qed (simp_all add: chk same_review_def)
qed

lemma stays_refl: "stays w w"
  by (simp add: stays_def elsewhere_refl)

lemma stays_trans: "stays a b \<Longrightarrow> stays b c \<Longrightarrow> stays a c"
  by (auto simp: stays_def intro: elsewhere_trans)

lemma review_frame_step: "review_frame w w' \<Longrightarrow> review_step w w'"
  by (rule review_step.apart) (simp_all add: review_frame_stays review_frame_def)

lemma settleOne_step:
  assumes wf: "review_wf w" and run: "review_settleOne i (now_of w) w = Inr (res, w')"
  shows "review_step w w' \<and> now_of w' = now_of w \<and> desk_frame (base w) (base w') \<and> (\<forall>p. pair_by_id i w = Some p \<longrightarrow> in_play p \<longrightarrow> pair_deadline_at p \<le> now_of w \<longrightarrow>
    pairs_become p (settled_pair (now_of w) p) w w')"
proof -
  from run obtain p where p: "pair_by_id i w = Some p"
    by (auto simp: review_settleOne_def elim!: tx_someE)
  have mem: "p \<in> set (review_pairs w)" and i: "pair_id p = i" using pair_by_id_Some [OF p] by auto
  show ?thesis
  proof (cases "in_play p \<and> pair_deadline_at p \<le> now_of w")
    case False
    then have "w' = w" using run by (auto simp: review_settleOne_def p tx_simps not_le split: if_splits)
    then show ?thesis using p False by (auto intro: review_frame_step review_frame_refl desk_frame_refl)
  next
    case True
    define nxt where "nxt = (if pair_status p = RP_PARTIAL then RP_EXPIRED_PARTIAL else RP_EXPIRED_EMPTY)"
    let ?p = "settled_pair (now_of w) p"
    have upd: "p\<lparr>pair_status := nxt, pair_revealed_at := Some (now_of w)\<rparr> = ?p"
      by (simp add: settled_pair_def nxt_def)
    from run True have "tx_bind (assertReviewPairTransition (pair_status p) nxt (Some i)) (\<lambda>_.
           tx_bind (pair_update i (\<lambda>p. p\<lparr>pair_status := nxt, pair_revealed_at := Some (now_of w)\<rparr>)) (\<lambda>_.
           tx_bind (if nxt = RP_EXPIRED_PARTIAL then revealPair i (now_of w) nxt else tx_return ()) (\<lambda>_.
           tx_bind (on_db (audit_record A_SYSTEM None ''review_pair.expired'' ''review_pair'' (Some i)
             (Some (JObj [(''status'', JStr (review_pair_status_name (pair_status p)))]))
             (Some (JObj [(''status'', JStr (review_pair_status_name nxt))])))) (\<lambda>_.
           tx_return (Some nxt))))) w = Inr (res, w')"
      by (auto simp: review_settleOne_def p Let_def nxt_def [symmetric] split: if_splits)
    then obtain w1 w2 b a x1 x2 x3 where
      1: "pair_update i (\<lambda>p. p\<lparr>pair_status := nxt, pair_revealed_at := Some (now_of w)\<rparr>) w = Inr (x1, w1)"
      and 2: "(if nxt = RP_EXPIRED_PARTIAL then revealPair i (now_of w) nxt else tx_return ()) w1 = Inr (x2, w2)"
      and 3: "on_db (audit_record A_SYSTEM None ''review_pair.expired'' ''review_pair'' (Some i) b a) w2 = Inr (x3, w')"
      by (elim tx_bindE assertPairE tx_returnE) (hypsubst, blast)
    from 1 p upd have chk: "pair_checks ?p"
      and w1: "w1 = w\<lparr>review_pairs := update_where (\<lambda>q. pair_id q = pair_id p) (\<lambda>_. ?p) (review_pairs w)\<rparr>"
      by (auto simp: pair_update_Inr i)
    have p1: "pair_by_id i w1 = Some ?p"
    proof -
      have keys: "map pair_id (update_where (\<lambda>q. pair_id q = pair_id p) (\<lambda>_. ?p) (review_pairs w)) = map pair_id (review_pairs w)"
        by (rule update_where_key) simp
      have "?p \<in> set (update_where (\<lambda>q. pair_id q = pair_id p) (\<lambda>_. ?p) (review_pairs w))"
        by (rule update_where_in [OF mem]) simp
      then show ?thesis using keys review_wfD(2) [OF wf] find_key_unique [of pair_id "review_pairs w1" ?p]
        by (simp add: pair_by_id_def w1 i)
    qed
    have r1: "reviews w1 = reviews w" by (simp add: w1)
    have rev: "reveals (now_of w) (if nxt = RP_EXPIRED_PARTIAL then slot_ids p else {}) w1 w2"
    proof (cases "nxt = RP_EXPIRED_PARTIAL")
      case True
      with 2 have "revealPair i (now_of w) nxt w1 = Inr (x2, w2)" by simp
      then have "reveals (now_of w) (slot_ids ?p) w1 w2"
        by (rule revealPair_effect [OF _ _ p1])
          (use review_wfD(1) [OF wf] slot_ids_rows [OF wf mem] slots_differ [OF wf mem] in
            \<open>simp_all add: r1\<close>, simp add: settled_pair_def)
      with True show ?thesis by simp
    next
      case False
      with 2 have "w2 = w1" by (simp add: tx_simps)
      with False show ?thesis by (simp add: reveals_def desk_frame_refl)
    qed
    note r = reveals_frame [OF rev on_db_frame [OF audit_desk 3]]
    have st: "stays w w'" using reveals_stays [OF r] by (simp add: stays_def w1)
    have pairs: "pairs_become p ?p w w'" using r by (simp add: reveals_def w1)
    have rows: "reviews w' = reveal_ids (now_of w) (if pair_status ?p = RP_EXPIRED_PARTIAL then slot_ids p else {}) (reviews w)"
      using r by (simp add: reveals_def r1 nxt_def)
    have "review_step w w'"
      by (rule review_step.settles [OF st mem _ _ refl chk pairs rows]) (use True in auto)
    moreover have "now_of w' = now_of w" "desk_frame (base w) (base w')"
      using r by (simp_all add: reveals_def desk_frame_def w1)
    ultimately show ?thesis using pairs p by auto
  qed
qed

lemma announceOne_step:
  assumes run: "announceOne i (now_of w) w = Inr (res, w')"
  shows "review_step w w' \<and> now_of w' = now_of w \<and> desk_frame (base w) (base w')"
proof (cases "\<exists>p. pair_by_id i w = Some p \<and> pair_reminded_at p = None")
  case False
  then have "w' = w" using run by (cases "pair_by_id i w") (auto simp: announceOne_def tx_simps split: if_splits)
  then show ?thesis by (simp add: review_frame_step review_frame_refl desk_frame_refl)
next
  case True
  then obtain p where p: "pair_by_id i w = Some p" "pair_reminded_at p = None" by blast
  from run obtain w1 x1 part ev x where w1: "pair_update i (\<lambda>p. p\<lparr>pair_reminded_at := Some (now_of w)\<rparr>) w = Inr (x1, w1)"
    and w2: "on_db (emitWindowOpen p part ev (now_of w)) w1 = Inr (x, w')"
    by (auto simp: announceOne_def p tx_return_Inr elim!: tx_bindE tx_someE)
  from w1 p have w1': "w1 = w\<lparr>review_pairs := update_where (\<lambda>q. pair_id q = i) (\<lambda>_. p\<lparr>pair_reminded_at := Some (now_of w)\<rparr>) (review_pairs w)\<rparr>"
    by (auto simp: pair_update_Inr)
  have frame: "review_frame w1 w'" by (rule on_db_frame [OF emit_desk(2) w2])
  have mem: "p \<in> set (review_pairs w)" "pair_id p = i" using pair_by_id_Some [OF p(1)] by auto
  have "review_step w w'"
  proof (rule review_step.reminds [OF _ _ mem(1)])
    show "stays w w'" using review_frame_stays [OF frame] by (simp add: w1' stays_def)
    show "reviews w' = reviews w" "pairs_become p (p\<lparr>pair_reminded_at := Some (now_of w)\<rparr>) w w'"
      using frame by (simp_all add: w1' review_frame_def mem)
  qed
  then show ?thesis using frame by (simp add: w1' review_frame_def desk_frame_def)
qed

lemma open_step:
  assumes j: "participant_by_id i (base w) = Some part" "event_by_id (pt_event part) (base w) = Some ev"
    and run: "openForParticipant i e ends w = Inr (u, w')"
  shows "review_step w w'"
proof -
  define opens where "opens = ends + getInt ''review.window_opens_hours'' (base w) * 3600000"
  define deadline where "deadline = ends + getInt ''review.window_deadline_days'' (base w) * 24 * 3600000"
  let ?n = "next_id (base w)"
  let ?p = "\<lparr>pair_id = ?n, pair_participant = i, pair_event = e, pair_host_review = None,
                 pair_guest_review = None, pair_opens_at = opens, pair_deadline_at = deadline,
                 pair_status = RP_PENDING, pair_revealed_at = None, pair_reminded_at = None\<rparr>"
  let ?w = "w\<lparr>base := (base w)\<lparr>next_id := Suc ?n\<rparr>\<rparr>"
  from run have lt: "opens < deadline"
    and w': "w' = (case pair_by_participant i ?w of Some _ \<Rightarrow> ?w | None \<Rightarrow> ?w\<lparr>review_pairs := review_pairs w @ [?p]\<rparr>)"
    by (auto simp: openForParticipant_def tx_simps Let_def opens_def deadline_def split: option.splits)
  have st: "desk_frame (base w) (base ?w)" by (simp add: desk_frame_def)
  show ?thesis
  proof (cases "pair_by_participant i ?w")
    case (Some q)
    then show ?thesis using st by (auto simp: w' review_frame_def intro: review_frame_step)
  next
    case None
    then have w': "w' = ?w\<lparr>review_pairs := review_pairs w @ [?p]\<rparr>" and new: "i \<notin> pair_participant ` set (review_pairs w)"
      using pair_by_participant_None [of i ?w] by (simp_all add: w')
    show ?thesis
    proof (rule review_step.opens [where p = ?p])
      show "stays w w'" using desk_frame_elsewhere [OF st] by (simp add: w' stays_def)
      show "pair_joins ?p (base w) \<noteq> None" using j by (simp add: pair_joins_def)
      show "pair_checks ?p" using lt by (simp add: pair_checks_def pair_contents_def)
    qed (simp_all add: w' new)
  qed
qed

lemma find_bump_host:
  "find (\<lambda>q. ev_id q = i) evs = Some ev \<Longrightarrow>
   \<exists>ev'. find (\<lambda>q. ev_id q = i) (bump e d c evs) = Some ev' \<and> ev_host ev' = ev_host ev"
  by (induction evs) (auto simp: bump_def split: if_splits)

lemma desk_step_hosts:
  "desk_step e s s' \<Longrightarrow> event_by_id i s = Some ev \<Longrightarrow> \<exists>ev'. event_by_id i s' = Some ev' \<and> ev_host ev' = ev_host ev"
proof (induction rule: desk_step.induct)
  case (frame s s')
  then show ?case by (simp add: desk_frame_def event_by_id_def)
next
  case (move r r' s s')
  then have ev: "events s' = bump e (seat_delta (pt_status r) (pt_status r')) 0 (events s)" by (simp add: moved_def)
  show ?case using move.prems find_bump_host unfolding event_by_id_def ev by blast
next
  case (insert row c s s')
  then have ev: "events s' = bump e (seat_delta P_PENDING (pt_status row)) c (events s)" by (simp add: inserted_def)
  show ?case using insert.prems find_bump_host unfolding event_by_id_def ev by blast
qed

section \<open>Runs\<close>

text \<open>
  Everything that happens to reviews: submissions and edits by anyone, the two sweeps, windows
  opened for the event a participation is on, and the participations' own operations, time
  passing included.
\<close>

datatype review_op =
    Submit_Review text_runtime id id submit_review_input
  | Edit_Review text_runtime id id submit_review_input
  | Settle_Expired nat
  | Announce_Open nat
  | Open_Window id
  | Desk desk_op

definition open_window :: "id \<Rightarrow> (error, world, unit) tx" where
  "open_window i =
     tx_bind (tx_read (\<lambda>w. participant_by_id i (base w))) (\<lambda>part.
     tx_bind (tx_some part (DbError ''event_participant not found'')) (\<lambda>part.
     tx_bind (tx_read (\<lambda>w. event_by_id (pt_event part) (base w))) (\<lambda>ev.
     tx_bind (tx_some ev (DbError ''event not found'')) (\<lambda>ev.
     openForParticipant i (ev_id ev) (ev_ends_at ev)))))"

definition act_void :: "('e, 's, 'a) act \<Rightarrow> ('e, 's, unit) act" where
  "act_void m = act_bind m (\<lambda>_. act_return ())"

fun review_do :: "review_op \<Rightarrow> (error, world, unit) act" where
  "review_do (Submit_Review rt u p input) = act_void (in_tx (review_submit rt u p input))"
| "review_do (Edit_Review rt u p input) = act_void (in_tx (review_edit rt u p input))"
| "review_do (Settle_Expired n) = act_void (settleExpired n)"
| "review_do (Announce_Open n) = act_void (announceOpenWindows n)"
| "review_do (Open_Window i) = in_tx (open_window i)"
| "review_do (Desk x) = in_tx (on_db (desk_do x))"

definition reviewed_from :: "world \<Rightarrow> world \<Rightarrow> bool" where
  "reviewed_from w0 w \<longleftrightarrow> desk_wf (base w) \<and> review_wf w \<and> review_step\<^sup>*\<^sup>* w0 w"

lemma reviewed_from_step:
  "reviewed_from w0 w \<Longrightarrow> review_step w w' \<Longrightarrow> desk_wf (base w') \<Longrightarrow> reviewed_from w0 w'"
  by (auto simp: reviewed_from_def intro: review_step_wf)

lemma desk_wf_frame: "desk_wf s \<Longrightarrow> desk_frame s s' \<Longrightarrow> desk_wf s'"
  by (rule frame_wf)

definition base_frame :: "world \<Rightarrow> world \<Rightarrow> bool" where
  "base_frame w w' \<longleftrightarrow> desk_frame (base w) (base w')"

lemma base_frame_reflp: "reflp base_frame"
  by (simp add: reflp_def base_frame_def desk_frame_refl)

lemma base_frame_transp: "transp base_frame"
  by (rule transpI) (auto simp: base_frame_def intro: desk_frame_trans)

lemma on_db_base: "tx_rel desk_frame m \<Longrightarrow> tx_rel base_frame (on_db m)"
  by (auto simp: tx_rel_def tx_simps base_frame_def)

lemma modify_base: "(\<And>w. base (f w) = base w) \<Longrightarrow> tx_rel base_frame (tx_modify f)"
  by (auto simp: tx_rel_def base_frame_def desk_frame_refl)

lemma fresh_base: "tx_rel base_frame fresh"
  by (rule tx_relI) (auto simp: fresh_Inr base_frame_def desk_frame_def)

lemma assert_base: "tx_rel base_frame (assertTransition name table a b entity i)"
  by (rule tx_relI) (simp add: assertTransition_Inr base_frame_def desk_frame_refl)

lemmas base_rules = tx_rel_rules tx_rel_prod base_frame_reflp base_frame_transp on_db_base fresh_base modify_base assert_base
  audit_desk emit_desk payReview_desk applyRatingTrust_desk

lemma table_base:
  "tx_rel base_frame (review_create mk)" "tx_rel base_frame (review_update i f)" "tx_rel base_frame (pair_update i g)"
  "tx_rel base_frame (openCaseIfAny i sc)"
  unfolding review_create_def review_update_def pair_update_def openCaseIfAny_def openCase_def
  by (intro base_rules; simp)+

lemma reveal_base: "tx_rel base_frame (revealPair i now out)"
  unfolding revealPair_def revealOne_def assertReviewTransition_def by (intro base_rules table_base)

lemma load_base: "tx_rel base_frame (loadWritable u p now)"
  unfolding loadWritable_def Let_def by (intro base_rules)

lemma submit_desk: "review_submit rt u pp input w = Inr (res, w') \<Longrightarrow> desk_frame (base w) (base w')"
proof -
  have "tx_rel base_frame (review_submit rt u pp input)"
    unfolding review_submit_def afterReview_def Let_def assertReviewPairTransition_def
    by (intro base_rules table_base reveal_base load_base)
  then show "review_submit rt u pp input w = Inr (res, w') \<Longrightarrow> ?thesis"
    by (auto simp: tx_rel_def base_frame_def)
qed

lemma edit_desk: "review_edit rt u pp input w = Inr (res, w') \<Longrightarrow> desk_frame (base w) (base w')"
proof -
  have "tx_rel base_frame (review_edit rt u pp input)"
    unfolding review_edit_def by (intro base_rules table_base)
  then show "review_edit rt u pp input w = Inr (res, w') \<Longrightarrow> ?thesis"
    by (auto simp: tx_rel_def base_frame_def)
qed

lemma desk_step_time: "desk_step e s s' \<Longrightarrow> clock s' = clock s \<and> next_id s \<le> next_id s'"
  by (induction rule: desk_step.induct) (auto simp: desk_frame_def moved_def inserted_def)

lemma desk_steps_hosts:
  "(desk_step e)\<^sup>*\<^sup>* s s' \<Longrightarrow> event_by_id i s = Some ev \<Longrightarrow>
   (\<exists>ev'. event_by_id i s' = Some ev' \<and> ev_host ev' = ev_host ev)"
  by (induction rule: rtranclp_induct) (auto dest: desk_step_hosts)

lemma desk_steps_time: "(desk_step e)\<^sup>*\<^sup>* s s' \<Longrightarrow> clock s' = clock s \<and> next_id s \<le> next_id s'"
  by (induction rule: rtranclp_induct) (auto dest: desk_step_time)

lemma desk_do_elsewhere:
  assumes "desk_do x s = Inr (u, s')" and "desk_wf s"
  shows "elsewhere s s'"
proof (rule participation_kept_elsewhere)
  show "participation_kept s s'" by (rule desk_do_kept [OF assms])
  show "desk_wf s" "desk_wf s'" using assms desk_do_wf by blast+
  from desk_do_effect [OF assms(2,1)] consider
    (steps) e where "(desk_step e)\<^sup>*\<^sup>* s s'" | (time) d where "s' = s\<lparr>clock := clock s + int d\<rparr>"
    by (auto simp: desk_done_def desk_reached_def)
  then have "(\<forall>i ev. event_by_id i s = Some ev \<longrightarrow> (\<exists>ev'. event_by_id i s' = Some ev' \<and> ev_host ev' = ev_host ev))
      \<and> clock s \<le> clock s' \<and> next_id s \<le> next_id s'"
  proof cases
    case steps
    then show ?thesis using desk_steps_hosts desk_steps_time by force
  next
    case time
    then show ?thesis by (simp add: event_by_id_def)
  qed
  then show "\<forall>i ev. event_by_id i s = Some ev \<longrightarrow> (\<exists>ev'. event_by_id i s' = Some ev' \<and> ev_host ev' = ev_host ev)"
    "clock s \<le> clock s'" "next_id s \<le> next_id s'" by blast+
qed

lemma open_window_effect:
  assumes "open_window i w = Inr (u, w')"
  shows "review_step w w' \<and> desk_frame (base w) (base w')"
proof -
  from assms obtain part ev where j: "participant_by_id i (base w) = Some part" "event_by_id (pt_event part) (base w) = Some ev"
    and run: "openForParticipant i (ev_id ev) (ev_ends_at ev) w = Inr (u, w')"
    unfolding open_window_def by (elim tx_readE tx_someE)
  have "desk_frame (base w) (base w')"
    using run by (auto simp: openForParticipant_def tx_simps Let_def desk_frame_def split: option.splits)
  with open_step [OF j run] show ?thesis by blast
qed

lemma act_void_inv: "act_inv P m \<Longrightarrow> act_inv P (act_void m)"
  unfolding act_void_def by (intro act_inv_rules)

lemma reviewed_tx:
  assumes "\<And>w a w'. desk_wf (base w) \<Longrightarrow> review_wf w \<Longrightarrow> m w = Inr (a, w') \<Longrightarrow> review_step w w' \<and> desk_wf (base w')"
  shows "act_inv (reviewed_from w0) (in_tx m)"
proof (rule act_inv_in_tx)
  fix s a s' assume r: "reviewed_from w0 s" and m: "m s = Inr (a, s')"
  from r assms [OF _ _ m] show "reviewed_from w0 s'"
    by (intro reviewed_from_step [OF r]) (auto simp: reviewed_from_def)
qed

text \<open>A sweep runs at one instant; each of its transactions is a step.\<close>

lemma sweep_inv:
  assumes "\<And>i w a w'. review_wf w \<Longrightarrow> tr i (now_of w) w = Inr (a, w') \<Longrightarrow>
      review_step w w' \<and> now_of w' = now_of w \<and> desk_frame (base w) (base w')"
  shows "act_inv (reviewed_from w0) (act_bind (act_read now_of) (\<lambda>now. act_bind (act_read (ids now)) (\<lambda>due.
    act_fold (\<lambda>i b. act_bind (in_tx (tr i now)) (\<lambda>x. act_return (acc x b))) due b0)))"
proof -
  have "act_inv (\<lambda>w. reviewed_from w0 w \<and> now_of w = now)
      (act_fold (\<lambda>i b. act_bind (in_tx (tr i now)) (\<lambda>x. act_return (acc x b))) due b0)" for now due
  proof (intro act_inv_rules act_inv_in_tx)
    fix i s a s' assume s: "reviewed_from w0 s \<and> now_of s = now" and run: "tr i now s = Inr (a, s')"
    then have "review_step s s' \<and> now_of s' = now_of s \<and> desk_frame (base s) (base s')"
      using assms [of s i a s'] by (auto simp: reviewed_from_def)
    with s show "reviewed_from w0 s' \<and> now_of s' = now"
      by (metis reviewed_from_step reviewed_from_def desk_wf_frame)
  qed
  then show ?thesis by (auto simp: act_inv_def)
qed

lemma review_do_inv: "act_inv (reviewed_from w0) (review_do x)"
proof (cases x)
  case (Submit_Review rt u p input)
  show ?thesis unfolding Submit_Review review_do.simps
    by (intro act_void_inv reviewed_tx) (auto intro: submit_step desk_wf_frame submit_desk)
next
  case (Edit_Review rt u p input)
  show ?thesis unfolding Edit_Review review_do.simps
    by (intro act_void_inv reviewed_tx) (auto intro: edit_step desk_wf_frame edit_desk)
next
  case (Settle_Expired n)
  show ?thesis unfolding Settle_Expired review_do.simps settleExpired_def split_def
    by (intro act_void_inv sweep_inv) (use settleOne_step in blast)
next
  case (Announce_Open n)
  show ?thesis unfolding Announce_Open review_do.simps announceOpenWindows_def
    by (intro act_void_inv sweep_inv) (use announceOne_step in blast)
next
  case (Open_Window i)
  show ?thesis unfolding Open_Window review_do.simps
    by (intro reviewed_tx) (use open_window_effect desk_wf_frame in blast)
next
  case (Desk d)
  show ?thesis unfolding Desk review_do.simps
  proof (intro reviewed_tx)
    fix w a w' assume "desk_wf (base w)" "on_db (desk_do d) w = Inr (a, w')"
    then obtain s where "desk_do d (base w) = Inr (a, s)" "w' = w\<lparr>base := s\<rparr>" by (auto simp: tx_simps)
    with \<open>desk_wf (base w)\<close> desk_do_elsewhere desk_do_wf show "review_step w w' \<and> desk_wf (base w')"
      by (auto simp: stays_def intro: review_step.apart)
  qed
qed

interpretation review_calls: calls review_do "reviewed_from w0" for w0
  by unfold_locales (rule review_do_inv)

lemma reviewed_run:
  "desk_wf (base w) \<Longrightarrow> review_wf w \<Longrightarrow> reviewed_from w (run_acts review_do ops w)"
  by (rule review_calls.run_inv) (simp add: reviewed_from_def)

end
