(* ===== verification/Review_Progress.thy ===== *)
theory Review_Progress
  imports Review_Invariant
begin

text \<open>
  What the invariant of the review desk gives, and that its operations go through. First the
  consequences every reachable world has: who may have written a review, that there is one
  per author, when it may be visible, and what it may still become. Then totality: rating
  trust, the reveal of a pair, the deadline sweep and a submission succeed wherever their
  preconditions hold, with the coins they move.
\<close>

lemma other_slot:
  assumes wf: "review_wf w" and r: "r \<in> set (reviews w)" and p: "p \<in> set (review_pairs w)" "rw_id r \<in> slot_ids p"
    and both: "pair_host_review p \<noteq> None" "pair_guest_review p \<noteq> None"
  shows "\<exists>r'\<in>set (reviews w). rw_participant r' = rw_participant r \<and> rw_reviewer r' = rw_reviewee r \<and> rw_reviewee r' = rw_reviewer r"
proof -
  from review_wfD(4) [OF wf p(1)] obtain part ev where
    ok: "\<And>role. slot_ok (reviews w) (slot_of role p) (pair_participant p) (writer_of role part ev) (subject_of role part ev)"
    by (auto simp: pair_ok_def)
  from p(2) obtain role where role: "slot_of role p = Some (rw_id r)" by (auto simp: slot_ids_role)
  with ok [of role] obtain q where "q \<in> set (reviews w)" "rw_id q = rw_id r" "rw_participant q = pair_participant p"
    "rw_reviewer q = writer_of role part ev" "rw_reviewee q = subject_of role part ev"
    by (auto simp: slot_ok_def)
  then have rq: "rw_participant r = pair_participant p" "rw_reviewer r = writer_of role part ev" "rw_reviewee r = subject_of role part ev"
    using r review_wfD(1) [OF wf] by (metis distinct_key_eq)+
  define other where "other = (if role = HOST then GUEST else HOST)"
  have swap: "writer_of other part ev = subject_of role part ev" "subject_of other part ev = writer_of role part ev"
    by (cases role; simp add: other_def writer_of_def subject_of_def)+
  obtain i where "slot_of other p = Some i" using both by (cases role) (auto simp: other_def slot_of_def)
  with ok [of other] show ?thesis unfolding slot_ok_def swap using rq by metis
qed

lemma revealed_only_when_due:
  assumes wf: "review_wf w" and r: "r \<in> set (reviews w)" "rw_status r \<noteq> RV_SUBMITTED"
  shows "(\<exists>r'\<in>set (reviews w). rw_participant r' = rw_participant r \<and> rw_reviewer r' = rw_reviewee r \<and> rw_reviewee r' = rw_reviewer r)
    \<or> (\<exists>p\<in>set (review_pairs w). pair_participant p = rw_participant r \<and> pair_deadline_at p \<le> now_of w)"
proof -
  from review_wfD(5) [OF wf r(1)] r(2) obtain p where p: "p \<in> set (review_pairs w)" "pair_participant p = rw_participant r"
    "rw_id r \<in> slot_ids p" "pair_status p = RP_REVEALED \<or> pair_status p = RP_EXPIRED_PARTIAL"
    by (auto simp: row_ok_def)
  note ok = review_wfD(4) [OF wf p(1)]
  show ?thesis
  proof (cases "pair_status p = RP_REVEALED")
    case True
    then have "pair_host_review p \<noteq> None" "pair_guest_review p \<noteq> None"
      using ok by (auto simp: pair_ok_def pair_checks_def pair_contents_def)
    then show ?thesis using other_slot [OF wf r(1) p(1,3)] by blast
  next
    case False
    then have "pair_deadline_at p \<le> now_of w" using p(4) ok by (auto simp: pair_ok_def)
    with p(1,2) show ?thesis by blast
  qed
qed

lemma parties_and_uniqueness:
  assumes wf: "review_wf w" and r: "r \<in> set (reviews w)"
  shows "\<exists>p part ev. p \<in> set (review_pairs w) \<and> pair_joins p (base w) = Some (part, ev) \<and> rw_participant r = pair_participant p
      \<and> (\<exists>role. slot_of role p = Some (rw_id r) \<and> rw_reviewer r = writer_of role part ev \<and> rw_reviewee r = subject_of role part ev)"
proof -
  from review_wfD(5) [OF wf r] obtain p where p: "p \<in> set (review_pairs w)" "pair_participant p = rw_participant r"
    "rw_id r \<in> slot_ids p" by (auto simp: row_ok_def)
  from review_wfD(4) [OF wf p(1)] obtain part ev where j: "pair_joins p (base w) = Some (part, ev)" and
    ok: "\<And>role. slot_ok (reviews w) (slot_of role p) (pair_participant p) (writer_of role part ev) (subject_of role part ev)"
    by (auto simp: pair_ok_def)
  from p(3) obtain role where role: "slot_of role p = Some (rw_id r)" by (auto simp: slot_ids_role)
  with ok [of role] obtain q where "q \<in> set (reviews w)" "rw_id q = rw_id r"
    "rw_reviewer q = writer_of role part ev" "rw_reviewee q = subject_of role part ev"
    by (auto simp: slot_ok_def)
  then have "rw_reviewer r = writer_of role part ev" "rw_reviewee r = subject_of role part ev"
    using r review_wfD(1) [OF wf] by (metis distinct_key_eq)+
  with p j role show ?thesis by metis
qed

lemma one_review_each:
  assumes wf: "review_wf w" and r: "r \<in> set (reviews w)" "q \<in> set (reviews w)"
    and same: "rw_participant r = rw_participant q" "rw_reviewer r = rw_reviewer q"
  shows "r = q"
proof -
  from parties_and_uniqueness [OF wf r(1)] obtain p part ev role where p: "p \<in> set (review_pairs w)" "rw_participant r = pair_participant p"
    "pair_joins p (base w) = Some (part, ev)" "slot_of role p = Some (rw_id r)" "rw_reviewer r = writer_of role part ev"
    "rw_reviewee r = subject_of role part ev" by blast
  from parties_and_uniqueness [OF wf r(2)] obtain p2 part2 ev2 role2 where p2: "p2 \<in> set (review_pairs w)" "rw_participant q = pair_participant p2"
    "pair_joins p2 (base w) = Some (part2, ev2)" "slot_of role2 p2 = Some (rw_id q)" "rw_reviewer q = writer_of role2 part2 ev2" by blast
  have "p2 = p" using p p2 same review_wfD(3) [OF wf] by (metis distinct_key_eq)
  with p2 p have eq: "part2 = part" "ev2 = ev" by auto
  have "role2 = role"
  proof (rule ccontr)
    assume "role2 \<noteq> role"
    then have "writer_of role2 part ev = subject_of role part ev"
      by (cases role; cases role2) (auto simp: writer_of_def subject_of_def)
    then have "rw_reviewer r = rw_reviewee r" using p p2 eq same by simp
    moreover have "review_checks r" using review_wfD(5) [OF wf r(1)] by (auto simp: row_ok_def)
    ultimately show False by (simp add: review_checks_def)
  qed
  then have "rw_id q = rw_id r" using p p2 \<open>p2 = p\<close> by simp
  then show ?thesis using r review_wfD(1) [OF wf] by (metis distinct_key_eq)
qed

section \<open>What a written review may still become\<close>

definition frozen :: "instant \<Rightarrow> review_row \<Rightarrow> bool" where
  "frozen t r \<longleftrightarrow> rw_status r \<noteq> RV_SUBMITTED \<or> rw_edit_deadline_at r \<le> t"

definition same_words :: "review_row \<Rightarrow> review_row \<Rightarrow> bool" where
  "same_words r r' \<longleftrightarrow> rw_rating r' = rw_rating r \<and> rw_tags r' = rw_tags r \<and> rw_comment r' = rw_comment r
     \<and> rw_moderation r' = rw_moderation r"

definition endures :: "instant \<Rightarrow> review_row \<Rightarrow> review_row \<Rightarrow> bool" where
  "endures t r r' \<longleftrightarrow> same_review r r' \<and> (frozen t r \<longrightarrow> same_words r r') \<and> (rw_status r \<noteq> RV_SUBMITTED \<longrightarrow> r' = r)"

lemma endures_refl: "endures t r r"
  by (simp add: endures_def same_review_refl same_words_def)

lemma endures_trans: "endures t a b \<Longrightarrow> endures t' b c \<Longrightarrow> t \<le> t' \<Longrightarrow> endures t a c"
  by (auto simp: endures_def same_review_def same_words_def frozen_def)

lemma endures_reveal:
  "r \<in> set rows \<Longrightarrow> \<exists>r'\<in>set (reveal_ids now I rows). endures t r r'"
proof -
  assume "r \<in> set rows"
  then have "(if rw_id r \<in> I \<and> rw_status r = RV_SUBMITTED then r\<lparr>rw_status := RV_REVEALED, rw_revealed_at := Some now\<rparr> else r)
    \<in> set (reveal_ids now I rows)" by (auto simp: reveal_ids_def)
  moreover have "endures t r (if rw_id r \<in> I \<and> rw_status r = RV_SUBMITTED then r\<lparr>rw_status := RV_REVEALED, rw_revealed_at := Some now\<rparr> else r)"
    by (simp add: endures_def same_review_def same_words_def)
  ultimately show ?thesis by blast
qed

lemma step_endures: "review_step w w' \<Longrightarrow> review_wf w \<Longrightarrow> r \<in> set (reviews w) \<Longrightarrow> \<exists>r'\<in>set (reviews w'). endures (now_of w) r r'"
proof (induction rule: review_step.induct)
  case (apart w w')
  then show ?case using endures_refl by metis
next
  case (opens w w' p)
  then show ?case using endures_refl by metis
next
  case (reminds w w' p t)
  then show ?case using endures_refl by metis
next
  case (edits w w' q q')
  show ?case
  proof (cases "rw_id r = rw_id q")
    case True
    then have "r = q" using edits review_wfD(1) by (metis distinct_key_eq)
    moreover have "endures (now_of w) q q'" using edits.hyps by (simp add: endures_def frozen_def)
    moreover have "q' \<in> set (reviews w')" unfolding edits.hyps by (rule update_where_in [OF edits.hyps(3)]) simp
    ultimately show ?thesis by blast
  next
    case False
    then have "r \<in> set (reviews w')" using edits by (force simp: set_update_where)
    then show ?thesis using endures_refl by blast
  qed
next
  case (writes w w' p part ev role q p')
  then show ?case using endures_reveal [of r "reviews w @ [q]"] by simp
next
  case (settles w w' p p')
  then show ?case using endures_reveal [of r "reviews w"] by simp
qed

lemma step_time: "review_step w w' \<Longrightarrow> now_of w \<le> now_of w'"
  by (induction rule: review_step.induct) (simp_all add: stays_def elsewhere_def)

lemma steps_endure:
  "review_step\<^sup>*\<^sup>* w w' \<Longrightarrow> review_wf w \<Longrightarrow> r \<in> set (reviews w) \<Longrightarrow>
   review_wf w' \<and> now_of w \<le> now_of w' \<and> (\<exists>r'\<in>set (reviews w'). endures (now_of w) r r')"
proof (induction rule: rtranclp_induct)
  case base
  then show ?case using endures_refl by auto
next
  case (step w1 w2)
  then obtain r1 where r1: "r1 \<in> set (reviews w1)" "endures (now_of w) r r1" and wf: "review_wf w1" and t: "now_of w \<le> now_of w1" by blast
  from step_endures [OF step.hyps(2) wf r1(1)] obtain r2 where "r2 \<in> set (reviews w2)" "endures (now_of w1) r1 r2" by blast
  with r1 t have "\<exists>r'\<in>set (reviews w2). endures (now_of w) r r'" using endures_trans by blast
  then show ?case using review_step_wf [OF step.hyps(2) wf] step_time [OF step.hyps(2)] t by auto
qed

section \<open>Sweeps and submissions go through\<close>

text \<open>The accounts a pair's notices are addressed to.\<close>

definition pair_people :: "world \<Rightarrow> bool" where
  "pair_people w \<longleftrightarrow> (\<forall>p\<in>set (review_pairs w). \<forall>part ev. pair_joins p (base w) = Some (part, ev) \<longrightarrow>
     users (base w) (ev_host ev) \<noteq> None \<and> users (base w) (pt_user part) \<noteq> None)"

lemma trust_wf_same:
  "trust_scores s' = trust_scores s \<Longrightarrow> trust_ledger s' = trust_ledger s \<Longrightarrow> next_id s \<le> next_id s' \<Longrightarrow> trust_wf s \<Longrightarrow> trust_wf s'"
  by (auto simp: trust_wf_def trust_cached_def ledger_ok_def)

lemma applyRatingTrust_total:
  assumes "trust_wf s"
  shows "\<exists>s'. applyRatingTrust r s = Inr ((), s') \<and> trust_wf s'"
proof (cases "RATING_TRUST_KEYS (rw_rating r)")
  case None
  then show ?thesis using assms by (simp add: applyRatingTrust_def)
next
  case (Some key)
  show ?thesis
  proof (cases "getInt key s = 0")
    case True
    then show ?thesis using assms Some by (simp add: applyRatingTrust_def)
  next
    case False
    let ?in = "\<lparr>ti_user = rw_reviewee r, ti_delta = getInt key s, ti_type = T_REVIEW, ti_reason = REVIEW_RATING_REASON,
             ti_key = reviewTrustKey (rw_id r), ti_actor_type = A_SYSTEM, ti_actor_id = None,
             ti_ref_type = Some ''review'', ti_ref_id = Some (rw_id r),
             ti_metadata = Some (JObj [(''rating'', JInt (rw_rating r))])\<rparr>"
    obtain m s' where run: "trust_apply ?in s = Inr (m, s')"
      using trust_apply_succeeds [OF assms, of ?in] False by auto
    then have "applyRatingTrust r s = Inr ((), s')"
      using Some False by (simp add: applyRatingTrust_def tx_bind_def)
    moreover have "trust_wf s'" by (rule trust_apply_wf [OF run assms])
    ultimately show ?thesis by blast
  qed
qed

lemma revealOne_total:
  assumes "distinct (map rw_id (reviews w))" and "\<And>r. ro = Some r \<Longrightarrow> r \<in> set (reviews w) \<and> review_checks r" and "trust_wf (base w)"
  shows "\<exists>w'. revealOne b now ro w = Inr ((), w') \<and> trust_wf (base w')"
proof (cases "\<exists>r. ro = Some r \<and> rw_status r = RV_SUBMITTED")
  case False
  then show ?thesis using assms(3) by (cases ro) (auto simp: revealOne_def)
next
  case True
  then obtain r where r: "ro = Some r" "rw_status r = RV_SUBMITTED" by blast
  let ?f = "\<lambda>q. q\<lparr>rw_status := RV_REVEALED, rw_revealed_at := Some now\<rparr>"
  let ?w = "w\<lparr>reviews := update_where (\<lambda>q. rw_id q = rw_id r) (\<lambda>_. ?f r) (reviews w)\<rparr>"
  have upd: "review_update (rw_id r) ?f w = Inr ((), ?w)"
    using assms(2) [OF r(1)] review_by_id_mem [OF assms(1)]
    by (simp add: review_update_Inr) (simp add: review_checks_def)
  have asr: "assertReviewTransition RV_SUBMITTED RV_REVEALED (Some (rw_id r)) w = Inr ((), w)"
    by (simp add: assertReviewTransition_def assertTransition_Inr)
  have "trust_wf (base ?w)" using assms(3) by simp
  from applyRatingTrust_total [OF this] obtain s' where "applyRatingTrust r (base ?w) = Inr ((), s')" "trust_wf s'" by blast
  then show ?thesis
    using assms(3) by (auto simp: revealOne_def r tx_bind_def asr upd on_db_def)
qed

lemma emitRevealed_total:
  assumes "users s (ev_host ev) \<noteq> None" and "users s (pt_user part) \<noteq> None" and "trust_wf s"
  shows "\<exists>s'. emitRevealed i part ev now out s = Inr ((), s') \<and> trust_wf s'"
proof -
  have "tx_ok (emitRevealed i part ev now out) s"
    using assms by (simp add: emitRevealed_def ok_simps wp_simps)
  moreover have "tx_wp (emitRevealed i part ev now out) (\<lambda>_ s'. trust_wf s') s"
    using assms(3) by (simp add: emitRevealed_def wp_simps) (auto intro: trust_wf_same [of _ s])
  ultimately show ?thesis using tx_total by fastforce
qed

lemma revealPair_total:
  assumes wf: "distinct (map rw_id (reviews w))" "\<And>r. r \<in> set (reviews w) \<Longrightarrow> review_checks r"
    and p: "pair_by_id i w = Some p" and differ: "\<And>j. pair_host_review p = Some j \<Longrightarrow> pair_guest_review p \<noteq> Some j"
    and j: "pair_joins p (base w) = Some (part, ev)"
    and people: "users (base w) (ev_host ev) \<noteq> None" "users (base w) (pt_user part) \<noteq> None" and trust: "trust_wf (base w)"
  shows "\<exists>w'. revealPair i now out w = Inr ((), w') \<and> trust_wf (base w')"
proof -
  let ?b = "out = RP_REVEALED \<or> getInt ''review.partial_reveal_affects_trust'' (base w) = 1"
  let ?h = "review_at (pair_host_review p) w" and ?g = "review_at (pair_guest_review p) w"
  have mem: "r \<in> set (reviews w) \<and> io = Some (rw_id r)" if "review_at io w = Some r" for io r
    using that by (cases io) (auto simp: review_at_def dest: review_by_id_Some)
  from revealOne_total [OF wf(1) _ trust, where ro = ?h and b = ?b and now = now] mem wf(2) obtain w1 where
    w1: "revealOne ?b now ?h w = Inr ((), w1)" "trust_wf (base w1)" by blast
  have r1: "reveals now (rw_id ` set_option ?h) w w1" using revealOne_effect [OF w1(1) wf(1)] mem by blast
  have g: "r \<in> set (reviews w1) \<and> review_checks r" if "?g = Some r" for r
  proof -
    have "r \<in> set (reviews w)" and "pair_guest_review p = Some (rw_id r)" using mem [OF that] by blast+
    moreover have "rw_id r \<notin> rw_id ` set_option ?h" using mem differ calculation(2) by auto
    ultimately show ?thesis using r1 wf(2) by (force simp: reveals_def reveal_ids_def)
  qed
  have "distinct (map rw_id (reviews w1))" using r1 wf(1) by (simp add: reveals_def)
  from revealOne_total [OF this g w1(2), where b = ?b and now = now] obtain w2 where
    w2: "revealOne ?b now ?g w1 = Inr ((), w2)" "trust_wf (base w2)" by blast
  have r2: "reveals now (rw_id ` set_option ?g) w1 w2"
    using revealOne_effect [OF w2(1) \<open>distinct (map rw_id (reviews w1))\<close>] g by blast
  have "users (base w2) = users (base w)" using r1 r2 by (simp add: reveals_def desk_frame_def)
  then obtain s3 where "emitRevealed i part ev now out (base w2) = Inr ((), s3)" "trust_wf s3"
    using emitRevealed_total [of "base w2" ev part] people w2(2) by metis
  then have "revealPair i now out w = Inr ((), w2\<lparr>base := s3\<rparr>)"
    by (simp add: revealPair_def p j tx_bind_def w1(1) w2(1) on_db_app)
  with \<open>trust_wf s3\<close> show ?thesis by simp
qed

lemma pair_unique_slots:
  assumes wf: "review_wf w" and p: "p \<in> set (review_pairs w)"
    and q: "pair_id q = pair_id p" "pair_host_review q = pair_host_review p" "pair_guest_review q = pair_guest_review p"
  shows "pair_unique q (review_pairs w)"
  unfolding pair_unique_def
proof (intro ballI impI)
  fix o' assume o': "o' \<in> set (review_pairs w)" "pair_id o' \<noteq> pair_id q"
  have apart: "slot_of role o' \<noteq> slot_of role p" if some: "slot_of role p = Some i" for role i
  proof
    assume "slot_of role o' = slot_of role p"
    with some have both: "i \<in> slot_ids p" "i \<in> slot_ids o'" by (auto simp: slot_ids_role)
    from slot_ids_rows [OF wf p] both(1) obtain r where r: "r \<in> set (reviews w)" "rw_id r = i" by auto
    have "pair_participant p = pair_participant o'"
      using slot_participant [OF wf p, of r] slot_participant [OF wf o'(1), of r] both r by simp
    then have "o' = p" using review_wfD(3) [OF wf] p o'(1) by (metis distinct_key_eq)
    with o'(2) q(1) show False by simp
  qed
  show "(pair_host_review q = None \<or> pair_host_review o' \<noteq> pair_host_review q) \<and>
      (pair_guest_review q = None \<or> pair_guest_review o' \<noteq> pair_guest_review q)"
    using apart [of HOST] apart [of GUEST] q by (cases "pair_host_review p"; cases "pair_guest_review p") (auto simp: slot_of_def)
qed

lemma settled_checks: "pair_checks p \<Longrightarrow> in_play p \<Longrightarrow> pair_checks (settled_pair t p)"
  by (auto simp: pair_checks_def pair_contents_def settled_pair_def)

lemma settleOne_total:
  assumes wf: "review_wf w" and p: "p \<in> set (review_pairs w)" "in_play p" "pair_deadline_at p \<le> now_of w"
    and trust: "trust_wf (base w)" and people: "pair_people w"
  shows "\<exists>w'. review_settleOne (pair_id p) (now_of w) w
      = Inr (Some (if pair_status p = RP_PARTIAL then RP_EXPIRED_PARTIAL else RP_EXPIRED_EMPTY), w') \<and> trust_wf (base w')"
proof -
  let ?now = "now_of w" and ?i = "pair_id p"
  define nxt where "nxt = (if pair_status p = RP_PARTIAL then RP_EXPIRED_PARTIAL else RP_EXPIRED_EMPTY)"
  let ?p = "settled_pair ?now p"
  have i: "pair_by_id ?i w = Some p" by (rule pair_by_id_mem [OF wf p(1)])
  note ok = review_wfD(4) [OF wf p(1)]
  from ok obtain part ev where j: "pair_joins p (base w) = Some (part, ev)" and chk: "pair_checks p" by (auto simp: pair_ok_def)
  let ?w1 = "w\<lparr>review_pairs := update_where (\<lambda>q. pair_id q = ?i) (\<lambda>_. ?p) (review_pairs w)\<rparr>"
  have upd: "p\<lparr>pair_status := nxt, pair_revealed_at := Some ?now\<rparr> = ?p" by (simp add: settled_pair_def nxt_def)
  have 0: "assertReviewPairTransition (pair_status p) nxt (Some ?i) w = Inr ((), w)"
    using p(2) by (auto simp: assertReviewPairTransition_def assertTransition_Inr nxt_def)
  have 1: "pair_update ?i (\<lambda>p. p\<lparr>pair_status := nxt, pair_revealed_at := Some ?now\<rparr>) w = Inr ((), ?w1)"
    unfolding pair_update_Inr using i upd settled_checks [OF chk p(2)]
    by (auto intro!: pair_unique_slots [OF wf p(1)]) (simp_all add: settled_pair_def)
  have p1: "pair_by_id ?i ?w1 = Some ?p"
  proof -
    have "map pair_id (update_where (\<lambda>q. pair_id q = ?i) (\<lambda>_. ?p) (review_pairs w)) = map pair_id (review_pairs w)"
      by (rule update_where_key) simp
    moreover have "?p \<in> set (update_where (\<lambda>q. pair_id q = ?i) (\<lambda>_. ?p) (review_pairs w))"
      by (rule update_where_in [OF p(1)]) simp
    ultimately show ?thesis using review_wfD(2) [OF wf] find_key_unique [of pair_id "review_pairs ?w1" ?p]
      by (simp add: pair_by_id_def)
  qed
  obtain w2 where 2: "(if nxt = RP_EXPIRED_PARTIAL then revealPair ?i ?now nxt else tx_return ()) ?w1 = Inr ((), w2)"
    and t2: "trust_wf (base w2)"
  proof (cases "nxt = RP_EXPIRED_PARTIAL")
    case True
    have "\<exists>w'. revealPair ?i ?now nxt ?w1 = Inr ((), w') \<and> trust_wf (base w')"
    proof (rule revealPair_total [OF _ _ p1])
      show "distinct (map rw_id (reviews ?w1))" "r \<in> set (reviews ?w1) \<Longrightarrow> review_checks r" for r
        using review_wfD(1,5) [OF wf] by (auto simp: row_ok_def)
      show "pair_joins ?p (base ?w1) = Some (part, ev)" using j by simp
      show "users (base ?w1) (ev_host ev) \<noteq> None" "users (base ?w1) (pt_user part) \<noteq> None"
        using people p(1) j by (auto simp: pair_people_def)
      show "pair_host_review ?p = Some a \<Longrightarrow> pair_guest_review ?p \<noteq> Some a" for a
        using slots_differ [OF wf p(1)] by (simp add: settled_pair_def)
    qed (simp add: trust)
    then show thesis using True that by auto
  next
    case False
    then show thesis using that [of ?w1] trust by simp
  qed
  let ?audit = "audit_record A_SYSTEM None ''review_pair.expired'' ''review_pair'' (Some ?i)
             (Some (JObj [(''status'', JStr (review_pair_status_name (pair_status p)))]))
             (Some (JObj [(''status'', JStr (review_pair_status_name nxt))]))"
  obtain s3 where 3: "?audit (base w2) = Inr ((), s3)" and t3: "trust_wf s3"
    using trust_wf_same [OF _ _ _ t2] by (auto simp: audit_record_def)
  have "review_settleOne ?i ?now w = Inr (Some nxt, w2\<lparr>base := s3\<rparr>)"
    using p(2,3) by (auto simp: review_settleOne_def i Let_def nxt_def [symmetric] not_less
        tx_bind_def 0 1 2 on_db_def 3)
  with t3 show ?thesis by (auto simp: nxt_def)
qed

definition sweepable :: "world \<Rightarrow> bool" where
  "sweepable w \<longleftrightarrow> desk_wf (base w) \<and> review_wf w \<and> trust_wf (base w) \<and> pair_people w"

lemma due_after:
  assumes dist: "distinct (map pair_id ps)" and p: "p \<in> set ps" and p': "pair_id p' = pair_id p" "\<not> in_play p'"
  shows "filter (\<lambda>q. in_play q \<and> pair_deadline_at q \<le> t) (update_where (\<lambda>q. pair_id q = pair_id p) (\<lambda>_. p') ps)
    = filter (\<lambda>q. pair_id q \<noteq> pair_id p) (filter (\<lambda>q. in_play q \<and> pair_deadline_at q \<le> t) ps)"
  using p' by (induction ps) (auto simp: update_where_def)

lemma review_due_eq: "review_due w = filter (\<lambda>q. in_play q \<and> pair_deadline_at q \<le> now_of w) (review_pairs w)"
  by (simp add: review_due_def)

lemma settle_one_sweepable:
  assumes w: "sweepable w" and p: "p \<in> set (review_due w)"
  obtains w' where "review_settleOne (pair_id p) (now_of w) w
      = Inr (Some (if pair_status p = RP_PARTIAL then RP_EXPIRED_PARTIAL else RP_EXPIRED_EMPTY), w')"
    "sweepable w'" "now_of w' = now_of w" "review_due w' = filter (\<lambda>q. pair_id q \<noteq> pair_id p) (review_due w)"
proof -
  from w have wf: "review_wf w" and desk: "desk_wf (base w)" and trust: "trust_wf (base w)" and people: "pair_people w"
    by (auto simp: sweepable_def)
  from p have p: "p \<in> set (review_pairs w)" "in_play p" "pair_deadline_at p \<le> now_of w" by (auto simp: review_due_def)
  from settleOne_total [OF wf p trust people] obtain w' where
    run: "review_settleOne (pair_id p) (now_of w) w
      = Inr (Some (if pair_status p = RP_PARTIAL then RP_EXPIRED_PARTIAL else RP_EXPIRED_EMPTY), w')"
    and trust': "trust_wf (base w')" by blast
  from settleOne_step [OF wf run] pair_by_id_mem [OF wf p(1)] p(2,3) have step: "review_step w w'" and now: "now_of w' = now_of w"
    and frame: "desk_frame (base w) (base w')" and pairs: "pairs_become p (settled_pair (now_of w) p) w w'" by blast+
  have "pair_people w'"
    unfolding pair_people_def
  proof (intro ballI allI impI)
    fix q part ev assume q: "q \<in> set (review_pairs w')" and j: "pair_joins q (base w') = Some (part, ev)"
    from q have "q = settled_pair (now_of w) p \<or> q \<in> set (review_pairs w)"
      using update_where_new unfolding pairs by metis
    then obtain q0 where "q0 \<in> set (review_pairs w)" "pair_joins q0 (base w) = Some (part, ev)"
      using j p(1) pair_joins_frame [OF frame] by auto
    then show "users (base w') (ev_host ev) \<noteq> None \<and> users (base w') (pt_user part) \<noteq> None"
      using people frame by (auto simp: pair_people_def desk_frame_def)
  qed
  moreover have "desk_wf (base w')" by (rule desk_wf_frame [OF desk frame])
  ultimately have "sweepable w'" using review_step_wf [OF step wf] trust' by (simp add: sweepable_def)
  moreover have "review_due w' = filter (\<lambda>q. pair_id q \<noteq> pair_id p) (review_due w)"
    unfolding review_due_eq now pairs by (rule due_after [OF review_wfD(2) [OF wf] p(1)]) auto
  ultimately show thesis using that run now by blast
qed

lemma settle_fold:
  assumes "sweepable w" and "set ps \<subseteq> set (review_due w)" and "distinct (map pair_id ps)"
  shows "\<exists>a' b' w'. act_fold (\<lambda>i (partial, empty).
       act_bind (in_tx (review_settleOne i (now_of w))) (\<lambda>settled.
       act_return (partial + (if settled = Some RP_EXPIRED_PARTIAL then 1 else 0),
                   empty + (if settled = Some RP_EXPIRED_EMPTY then 1 else 0)))) (map pair_id ps) (a, b) w = (Inr (a', b'), w')
     \<and> a' + b' = a + b + length ps \<and> sweepable w' \<and> now_of w' = now_of w
     \<and> review_due w' = filter (\<lambda>q. pair_id q \<notin> pair_id ` set ps) (review_due w)"
  using assms
proof (induction ps arbitrary: w a b)
  case Nil
  then show ?case by (simp add: filter_id_conv)
next
  case (Cons p ps)
  from Cons.prems have "p \<in> set (review_due w)" by simp
  then obtain w1 where run: "review_settleOne (pair_id p) (now_of w) w
      = Inr (Some (if pair_status p = RP_PARTIAL then RP_EXPIRED_PARTIAL else RP_EXPIRED_EMPTY), w1)"
    and s1: "sweepable w1" and now: "now_of w1 = now_of w"
    and due: "review_due w1 = filter (\<lambda>q. pair_id q \<noteq> pair_id p) (review_due w)"
    using settle_one_sweepable [OF Cons.prems(1)] by blast
  have sub: "set ps \<subseteq> set (review_due w1)" and dist: "distinct (map pair_id ps)"
    using Cons.prems(2,3) by (auto simp: due dest: sym [of "pair_id p"]) (metis image_eqI)
  let ?c = "if pair_status p = RP_PARTIAL then (a + 1, b) else (a, b + 1)"
  obtain a' b' w' where ih: "act_fold (\<lambda>i (partial, empty).
       act_bind (in_tx (review_settleOne i (now_of w1))) (\<lambda>settled.
       act_return (partial + (if settled = Some RP_EXPIRED_PARTIAL then 1 else 0),
                   empty + (if settled = Some RP_EXPIRED_EMPTY then 1 else 0)))) (map pair_id ps) (fst ?c, snd ?c) w1 = (Inr (a', b'), w')"
     "a' + b' = fst ?c + snd ?c + length ps" "sweepable w'" "now_of w' = now_of w1"
     "review_due w' = filter (\<lambda>q. pair_id q \<notin> pair_id ` set ps) (review_due w1)"
    using Cons.IH [OF s1 sub dist] by blast
  have A: "act_fold (\<lambda>i (partial, empty).
       act_bind (in_tx (review_settleOne i (now_of w))) (\<lambda>settled.
       act_return (partial + (if settled = Some RP_EXPIRED_PARTIAL then 1 else 0),
                   empty + (if settled = Some RP_EXPIRED_EMPTY then 1 else 0)))) (map pair_id (p # ps)) (a, b) w = (Inr (a', b'), w')"
    using ih(1) by (simp add: act_bind_def in_tx_def run now split: if_splits)
  have B: "a' + b' = a + b + length (p # ps)" using ih(2) by (simp split: if_splits)
  have C: "review_due w' = filter (\<lambda>q. pair_id q \<notin> pair_id ` set (p # ps)) (review_due w)"
    unfolding ih(5) due by (simp add: conj_commute cong: filter_cong)
  from ih(4) now have D: "now_of w' = now_of w" by (rule trans)
  show ?case by (intro exI conjI) (rule A, rule B, rule ih(3), rule D, rule C)
qed

lemma filter_not_taken:
  assumes "distinct (map k xs)" and "distinct (map k ys)" and "set ys = set xs"
  shows "length (filter (\<lambda>q. k q \<notin> k ` set (take n ys)) xs) = length xs - n"
proof -
  let ?P = "\<lambda>q. k q \<notin> k ` set (take n ys)"
  have d: "distinct xs" "distinct ys" using assms by (simp_all add: distinct_map)
  have "length (filter ?P xs) = card (set (filter ?P xs))" using d by (metis distinct_card distinct_filter)
  also have "set (filter ?P xs) = set (filter ?P ys)" using assms(3) by simp
  also have "card \<dots> = length (filter ?P ys)" using d by (metis distinct_card distinct_filter)
  also have "filter ?P ys = filter ?P (take n ys) @ filter ?P (drop n ys)" by (metis append_take_drop_id filter_append)
  also have "filter ?P (take n ys) = []" by (auto simp: filter_empty_conv)
  also have "filter ?P (drop n ys) = drop n ys"
  proof (rule filter_True, rule ballI)
    fix q assume q: "q \<in> set (drop n ys)"
    have "distinct (map k (take n ys) @ map k (drop n ys))" using assms(2) by (metis append_take_drop_id map_append)
    then show "?P q" using q by (metis disjoint_iff distinct_append image_eqI list.set_map)
  qed
  also have "length ([] @ drop n ys) = length xs - n"
    using d assms(3) by (metis append_Nil distinct_card length_drop)
  finally show ?thesis .
qed

lemma settle_sweep:
  assumes "sweepable w"
  shows "\<exists>partial empty w'. settleExpired n w = (Inr (partial, empty), w') \<and> partial + empty = min n (length (review_due w))
     \<and> sweepable w' \<and> length (review_due w') = length (review_due w) - n"
proof -
  let ?q = "take n (sort_key pair_deadline_at (review_due w))"
  have wf: "review_wf w" using assms by (simp add: sweepable_def)
  have dist: "distinct (map pair_id (review_due w))"
    using review_wfD(2) [OF wf] by (simp add: review_due_def distinct_map_filter)
  have sorted: "distinct (map pair_id (sort_key pair_deadline_at (review_due w)))"
    using dist by (simp add: distinct_map)
  then have d: "distinct (map pair_id ?q)" by (metis distinct_take take_map)
  have sub: "set ?q \<subseteq> set (review_due w)" by (metis set_sort set_take_subset)
  from settle_fold [OF assms sub d, of 0 0] obtain a b w' where
    run: "settleExpired n w = (Inr (a, b), w')" and rest: "a + b = length ?q" "sweepable w'"
    "review_due w' = filter (\<lambda>q. pair_id q \<notin> pair_id ` set ?q) (review_due w)"
    by (auto simp: settleExpired_def)
  have "length (review_due w') = length (review_due w) - n"
    unfolding rest(3) by (rule filter_not_taken [OF dist sorted]) simp
  then show ?thesis using run rest by (auto simp: min_def)
qed

lemma settle_sweeps:
  assumes "sweepable w"
  shows "sweepable (((\<lambda>w. snd (settleExpired n w)) ^^ k) w)
     \<and> length (review_due (((\<lambda>w. snd (settleExpired n w)) ^^ k) w)) = length (review_due w) - k * n"
proof (induction k)
  case 0
  then show ?case using assms by simp
next
  case (Suc k)
  then obtain w' where "settleExpired n (((\<lambda>w. snd (settleExpired n w)) ^^ k) w) = w'" "sweepable (snd w')"
    "length (review_due (snd w')) = length (review_due w) - k * n - n"
    using settle_sweep [of "((\<lambda>w. snd (settleExpired n w)) ^^ k) w" n] by fastforce
  then show ?case by (simp add: algebra_simps)
qed

text \<open>Nothing after the reward touches the coins.\<close>

definition coins_stand :: "world \<Rightarrow> world \<Rightarrow> bool" where
  "coins_stand w w' \<longleftrightarrow> coin_accounts (base w') = coin_accounts (base w) \<and> coin_ledger (base w') = coin_ledger (base w)"

definition purse_stands :: "db \<Rightarrow> db \<Rightarrow> bool" where
  "purse_stands s s' \<longleftrightarrow> coin_accounts s' = coin_accounts s \<and> coin_ledger s' = coin_ledger s"

lemma purse_reflp: "reflp purse_stands" and purse_transp: "transp purse_stands"
  by (auto simp: purse_stands_def reflp_def intro: transpI)

lemma coins_reflp: "reflp coins_stand" and coins_transp: "transp coins_stand"
  by (auto simp: coins_stand_def reflp_def intro: transpI)

lemma on_db_purse: "tx_rel purse_stands m \<Longrightarrow> tx_rel coins_stand (on_db m)"
  by (auto simp: tx_rel_def tx_simps purse_stands_def coins_stand_def)

lemma purse_writes:
  "tx_rel purse_stands (audit_record acty ai ac tt ti b a)" "tx_rel purse_stands (outbox_emit agg i et pl)"
  "tx_rel purse_stands (publicIdOf i)" "tx_rel purse_stands (trust_apply input)"
  by (auto simp: tx_rel_def tx_simps purse_stands_def trust_frame_simps(9,10) [OF trust_apply_frame])

lemma modify_coins: "(\<And>w. base (f w) = base w) \<Longrightarrow> tx_rel coins_stand (tx_modify f)"
  by (auto simp: tx_rel_def coins_stand_def)

lemma assert_coins: "tx_rel coins_stand (assertTransition name table a b entity i)"
  by (rule tx_relI) (simp add: assertTransition_Inr coins_stand_def)

lemmas purse_rules = tx_rel_rules tx_rel_prod purse_reflp purse_transp purse_writes

lemma reveal_coins: "tx_rel coins_stand (revealPair i now out)"
proof -
  have "tx_rel purse_stands (applyRatingTrust r)" for r
    unfolding applyRatingTrust_def by (intro purse_rules)
  moreover have "tx_rel purse_stands (emitRevealed i part ev now out)" for part ev
    unfolding emitRevealed_def by (intro purse_rules)
  moreover have "tx_rel coins_stand (review_update j f)" for j f
    unfolding review_update_def by (intro tx_rel_rules coins_reflp coins_transp modify_coins) simp
  ultimately show ?thesis
    unfolding revealPair_def revealOne_def assertReviewTransition_def
    by (intro tx_rel_rules tx_rel_prod coins_reflp coins_transp on_db_purse assert_coins)
qed

lemma payReview_total:
  assumes "reward = of_int k" and "0 \<le> k" and "0 < k \<Longrightarrow> coin_ledger_by_key (reviewRewardKey i) s = None"
    and "int4 k" and "int4 (balance_of s u + k)" and "0 \<le> balance_of s u" and trust: "trust_wf s"
  shows "\<exists>s'. payReview u i reward s = Inr ((), s') \<and> balance_of s' u = balance_of s u + k \<and> trust_wf s'"
proof (cases "k = 0")
  case True
  then show ?thesis using assms by (simp add: payReview_def)
next
  case False
  then have pos: "0 < k" using assms(2) by simp
  let ?in = "review_reward_input u i k"
  have "ci_amount ?in \<noteq> 0" "coin_ledger_by_key (ci_key ?in) s = None" "ci_reverses ?in = None" "ci_type ?in \<noteq> REVERSAL"
    "int4 (ci_amount ?in)" "int4 (balance_of s (ci_user ?in) + ci_amount ?in)" "0 \<le> balance_of s (ci_user ?in) + ci_amount ?in"
    using assms pos by (auto simp: review_reward_input_def)
  then obtain m s' where run: "coin_apply ?in s = Inr (m, s')"
    and bal: "\<forall>v. balance_of s' v = balance_of s v + (if v = ci_user ?in then ci_amount ?in else 0)"
    by (rule coin_apply_succeeds)
  have "payReview u i reward s = Inr ((), s')"
    using pos by (simp add: payReview_def assms(1) tx_bind_def run)
  moreover have "balance_of s' u = balance_of s u + k" using bal by (simp add: review_reward_input_def)
  moreover have "trust_wf s'"
    using trust coin_frame_simps(9,10,13) [OF coin_apply_frame [OF run]] by (rule trust_wf_same [rotated 3])
  ultimately show ?thesis by blast
qed

text \<open>What a submission needs to be taken.\<close>

definition writable_here :: "id \<Rightarrow> id \<Rightarrow> reviewer_role \<Rightarrow> participant_row \<Rightarrow> event_row \<Rightarrow> pair_row \<Rightarrow> world \<Rightarrow> bool" where
  "writable_here u pp role part ev p w \<longleftrightarrow>
     participant_by_public_id pp (base w) = Some part \<and> event_by_id (pt_event part) (base w) = Some ev
     \<and> role = (if ev_host ev = u then HOST else GUEST) \<and> u = writer_of role part ev
     \<and> pair_by_participant (pt_id part) w = Some p \<and> in_play p
     \<and> pair_opens_at p \<le> now_of w \<and> now_of w < pair_deadline_at p"

definition acceptable :: "submit_review_input \<Rightarrow> bool" where
  "acceptable input \<longleftrightarrow> valid_rating (sr_rating input)
     \<and> (case sr_tags input of None \<Rightarrow> True | Some t \<Rightarrow> length t \<le> 5)
     \<and> (case sr_comment input of None \<Rightarrow> True | Some c \<Rightarrow> length c \<le> 500)"

lemma loadWritable_total:
  assumes "writable_here u pp role part ev p w"
  shows "loadWritable u pp (now_of w) w = Inr (\<lparr>wt_participant_id = pt_id part, wt_event_id = pt_event part, wt_pair_id = pair_id p,
       wt_pair_status = pair_status p, wt_reviewee = subject_of role part ev, wt_role = role\<rparr>, w)"
proof -
  from assms have f: "participant_by_public_id pp (base w) = Some part" "event_by_id (pt_event part) (base w) = Some ev"
    "pair_by_participant (pt_id part) w = Some p"
    and window: "pair_opens_at p \<le> now_of w" "now_of w < pair_deadline_at p" and play: "in_play p"
    and role: "role = (if ev_host ev = u then HOST else GUEST)" and u: "u = writer_of role part ev"
    unfolding writable_here_def by blast+
  from window have inside: "\<not> (now_of w < pair_opens_at p \<or> pair_deadline_at p \<le> now_of w)" by linarith
  from play have status: "pair_status p = RP_PENDING \<or> pair_status p = RP_PARTIAL" by simp
  note eval = tx_read_def f sum.case prod.case tx_some_Some tx_return_def Let_def simp_thms inside status not_False_eq_True tx_guard_True
  show ?thesis
  proof (cases "ev_host ev = u")
    case True
    then have r: "role = HOST" using role by simp
    show ?thesis unfolding loadWritable_def tx_bind_def subject_of_def r by (simp only: eval True if_True)
  next
    case False
    then have r: "role = GUEST" using role by simp
    have g: "pt_user part = u" using u unfolding r by (simp add: writer_of_def)
    show ?thesis unfolding loadWritable_def tx_bind_def subject_of_def r
      by (simp only: eval False g if_False reviewer_role.distinct)
  qed
qed

lemma new_review_checks:
  assumes "acceptable input" and "u \<noteq> wt_reviewee c"
  shows "review_checks (new_review c u input verdict now m i pub)"
proof -
  have "1 \<le> \<lfloor>sr_rating input\<rfloor>" "\<lfloor>sr_rating input\<rfloor> \<le> 5"
    using assms(1) by (auto simp: acceptable_def valid_rating_def isInteger_def not_less le_floor_iff floor_le_iff)
  with assms show ?thesis
    by (auto simp: review_checks_def new_review_def acceptable_def split: option.splits)
qed

lemma openCaseIfAny_total:
  "\<exists>n w'. openCaseIfAny i sc w = Inr ((), w') \<and> reviews w' = reviews w \<and> review_pairs w' = review_pairs w
     \<and> base w' = (base w)\<lparr>next_id := n\<rparr> \<and> next_id (base w) \<le> n"
proof (cases sc)
  case None
  then show ?thesis by (intro exI [of _ "next_id (base w)"]) (simp add: openCaseIfAny_def)
next
  case (Some x)
  then show ?thesis
    by (intro exI [of _ "Suc (next_id (base w))"]) (simp add: openCaseIfAny_def openCase_def tx_bind_def fresh_def on_db_def)
qed

lemma put_review_checks:
  assumes "pair_checks p" and "in_play p" and "slot_of role p = None"
  shows "pair_checks (put_review role i now p)"
  using assms by (cases role) (auto simp: pair_checks_def pair_contents_def slot_of_def put_review_def Let_def)

lemma put_review_unique:
  assumes wf: "review_wf w" and p: "p \<in> set (review_pairs w)" and fresh: "\<And>r. r \<in> set (reviews w) \<Longrightarrow> rw_id r \<noteq> i"
  shows "pair_unique (put_review role i now p) (review_pairs w)"
proof -
  let ?q = "put_review role i now p"
  have "pair_unique p (review_pairs w)" by (rule pair_unique_slots [OF wf p]) simp_all
  then have old: "(pair_host_review p = None \<or> pair_host_review o' \<noteq> pair_host_review p)
      \<and> (pair_guest_review p = None \<or> pair_guest_review o' \<noteq> pair_guest_review p)"
    if "o' \<in> set (review_pairs w)" "pair_id o' \<noteq> pair_id p" for o'
    using that by (simp add: pair_unique_def)
  have new: "pair_host_review o' \<noteq> Some i \<and> pair_guest_review o' \<noteq> Some i" if "o' \<in> set (review_pairs w)" for o'
    using slot_ids_rows [OF wf that] fresh by (fastforce simp: slot_ids_def)
  have "pair_id ?q = pair_id p" by simp
  moreover have "pair_host_review ?q = pair_host_review p \<and> pair_guest_review ?q = Some i
      \<or> pair_host_review ?q = Some i \<and> pair_guest_review ?q = pair_guest_review p"
    by (simp add: put_review_def Let_def)
  ultimately show ?thesis unfolding pair_unique_def using old new by metis
qed

lemma rewardFor_fresh: "rewardFor u a b c now (s\<lparr>next_id := n\<rparr>) = rewardFor u a b c now s"
  by (simp add: rewardFor_def earnedSince_def)

lemma getNumber_fresh: "getNumber key (s\<lparr>next_id := n\<rparr>) = getNumber key s"
  by (simp add: getNumber_def setting_read_def)

lemma pair_by_id_updated:
  assumes "distinct (map pair_id rows)" and "p \<in> set rows" and "pair_id p' = pair_id p"
    and "review_pairs w = update_where (\<lambda>q. pair_id q = pair_id p) (\<lambda>_. p') rows"
  shows "pair_by_id (pair_id p) w = Some p'"
proof -
  have "map pair_id (review_pairs w) = map pair_id rows" unfolding assms(4) by (rule update_where_key) (simp add: assms(3))
  moreover have "p' \<in> set (review_pairs w)" unfolding assms(4) by (rule update_where_in [OF assms(2)]) simp
  ultimately show ?thesis using assms(1,3) find_key_unique [of pair_id "review_pairs w" p'] by (simp add: pair_by_id_def)
qed

abbreviation review_reward_now :: "id \<Rightarrow> db \<Rightarrow> rat" where
  "review_reward_now u s \<equiv> rewardFor u (getNumber ''economy.review_reward_coins'' s)
     (getNumber ''economy.review_reward_cap'' s) (getNumber ''economy.earning_cap_days'' s) (clock s) s"

lemma afterReview_total:
  assumes c: "wt_pair_id c = pair_id p" "wt_pair_status c = pair_status p" and play: "in_play p"
    and keys: "distinct (map pair_id (review_pairs w))" and p: "p \<in> set (review_pairs w)"
    and chk: "pair_checks (put_review (wt_role c) (rw_id r) (now_of w) p)"
    and uni: "pair_unique (put_review (wt_role c) (rw_id r) (now_of w) p) (review_pairs w)"
    and differ: "\<And>j. pair_host_review (put_review (wt_role c) (rw_id r) (now_of w) p) = Some j \<Longrightarrow>
        pair_guest_review (put_review (wt_role c) (rw_id r) (now_of w) p) \<noteq> Some j"
    and rows: "distinct (map rw_id (reviews w))" "\<And>q. q \<in> set (reviews w) \<Longrightarrow> review_checks q"
    and j: "pair_joins p (base w) = Some (part, ev)"
    and people: "users (base w) (ev_host ev) \<noteq> None" "users (base w) (pt_user part) \<noteq> None"
    and reward: "review_reward_now u (base w) = of_int k" "0 \<le> k"
      "0 < k \<Longrightarrow> coin_ledger_by_key (reviewRewardKey (rw_id r)) (base w) = None"
      "int4 k" "int4 (balance_of (base w) u + k)" "0 \<le> balance_of (base w) u" and trust: "trust_wf (base w)"
  shows "\<exists>res w'. afterReview u pp input (now_of w) c sc r w = Inr (res, w') \<and> or_revealed res = (pair_status p = RP_PARTIAL)
     \<and> balance_of (base w') u = balance_of (base w) u + k"
proof -
  define nxt where "nxt = (if pair_status p = RP_PENDING then RP_PARTIAL else RP_REVEALED)"
  define p' where "p' = put_review (wt_role c) (rw_id r) (now_of w) p"
  have upd: "(if wt_role c = HOST then p\<lparr>pair_host_review := Some (rw_id r)\<rparr> else p\<lparr>pair_guest_review := Some (rw_id r)\<rparr>)
      \<lparr>pair_status := nxt, pair_revealed_at := (if nxt = RP_REVEALED then Some (now_of w) else pair_revealed_at p)\<rparr> = p'"
    by (simp add: p'_def put_review_def nxt_def)
  have p'_same: "pair_id p' = pair_id p" "pair_participant p' = pair_participant p" by (simp_all add: p'_def)
  from openCaseIfAny_total [of "rw_id r" sc w] obtain n w1 where 1: "openCaseIfAny (rw_id r) sc w = Inr ((), w1)"
    and w1: "reviews w1 = reviews w" "review_pairs w1 = review_pairs w" "base w1 = (base w)\<lparr>next_id := n\<rparr>" "next_id (base w) \<le> n"
    by blast
  have 2: "assertReviewPairTransition (pair_status p) nxt (Some (pair_id p)) w1 = Inr ((), w1)"
    using play by (auto simp: assertReviewPairTransition_def assertTransition_Inr nxt_def)
  have byid: "pair_by_id (pair_id p) w1 = Some p"
    using find_key_unique [of pair_id "review_pairs w" p] keys p by (simp add: pair_by_id_def w1)
  define w2 where "w2 = w1\<lparr>review_pairs := update_where (\<lambda>q. pair_id q = pair_id p) (\<lambda>_. p') (review_pairs w)\<rparr>"
  have 3: "pair_update (pair_id p) (\<lambda>p.
       (if wt_role c = HOST then p\<lparr>pair_host_review := Some (rw_id r)\<rparr> else p\<lparr>pair_guest_review := Some (rw_id r)\<rparr>)
         \<lparr>pair_status := nxt, pair_revealed_at := (if nxt = RP_REVEALED then Some (now_of w) else pair_revealed_at p)\<rparr>) w1
      = Inr ((), w2)"
    unfolding pair_update_Inr using byid upd chk uni by (auto simp: w2_def w1(2) p'_def)
  have base2: "base w2 = (base w)\<lparr>next_id := n\<rparr>" by (simp add: w2_def w1)
  have t2: "trust_wf (base w2)" using trust_wf_same [OF _ _ _ trust, of "base w2"] w1(4) by (simp add: base2 balance_of_def)
  have rw: "rewardFor u (getNumber ''economy.review_reward_coins'' (base w2)) (getNumber ''economy.review_reward_cap'' (base w2))
      (getNumber ''economy.earning_cap_days'' (base w2)) (now_of w) (base w2) = of_int k"
    using reward(1) by (simp add: base2 rewardFor_fresh getNumber_fresh)
  have bal2: "balance_of (base w2) u = balance_of (base w) u" by (simp add: base2 balance_of_def)
  have "\<exists>s'. payReview u (rw_id r) (of_int k) (base w2) = Inr ((), s') \<and> balance_of s' u = balance_of (base w2) u + k \<and> trust_wf s'"
  proof (rule payReview_total [OF refl reward(2) _ reward(4)])
    show "0 < k \<Longrightarrow> coin_ledger_by_key (reviewRewardKey (rw_id r)) (base w2) = None"
      using reward(3) by (simp add: base2 coin_ledger_by_key_def)
  qed (simp_all only: bal2 reward(5,6) t2)
  then obtain s3 where 4: "payReview u (rw_id r) (of_int k) (base w2) = Inr ((), s3)"
    and bal3: "balance_of s3 u = balance_of (base w) u + k" and t3: "trust_wf s3" by (auto simp only: bal2)
  define w3 where "w3 = w2\<lparr>base := s3\<rparr>"
  have f3: "desk_frame (base w2) s3" using tx_relD [OF payReview_desk 4] .
  obtain w4 where 5: "(if nxt = RP_REVEALED then revealPair (pair_id p) (now_of w) RP_REVEALED else tx_return ()) w3 = Inr ((), w4)"
    and coins: "coins_stand w3 w4"
  proof (cases "nxt = RP_REVEALED")
    case True
    have "\<exists>w'. revealPair (pair_id p) (now_of w) RP_REVEALED w3 = Inr ((), w') \<and> trust_wf (base w')"
    proof (rule revealPair_total [where p = p' and part = part and ev = ev])
      show "distinct (map rw_id (reviews w3))" "\<And>r. r \<in> set (reviews w3) \<Longrightarrow> review_checks r"
        using rows by (simp_all add: w3_def w2_def w1)
      show "pair_by_id (pair_id p) w3 = Some p'"
        by (rule pair_by_id_updated [OF keys p p'_same(1)]) (simp add: w3_def w2_def)
      show "pair_host_review p' = Some j \<Longrightarrow> pair_guest_review p' \<noteq> Some j" for j
        using differ by (simp add: p'_def)
      show "pair_joins p' (base w3) = Some (part, ev)"
        using j f3 by (simp add: w3_def base2 pair_joins_def p'_same desk_frame_def participant_by_id_def event_by_id_def cong: option.case_cong)
      show "users (base w3) (ev_host ev) \<noteq> None" "users (base w3) (pt_user part) \<noteq> None"
        using people f3 by (simp_all add: w3_def base2 desk_frame_def)
      show "trust_wf (base w3)" by (simp add: w3_def t3)
    qed
    then show thesis using True that tx_relD [OF reveal_coins] by fastforce
  next
    case False
    then show thesis using that [of w3] by (simp add: coins_stand_def)
  qed
  have bal4: "balance_of (base w4) u = balance_of (base w) u + k"
    using coins bal3 by (simp add: coins_stand_def w3_def balance_of_def)
  have "\<exists>s5. audit_record A_USER (Some u) ''review.submitted'' ''review'' (Some (rw_id r)) None
       (Some (JObj [(''rating'', JInt \<lfloor>sr_rating input\<rfloor>), (''pairStatus'', JStr (review_pair_status_name nxt))])) (base w4)
     = Inr ((), s5) \<and> balance_of s5 u = balance_of (base w4) u"
    by (simp add: audit_record_def balance_of_def)
  then obtain s5 where 6: "audit_record A_USER (Some u) ''review.submitted'' ''review'' (Some (rw_id r)) None
       (Some (JObj [(''rating'', JInt \<lfloor>sr_rating input\<rfloor>), (''pairStatus'', JStr (review_pair_status_name nxt))])) (base w4)
     = Inr ((), s5)" and bal5: "balance_of s5 u = balance_of (base w4) u" by blast
  let ?res = "\<lparr>or_public_id = rw_public_id r, or_participant_public_id = pp,
        or_rating = \<lfloor>sr_rating input\<rfloor>, or_tags = (case sr_tags input of None \<Rightarrow> [] | Some t \<Rightarrow> t),
        or_comment = sr_comment input, or_submitted_at = now_of w,
        or_editable_until = (if nxt = RP_REVEALED then None else Some (rw_edit_deadline_at r)),
        or_revealed = (nxt = RP_REVEALED)\<rparr>"
  have "afterReview u pp input (now_of w) c sc r w = Inr (?res, w4\<lparr>base := s5\<rparr>)"
    unfolding afterReview_def Let_def c nxt_def [symmetric]
    by (simp only: tx_bind_def 1 2 3 rw on_db_def 4 w3_def [symmetric] 5 [unfolded tx_return_def] 6 sum.case prod.case tx_read_def tx_return_def)
  moreover have "(nxt = RP_REVEALED) = (pair_status p = RP_PARTIAL)" using play by (auto simp: nxt_def)
  ultimately show ?thesis using bal5 bal4 by (intro exI conjI) (assumption, simp_all)
qed

definition fresh_review :: "text_runtime \<Rightarrow> id \<Rightarrow> reviewer_role \<Rightarrow> participant_row \<Rightarrow> event_row \<Rightarrow> pair_row \<Rightarrow> submit_review_input \<Rightarrow> world \<Rightarrow> review_row" where
  "fresh_review rt u role part ev p input w =
     new_review \<lparr>wt_participant_id = pt_id part, wt_event_id = pt_event part, wt_pair_id = pair_id p,
       wt_pair_status = pair_status p, wt_reviewee = subject_of role part ev, wt_role = role\<rparr>
       u input (fst (judge rt (sr_comment input) w)) (now_of w) (getInt ''review.edit_window_minutes'' (base w))
       (next_id (base w)) (Suc (next_id (base w)))"

lemma fresh_review_simps [simp]:
  "rw_id (fresh_review rt u role part ev p input w) = next_id (base w)"
  "rw_participant (fresh_review rt u role part ev p input w) = pt_id part"
  "rw_reviewer (fresh_review rt u role part ev p input w) = u"
  "rw_reviewee (fresh_review rt u role part ev p input w) = subject_of role part ev"
  "rw_rating (fresh_review rt u role part ev p input w) = \<lfloor>sr_rating input\<rfloor>"
  "rw_comment (fresh_review rt u role part ev p input w) = sr_comment input"
  "rw_status (fresh_review rt u role part ev p input w) = RV_SUBMITTED"
  by (simp_all add: fresh_review_def new_review_def)

lemma trust_wf_fresh: "trust_wf s \<Longrightarrow> next_id s \<le> n \<Longrightarrow> trust_wf (s\<lparr>next_id := n\<rparr>)"
  by (rule trust_wf_same [of _ s]) simp_all

lemma submit_goes_through:
  assumes wf: "review_wf w" and desk: "desk_wf (base w)" and trust: "trust_wf (base w)"
    and here: "writable_here u pp role part ev p w" and input: "acceptable input" and apart: "ev_host ev \<noteq> pt_user part"
    and first: "review_of (pt_id part) u w = None"
    and people: "users (base w) (ev_host ev) \<noteq> None" "users (base w) (pt_user part) \<noteq> None"
    and reward: "review_reward_now u (base w) = of_int k" "0 \<le> k"
      "0 < k \<Longrightarrow> coin_ledger_by_key (reviewRewardKey (next_id (base w))) (base w) = None"
      "int4 k" "int4 (balance_of (base w) u + k)" "0 \<le> balance_of (base w) u"
  obtains res w' where "review_submit rt u pp input w = Inr (res, w')" "or_revealed res = (pair_status p = RP_PARTIAL)"
    "balance_of (base w') u = balance_of (base w) u + k"
    "review_pairs w' = update_where (\<lambda>q. pair_id q = pair_id p) (\<lambda>_. put_review role (next_id (base w)) (now_of w) p) (review_pairs w)"
    "reviews w' = reveal_ids (now_of w) (if pair_status p = RP_PARTIAL
       then slot_ids (put_review role (next_id (base w)) (now_of w) p) else {}) (reviews w @ [fresh_review rt u role part ev p input w])"
proof -
  let ?n = "next_id (base w)"
  define p' where "p' = put_review role ?n (now_of w) p"
  define r where "r = fresh_review rt u role part ev p input w"
  define c where "c = \<lparr>wt_participant_id = pt_id part, wt_event_id = pt_event part, wt_pair_id = pair_id p,
       wt_pair_status = pair_status p, wt_reviewee = subject_of role part ev, wt_role = role\<rparr>"
  define w1 where "w1 = w\<lparr>base := (base w)\<lparr>next_id := Suc (Suc ?n)\<rparr>, reviews := reviews w @ [r]\<rparr>"
  note d = review_wfD [OF wf]
  from here have part: "participant_by_public_id pp (base w) = Some part" and ev: "event_by_id (pt_event part) (base w) = Some ev"
    and pair: "pair_by_participant (pt_id part) w = Some p" and u: "u = writer_of role part ev" and play: "in_play p"
    unfolding writable_here_def by blast+
  have p: "p \<in> set (review_pairs w)" "pair_participant p = pt_id part" using pair_by_participant_Some [OF pair] by auto
  have j: "pair_joins p (base w) = Some (part, ev)"
    using participant_by_public_id_by_id [OF desk part] ev by (simp add: pair_joins_def p)
  obtain verdict sc where judged: "judge rt (sr_comment input) w = (verdict, sc)" by (cases "judge rt (sr_comment input) w")
  have r: "r = new_review c u input verdict (now_of w) (getInt ''review.edit_window_minutes'' (base w)) ?n (Suc ?n)"
    by (simp add: r_def fresh_review_def c_def judged)
  have rid: "rw_id r = ?n" "rw_participant r = pt_id part" "rw_reviewer r = u" by (simp_all add: r_def)
  have other: "u \<noteq> wt_reviewee c" using apart by (cases role) (auto simp: u c_def writer_of_def subject_of_def)
  have checks: "review_checks r" unfolding r by (rule new_review_checks [OF input other])
  have new: "rw_id q \<noteq> ?n" if "q \<in> set (reviews w)" for q using d(5) [OF that] by (auto simp: row_ok_def)
  have slot: "slot_of role p = None"
    using slot_taken [OF wf p(1) j, of role] first by (cases "slot_of role p") (auto simp: p(2) u)
  have old: "i \<noteq> ?n" if "i \<in> slot_ids p" for i
    using that slot_ids_rows [OF wf p(1)] new by fastforce
  have load: "loadWritable u pp (now_of w) w = Inr (c, w)" unfolding c_def by (rule loadWritable_total [OF here])
  have create: "review_create (new_review c u input verdict (now_of w) (getInt ''review.edit_window_minutes'' (base w))) w = Inr (r, w1)"
    unfolding review_create_Inr rid by (intro conjI r checks first) (simp add: w1_def)
  have pid: "put_review (wt_role c) (rw_id r) (now_of w1) p = p'" by (simp add: p'_def c_def rid w1_def)
  have "?n \<notin> rw_id ` set (reviews w)"
  proof
    assume "?n \<in> rw_id ` set (reviews w)"
    then obtain q where "?n = rw_id q" "q \<in> set (reviews w)" by (rule imageE)
    then show False using new [of q] by simp
  qed
  then have dist: "distinct (map rw_id (reviews w1))" using d(1) by (simp add: w1_def rid)
  have chk: "pair_checks p'" unfolding p'_def
    by (rule put_review_checks [OF _ play slot]) (use d(4) [OF p(1)] in \<open>simp add: pair_ok_def\<close>)
  have uni: "pair_unique p' (review_pairs w)" unfolding p'_def by (rule put_review_unique [OF wf p(1) new])
  have differ: "pair_guest_review p' \<noteq> Some i" if "pair_host_review p' = Some i" for i
    using that slots_differ [OF wf p(1)] old
    by (cases role) (auto simp: p'_def put_review_def slot_ids_def Let_def)
  have "\<exists>res w'. afterReview u pp input (now_of w1) c sc r w1 = Inr (res, w') \<and> or_revealed res = (pair_status p = RP_PARTIAL)
     \<and> balance_of (base w') u = balance_of (base w1) u + k"
  proof (rule afterReview_total)
    show "wt_pair_id c = pair_id p" "wt_pair_status c = pair_status p" by (simp_all add: c_def)
    show "in_play p" by (rule play)
    show "distinct (map pair_id (review_pairs w1))" "p \<in> set (review_pairs w1)" using d(2) p(1) by (simp_all add: w1_def)
    show "pair_checks (put_review (wt_role c) (rw_id r) (now_of w1) p)" by (simp only: pid chk)
    show "pair_unique (put_review (wt_role c) (rw_id r) (now_of w1) p) (review_pairs w1)" using uni by (simp only: pid) (simp add: w1_def)
    show "pair_host_review (put_review (wt_role c) (rw_id r) (now_of w1) p) = Some i \<Longrightarrow>
        pair_guest_review (put_review (wt_role c) (rw_id r) (now_of w1) p) \<noteq> Some i" for i
      unfolding pid by (rule differ)
    show "distinct (map rw_id (reviews w1))" by (rule dist)
    show "review_checks q" if "q \<in> set (reviews w1)" for q
      using that d(5) checks by (auto simp: w1_def row_ok_def)
    show "pair_joins p (base w1) = Some (part, ev)"
      using j by (simp add: w1_def pair_joins_def participant_by_id_def event_by_id_def cong: option.case_cong)
    show "users (base w1) (ev_host ev) \<noteq> None" "users (base w1) (pt_user part) \<noteq> None" using people by (simp_all add: w1_def)
    show "review_reward_now u (base w1) = of_int k" using reward(1) by (simp add: w1_def rewardFor_fresh getNumber_fresh)
    show "0 < k \<Longrightarrow> coin_ledger_by_key (reviewRewardKey (rw_id r)) (base w1) = None"
      using reward(3) by (simp add: rid w1_def coin_ledger_by_key_def)
    show "int4 (balance_of (base w1) u + k)" "0 \<le> balance_of (base w1) u" using reward(5,6) by (simp_all add: w1_def balance_of_def)
    show "trust_wf (base w1)" using trust_wf_fresh [OF trust] by (simp add: w1_def)
  qed (rule reward(2) reward(4))+
  then obtain res w' where after: "afterReview u pp input (now_of w) c sc r w1 = Inr (res, w')"
    and res: "or_revealed res = (pair_status p = RP_PARTIAL)" and bal: "balance_of (base w') u = balance_of (base w) u + k"
    by (auto simp: w1_def balance_of_def)
  have "pairs_become p p' w1 w' \<and> reviews w' = reveal_ids (now_of w) (if pair_status p' = RP_REVEALED then slot_ids p' else {}) (reviews w1)"
  proof (rule conjunct2 [OF conjunct2 [OF afterReview_effect [OF after]]])
    show "wt_pair_id c = pair_id p" "wt_pair_status c = pair_status p" by (simp_all add: c_def)
    show "pair_by_id (pair_id p) w1 = Some p" using pair_by_id_mem [OF wf p(1)] by (simp add: pair_by_id_def w1_def)
    show "p' = put_review (wt_role c) (rw_id r) (now_of w) p" by (simp add: p'_def c_def rid)
    show "slot_ids p' \<subseteq> rw_id ` set (reviews w1)"
    proof
      fix i assume "i \<in> slot_ids p'"
      then have "i = ?n \<or> i \<in> slot_ids p" by (auto simp: slot_ids_role p'_def split: if_splits)
      then show "i \<in> rw_id ` set (reviews w1)" using slot_ids_rows [OF wf p(1)] rid by (auto simp: w1_def)
    qed
    show "distinct (map pair_id (review_pairs w1))" using d(2) by (simp add: w1_def)
  qed (rule dist, erule differ)
  moreover have "(pair_status p' = RP_REVEALED) = (pair_status p = RP_PARTIAL)" using play by (auto simp: p'_def)
  ultimately have eff: "pairs_become p p' w w'"
    "reviews w' = reveal_ids (now_of w) (if pair_status p = RP_PARTIAL then slot_ids p' else {}) (reviews w @ [r])"
    by (simp_all add: w1_def)
  have "valid_rating (sr_rating input)" using input by (simp add: acceptable_def)
  then have "review_submit rt u pp input w = Inr (res, w')"
    unfolding review_submit_def
    by (simp only: tx_bind_def tx_read_def tx_guard_True tx_return_def load judged create after sum.case prod.case)
  then show thesis using that res bal eff unfolding p'_def r_def by blast
qed

end
