(* ===== verification/Samples.thy ===== *)
theory Samples
  imports Participation_Invariant World
begin

text \<open>
  A small database the witnesses of several services run on: the people, the event and the
  participations of the participation samples, and no coin moved yet.
\<close>

definition quiet_desk :: db where
  "quiet_desk = sample_desk\<lparr>coin_accounts := [], coin_ledger := []\<rparr>"

lemma quiet_desk_simps [simp]:
  "clock quiet_desk = 1000" "next_id quiet_desk = 1000" "settings quiet_desk = Map.empty"
  "coin_ledger quiet_desk = []" "coin_accounts quiet_desk = []" "trust_ledger quiet_desk = []" "trust_scores quiet_desk = []"
  "event_by_id 50 quiet_desk = Some sample_event"
  "users quiet_desk 7 = Some (sample_user 107)" "users quiet_desk 8 = Some (sample_user 108)"
  "participant_by_public_id 160 quiet_desk = Some ((new_participant 60 160 50 8 P_PENDING 500)\<lparr>pt_host_deadline_at := Some 900\<rparr>)"
  by (simp_all add: quiet_desk_def sample_desk_def event_by_id_def participant_by_public_id_def sample_event_def new_participant_def)

lemma quiet_desk_wf: "desk_wf quiet_desk"
  using sample_desk_wf by (simp add: quiet_desk_def desk_wf_def)

end
