(* ===== verification/Review_Properties.thy ===== *)
theory Review_Properties
  imports Review_Progress Samples
begin

text \<open>
  The claims about reviews: blindness until due, permanence of what is written, one review
  per party, termination of the deadline sweep, and the outcome of a submission.
\<close>

section \<open>Sample worlds\<close>

text \<open>
  The participation 60 of guest 8 in event 50 of host 7: the guest has written, the host may
  still answer; the same pair after its deadline; and the same pair settled.
\<close>

definition guest_review :: review_row where
  "guest_review = \<lparr>rw_id = 80, rw_public_id = 180, rw_event = 50, rw_participant = 60, rw_reviewer = 8, rw_reviewee = 7,
     rw_rating = 5, rw_tags = [], rw_comment = None, rw_status = RV_SUBMITTED, rw_moderation = M_APPROVED,
     rw_submitted_at = 500, rw_revealed_at = None, rw_edit_deadline_at = 900\<rparr>"

definition half_pair :: pair_row where
  "half_pair = \<lparr>pair_id = 70, pair_participant = 60, pair_event = 50, pair_host_review = None, pair_guest_review = Some 80,
     pair_opens_at = 400, pair_deadline_at = 2000, pair_status = RP_PARTIAL, pair_revealed_at = None, pair_reminded_at = None\<rparr>"

definition half_written :: world where
  "half_written = empty_world\<lparr>base := quiet_desk, reviews := [guest_review], review_pairs := [half_pair]\<rparr>"

definition overdue :: world where
  "overdue = half_written\<lparr>review_pairs := [half_pair\<lparr>pair_deadline_at := 900\<rparr>]\<rparr>"

definition told_late :: world where
  "told_late = half_written\<lparr>reviews := [guest_review\<lparr>rw_status := RV_REVEALED, rw_revealed_at := Some 950\<rparr>],
     review_pairs := [half_pair\<lparr>pair_deadline_at := 900, pair_status := RP_EXPIRED_PARTIAL, pair_revealed_at := Some 950\<rparr>]\<rparr>"

lemmas sample_worlds = half_written_def overdue_def told_late_def half_pair_def guest_review_def empty_world_def

lemma sample_pair_joins:
  "pair_participant p = 60 \<Longrightarrow> pair_joins p quiet_desk = Some ((new_participant 60 160 50 8 P_PENDING 500)\<lparr>pt_host_deadline_at := Some 900\<rparr>, sample_event)"
  by (simp add: pair_joins_def participant_by_id_def) (simp add: quiet_desk_def sample_desk_def event_by_id_def new_participant_def sample_event_def)

lemma sample_worlds_wf:
  "review_wf half_written" "review_wf overdue" "review_wf told_late"
  by (auto simp: review_wf_def sample_worlds pair_ok_def sample_pair_joins row_ok_def slot_ok_def slot_of_def writer_of_def subject_of_def
      review_checks_def pair_checks_def pair_contents_def slot_ids_def new_participant_def sample_event_def)

lemma sample_trust: "trust_wf quiet_desk"
  by (simp add: trust_wf_def ledger_ok_def trust_cached_def ledger_sum_def)

lemma sample_people: "pair_people half_written" "pair_people overdue" "pair_people told_late"
  by (auto simp: pair_people_def sample_worlds sample_pair_joins new_participant_def sample_event_def)

text \<open>C25. A review stays blind until it is due. After any run of submissions, edits, sweeps, announcements and
  participation operations, of whatever outcome, whatever the public list of reviews about a
  person shows stands on a review whose counterpart has been written too, or whose pair's
  deadline has passed: nobody can read the other side's review and then write an answer to it.\<close>

theorem reviews_stay_blind_until_due:
  assumes "desk_wf (base w)" and "review_wf w" and "w' = run_acts review_do ops w"
    and listed: "listForUser person limit w' = Inr (shown, w'')" and "entry \<in> set shown"
  shows "\<exists>r\<in>set (reviews w'). rw_public_id r = rr_public_id entry \<and> rr_rating entry = rw_rating r \<and> rr_comment entry = rw_comment r
     \<and> ((\<exists>answer\<in>set (reviews w'). rw_participant answer = rw_participant r \<and> rw_reviewer answer = rw_reviewee r
            \<and> rw_reviewee answer = rw_reviewer r)
        \<or> (\<exists>p\<in>set (review_pairs w'). pair_participant p = rw_participant r \<and> pair_deadline_at p \<le> now_of w'))"
proof -
  have wf: "review_wf w'" using reviewed_run [OF assms(1,2)] by (simp add: assms(3) reviewed_from_def)
  from listed \<open>entry \<in> set shown\<close> obtain r u where r: "r \<in> set (reviews w')" "visibleAbout u w' r"
    "rw_public_id r = rr_public_id entry" "rr_rating entry = rw_rating r" "rr_comment entry = rw_comment r"
    by (auto simp: listForUser_def tx_simps dest!: in_set_takeD)
  then have "rw_status r \<noteq> RV_SUBMITTED" by (simp add: visibleAbout_def)
  with revealed_only_when_due [OF wf r(1)] r show ?thesis by blast
qed

lemma reviews_stay_blind_until_due_witness:
  "\<exists>r\<in>set (reviews told_late). rw_public_id r = 180 \<and> pair_deadline_at (hd (review_pairs told_late)) \<le> now_of told_late"
proof -
  let ?w = "told_late\<lparr>user_created_at := [(7, 0), (8, 0)]\<rparr>"
  have wf: "review_wf ?w"
    using sample_worlds_wf(3) by (simp add: review_wf_def pair_ok_def row_ok_def)
  let ?shown = "[\<lparr>rr_public_id = 180, rr_rating = 5, rr_tags = [], rr_comment = None, rr_submitted_at = 500,
      rr_revealed_at = Some 950, rr_without_counterpart = True\<rparr>]"
  have listed: "listForUser 107 20 ?w = Inr (?shown, ?w)"
    by (simp add: listForUser_def tx_bind_def user_by_public_id_def sample_worlds sample_user_def visibleAbout_def
        pair_as_host_def pair_as_guest_def in_revealed_pair_def REVEALED_PAIR_STATUSES_def)
  have "desk_wf (base ?w)" using quiet_desk_wf by (simp add: sample_worlds)
  from reviews_stay_blind_until_due [OF this wf _ listed, of "[]"] show ?thesis
    by (simp add: sample_worlds)
qed



text \<open>C28. Reviews come one per author and participation, and only from and about its two parties. After any run each review belongs to a review pair
  of its participation, its author is the event's host or the guest of that participation and
  its subject the other one, and no author has two reviews there, however often and in whatever
  order submissions are repeated.\<close>

theorem one_review_per_party:
  assumes "desk_wf (base w)" and "review_wf w" and "w' = run_acts review_do ops w" and "r \<in> set (reviews w')"
  shows "(\<exists>p part ev. p \<in> set (review_pairs w') \<and> pair_participant p = rw_participant r
       \<and> pair_joins p (base w') = Some (part, ev)
       \<and> {rw_reviewer r, rw_reviewee r} = {ev_host ev, pt_user part} \<and> rw_reviewer r \<noteq> rw_reviewee r)
     \<and> (\<forall>q\<in>set (reviews w'). rw_participant q = rw_participant r \<and> rw_reviewer q = rw_reviewer r \<longrightarrow> q = r)"
proof (intro conjI ballI impI)
  have wf: "review_wf w'" using reviewed_run [OF assms(1,2)] by (simp add: assms(3) reviewed_from_def)
  from parties_and_uniqueness [OF wf assms(4)] obtain p part ev role where
    p: "p \<in> set (review_pairs w')" "pair_joins p (base w') = Some (part, ev)" "rw_participant r = pair_participant p"
    and role: "rw_reviewer r = writer_of role part ev" "rw_reviewee r = subject_of role part ev" by blast
  have "review_checks r" using review_wfD(5) [OF wf assms(4)] by (simp add: row_ok_def)
  then have "rw_reviewer r \<noteq> rw_reviewee r" by (simp add: review_checks_def)
  moreover have "{rw_reviewer r, rw_reviewee r} = {ev_host ev, pt_user part}"
    using role by (cases role) (auto simp: writer_of_def subject_of_def)
  ultimately show "\<exists>p part ev. p \<in> set (review_pairs w') \<and> pair_participant p = rw_participant r
       \<and> pair_joins p (base w') = Some (part, ev)
       \<and> {rw_reviewer r, rw_reviewee r} = {ev_host ev, pt_user part} \<and> rw_reviewer r \<noteq> rw_reviewee r"
    using p by metis
  show "q = r" if "q \<in> set (reviews w')" "rw_participant q = rw_participant r \<and> rw_reviewer q = rw_reviewer r" for q
    using one_review_each [OF wf assms(4) that(1)] that(2) by simp
qed

lemma one_review_per_party_witness:
  "\<exists>p part ev. p \<in> set (review_pairs half_written) \<and> pair_participant p = rw_participant guest_review
     \<and> pair_joins p (base half_written) = Some (part, ev) \<and> {8, 7} = {ev_host ev, pt_user part}"
proof -
  have "desk_wf (base half_written)" "guest_review \<in> set (reviews half_written)"
    using quiet_desk_wf by (simp_all add: sample_worlds)
  from one_review_per_party [OF this(1) sample_worlds_wf(1) _ this(2), of "[]"]
  show ?thesis by (simp add: guest_review_def)
qed

text \<open>C29. The deadline sweep terminates, and needs no more runs than the backlog takes. Each call of
  the sweep with a batch of \<open>n\<close> settles exactly \<open>n\<close> overdue pairs, or all of them when there
  are fewer, and reports how many; after \<open>k\<close> calls the backlog is \<open>k * n\<close> shorter. No call
  of a sweep fails, so a backlog of any size is gone after finitely many calls.\<close>

theorem deadline_sweeps_drain:
  fixes n k :: nat
  assumes "desk_wf (base w)" and "review_wf w" and "trust_wf (base w)" and "pair_people w"
    and "wk = ((\<lambda>w. snd (settleExpired n w)) ^^ k) w"
  shows "length (review_due wk) = length (review_due w) - k * n
     \<and> (\<exists>partial empty w'. settleExpired n wk = (Inr (partial, empty), w')
          \<and> partial + empty = min n (length (review_due w) - k * n))"
proof -
  have "sweepable w" using assms(1-4) by (simp add: sweepable_def)
  from settle_sweeps [OF this, of k n] have "sweepable wk" "length (review_due wk) = length (review_due w) - k * n"
    by (simp_all add: assms(5))
  with settle_sweep [of wk n] show ?thesis by metis
qed

lemma deadline_sweeps_drain_witness:
  "length (review_due overdue) = 1 \<and> length (review_due (snd (settleExpired 10 overdue))) = 0"
proof -
  have "desk_wf (base overdue)" "trust_wf (base overdue)"
    using quiet_desk_wf sample_trust by (simp_all add: sample_worlds)
  from deadline_sweeps_drain [OF this(1) sample_worlds_wf(2) this(2) sample_people(2) refl, where n = 10 and k = 1]
  show ?thesis by (simp add: review_due_def sample_worlds)
qed

lemma reveal_mem:
  assumes "r \<in> set rows" and "rw_status r = RV_SUBMITTED"
  shows "(if rw_id r \<in> I then r\<lparr>rw_status := RV_REVEALED, rw_revealed_at := Some t\<rparr> else r) \<in> set (reveal_ids t I rows)"
proof -
  have "(if rw_id r \<in> I \<and> rw_status r = RV_SUBMITTED then r\<lparr>rw_status := RV_REVEALED, rw_revealed_at := Some t\<rparr> else r)
    \<in> set (reveal_ids t I rows)" using assms(1) by (auto simp: reveal_ids_def)
  then show ?thesis using assms(2) by simp
qed

lemma fresh_app: "fresh w = Inr (next_id (base w), w\<lparr>base := (base w)\<lparr>next_id := Suc (next_id (base w))\<rparr>\<rparr>)"
  by (simp add: fresh_Inr)

lemma review_of_base: "review_of i u (w\<lparr>base := s\<rparr>) = review_of i u w"
  by (simp add: review_of_def)

text \<open>A second submission by the same author.\<close>

lemma submit_again_window:
  assumes "participant_by_public_id pp (base w) = Some part" and "event_by_id (pt_event part) (base w) = Some ev"
    and "ev_host ev = u \<or> pt_user part = u" and "pair_by_participant (pt_id part) w = Some p" and "pair_status p = RP_REVEALED"
    and "valid_rating (sr_rating input)"
  shows "review_submit rt u pp input w = Inl (app_error ''REVIEW_WINDOW_CLOSED'')"
proof -
  have "loadWritable u pp (now_of w) w = Inl (app_error ''REVIEW_WINDOW_CLOSED'')"
    using assms(1-5) by (auto simp: loadWritable_def tx_bind_def Let_def tx_guard_def)
  then show ?thesis using assms(6) by (simp add: review_submit_def tx_bind_def)
qed

lemma submit_again_duplicate:
  assumes "writable_here u pp role part ev p w" and "acceptable input" and "ev_host ev \<noteq> pt_user part"
    and "review_of (pt_id part) u w \<noteq> None"
  shows "review_submit rt u pp input w = Inl (app_error ''ALREADY_REVIEWED'')"
proof -
  define c where "c = \<lparr>wt_participant_id = pt_id part, wt_event_id = pt_event part, wt_pair_id = pair_id p,
       wt_pair_status = pair_status p, wt_reviewee = subject_of role part ev, wt_role = role\<rparr>"
  have load: "loadWritable u pp (now_of w) w = Inr (c, w)" unfolding c_def by (rule loadWritable_total [OF assms(1)])
  have u: "u = writer_of role part ev" using assms(1) unfolding writable_here_def by blast
  have other: "u \<noteq> wt_reviewee c" using assms(3) by (cases role) (auto simp: u c_def writer_of_def subject_of_def)
  obtain verdict sc where judged: "judge rt (sr_comment input) w = (verdict, sc)" by (cases "judge rt (sr_comment input) w")
  let ?mk = "new_review c u input verdict (now_of w) (getInt ''review.edit_window_minutes'' (base w))"
  have "rw_participant (?mk i j) = pt_id part" "rw_reviewer (?mk i j) = u" for i j by (simp_all add: new_review_def c_def)
  moreover obtain old where "review_of (pt_id part) u w = Some old" using assms(4) by blast
  ultimately have create: "review_create ?mk w = Inl (app_error ''ALREADY_REVIEWED'')"
    using new_review_checks [OF assms(2) other] \<open>review_of (pt_id part) u w = Some old\<close>
    by (simp add: review_create_def tx_bind_def fresh_app review_of_base)
  have "valid_rating (sr_rating input)" using assms(2) by (simp add: acceptable_def)
  then show ?thesis unfolding review_submit_def
    by (simp only: tx_bind_def tx_read_def tx_guard_True tx_return_def load judged create sum.case prod.case)
qed

text \<open>C27. What submitting a review does. Inside the window, by the host or the accepted guest of the participation, once,
  with a rating of one to five and at most five tags and 500 characters: the submission is
  taken; the review is stored under its author with the rating and text given; the first of the two
  leaves the pair half written and the review hidden, the second reveals both at once; the
  author's balance grows by exactly the reward the cap still allows; and a second submission by
  the same author is refused, as a duplicate while the other side is awaited and as a closed
  window once both are shown.\<close>

theorem submitting_a_review:
  assumes wf: "desk_wf (base w)" "review_wf w" "trust_wf (base w)"
    and here: "writable_here u pp role part ev p w" and input: "acceptable input" and apart: "ev_host ev \<noteq> pt_user part"
    and first: "review_of (pt_id part) u w = None"
    and people: "users (base w) (ev_host ev) \<noteq> None" "users (base w) (pt_user part) \<noteq> None"
    and reward: "review_reward_now u (base w) = of_int k" "0 \<le> k"
      "0 < k \<Longrightarrow> coin_ledger_by_key (reviewRewardKey (next_id (base w))) (base w) = None"
      "int4 k" "int4 (balance_of (base w) u + k)" "0 \<le> balance_of (base w) u"
  shows "\<exists>res w' r. review_submit rt u pp input w = Inr (res, w')
     \<and> r \<in> set (reviews w') \<and> rw_participant r = pt_id part \<and> rw_reviewer r = u \<and> rw_reviewee r = subject_of role part ev
     \<and> rw_rating r = \<lfloor>sr_rating input\<rfloor> \<and> rw_comment r = sr_comment input
     \<and> rw_status r = (if pair_status p = RP_PARTIAL then RV_REVEALED else RV_SUBMITTED)
     \<and> or_revealed res = (pair_status p = RP_PARTIAL)
     \<and> (\<forall>q\<in>set (reviews w'). pair_status p = RP_PARTIAL \<and> rw_participant q = pt_id part \<longrightarrow> rw_status q \<noteq> RV_SUBMITTED)
     \<and> map_option pair_status (pair_by_participant (pt_id part) w')
         = Some (if pair_status p = RP_PARTIAL then RP_REVEALED else RP_PARTIAL)
     \<and> balance_of (base w') u = balance_of (base w) u + k
     \<and> (\<forall>again. acceptable again \<longrightarrow> review_submit rt u pp again w'
          = Inl (app_error (if pair_status p = RP_PARTIAL then ''REVIEW_WINDOW_CLOSED'' else ''ALREADY_REVIEWED'')))"
proof -
  let ?n = "next_id (base w)" and ?q = "fresh_review rt u role part ev p input w"
  define p' where "p' = put_review role ?n (now_of w) p"
  define I where "I = (if pair_status p = RP_PARTIAL then slot_ids p' else {})"
  obtain res w' where run: "review_submit rt u pp input w = Inr (res, w')" and res: "or_revealed res = (pair_status p = RP_PARTIAL)"
    and bal: "balance_of (base w') u = balance_of (base w) u + k" and pairs: "pairs_become p p' w w'"
    and rows: "reviews w' = reveal_ids (now_of w) I (reviews w @ [?q])"
    unfolding p'_def I_def by (rule submit_goes_through [OF wf(2,1,3) here input apart first people reward])
  have step: "review_step w w'" by (rule submit_step [OF wf(2,1) run])
  have wf': "review_wf w'" by (rule review_step_wf [OF step wf(2)])
  have frame: "desk_frame (base w) (base w')" by (rule submit_desk [OF run])
  from here have part: "participant_by_public_id pp (base w) = Some part" and ev: "event_by_id (pt_event part) (base w) = Some ev"
    and pair: "pair_by_participant (pt_id part) w = Some p" and u: "u = writer_of role part ev" and play: "in_play p"
    and role: "role = (if ev_host ev = u then HOST else GUEST)" and window: "pair_opens_at p \<le> now_of w" "now_of w < pair_deadline_at p"
    unfolding writable_here_def by blast+
  have part': "participant_by_public_id pp (base w') = Some part" and ev': "event_by_id (pt_event part) (base w') = Some ev"
    using part ev frame by (simp_all add: participant_by_public_id_def event_by_id_def desk_frame_def)
  have p: "p \<in> set (review_pairs w)" "pair_participant p = pt_id part" using pair_by_participant_Some [OF pair] by auto
  have "p' \<in> set (review_pairs w')" unfolding pairs by (rule update_where_in [OF p(1)]) simp
  moreover have "pair_participant p' = pt_id part" by (simp add: p'_def p)
  ultimately have pair': "pair_by_participant (pt_id part) w' = Some p'"
    using review_wfD(3) [OF wf'] find_key_unique [of pair_participant "review_pairs w'" p'] by (simp add: pair_by_participant_def)
  have st: "pair_status p' = (if pair_status p = RP_PARTIAL then RP_REVEALED else RP_PARTIAL)" using play by (auto simp: p'_def)
  have own: "?n \<in> slot_ids p'" by (auto simp: slot_ids_role p'_def)
  define r where "r = (if ?n \<in> I then ?q\<lparr>rw_status := RV_REVEALED, rw_revealed_at := Some (now_of w)\<rparr> else ?q)"
  have r: "r \<in> set (reviews w')" unfolding rows r_def using reveal_mem [of ?q "reviews w @ [?q]" I] by simp
  have ids: "rw_participant r = pt_id part" "rw_reviewer r = u" "rw_reviewee r = subject_of role part ev"
    "rw_rating r = \<lfloor>sr_rating input\<rfloor>" "rw_comment r = sr_comment input"
    "rw_status r = (if pair_status p = RP_PARTIAL then RV_REVEALED else RV_SUBMITTED)"
    using own by (simp_all add: r_def I_def)
  have both: "rw_status q \<noteq> RV_SUBMITTED" if q: "q \<in> set (reviews w')" "pair_status p = RP_PARTIAL" "rw_participant q = pt_id part" for q
  proof -
    from review_wfD(5) [OF wf' q(1)] obtain o' where o': "o' \<in> set (review_pairs w')" "pair_participant o' = rw_participant q"
      "rw_id q \<in> slot_ids o'" by (auto simp: row_ok_def)
    have "o' = p'" using o' \<open>p' \<in> set (review_pairs w')\<close> \<open>pair_participant p' = pt_id part\<close> q(3) review_wfD(3) [OF wf']
      by (metis distinct_key_eq)
    then have "rw_id q \<in> I" using o' q(2) by (simp add: I_def)
    then show ?thesis using q(1) by (auto simp: rows reveal_ids_def split: if_splits)
  qed
  have again: "review_submit rt u pp x w' = Inl (app_error (if pair_status p = RP_PARTIAL then ''REVIEW_WINDOW_CLOSED'' else ''ALREADY_REVIEWED''))"
    if x: "acceptable x" for x
  proof (cases "pair_status p = RP_PARTIAL")
    case True
    have "ev_host ev = u \<or> pt_user part = u" using u by (cases role) (auto simp: writer_of_def)
    from submit_again_window [OF part' ev' this pair' _, of x rt] st True x show ?thesis by (simp add: acceptable_def)
  next
    case False
    have "in_play p'" "pair_opens_at p' \<le> now_of w'" "now_of w' < pair_deadline_at p'"
      using window frame st False by (simp_all add: p'_def desk_frame_def)
    then have "writable_here u pp role part ev p' w'"
      using part' ev' role u pair' unfolding writable_here_def by blast
    moreover have "review_of (pt_id part) u w' \<noteq> None" using r ids by (auto simp: review_of_None)
    ultimately show ?thesis using submit_again_duplicate [OF _ x apart, of u pp role p' w' rt] False by simp
  qed
  have pair_st: "map_option pair_status (pair_by_participant (pt_id part) w')
      = Some (if pair_status p = RP_PARTIAL then RP_REVEALED else RP_PARTIAL)" using pair' st by simp
  show ?thesis
    by (intro exI [of _ res] exI [of _ w'] exI [of _ r] conjI run r ids res pair_st bal ballI impI allI again)
       (use both in blast)+
qed

definition four_stars :: submit_review_input where
  "four_stars = \<lparr>sr_rating = 4, sr_tags = Some [''kind''], sr_comment = None\<rparr>"

lemma sample_reward: "review_reward_now 7 quiet_desk = of_int 5"
  by (simp add: rewardFor_def earnedSince_def getNumber_def setting_read_def setting_default_def SETTING_DEFAULTS_def)

definition plain_runtime :: text_runtime where
  "plain_runtime = \<lparr>tr_unicode = \<lparr>uc_nfc = (\<lambda>t. t), uc_lower = (\<lambda>t. t), uc_letter_or_number = (\<lambda>_. True)\<rparr>,
     tr_regex = (\<lambda>_ _. None)\<rparr>"

lemma submitting_a_review_witness:
  "\<exists>res w'. review_submit plain_runtime 7 160 four_stars half_written = Inr (res, w') \<and> or_revealed res
     \<and> balance_of (base w') 7 = balance_of quiet_desk 7 + 5"
proof -
  let ?part = "(new_participant 60 160 50 8 P_PENDING 500)\<lparr>pt_host_deadline_at := Some 900\<rparr>"
  have base: "base half_written = quiet_desk" by (simp add: sample_worlds)
  have rows: "reviews half_written = [guest_review]" "review_pairs half_written = [half_pair]" by (simp_all add: half_written_def)
  have ids: "pt_id ?part = 60" "pt_user ?part = 8" "pt_event ?part = 50" "ev_host sample_event = 7"
    by (simp_all add: new_participant_def sample_event_def)
  have "writable_here 7 160 HOST ?part sample_event half_pair half_written"
    by (simp add: writable_here_def base rows ids writer_of_def pair_by_participant_def) (simp add: half_pair_def)
  moreover have "acceptable four_stars" by (simp add: acceptable_def four_stars_def valid_rating_def isInteger_def)
  moreover have "review_of (pt_id ?part) 7 half_written = None" by (simp add: review_of_def rows ids) (simp add: guest_review_def)
  ultimately obtain res w' where "review_submit plain_runtime 7 160 four_stars half_written = Inr (res, w')"
    "or_revealed res = (pair_status half_pair = RP_PARTIAL)" "balance_of (base w') 7 = balance_of (base half_written) 7 + 5"
    using submitting_a_review [where k = 5 and rt = plain_runtime, of half_written 7 160 HOST ?part sample_event half_pair four_stars]
    sample_worlds_wf(1) quiet_desk_wf sample_trust sample_reward
    unfolding base ids by (auto simp: int4_def coin_ledger_by_key_def balance_of_def)
  then show ?thesis by (auto simp: base half_pair_def)
qed

end
