(* ===== verification/Gift_Code.thy ===== *)
theory Gift_Code
  imports World
begin

text \<open>
  Gift codes (\<^verbatim>\<open>packages/domain/src/economy/gift-code.service.ts\<close>): a code is redeemed inside a
  transaction that holds its row, the refusal is written to the audit trail after that
  transaction has rolled back. What an administrator does to a code afterwards, switching it
  on and off, is beside it so that runs may interleave the two.
\<close>

section \<open>The tables\<close>

definition gift_code_checks :: "gift_code_row \<Rightarrow> bool" where
  "gift_code_checks g \<longleftrightarrow> 0 < gc_coins g \<and> 0 < gc_per_user_limit g
     \<and> (case gc_max_redemptions g of None \<Rightarrow> True | Some m \<Rightarrow> 0 < m \<and> gc_redeemed_count g \<le> m)
     \<and> 0 \<le> gc_redeemed_count g
     \<and> (case (gc_starts_at g, gc_expires_at g) of (Some a, Some b) \<Rightarrow> a < b | _ \<Rightarrow> True)"

definition gift_code_by_code :: "utext \<Rightarrow> world \<Rightarrow> gift_code_row option" where
  "gift_code_by_code c w = find (\<lambda>g. gc_code g = c) (gift_codes w)"

definition gift_code_by_id :: "id \<Rightarrow> world \<Rightarrow> gift_code_row option" where
  "gift_code_by_id i w = find (\<lambda>g. gc_id g = i) (gift_codes w)"

definition gift_code_update :: "id \<Rightarrow> (gift_code_row \<Rightarrow> gift_code_row) \<Rightarrow> (error, world, unit) tx" where
  "gift_code_update i f =
     tx_bind (tx_read (gift_code_by_id i)) (\<lambda>g.
     tx_bind (tx_some g (DbError ''gift_code not found'')) (\<lambda>g.
     tx_bind (tx_guard (gift_code_checks (f g)) (DbError ''gift_code constraint'')) (\<lambda>_.
     tx_modify (\<lambda>w. w\<lparr>gift_codes := update_where (\<lambda>r. gc_id r = i) (\<lambda>_. f g) (gift_codes w)\<rparr>))))"

text \<open>The CHECKs and the two UNIQUE indices of a redemption.\<close>

definition redemption_clash :: "id \<Rightarrow> id \<Rightarrow> int \<Rightarrow> id \<Rightarrow> world \<Rightarrow> bool" where
  "redemption_clash g u seq lid w \<longleftrightarrow>
     (\<exists>r\<in>set (gift_redemptions w). gr_gift_code r = g \<and> gr_user r = u \<and> gr_seq r = seq \<or> gr_coin_ledger_id r = lid)"

definition redemption_create :: "id \<Rightarrow> id \<Rightarrow> int \<Rightarrow> int \<Rightarrow> id \<Rightarrow> instant \<Rightarrow> (error, world, unit) tx" where
  "redemption_create g u seq coins lid now =
     tx_bind fresh (\<lambda>i.
     tx_bind (tx_guard (0 < seq \<and> 0 < coins) (DbError ''gift_code_redemption constraint'')) (\<lambda>_.
     tx_bind (tx_read (redemption_clash g u seq lid)) (\<lambda>clash.
     tx_bind (tx_guard (\<not> clash) (app_error ''GIFT_CODE_ALREADY_REDEEMED'')) (\<lambda>_.
     tx_modify (\<lambda>w. w\<lparr>gift_redemptions := gift_redemptions w @
       [\<lparr>gr_id = i, gr_gift_code = g, gr_user = u, gr_seq = seq, gr_coins = coins, gr_coin_ledger_id = lid,
         gr_created_at = now\<rparr>]\<rparr>)))))"

section \<open>The service\<close>

definition GIFT_CODE_REASON :: string where "GIFT_CODE_REASON = ''giftcode.redeemed''"
definition GIFT_CODE_SUCCESS_ACTION :: string where "GIFT_CODE_SUCCESS_ACTION = ''giftcode.redeemed''"
definition GIFT_CODE_FAILURE_ACTION :: string where "GIFT_CODE_FAILURE_ACTION = ''giftcode.redeem_failed''"

definition giftCodeRedemptionKey :: "id \<Rightarrow> id \<Rightarrow> nat \<Rightarrow> string" where
  "giftCodeRedemptionKey giftCodeId userId seq =
     ''gift-code:'' @ show_id giftCodeId @ '':'' @ show_id userId @ '':'' @ show_id seq"

definition exactCode :: "utext \<Rightarrow> utext" where
  "exactCode raw = trim_text raw"

definition reasonLabel :: "error_code \<Rightarrow> string" where
  "reasonLabel code =
     (if code = ''GIFT_CODE_INVALID'' then ''invalid''
      else if code = ''GIFT_CODE_EXPIRED'' then ''expired''
      else if code = ''GIFT_CODE_ALREADY_REDEEMED'' then ''already_redeemed''
      else if code = ''GIFT_CODE_EXHAUSTED'' then ''exhausted''
      else if code = ''GIFT_CODE_DISABLED'' then ''disabled''
      else ''error'')"

record redeemed_gift_code =
  rg_code :: utext
  rg_coins :: int
  rg_balance :: int
  rg_remaining_for_user :: int

definition refused :: "id \<Rightarrow> id option \<Rightarrow> string \<Rightarrow> (error, world, unit) act" where
  "refused userId giftCodeId result =
     act_catch (in_tx (on_db (audit_record A_USER (Some userId) GIFT_CODE_FAILURE_ACTION ''gift_code'' giftCodeId None
       (Some (JObj [(''reason'', JStr result)]))))) (\<lambda>_. act_return ())"

definition redeem_movement :: "id \<Rightarrow> gift_code_row \<Rightarrow> nat \<Rightarrow> coin_input" where
  "redeem_movement userId giftCode seq =
     \<lparr>ci_user = userId, ci_amount = gc_coins giftCode, ci_type = GIFT_CODE_REDEEM, ci_reason = GIFT_CODE_REASON,
      ci_key = giftCodeRedemptionKey (gc_id giftCode) userId seq, ci_actor_type = A_USER, ci_actor_id = Some userId,
      ci_ref_type = Some ''gift_code'', ci_ref_id = Some (gc_id giftCode),
      ci_metadata = Some (JObj [(''giftCodeId'', JId (gc_id giftCode)), (''seq'', JInt (int seq))]), ci_reverses = None\<rparr>"

definition had_before :: "id \<Rightarrow> id \<Rightarrow> world \<Rightarrow> nat" where
  "had_before giftCodeId userId w = count_where (\<lambda>r. gr_gift_code r = giftCodeId \<and> gr_user r = userId) (gift_redemptions w)"

definition redeem_tx :: "id \<Rightarrow> id \<Rightarrow> instant \<Rightarrow> (error, world, redeemed_gift_code) tx" where
  "redeem_tx userId foundId now =
     tx_bind (tx_read (gift_code_by_id foundId)) (\<lambda>locked.
     tx_bind (tx_some locked (app_error ''GIFT_CODE_INVALID'')) (\<lambda>giftCode.
     tx_bind (tx_guard (gc_is_active giftCode) (app_error ''GIFT_CODE_INVALID'')) (\<lambda>_.
     tx_bind (tx_guard (\<not> (case gc_starts_at giftCode of None \<Rightarrow> False | Some t \<Rightarrow> now < t)) (app_error ''GIFT_CODE_EXPIRED'')) (\<lambda>_.
     tx_bind (tx_guard (\<not> (case gc_expires_at giftCode of None \<Rightarrow> False | Some t \<Rightarrow> t \<le> now)) (app_error ''GIFT_CODE_EXPIRED'')) (\<lambda>_.
     tx_bind (tx_guard (\<not> (case gc_max_redemptions giftCode of None \<Rightarrow> False | Some k \<Rightarrow> k \<le> gc_redeemed_count giftCode))
       (app_error ''GIFT_CODE_EXHAUSTED'')) (\<lambda>_.
     tx_bind (tx_read (had_before (gc_id giftCode) userId)) (\<lambda>alreadyHad.
     tx_bind (tx_guard (int alreadyHad < gc_per_user_limit giftCode) (app_error ''GIFT_CODE_ALREADY_REDEEMED'')) (\<lambda>_.
     tx_bind (on_db (coin_apply (redeem_movement userId giftCode (alreadyHad + 1)))) (\<lambda>movement.
     tx_bind (tx_guard (cm_applied movement) (app_error ''GIFT_CODE_ALREADY_REDEEMED'')) (\<lambda>_.
     tx_bind (redemption_create (gc_id giftCode) userId (int alreadyHad + 1) (gc_coins giftCode) (cm_ledger_id movement) now) (\<lambda>_.
     tx_bind (gift_code_update (gc_id giftCode) (\<lambda>g. g\<lparr>gc_redeemed_count := gc_redeemed_count g + 1\<rparr>)) (\<lambda>_.
     tx_bind (on_db (audit_record A_USER (Some userId) GIFT_CODE_SUCCESS_ACTION ''gift_code'' (Some (gc_id giftCode)) None
       (Some (JObj [(''coins'', JInt (gc_coins giftCode)), (''seq'', JInt (int alreadyHad + 1))])))) (\<lambda>_.
     tx_return \<lparr>rg_code = gc_code giftCode, rg_coins = gc_coins giftCode, rg_balance = cm_balance movement,
       rg_remaining_for_user = gc_per_user_limit giftCode - (int alreadyHad + 1)\<rparr>)))))))))))))"

definition redeem :: "id \<Rightarrow> utext \<Rightarrow> (error, world, redeemed_gift_code) act" where
  "redeem userId rawCode =
     act_bind (act_read (\<lambda>w. getInt ''giftcode.enabled'' (base w))) (\<lambda>enabled.
     if enabled = 0 then act_throw (app_error ''GIFT_CODE_DISABLED'')
     else
       (let code = exactCode rawCode
        in act_bind (act_read now_of) (\<lambda>now.
           act_bind (act_read (gift_code_by_code code)) (\<lambda>found.
           case found of
             None \<Rightarrow> act_bind (refused userId None ''invalid'') (\<lambda>_. act_throw (app_error ''GIFT_CODE_INVALID''))
           | Some found \<Rightarrow>
               act_catch (in_tx (redeem_tx userId (gc_id found) now)) (\<lambda>e.
                 case e of
                   AppError code _ \<Rightarrow> act_bind (refused userId (Some (gc_id found)) (reasonLabel code)) (\<lambda>_. act_throw e)
                 | DbError _ \<Rightarrow> act_throw e)))))"

section \<open>Runs\<close>

text \<open>
  Anything that happens to codes and coins: redemptions, an administrator creating a code,
  changing its terms or switching it off, movements other services make, time. An
  administrator's change goes through the table's constraints.
\<close>

datatype gift_op =
    Redeem id utext
  | Issue_Code utext int "int option" int "instant option" "instant option" bool
  | Change_Terms id int "int option" int "instant option" "instant option" bool
  | Other_Movement coin_input
  | Clock_Ticks nat

definition issue_code ::
  "utext \<Rightarrow> int \<Rightarrow> int option \<Rightarrow> int \<Rightarrow> instant option \<Rightarrow> instant option \<Rightarrow> bool \<Rightarrow> (error, world, unit) tx" where
  "issue_code code coins limit perUser startsAt expiresAt active =
     tx_bind fresh (\<lambda>i.
     (let g = \<lparr>gc_id = i, gc_code = code, gc_coins = coins, gc_max_redemptions = limit, gc_per_user_limit = perUser,
               gc_redeemed_count = 0, gc_starts_at = startsAt, gc_expires_at = expiresAt, gc_is_active = active\<rparr>
      in tx_bind (tx_guard (gift_code_checks g) (DbError ''gift_code constraint'')) (\<lambda>_.
         tx_bind (tx_read (gift_code_by_code code)) (\<lambda>clash.
         tx_bind (tx_guard (clash = None) (app_error ''GIFT_CODE_DUPLICATE'')) (\<lambda>_.
         tx_modify (\<lambda>w. w\<lparr>gift_codes := gift_codes w @ [g]\<rparr>))))))"

fun gift_do :: "gift_op \<Rightarrow> (error, world, unit) act" where
  "gift_do (Redeem u code) = act_bind (redeem u code) (\<lambda>_. act_return ())"
| "gift_do (Issue_Code code coins limit perUser startsAt expiresAt active) =
     in_tx (issue_code code coins limit perUser startsAt expiresAt active)"
| "gift_do (Change_Terms i coins limit perUser startsAt expiresAt active) =
     in_tx (gift_code_update i (\<lambda>g. g\<lparr>gc_coins := coins, gc_max_redemptions := limit, gc_per_user_limit := perUser,
       gc_starts_at := startsAt, gc_expires_at := expiresAt, gc_is_active := active\<rparr>))"
| "gift_do (Other_Movement input) =
     in_tx (if ci_type input = GIFT_CODE_REDEEM then tx_throw (DbError ''not a movement of another service'')
            else on_db (tx_bind (coin_apply input) (\<lambda>_. tx_return ())))"
| "gift_do (Clock_Ticks n) = in_tx (tx_modify (\<lambda>w. w\<lparr>base := (base w)\<lparr>clock := clock (base w) + int n\<rparr>\<rparr>))"

section \<open>The invariant\<close>

definition redemptions_of :: "id \<Rightarrow> id \<Rightarrow> world \<Rightarrow> gift_redemption_row list" where
  "redemptions_of g u w = filter (\<lambda>r. gr_gift_code r = g \<and> gr_user r = u) (gift_redemptions w)"

definition code_coins :: "id \<Rightarrow> world \<Rightarrow> int" where
  "code_coins u w = sum_where (\<lambda>l. cl_type l = GIFT_CODE_REDEEM \<and> cl_user l = u) cl_amount (coin_ledger (base w))"

definition gift_wf :: "world \<Rightarrow> bool" where
  "gift_wf w \<longleftrightarrow> distinct (map gc_id (gift_codes w)) \<and> distinct (map gc_code (gift_codes w))
     \<and> (\<forall>g\<in>set (gift_codes w). gc_id g < next_id (base w) \<and> gift_code_checks g
          \<and> gc_redeemed_count g = int (count_where (\<lambda>r. gr_gift_code r = gc_id g) (gift_redemptions w)))
     \<and> (\<forall>r\<in>set (gift_redemptions w). gr_gift_code r \<in> gc_id ` set (gift_codes w) \<and> gr_coin_ledger_id r < next_id (base w))
     \<and> (\<forall>g u. map gr_seq (redemptions_of g u w) = map int [1..<Suc (length (redemptions_of g u w))])
     \<and> (\<forall>u. code_coins u w = sum_where (\<lambda>r. gr_user r = u) gr_coins (gift_redemptions w))"

lemma gift_wfD:
  assumes "gift_wf w"
  shows "distinct (map gc_id (gift_codes w))" "distinct (map gc_code (gift_codes w))"
    "g \<in> set (gift_codes w) \<Longrightarrow> gc_id g < next_id (base w) \<and> gift_code_checks g
       \<and> gc_redeemed_count g = int (count_where (\<lambda>r. gr_gift_code r = gc_id g) (gift_redemptions w))"
    "r \<in> set (gift_redemptions w) \<Longrightarrow> gr_gift_code r \<in> gc_id ` set (gift_codes w) \<and> gr_coin_ledger_id r < next_id (base w)"
    "map gr_seq (redemptions_of i u w) = map int [1..<Suc (length (redemptions_of i u w))]"
    "code_coins u w = sum_where (\<lambda>r. gr_user r = u) gr_coins (gift_redemptions w)"
  using assms by (simp_all add: gift_wf_def)

lemma had_before_length: "had_before g u w = length (redemptions_of g u w)"
  by (simp add: had_before_def redemptions_of_def count_where_def)

text \<open>Code rows that differ only in their terms.\<close>

definition same_code :: "gift_code_row \<Rightarrow> gift_code_row \<Rightarrow> bool" where
  "same_code g g' \<longleftrightarrow> gc_id g' = gc_id g \<and> gc_code g' = gc_code g \<and> gc_redeemed_count g' = gc_redeemed_count g"

text \<open>Where the rows of both tables and the coins given by codes stand, so does the invariant.\<close>

lemma gift_wf_terms:
  assumes wf: "gift_wf w" and red: "gift_redemptions w' = gift_redemptions w"
    and coins: "\<And>u. code_coins u w' = code_coins u w" and next_up: "next_id (base w) \<le> next_id (base w')"
    and ids: "map gc_id (gift_codes w') = map gc_id (gift_codes w)" and codes: "map gc_code (gift_codes w') = map gc_code (gift_codes w)"
    and terms: "\<And>g'. g' \<in> set (gift_codes w') \<Longrightarrow> gift_code_checks g' \<and> (\<exists>g\<in>set (gift_codes w). same_code g g')"
  shows "gift_wf w'"
proof -
  have "gc_id ` set (gift_codes w') = gc_id ` set (gift_codes w)" using ids by (metis list.set_map)
  moreover have "gc_id g' < next_id (base w') \<and> gc_redeemed_count g' = int (count_where (\<lambda>r. gr_gift_code r = gc_id g') (gift_redemptions w'))"
    if "g' \<in> set (gift_codes w')" for g'
  proof -
    from terms [OF that] obtain g where "g \<in> set (gift_codes w)" "same_code g g'" by blast
    with gift_wfD(3) [OF wf, of g] next_up show ?thesis by (auto simp: same_code_def red)
  qed
  ultimately show ?thesis
    using wf terms next_up by (fastforce simp: gift_wf_def red coins ids codes redemptions_of_def)
qed

lemma gift_wf_same:
  "gift_wf w \<Longrightarrow> gift_codes w' = gift_codes w \<Longrightarrow> gift_redemptions w' = gift_redemptions w \<Longrightarrow>
   (\<And>u. code_coins u w' = code_coins u w) \<Longrightarrow> next_id (base w) \<le> next_id (base w') \<Longrightarrow> gift_wf w'"
  by (rule gift_wf_terms [of w]) (auto simp: gift_wfD same_code_def)

lemma gift_code_by_id_Some: "gift_code_by_id i w = Some g \<Longrightarrow> g \<in> set (gift_codes w) \<and> gc_id g = i"
  unfolding gift_code_by_id_def by (rule find_key_mem)

lemma gift_code_update_Inr:
  "gift_code_update i f w = Inr (u, w') \<longleftrightarrow> (\<exists>g. gift_code_by_id i w = Some g \<and> gift_code_checks (f g)
     \<and> w' = w\<lparr>gift_codes := update_where (\<lambda>r. gc_id r = i) (\<lambda>_. f g) (gift_codes w)\<rparr>)"
  by (auto simp: gift_code_update_def tx_simps)

text \<open>The movements of a run of coins that has a type of its own.\<close>

lemma coin_apply_other:
  assumes "coin_apply input s = Inr (m, s')"
  shows "coin_ledger s' = coin_ledger s \<or> (\<exists>l. coin_ledger s' = coin_ledger s @ [l] \<and> cl_type l = ci_type input \<and> cl_user l = ci_user input)"
proof -
  from assms obtain r where run: "applyWithin input None s = Inr (r, s')" by (auto simp: coin_apply_Inr)
  show ?thesis
  proof (cases "cp_applied r")
    case True
    with applyWithin_applied(2) [OF run] show ?thesis by (simp add: coin_row_def)
  next
    case False
    with applyWithin_not_applied(1) [OF run] show ?thesis by simp
  qed
qed

lemma coin_apply_applied:
  assumes "coin_apply input s = Inr (m, s')" and "cm_applied m"
  obtains l where "coin_ledger s' = coin_ledger s @ [l]" "cl_type l = ci_type input" "cl_user l = ci_user input"
    "cl_amount l = ci_amount input" "cl_id l = cm_ledger_id m" "cl_id l = next_id s" "next_id s < next_id s'"
proof -
  from assms(1) obtain r i where run: "applyWithin input None s = Inr (r, s')" "cp_ledger_id r = Some i"
    and m: "m = \<lparr>cm_applied = cp_applied r, cm_ledger_id = i, cm_balance = cp_balance r\<rparr>" by (auto simp: coin_apply_Inr)
  have ap: "cp_applied r" using assms(2) m by simp
  have i: "i = next_id s" "next_id s < next_id s'"
    using run(1) by (cases rule: applyWithin_effect, use run(2) ap in auto)+
  show thesis
    by (rule that [OF applyWithin_applied(2) [OF run(1) ap]])
       (use i m in \<open>simp_all add: coin_row_def moved_amount_def\<close>)
qed

lemma redemption_create_Inr:
  "redemption_create g u seq coins led now w = Inr (x, w') \<longleftrightarrow> 0 < seq \<and> 0 < coins \<and> \<not> redemption_clash g u seq led w
     \<and> w' = w\<lparr>base := (base w)\<lparr>next_id := Suc (next_id (base w))\<rparr>, gift_redemptions := gift_redemptions w @
       [\<lparr>gr_id = next_id (base w), gr_gift_code = g, gr_user = u, gr_seq = seq, gr_coins = coins, gr_coin_ledger_id = led,
         gr_created_at = now\<rparr>]\<rparr>"
  by (auto simp: redemption_create_def tx_simps redemption_clash_def)

definition redeemable :: "id \<Rightarrow> gift_code_row \<Rightarrow> instant \<Rightarrow> world \<Rightarrow> bool" where
  "redeemable u g now w \<longleftrightarrow> gc_is_active g
     \<and> (case gc_starts_at g of None \<Rightarrow> True | Some t \<Rightarrow> t \<le> now)
     \<and> (case gc_expires_at g of None \<Rightarrow> True | Some t \<Rightarrow> now < t)
     \<and> (case gc_max_redemptions g of None \<Rightarrow> True | Some k \<Rightarrow> gc_redeemed_count g < k)
     \<and> int (had_before (gc_id g) u w) < gc_per_user_limit g"

text \<open>What a granted redemption did.\<close>

lemma redeem_tx_effect:
  assumes run: "redeem_tx u i now w = Inr (res, w')"
  obtains g l rid where "gift_code_by_id i w = Some g" "redeemable u g now w"
    "coin_ledger (base w') = coin_ledger (base w) @ [l]" "cl_type l = GIFT_CODE_REDEEM" "cl_user l = u" "cl_amount l = gc_coins g"
    "gift_redemptions w' = gift_redemptions w @ [\<lparr>gr_id = rid, gr_gift_code = gc_id g, gr_user = u,
       gr_seq = int (had_before (gc_id g) u w) + 1, gr_coins = gc_coins g, gr_coin_ledger_id = cl_id l, gr_created_at = now\<rparr>]"
    "gift_code_checks (g\<lparr>gc_redeemed_count := gc_redeemed_count g + 1\<rparr>)"
    "gift_codes w' = update_where (\<lambda>r. gc_id r = gc_id g) (\<lambda>_. g\<lparr>gc_redeemed_count := gc_redeemed_count g + 1\<rparr>) (gift_codes w)"
    "next_id (base w) \<le> next_id (base w')" "cl_id l < next_id (base w')"
proof -
  let ?k = "\<lambda>g. had_before (gc_id g) u w"
  from run obtain g m s x1 w1 x2 w2 x3 s3 where
    g: "gift_code_by_id i w = Some g" and
    guards: "gc_is_active g" "\<not> (case gc_starts_at g of None \<Rightarrow> False | Some t \<Rightarrow> now < t)"
    "\<not> (case gc_expires_at g of None \<Rightarrow> False | Some t \<Rightarrow> t \<le> now)"
    "\<not> (case gc_max_redemptions g of None \<Rightarrow> False | Some k \<Rightarrow> k \<le> gc_redeemed_count g)"
    "int (?k g) < gc_per_user_limit g" and
    pay: "coin_apply (redeem_movement u g (?k g + 1)) (base w) = Inr (m, s)" and ap: "cm_applied m"
    and put: "redemption_create (gc_id g) u (int (?k g) + 1) (gc_coins g) (cm_ledger_id m) now (w\<lparr>base := s\<rparr>) = Inr (x1, w1)"
    and cnt: "gift_code_update (gc_id g) (\<lambda>g. g\<lparr>gc_redeemed_count := gc_redeemed_count g + 1\<rparr>) w1 = Inr (x2, w2)"
    and aud: "audit_record A_USER (Some u) GIFT_CODE_SUCCESS_ACTION ''gift_code'' (Some (gc_id g)) None
       (Some (JObj [(''coins'', JInt (gc_coins g)), (''seq'', JInt (int (?k g) + 1))])) (base w2) = Inr (x3, s3)"
    and w': "w' = w2\<lparr>base := s3\<rparr>"
    unfolding redeem_tx_def by (elim tx_readE tx_someE tx_guardE on_dbE tx_bindE tx_returnE) (hypsubst, blast)
  from coin_apply_applied [OF pay ap] obtain l where l: "coin_ledger s = coin_ledger (base w) @ [l]"
    "cl_type l = GIFT_CODE_REDEEM" "cl_user l = u" "cl_amount l = gc_coins g" "cl_id l = cm_ledger_id m" "cl_id l = next_id (base w)" "next_id (base w) < next_id s"
    by (auto simp: redeem_movement_def)
  from put have w1: "w1 = w\<lparr>base := s\<lparr>next_id := Suc (next_id s)\<rparr>, gift_redemptions := gift_redemptions w @
       [\<lparr>gr_id = next_id s, gr_gift_code = gc_id g, gr_user = u, gr_seq = int (?k g) + 1, gr_coins = gc_coins g,
         gr_coin_ledger_id = cl_id l, gr_created_at = now\<rparr>]\<rparr>"
    by (simp add: redemption_create_Inr l(5))
  have gid: "gift_code_by_id (gc_id g) w = Some g" using g gift_code_by_id_Some [OF g] by simp
  then have "gift_code_by_id (gc_id g) w1 = Some g" by (simp add: w1 gift_code_by_id_def)
  with cnt have w2: "w2 = w1\<lparr>gift_codes := update_where (\<lambda>r. gc_id r = gc_id g)
       (\<lambda>_. g\<lparr>gc_redeemed_count := gc_redeemed_count g + 1\<rparr>) (gift_codes w1)\<rparr>"
    and chk: "gift_code_checks (g\<lparr>gc_redeemed_count := gc_redeemed_count g + 1\<rparr>)"
    by (simp_all add: gift_code_update_Inr)
  from aud have s3: "coin_ledger s3 = coin_ledger (base w2)" "next_id s3 = next_id (base w2)"
    by (auto simp: audit_record_def)
  have "redeemable u g now w"
    using guards by (simp add: redeemable_def not_less not_le split: option.splits)
  then show thesis
    by (rule that [OF g, where l = l and rid = "next_id s"]) (use l chk in \<open>simp_all add: w' s3 w2 w1\<close>)
qed

lemma upt_snoc_int: "map int [1..<Suc (Suc n)] = map int [1..<Suc n] @ [int n + 1]"
  by simp

lemma redemptions_of_app:
  "gift_redemptions w' = gift_redemptions w @ [r] \<Longrightarrow>
   redemptions_of g u w' = redemptions_of g u w @ (if gr_gift_code r = g \<and> gr_user r = u then [r] else [])"
  by (simp add: redemptions_of_def)

lemma redeem_tx_wf:
  assumes run: "redeem_tx u i now w = Inr (res, w')" and wf: "gift_wf w"
  shows "gift_wf w'"
proof -
  from redeem_tx_effect [OF run] obtain g l rid where
    g: "gift_code_by_id i w = Some g"
    and led: "coin_ledger (base w') = coin_ledger (base w) @ [l]" "cl_type l = GIFT_CODE_REDEEM" "cl_user l = u" "cl_amount l = gc_coins g"
    and red: "gift_redemptions w' = gift_redemptions w @ [\<lparr>gr_id = rid, gr_gift_code = gc_id g, gr_user = u,
       gr_seq = int (had_before (gc_id g) u w) + 1, gr_coins = gc_coins g, gr_coin_ledger_id = cl_id l, gr_created_at = now\<rparr>]"
    and chk: "gift_code_checks (g\<lparr>gc_redeemed_count := gc_redeemed_count g + 1\<rparr>)"
    and codes: "gift_codes w' = update_where (\<lambda>r. gc_id r = gc_id g) (\<lambda>_. g\<lparr>gc_redeemed_count := gc_redeemed_count g + 1\<rparr>) (gift_codes w)"
    and up: "next_id (base w) \<le> next_id (base w')" "cl_id l < next_id (base w')" .
  note d = gift_wfD [OF wf]
  have mem: "g \<in> set (gift_codes w)" using gift_code_by_id_Some [OF g] by simp
  have uniq: "g' = g" if "g' \<in> set (gift_codes w)" "gc_id g' = gc_id g" for g'
    using d(1) that mem by (metis distinct_key_eq)
  have ids: "map gc_id (gift_codes w') = map gc_id (gift_codes w)" "map gc_code (gift_codes w') = map gc_code (gift_codes w)"
    unfolding codes by (rule update_where_key, auto dest: uniq)+
  then have idset: "gc_id ` set (gift_codes w') = gc_id ` set (gift_codes w)" by (metis list.set_map)
  show ?thesis
    unfolding gift_wf_def
  proof (intro conjI ballI allI)
    show "distinct (map gc_id (gift_codes w'))" "distinct (map gc_code (gift_codes w'))" using d(1,2) ids by simp_all
    fix g' assume g': "g' \<in> set (gift_codes w')"
    show "gc_id g' < next_id (base w')"
    proof -
      have "gc_id g' \<in> gc_id ` set (gift_codes w)" using g' idset by blast
      then obtain g0 where "g0 \<in> set (gift_codes w)" "gc_id g' = gc_id g0" by blast
      with d(3) [of g0] up show ?thesis by simp
    qed
    from g' have cases: "g' = g\<lparr>gc_redeemed_count := gc_redeemed_count g + 1\<rparr> \<or> g' \<in> set (gift_codes w) \<and> gc_id g' \<noteq> gc_id g"
      unfolding codes by (auto simp: set_update_where split: if_splits)
    then show "gift_code_checks g'" using chk d(3) by blast
    show "gc_redeemed_count g' = int (count_where (\<lambda>r. gr_gift_code r = gc_id g') (gift_redemptions w'))"
      using cases d(3) [OF mem] d(3) [of g'] by (auto simp: red)
  next
    fix r assume r: "r \<in> set (gift_redemptions w')"
    then show "gr_gift_code r \<in> gc_id ` set (gift_codes w')"
      unfolding idset red using d(4) mem by auto
    show "gr_coin_ledger_id r < next_id (base w')" using r d(4) up by (fastforce simp: red)
  next
    fix g0 u0
    show "map gr_seq (redemptions_of g0 u0 w') = map int [1..<Suc (length (redemptions_of g0 u0 w'))]"
      using d(5) [of g0 u0] by (simp add: redemptions_of_app [OF red] had_before_length del: upt_Suc) (simp add: upt_snoc_int)
  next
    fix u0
    show "code_coins u0 w' = sum_where (\<lambda>r. gr_user r = u0) gr_coins (gift_redemptions w')"
      using d(6) [of u0] by (simp add: code_coins_def led red)
  qed
qed

lemma issue_wf:
  assumes run: "issue_code c coins limit per st ex ac w = Inr (x, w')" and wf: "gift_wf w"
  shows "gift_wf w'"
proof -
  let ?g = "\<lparr>gc_id = next_id (base w), gc_code = c, gc_coins = coins, gc_max_redemptions = limit, gc_per_user_limit = per,
               gc_redeemed_count = 0, gc_starts_at = st, gc_expires_at = ex, gc_is_active = ac\<rparr>"
  from run have chk: "gift_code_checks ?g" and new: "gift_code_by_code c w = None"
    and w': "w' = w\<lparr>base := (base w)\<lparr>next_id := Suc (next_id (base w))\<rparr>, gift_codes := gift_codes w @ [?g]\<rparr>"
    by (auto simp: issue_code_def tx_simps gift_code_by_code_def Let_def)
  note d = gift_wfD [OF wf]
  have none: "gr_gift_code r \<noteq> next_id (base w)" if r: "r \<in> set (gift_redemptions w)" for r
    using d(4) [OF r] d(3) by fastforce
  have codes: "c \<notin> gc_code ` set (gift_codes w)"
    using new by (auto simp: gift_code_by_code_def find_None_iff)
  have ids: "next_id (base w) \<notin> gc_id ` set (gift_codes w)" using d(3) by fastforce
  show ?thesis
    unfolding gift_wf_def
  proof (intro conjI ballI allI)
    show "distinct (map gc_id (gift_codes w'))" "distinct (map gc_code (gift_codes w'))"
      using d(1,2) ids codes by (simp_all add: w')
    fix g assume g: "g \<in> set (gift_codes w')"
    then consider "g = ?g" | "g \<in> set (gift_codes w)" by (auto simp: w')
    then have "gc_id g < next_id (base w') \<and> gift_code_checks g
       \<and> gc_redeemed_count g = int (count_where (\<lambda>r. gr_gift_code r = gc_id g) (gift_redemptions w'))"
    proof cases
      case 1
      have "count_where (\<lambda>r. gr_gift_code r = next_id (base w)) (gift_redemptions w) = 0"
        using none by (simp add: count_where_zero)
      then show ?thesis using 1 chk by (simp add: w')
    next
      case 2
      then show ?thesis using d(3) [OF 2] by (simp add: w')
    qed
    then show "gc_id g < next_id (base w')" "gift_code_checks g"
      "gc_redeemed_count g = int (count_where (\<lambda>r. gr_gift_code r = gc_id g) (gift_redemptions w'))" by simp_all
  next
    fix r assume "r \<in> set (gift_redemptions w')"
    then show "gr_gift_code r \<in> gc_id ` set (gift_codes w')" "gr_coin_ledger_id r < next_id (base w')"
      using d(4) [of r] by (simp_all add: w')
  next
    fix g u show "map gr_seq (redemptions_of g u w') = map int [1..<Suc (length (redemptions_of g u w'))]"
      using d(5) [of g u] by (simp add: w' redemptions_of_def del: upt_Suc)
  next
    fix u show "code_coins u w' = sum_where (\<lambda>r. gr_user r = u) gr_coins (gift_redemptions w')"
      using d(6) [of u] by (simp add: w' code_coins_def)
  qed
qed

lemma terms_wf:
  assumes run: "gift_code_update i f w = Inr (x, w')" and same: "\<And>g. same_code g (f g)" and wf: "gift_wf w"
  shows "gift_wf w'"
proof -
  from run obtain g where g: "gift_code_by_id i w = Some g" and chk: "gift_code_checks (f g)"
    and w': "w' = w\<lparr>gift_codes := update_where (\<lambda>r. gc_id r = i) (\<lambda>_. f g) (gift_codes w)\<rparr>"
    by (auto simp: gift_code_update_Inr)
  note d = gift_wfD [OF wf]
  have mem: "g \<in> set (gift_codes w)" "gc_id g = i" using gift_code_by_id_Some [OF g] by auto
  have uniq: "g' = g" if "g' \<in> set (gift_codes w)" "gc_id g' = i" for g'
    using d(1) that mem by (metis distinct_key_eq)
  show ?thesis
  proof (rule gift_wf_terms [OF wf])
    show "map gc_id (gift_codes w') = map gc_id (gift_codes w)" "map gc_code (gift_codes w') = map gc_code (gift_codes w)"
      using uniq same [of g] by (auto simp: w' same_code_def intro!: update_where_key)
    fix g' assume "g' \<in> set (gift_codes w')"
    then consider "g' = f g" | "g' \<in> set (gift_codes w)" unfolding w' by (auto simp: set_update_where split: if_splits)
    then show "gift_code_checks g' \<and> (\<exists>g\<in>set (gift_codes w). same_code g g')"
    proof cases
      case 1
      then show ?thesis using chk same mem by blast
    next
      case 2
      then show ?thesis using d(3) [OF 2] by (auto simp: same_code_def)
    qed
  qed (simp_all add: w' code_coins_def)
qed

lemma other_movement_wf:
  assumes run: "coin_apply input (base w) = Inr (m, s)" and ty: "ci_type input \<noteq> GIFT_CODE_REDEEM" and wf: "gift_wf w"
  shows "gift_wf (w\<lparr>base := s\<rparr>)"
proof (rule gift_wf_same [OF wf])
  show "code_coins u (w\<lparr>base := s\<rparr>) = code_coins u w" for u
    using coin_apply_other [OF run] ty by (auto simp: code_coins_def)
  show "next_id (base w) \<le> next_id (base (w\<lparr>base := s\<rparr>))"
    using coin_frame_simps(13) [OF coin_apply_frame [OF run]] by simp
qed simp_all

lemma refused_wf: "act_inv gift_wf (refused u i lab)"
  unfolding refused_def
proof (intro act_inv_rules act_inv_in_tx)
  fix w a w' assume "gift_wf w" "on_db (audit_record A_USER (Some u) GIFT_CODE_FAILURE_ACTION ''gift_code'' i None
       (Some (JObj [(''reason'', JStr lab)]))) w = Inr (a, w')"
  then show "gift_wf w'" by (auto simp: on_db_Inr audit_record_def code_coins_def intro: gift_wf_same)
qed

lemma redeem_wf: "act_inv gift_wf (redeem u c)"
  unfolding redeem_def Let_def
  by (intro act_inv_rules refused_wf act_inv_in_tx)
     (auto simp: act_inv_pure act_inv_bind refused_wf redeem_tx_wf split: error.split)

lemma gift_do_wf: "act_inv gift_wf (gift_do x)"
proof (cases x)
  case (Redeem u c)
  then show ?thesis by (simp add: act_inv_bind act_inv_pure redeem_wf)
next
  case (Issue_Code c coins limit per st ex ac)
  then show ?thesis by (auto intro: act_inv_in_tx issue_wf)
next
  case (Change_Terms i coins limit per st ex ac)
  then show ?thesis by (auto intro!: act_inv_in_tx elim!: terms_wf simp: same_code_def)
next
  case (Other_Movement input)
  then show ?thesis by (auto intro!: act_inv_in_tx simp: tx_simps other_movement_wf)
next
  case (Clock_Ticks n)
  show ?thesis unfolding Clock_Ticks gift_do.simps
    by (rule act_inv_in_tx) (auto simp: tx_simps code_coins_def intro: gift_wf_same)
qed

interpretation gift_calls: calls gift_do gift_wf
  by unfold_locales (rule gift_do_wf)

text \<open>The verdict of the transaction on a code it has found.\<close>

definition redeem_refusal :: "id \<Rightarrow> gift_code_row \<Rightarrow> instant \<Rightarrow> world \<Rightarrow> error_code option" where
  "redeem_refusal u g now w =
     (if \<not> gc_is_active g then Some ''GIFT_CODE_INVALID''
      else if (case gc_starts_at g of None \<Rightarrow> False | Some t \<Rightarrow> now < t) \<or> (case gc_expires_at g of None \<Rightarrow> False | Some t \<Rightarrow> t \<le> now)
        then Some ''GIFT_CODE_EXPIRED''
      else if (case gc_max_redemptions g of None \<Rightarrow> False | Some k \<Rightarrow> k \<le> gc_redeemed_count g) then Some ''GIFT_CODE_EXHAUSTED''
      else if gc_per_user_limit g \<le> int (had_before (gc_id g) u w) then Some ''GIFT_CODE_ALREADY_REDEEMED''
      else None)"

definition refusal_row :: "id \<Rightarrow> id option \<Rightarrow> string \<Rightarrow> instant \<Rightarrow> audit_row" where
  "refusal_row u i lab now = \<lparr>au_actor_type = A_USER, au_actor_id = Some u, au_action = GIFT_CODE_FAILURE_ACTION,
     au_target_type = ''gift_code'', au_target_id = i, au_before = None, au_after = Some (JObj [(''reason'', JStr lab)]),
     au_created_at = now\<rparr>"

abbreviation with_audit :: "audit_row \<Rightarrow> world \<Rightarrow> world" where
  "with_audit row w \<equiv> w\<lparr>base := (base w)\<lparr>audit_log := audit_log (base w) @ [row]\<rparr>\<rparr>"

lemma refused_app: "refused u i lab w = (Inr (), with_audit (refusal_row u i lab (now_of w)) w)"
  by (simp add: refused_def act_catch_def in_tx_def on_db_def audit_record_def refusal_row_def)

lemma redeem_tx_refused:
  assumes "gift_code_by_id i w = Some g" and "redeem_refusal u g now w = Some e"
  shows "redeem_tx u i now w = Inl (app_error e)"
  using assms(2) unfolding redeem_tx_def redeem_refusal_def
  by (auto simp: tx_bind_def assms(1) tx_guard_def split: if_splits)

lemma find_same_row:
  assumes "distinct (map k rows)" and "find (\<lambda>r. q r = x) rows = Some r"
  shows "find (\<lambda>r'. k r' = k r) rows = Some r"
  by (rule find_key_unique [OF assms(1)]) (use find_key_mem [OF assms(2)] in simp)

lemma code_found_by_id: "gift_wf w \<Longrightarrow> gift_code_by_code c w = Some g \<Longrightarrow> gift_code_by_id (gc_id g) w = Some g"
  unfolding gift_code_by_code_def gift_code_by_id_def by (rule find_same_row) (simp_all add: gift_wfD)

lemma redeem_found:
  assumes "getInt ''giftcode.enabled'' (base w) \<noteq> 0" and "gift_code_by_code (exactCode raw) w = Some g"
  shows "redeem u raw w = (case redeem_tx u (gc_id g) (now_of w) w of
      Inr (res, w') \<Rightarrow> (Inr res, w')
    | Inl (AppError code ds) \<Rightarrow> (Inl (AppError code ds), with_audit (refusal_row u (Some (gc_id g)) (reasonLabel code) (now_of w)) w)
    | Inl (DbError m) \<Rightarrow> (Inl (DbError m), w))"
  using assms by (simp add: redeem_def Let_def act_catch_def in_tx_def act_bind_def refused_app split: sum.split error.split prod.split)

lemma seqs_upto:
  assumes "gift_wf w" and "r \<in> set (gift_redemptions w)" "gr_gift_code r = g" "gr_user r = u"
  shows "gr_seq r \<le> int (had_before g u w)"
proof -
  have "gr_seq r \<in> set (map gr_seq (redemptions_of g u w))" using assms(2-4) by (simp add: redemptions_of_def)
  then show ?thesis unfolding gift_wfD(5) [OF assms(1)] had_before_length by auto
qed

lemma redeem_tx_granted:
  assumes wf: "gift_wf w" and g: "gift_code_by_id i w = Some g" and ok: "redeem_refusal u g now w = None"
    and key: "coin_ledger_by_key (giftCodeRedemptionKey (gc_id g) u (had_before (gc_id g) u w + 1)) (base w) = None"
    and range: "int4 (gc_coins g)" "int4 (balance_of (base w) u + gc_coins g)" "0 \<le> balance_of (base w) u"
  obtains w' where "redeem_tx u i now w = Inr (\<lparr>rg_code = gc_code g, rg_coins = gc_coins g,
       rg_balance = balance_of (base w) u + gc_coins g,
       rg_remaining_for_user = gc_per_user_limit g - (int (had_before (gc_id g) u w) + 1)\<rparr>, w')"
    "\<forall>v. balance_of (base w') v = balance_of (base w) v + (if v = u then gc_coins g else 0)"
proof -
  let ?k = "had_before (gc_id g) u w"
  note d = gift_wfD [OF wf]
  have mem: "g \<in> set (gift_codes w)" "gc_id g = i" using gift_code_by_id_Some [OF g] by auto
  have chk: "gift_code_checks g" using d(3) [OF mem(1)] by simp
  let ?in = "redeem_movement u g (?k + 1)"
  have "ci_amount ?in \<noteq> 0" "coin_ledger_by_key (ci_key ?in) (base w) = None" "ci_reverses ?in = None" "ci_type ?in \<noteq> REVERSAL"
    "int4 (ci_amount ?in)" "int4 (balance_of (base w) (ci_user ?in) + ci_amount ?in)" "0 \<le> balance_of (base w) (ci_user ?in) + ci_amount ?in"
    using chk key range by (simp_all add: redeem_movement_def gift_code_checks_def)
  then obtain m s where pay: "coin_apply ?in (base w) = Inr (m, s)" and m: "cm_applied m" "cm_balance m = balance_of (base w) u + gc_coins g"
    and bal: "\<forall>v. balance_of s v = balance_of (base w) v + (if v = u then gc_coins g else 0)"
    by (rule coin_apply_succeeds) (auto simp: redeem_movement_def)
  from coin_apply_applied [OF pay m(1)] have lid: "cm_ledger_id m = next_id (base w)" by metis
  have clash: "\<not> redemption_clash (gc_id g) u (int ?k + 1) (cm_ledger_id m) (w\<lparr>base := s\<rparr>)"
    using seqs_upto [OF wf] d(4) by (fastforce simp: redemption_clash_def lid)
  let ?w1 = "w\<lparr>base := s\<lparr>next_id := Suc (next_id s)\<rparr>, gift_redemptions := gift_redemptions w @
       [\<lparr>gr_id = next_id s, gr_gift_code = gc_id g, gr_user = u, gr_seq = int ?k + 1, gr_coins = gc_coins g,
         gr_coin_ledger_id = cm_ledger_id m, gr_created_at = now\<rparr>]\<rparr>"
  have put: "redemption_create (gc_id g) u (int ?k + 1) (gc_coins g) (cm_ledger_id m) now (w\<lparr>base := s\<rparr>) = Inr ((), ?w1)"
    unfolding redemption_create_Inr using clash chk by (simp add: gift_code_checks_def)
  let ?g = "g\<lparr>gc_redeemed_count := gc_redeemed_count g + 1\<rparr>"
  have gid: "gift_code_by_id (gc_id g) ?w1 = Some g" using g mem(2) by (simp add: gift_code_by_id_def)
  have "gift_code_checks ?g"
    using chk ok by (auto simp: gift_code_checks_def redeem_refusal_def split: option.splits if_splits)
  with gid obtain w2 where cnt: "gift_code_update (gc_id g) (\<lambda>g. g\<lparr>gc_redeemed_count := gc_redeemed_count g + 1\<rparr>) ?w1 = Inr ((), w2)"
    and w2: "base w2 = base ?w1"
    by (simp add: gift_code_update_Inr)
  obtain s3 where aud: "audit_record A_USER (Some u) GIFT_CODE_SUCCESS_ACTION ''gift_code'' (Some (gc_id g)) None
       (Some (JObj [(''coins'', JInt (gc_coins g)), (''seq'', JInt (int ?k + 1))])) (base w2) = Inr ((), s3)"
    and s3: "coin_accounts s3 = coin_accounts s"
    by (simp add: audit_record_def w2)
  have guards: "gc_is_active g" "\<not> (case gc_starts_at g of None \<Rightarrow> False | Some t \<Rightarrow> now < t)"
    "\<not> (case gc_expires_at g of None \<Rightarrow> False | Some t \<Rightarrow> t \<le> now)"
    "\<not> (case gc_max_redemptions g of None \<Rightarrow> False | Some k \<Rightarrow> k \<le> gc_redeemed_count g)" "int ?k < gc_per_user_limit g"
    using ok by (auto simp: redeem_refusal_def not_le split: if_splits)
  have "redeem_tx u i now w = Inr (\<lparr>rg_code = gc_code g, rg_coins = gc_coins g,
       rg_balance = balance_of (base w) u + gc_coins g,
       rg_remaining_for_user = gc_per_user_limit g - (int ?k + 1)\<rparr>, w2\<lparr>base := s3\<rparr>)"
    unfolding redeem_tx_def
    by (simp only: tx_bind_def tx_read_def g tx_some_Some tx_return_def sum.case prod.case guards not_False_eq_True tx_guard_True
        on_db_def pay m put cnt aud)
  moreover have "\<forall>v. balance_of (base (w2\<lparr>base := s3\<rparr>)) v = balance_of (base w) v + (if v = u then gc_coins g else 0)"
    using bal s3 by (simp add: balance_of_def)
  ultimately show thesis by (rule that)
qed

end
