(* ===== verification/Gift_Code_Properties.thy ===== *)
theory Gift_Code_Properties
  imports Gift_Code Samples
begin

text \<open>
  The claims about gift codes: caps, numbering and coins over any run, and the outcome of a
  redemption on every branch.
\<close>

text \<open>C31. Gift codes never give more than they promise. Whatever redemptions, new codes, changed
  terms, other movements and time come in between, a code's counter is the number of its
  redemptions and within its cap; the redemptions one person has of one code are numbered one
  to their count without a gap or a repeat; and the coins codes have put in a person's ledger are
  exactly the coins of that person's redemptions.\<close>

theorem gift_codes_within_their_terms:
  assumes "gift_wf w" and "w' = run_acts gift_do ops w"
  shows "(\<forall>g\<in>set (gift_codes w').
        gc_redeemed_count g = int (length (filter (\<lambda>r. gr_gift_code r = gc_id g) (gift_redemptions w')))
        \<and> (\<forall>limit. gc_max_redemptions g = Some limit \<longrightarrow> gc_redeemed_count g \<le> limit))
     \<and> map gr_seq (filter (\<lambda>r. gr_gift_code r = i \<and> gr_user r = u) (gift_redemptions w'))
         = map int [1..<Suc (length (filter (\<lambda>r. gr_gift_code r = i \<and> gr_user r = u) (gift_redemptions w')))]
     \<and> sum_list (map cl_amount (filter (\<lambda>l. cl_type l = GIFT_CODE_REDEEM \<and> cl_user l = u) (coin_ledger (base w'))))
         = sum_list (map gr_coins (filter (\<lambda>r. gr_user r = u) (gift_redemptions w')))"
proof -
  have wf: "gift_wf w'" unfolding assms(2) by (rule gift_calls.run_inv [OF assms(1)])
  note d = gift_wfD [OF wf]
  have "gc_redeemed_count g = int (length (filter (\<lambda>r. gr_gift_code r = gc_id g) (gift_redemptions w')))
        \<and> (\<forall>limit. gc_max_redemptions g = Some limit \<longrightarrow> gc_redeemed_count g \<le> limit)" if "g \<in> set (gift_codes w')" for g
    using d(3) [OF that] by (auto simp: gift_code_checks_def count_where_def)
  moreover note d(5) [of i u, unfolded redemptions_of_def] d(6) [of u, unfolded code_coins_def sum_where_def]
  ultimately show ?thesis by blast
qed

definition nowruz :: gift_code_row where
  "nowruz = \<lparr>gc_id = 30, gc_code = [110, 49], gc_coins = 25, gc_max_redemptions = Some 2, gc_per_user_limit = 1,
     gc_redeemed_count = 0, gc_starts_at = None, gc_expires_at = Some 5000, gc_is_active = True\<rparr>"

definition gift_shop :: world where
  "gift_shop = empty_world\<lparr>base := quiet_desk, gift_codes := [nowruz]\<rparr>"

lemma gift_shop_wf: "gift_wf gift_shop"
  by (simp add: gift_wf_def gift_shop_def nowruz_def empty_world_def gift_code_checks_def redemptions_of_def code_coins_def
      sum_where_def count_where_def)

definition two_tries :: world where
  "two_tries = run_acts gift_do [Redeem 7 [32, 110, 49], Redeem 7 [110, 49], Clock_Ticks 9] gift_shop"

lemma gift_codes_within_their_terms_witness:
  "map gr_seq (filter (\<lambda>r. gr_gift_code r = 30 \<and> gr_user r = 7) (gift_redemptions two_tries))
     = map int [1..<Suc (length (filter (\<lambda>r. gr_gift_code r = 30 \<and> gr_user r = 7) (gift_redemptions two_tries)))]
   \<and> sum_list (map cl_amount (filter (\<lambda>l. cl_type l = GIFT_CODE_REDEEM \<and> cl_user l = 7) (coin_ledger (base two_tries))))
     = sum_list (map gr_coins (filter (\<lambda>r. gr_user r = 7) (gift_redemptions two_tries)))"
  using gift_codes_within_their_terms [OF gift_shop_wf two_tries_def, of 30 7] by blast

text \<open>C32. What redeeming a code does, on every branch. An unknown code, one that is switched off, outside its
  window, used up, or already had as often as one person may, is refused with the code that
  says which, in that order, and leaves behind one audit row naming the reason and nothing
  else; a code that is none of these is granted: its coins arrive, once, in that person's
  balance and nobody else's, and the answer carries the new balance and what is left.\<close>

theorem redeeming_a_code:
  assumes wf: "gift_wf w" and on: "getInt ''giftcode.enabled'' (base w) \<noteq> 0"
  shows "(gift_code_by_code (exactCode raw) w = None \<longrightarrow>
        redeem u raw w = (Inl (app_error ''GIFT_CODE_INVALID''), with_audit (refusal_row u None ''invalid'' (now_of w)) w))
     \<and> (\<forall>g code. gift_code_by_code (exactCode raw) w = Some g \<and> redeem_refusal u g (now_of w) w = Some code \<longrightarrow>
        redeem u raw w = (Inl (app_error code), with_audit (refusal_row u (Some (gc_id g)) (reasonLabel code) (now_of w)) w))
     \<and> (\<forall>g. gift_code_by_code (exactCode raw) w = Some g \<and> redeem_refusal u g (now_of w) w = None
          \<and> coin_ledger_by_key (giftCodeRedemptionKey (gc_id g) u (had_before (gc_id g) u w + 1)) (base w) = None
          \<and> int4 (gc_coins g) \<and> int4 (balance_of (base w) u + gc_coins g) \<and> 0 \<le> balance_of (base w) u \<longrightarrow>
        (\<exists>res w'. redeem u raw w = (Inr res, w') \<and> rg_coins res = gc_coins g \<and> rg_balance res = balance_of (base w') u
            \<and> rg_remaining_for_user res = gc_per_user_limit g - int (had_before (gc_id g) u w') \<and> 0 \<le> rg_remaining_for_user res
            \<and> (\<forall>v. balance_of (base w') v = balance_of (base w) v + (if v = u then gc_coins g else 0))
            \<and> had_before (gc_id g) u w' = had_before (gc_id g) u w + 1))"
proof (intro conjI allI impI; (elim conjE)?)
  assume "gift_code_by_code (exactCode raw) w = None"
  then show "redeem u raw w = (Inl (app_error ''GIFT_CODE_INVALID''), with_audit (refusal_row u None ''invalid'' (now_of w)) w)"
    using on by (simp add: redeem_def Let_def act_bind_def refused_app)
next
  fix g code assume g: "gift_code_by_code (exactCode raw) w = Some g" and r: "redeem_refusal u g (now_of w) w = Some code"
  show "redeem u raw w = (Inl (app_error code), with_audit (refusal_row u (Some (gc_id g)) (reasonLabel code) (now_of w)) w)"
    using redeem_found [OF on g] redeem_tx_refused [OF code_found_by_id [OF wf g] r] by simp
next
  fix g assume g: "gift_code_by_code (exactCode raw) w = Some g" and r: "redeem_refusal u g (now_of w) w = None"
    and h: "coin_ledger_by_key (giftCodeRedemptionKey (gc_id g) u (had_before (gc_id g) u w + 1)) (base w) = None"
      "int4 (gc_coins g)" "int4 (balance_of (base w) u + gc_coins g)" "0 \<le> balance_of (base w) u"
  have byid: "gift_code_by_id (gc_id g) w = Some g" by (rule code_found_by_id [OF wf g])
  let ?res = "\<lparr>rg_code = gc_code g, rg_coins = gc_coins g, rg_balance = balance_of (base w) u + gc_coins g,
       rg_remaining_for_user = gc_per_user_limit g - (int (had_before (gc_id g) u w) + 1)\<rparr>"
  obtain w' where tx: "redeem_tx u (gc_id g) (now_of w) w = Inr (?res, w')"
    and bal: "\<forall>v. balance_of (base w') v = balance_of (base w) v + (if v = u then gc_coins g else 0)"
    by (rule redeem_tx_granted [OF wf byid r h])
  have run: "redeem u raw w = (Inr ?res, w')" using redeem_found [OF on g] tx by simp
  from tx obtain g' lid rid where g': "gift_code_by_id (gc_id g) w = Some g'" and
    red: "gift_redemptions w' = gift_redemptions w @ [\<lparr>gr_id = rid, gr_gift_code = gc_id g', gr_user = u,
       gr_seq = int (had_before (gc_id g') u w) + 1, gr_coins = gc_coins g', gr_coin_ledger_id = lid, gr_created_at = now_of w\<rparr>]"
    by (rule redeem_tx_effect) blast
  have "g' = g" using g' byid by simp
  then have had: "had_before (gc_id g) u w' = had_before (gc_id g) u w + 1" by (simp add: had_before_def red)
  have below: "int (had_before (gc_id g) u w) < gc_per_user_limit g" using r by (auto simp: redeem_refusal_def split: if_splits)
  have new: "balance_of (base w') u = balance_of (base w) u + gc_coins g" using bal by simp
  show "\<exists>res w'. redeem u raw w = (Inr res, w') \<and> rg_coins res = gc_coins g \<and> rg_balance res = balance_of (base w') u
            \<and> rg_remaining_for_user res = gc_per_user_limit g - int (had_before (gc_id g) u w') \<and> 0 \<le> rg_remaining_for_user res
            \<and> (\<forall>v. balance_of (base w') v = balance_of (base w) v + (if v = u then gc_coins g else 0))
            \<and> had_before (gc_id g) u w' = had_before (gc_id g) u w + 1"
    by (intro exI [of _ ?res] exI [of _ w'] conjI run had bal) (use below in \<open>simp_all add: new had\<close>)
qed

lemma redeeming_a_code_witness:
  "\<exists>res w'. redeem 7 [32, 110, 49] gift_shop = (Inr res, w') \<and> rg_coins res = 25 \<and> rg_balance res = 25
     \<and> rg_remaining_for_user res = 0"
proof -
  have "exactCode [32, 110, 49] = [110, 49]" by (simp add: exactCode_def trim_text_def white_def)
  then have found: "gift_code_by_code (exactCode [32, 110, 49]) gift_shop = Some nowruz"
    by (simp add: gift_code_by_code_def gift_shop_def nowruz_def)
  have base: "base gift_shop = quiet_desk" by (simp add: gift_shop_def)
  have code: "gc_id nowruz = 30" "gc_coins nowruz = 25" "gc_per_user_limit nowruz = 1" by (simp_all add: nowruz_def)
  have had: "had_before 30 7 gift_shop = 0" by (simp add: had_before_def gift_shop_def empty_world_def)
  have ok: "redeem_refusal 7 nowruz (now_of gift_shop) gift_shop = None"
    by (simp add: redeem_refusal_def base had code) (simp add: nowruz_def)
  have on: "getInt ''giftcode.enabled'' (base gift_shop) \<noteq> 0"
    by (simp add: base getInt_def setting_read_def setting_default_def SETTING_DEFAULTS_def)
  have bal: "balance_of quiet_desk 7 = 0" by (simp add: balance_of_def)
  have "coin_ledger_by_key k (base gift_shop) = None" for k by (simp add: base coin_ledger_by_key_def)
  with redeeming_a_code [OF gift_shop_wf on, of "[32, 110, 49]" 7] found ok
  obtain res w' where r: "redeem 7 [32, 110, 49] gift_shop = (Inr res, w')" "rg_coins res = gc_coins nowruz"
    "rg_balance res = balance_of (base w') 7" "rg_remaining_for_user res = gc_per_user_limit nowruz - int (had_before (gc_id nowruz) 7 w')"
    "balance_of (base w') 7 = balance_of (base gift_shop) 7 + gc_coins nowruz"
    "had_before (gc_id nowruz) 7 w' = had_before (gc_id nowruz) 7 gift_shop + 1"
    by (auto simp: int4_def base bal code)
  then show ?thesis using bal had code base by auto
qed

end
