(* ===== verification/Referral.thy ===== *)
theory Referral
  imports World
begin

text \<open>
  Referrals (\<^verbatim>\<open>packages/domain/src/economy/referral.service.ts\<close>): the invite code of an account,
  the claim that somebody was invited, and the payment once the invited person has attended an
  event. \<^verbatim>\<open>String.prototype.toUpperCase\<close> is the runtime's and a parameter; so are the numbers
  \<^verbatim>\<open>randomInt\<close> draws, one list of indices per attempt.
\<close>

section \<open>Codes\<close>

definition CODE_ALPHABET :: utext where
  "CODE_ALPHABET = map of_char ''ABCDEFGHJKMNPQRSTUVWXYZ23456789''"

definition CODE_LENGTH :: nat where "CODE_LENGTH = 8"
definition CODE_ATTEMPTS :: nat where "CODE_ATTEMPTS = 5"

definition REFERRAL_REFERRER_REASON :: string where "REFERRAL_REFERRER_REASON = ''referral.referrer_reward''"
definition REFERRAL_REFERRED_REASON :: string where "REFERRAL_REFERRED_REASON = ''referral.referred_reward''"

definition referrerRewardKey :: "id \<Rightarrow> string" where
  "referrerRewardKey referralId = ''referral-referrer:'' @ show_id referralId"

definition referredRewardKey :: "id \<Rightarrow> string" where
  "referredRewardKey referralId = ''referral-referred:'' @ show_id referralId"

definition normalizeCode :: "(utext \<Rightarrow> utext) \<Rightarrow> utext \<Rightarrow> utext" where
  "normalizeCode upper raw = filter (\<lambda>c. \<not> (white c \<or> c = 45)) (upper (trim_text raw))"

definition code_shape :: "utext \<Rightarrow> bool" where
  "code_shape c \<longleftrightarrow> length c = CODE_LENGTH \<and> list_all (List.member CODE_ALPHABET) c"

definition isReferralCodeShape :: "(utext \<Rightarrow> utext) \<Rightarrow> utext \<Rightarrow> bool" where
  "isReferralCodeShape upper raw \<longleftrightarrow> code_shape (normalizeCode upper raw)"

definition generateCode :: "nat list \<Rightarrow> utext" where
  "generateCode draws = map (\<lambda>i. CODE_ALPHABET ! i) draws"

section \<open>The tables\<close>

definition referral_of :: "id \<Rightarrow> world \<Rightarrow> referral_row option" where
  "referral_of referred w = find (\<lambda>r. rf_referred r = referred) (referrals w)"

definition referral_checks :: "referral_row \<Rightarrow> bool" where
  "referral_checks r \<longleftrightarrow> rf_referrer r \<noteq> rf_referred r \<and> (rf_status r = RF_QUALIFIED) = (rf_qualified_at r \<noteq> None)
     \<and> (rf_reward_ledger_id r = None \<or> rf_status r = RF_QUALIFIED)"

text \<open>\<^verbatim>\<open>referral.create\<close>; the code catches only the UNIQUE violation.\<close>

definition referral_create :: "(id \<Rightarrow> referral_row) \<Rightarrow> (error, world, id) tx" where
  "referral_create mk =
     tx_bind fresh (\<lambda>i.
     tx_bind (tx_guard (referral_checks (mk i)) (DbError ''referral constraint'')) (\<lambda>_.
     tx_bind (tx_read (referral_of (rf_referred (mk i)))) (\<lambda>clash.
     tx_bind (tx_guard (clash = None) (app_error ''ALREADY_REFERRED'')) (\<lambda>_.
     tx_bind (tx_modify (\<lambda>w. w\<lparr>referrals := referrals w @ [mk i]\<rparr>)) (\<lambda>_.
     tx_return i)))))"

text \<open>\<^verbatim>\<open>referral.updateMany\<close> where the row has the identifier and the predicate holds; its \<open>count\<close>.\<close>

definition referral_update_many :: "id \<Rightarrow> (referral_row \<Rightarrow> bool) \<Rightarrow> (referral_row \<Rightarrow> referral_row) \<Rightarrow> (error, world, nat) tx" where
  "referral_update_many i p f =
     tx_bind (tx_read (\<lambda>w. filter (\<lambda>r. rf_id r = i \<and> p r) (referrals w))) (\<lambda>hit.
     tx_bind (tx_guard (list_all (\<lambda>r. referral_checks (f r)) hit) (DbError ''referral constraint'')) (\<lambda>_.
     tx_bind (tx_modify (\<lambda>w. w\<lparr>referrals := update_where (\<lambda>r. rf_id r = i \<and> p r) f (referrals w)\<rparr>)) (\<lambda>_.
     tx_return (length hit))))"

section \<open>The service\<close>

record referral_policy =
  rp_referrer_coins :: rat
  rp_referred_coins :: rat
  rp_reward_cap :: rat
  rp_cap_days :: rat

definition referral_policy_of :: "db \<Rightarrow> referral_policy" where
  "referral_policy_of s = \<lparr>rp_referrer_coins = getNumber ''economy.referral_referrer_coins'' s,
     rp_referred_coins = getNumber ''economy.referral_referred_coins'' s,
     rp_reward_cap = getNumber ''economy.referral_reward_cap'' s, rp_cap_days = getNumber ''economy.earning_cap_days'' s\<rparr>"

definition referrerRewardFor :: "id \<Rightarrow> referral_policy \<Rightarrow> instant \<Rightarrow> db \<Rightarrow> rat" where
  "referrerRewardFor referrer policy now s =
     (if rp_referrer_coins policy \<le> 0 then 0
      else if rp_reward_cap policy \<le> 0 \<or> rp_cap_days policy \<le> 0 then rp_referrer_coins policy
      else
        (let since = js_date (of_int now - rp_cap_days policy * 24 * 3600000);
             paid = earnedSince referrer since [REFERRAL_REWARD] (Some REFERRAL_REFERRER_REASON) s
         in if rp_reward_cap policy \<le> of_nat (snd paid) then 0 else rp_referrer_coins policy))"

definition referral_movement :: "id \<Rightarrow> string \<Rightarrow> string \<Rightarrow> id \<Rightarrow> int \<Rightarrow> coin_input" where
  "referral_movement userId reason key referralId amount =
     \<lparr>ci_user = userId, ci_amount = amount, ci_type = REFERRAL_REWARD, ci_reason = reason, ci_key = key,
      ci_actor_type = A_SYSTEM, ci_actor_id = None, ci_ref_type = Some ''referral'', ci_ref_id = Some referralId,
      ci_metadata = None, ci_reverses = None\<rparr>"

definition pay_referral :: "rat \<Rightarrow> (int \<Rightarrow> coin_input) \<Rightarrow> (error, db, id option) tx" where
  "pay_referral coins mk =
     (if 0 < coins then tx_bind (coin_apply_number coins mk) (\<lambda>m. tx_return (Some (cm_ledger_id m))) else tx_return None)"

definition qualified_emit :: "id \<Rightarrow> id \<Rightarrow> id \<Rightarrow> rat \<Rightarrow> rat \<Rightarrow> (error, db, unit) tx" where
  "qualified_emit referralId referrer userId referrerCoins referredCoins =
     tx_bind (publicIdOf referrer) (\<lambda>referrerPub.
     tx_bind (publicIdOf userId) (\<lambda>referredPub.
     outbox_emit ''referral'' referralId ''referral.qualified''
       [(''referrerUserPublicId'', JId referrerPub), (''referredUserPublicId'', JId referredPub),
        (''referrerCoins'', JNum referrerCoins), (''referredCoins'', JNum referredCoins)]))"

text \<open>What follows once the row is this call's to settle.\<close>

definition qualify_pay :: "id \<Rightarrow> id \<Rightarrow> id \<Rightarrow> referral_policy \<Rightarrow> instant \<Rightarrow> (error, world, bool) tx" where
  "qualify_pay referralId referrer userId policy now =
     tx_bind (tx_read (\<lambda>w. referrerRewardFor referrer policy now (base w))) (\<lambda>referrerCoins.
     tx_bind (on_db (pay_referral referrerCoins
       (referral_movement referrer REFERRAL_REFERRER_REASON (referrerRewardKey referralId) referralId))) (\<lambda>referrerReward.
     tx_bind (on_db (pay_referral (rp_referred_coins policy)
       (referral_movement userId REFERRAL_REFERRED_REASON (referredRewardKey referralId) referralId))) (\<lambda>_.
     tx_bind (case referrerReward of
         None \<Rightarrow> tx_return 0
       | Some l \<Rightarrow> referral_update_many referralId (\<lambda>_. True) (\<lambda>r. r\<lparr>rf_reward_ledger_id := Some l\<rparr>)) (\<lambda>_.
     tx_bind (on_db (audit_record A_SYSTEM None ''referral.qualified'' ''referral'' (Some referralId)
       (Some (JObj [(''status'', JStr ''PENDING'')]))
       (Some (JObj [(''status'', JStr ''QUALIFIED''), (''referrerCoins'', JNum referrerCoins),
                    (''referredCoins'', JNum (rp_referred_coins policy))])))) (\<lambda>_.
     tx_bind (on_db (qualified_emit referralId referrer userId referrerCoins (rp_referred_coins policy))) (\<lambda>_.
     tx_return True))))))"

definition qualify_tx :: "id \<Rightarrow> id \<Rightarrow> id \<Rightarrow> referral_policy \<Rightarrow> instant \<Rightarrow> (error, world, bool) tx" where
  "qualify_tx referralId referrer userId policy now =
     tx_bind (referral_update_many referralId (\<lambda>r. rf_status r = RF_PENDING)
       (\<lambda>r. r\<lparr>rf_status := RF_QUALIFIED, rf_qualified_at := Some now\<rparr>)) (\<lambda>claimed.
     if claimed = 0 then tx_return False else qualify_pay referralId referrer userId policy now)"

definition has_attended :: "id \<Rightarrow> db \<Rightarrow> bool" where
  "has_attended userId s \<longleftrightarrow> (\<exists>r\<in>set (participants s). pt_user r = userId \<and> pt_status r = P_COMPLETED)"

definition qualifyForAttendance :: "id \<Rightarrow> (error, world, bool) act" where
  "qualifyForAttendance userId =
     act_bind (act_read now_of) (\<lambda>now.
     act_bind (act_read (referral_of userId)) (\<lambda>referral.
     case referral of
       None \<Rightarrow> act_return False
     | Some r \<Rightarrow>
         if rf_status r \<noteq> RF_PENDING then act_return False
         else
           act_bind (act_read (\<lambda>w. has_attended userId (base w))) (\<lambda>attended.
           if \<not> attended then act_return False
           else act_bind (act_read (\<lambda>w. referral_policy_of (base w))) (\<lambda>policy.
             in_tx (qualify_tx (rf_id r) (rf_referrer r) userId policy now)))))"

definition velocitySignals :: "id \<Rightarrow> instant \<Rightarrow> world \<Rightarrow> jval option" where
  "velocitySignals referrer now w =
     (let windowHours = getInt ''referral.velocity_window_hours'' (base w);
          threshold = getInt ''referral.velocity_threshold'' (base w);
          since = now - windowHours * 3600000;
          recent = count_where (\<lambda>r. rf_referrer r = referrer \<and> since \<le> rf_created_at r) (referrals w)
      in if int recent < threshold then None
         else Some (JObj [(''reason'', JStr ''velocity''), (''recentReferrals'', JInt (int recent)),
                (''windowHours'', JInt windowHours), (''threshold'', JInt threshold)]))"

record referral_claim =
  rm_status :: referral_status
  rm_pending_coins :: int

text \<open>The account a code belongs to, with its status.\<close>

definition owner_of_code :: "utext \<Rightarrow> world \<Rightarrow> (id \<times> user_status) option" where
  "owner_of_code code w =
     (case find (\<lambda>(u, c). c = code) (referral_codes w) of
        None \<Rightarrow> None
      | Some (u, _) \<Rightarrow> map_option (\<lambda>r. (u, us_status r)) (users (base w) u))"

definition assertClaimWindow :: "id \<Rightarrow> instant \<Rightarrow> (error, world, unit) act" where
  "assertClaimWindow userId now =
     act_bind (act_read (\<lambda>w. getInt ''referral.claim_window_hours'' (base w))) (\<lambda>windowHours.
     if windowHours \<le> 0 then act_return ()
     else act_bind (act_read (\<lambda>w. map_of (user_created_at w) userId)) (\<lambda>createdAt.
       case createdAt of
         None \<Rightarrow> act_throw (app_error ''NOT_FOUND'')
       | Some t \<Rightarrow> if t + windowHours * 3600000 < now then act_throw (app_error ''REFERRAL_WINDOW_CLOSED'') else act_return ()))"

definition claim :: "(utext \<Rightarrow> utext) \<Rightarrow> id \<Rightarrow> utext \<Rightarrow> (error, world, referral_claim) act" where
  "claim upper userId rawCode =
     act_bind (act_read now_of) (\<lambda>now.
     (let code = normalizeCode upper rawCode
      in act_bind (assertClaimWindow userId now) (\<lambda>_.
         act_bind (act_read (owner_of_code code)) (\<lambda>referrer.
         case referrer of
           None \<Rightarrow> act_throw (app_error ''INVALID_REFERRAL_CODE'')
         | Some (referrerId, status) \<Rightarrow>
             if status = U_BANNED then act_throw (app_error ''INVALID_REFERRAL_CODE'')
             else if referrerId = userId then act_throw (app_error ''SELF_REFERRAL'')
             else
               act_bind (act_read (velocitySignals referrerId now)) (\<lambda>fraudSignals.
               act_bind (in_tx (referral_create (\<lambda>i.
                 \<lparr>rf_id = i, rf_referrer = referrerId, rf_referred = userId, rf_code = code, rf_status = RF_PENDING,
                  rf_qualified_at = None, rf_reward_ledger_id = None, rf_fraud_signals = fraudSignals, rf_created_at = now\<rparr>))) (\<lambda>referralId.
               act_bind (in_tx (on_db (audit_record A_USER (Some userId) ''referral.claimed'' ''referral'' (Some referralId) None
                 (Some (JObj [(''status'', JStr ''PENDING''), (''flagged'', JBool (fraudSignals \<noteq> None))]))))) (\<lambda>_.
               act_bind (qualifyForAttendance userId) (\<lambda>settled.
               if settled then act_return \<lparr>rm_status = RF_QUALIFIED, rm_pending_coins = 0\<rparr>
               else act_bind (act_read (\<lambda>w. getInt ''economy.referral_referred_coins'' (base w))) (\<lambda>coins.
                 act_return \<lparr>rm_status = RF_PENDING, rm_pending_coins = coins\<rparr>))))))))) "

text \<open>A new code is drawn until it is nobody else's, five times at most.\<close>

definition set_referral_code :: "id \<Rightarrow> utext \<Rightarrow> (error, world, unit) tx" where
  "set_referral_code userId code =
     tx_bind (tx_read (\<lambda>w. users (base w) userId)) (\<lambda>u.
     tx_bind (tx_some u (DbError ''user not found'')) (\<lambda>_.
     tx_bind (tx_read (\<lambda>w. find (\<lambda>(v, c). v \<noteq> userId \<and> c = code) (referral_codes w))) (\<lambda>clash.
     tx_bind (tx_guard (clash = None) (DbError ''unique: user.referral_code'')) (\<lambda>_.
     tx_modify (\<lambda>w. w\<lparr>referral_codes := AList.update userId code (referral_codes w)\<rparr>)))))"

fun code_attempts :: "nat \<Rightarrow> id \<Rightarrow> (nat \<Rightarrow> nat list) \<Rightarrow> nat \<Rightarrow> (error, world, utext) act" where
  "code_attempts 0 userId draws attempt = act_throw (app_error ''INTERNAL_ERROR'')"
| "code_attempts (Suc left) userId draws attempt =
     (let code = generateCode (draws attempt)
      in act_catch (act_bind (in_tx (set_referral_code userId code)) (\<lambda>_. act_return code))
           (\<lambda>e. if e = DbError ''unique: user.referral_code'' then code_attempts left userId draws (attempt + 1)
                else act_throw e))"

definition codeFor :: "id \<Rightarrow> (nat \<Rightarrow> nat list) \<Rightarrow> (error, world, utext) act" where
  "codeFor userId draws =
     act_bind (act_read (\<lambda>w. map_of (referral_codes w) userId)) (\<lambda>existing.
     case existing of
       None \<Rightarrow> code_attempts CODE_ATTEMPTS userId draws 0
     | Some c \<Rightarrow> if c = [] then code_attempts CODE_ATTEMPTS userId draws 0 else act_return c)"

record referral_summary =
  rs_code :: utext
  rs_invited :: nat
  rs_qualified :: nat
  rs_coins_earned :: int
  rs_referred_by :: "(referral_status \<times> bool) option"

definition summaryFor :: "id \<Rightarrow> (nat \<Rightarrow> nat list) \<Rightarrow> (error, world, referral_summary) act" where
  "summaryFor userId draws =
     act_bind (codeFor userId draws) (\<lambda>code.
     act_read (\<lambda>w.
       \<lparr>rs_code = code, rs_invited = count_where (\<lambda>r. rf_referrer r = userId) (referrals w),
        rs_qualified = count_where (\<lambda>r. rf_referrer r = userId \<and> rf_status r = RF_QUALIFIED) (referrals w),
        rs_coins_earned = sum_where (\<lambda>l. cl_user l = userId \<and> cl_type l = REFERRAL_REWARD) cl_amount (coin_ledger (base w)),
        rs_referred_by = map_option (\<lambda>r. (rf_status r, rf_status r = RF_QUALIFIED)) (referral_of userId w)\<rparr>))"

section \<open>What a referral pays\<close>

definition reward_rows :: "db \<Rightarrow> coin_ledger_row list" where
  "reward_rows s = filter (\<lambda>l. cl_type l = REFERRAL_REWARD) (coin_ledger s)"

text \<open>A payment that belongs to a referral: it names it, and it is one of the two it owes.\<close>

definition pays :: "referral_row \<Rightarrow> coin_ledger_row \<Rightarrow> bool" where
  "pays r l \<longleftrightarrow> cl_ref_id l = Some (rf_id r)
     \<and> (cl_reason l = REFERRAL_REFERRER_REASON \<and> cl_user l = rf_referrer r \<and> cl_key l = referrerRewardKey (rf_id r)
        \<or> cl_reason l = REFERRAL_REFERRED_REASON \<and> cl_user l = rf_referred r \<and> cl_key l = referredRewardKey (rf_id r))"

text \<open>The rewards one person had for inviting since a moment, among some rows.\<close>

definition invited_since :: "id \<Rightarrow> instant \<Rightarrow> coin_ledger_row list \<Rightarrow> nat" where
  "invited_since u t rows = count_where (\<lambda>l. cl_user l = u \<and> cl_reason l = REFERRAL_REFERRER_REASON \<and> t \<le> cl_created_at l) rows"

definition reward_since :: "referral_policy \<Rightarrow> instant \<Rightarrow> instant" where
  "reward_since p now = js_date (of_int now - rp_cap_days p * 24 * 3600000)"

text \<open>Every reward for inviting came when fewer than the cap had been paid in its window.\<close>

definition capped :: "referral_policy \<Rightarrow> coin_ledger_row list \<Rightarrow> bool" where
  "capped p rows \<longleftrightarrow> 0 < rp_reward_cap p \<and> 0 < rp_cap_days p \<longrightarrow>
     (\<forall>earlier l later. rows = earlier @ l # later \<and> cl_reason l = REFERRAL_REFERRER_REASON \<longrightarrow>
        of_nat (invited_since (cl_user l) (reward_since p (cl_created_at l)) earlier) < rp_reward_cap p)"

definition referral_wf :: "referral_policy \<Rightarrow> world \<Rightarrow> bool" where
  "referral_wf p w \<longleftrightarrow> referral_policy_of (base w) = p
     \<and> distinct (map rf_id (referrals w)) \<and> distinct (map rf_referred (referrals w))
     \<and> (\<forall>r\<in>set (referrals w). rf_id r < next_id (base w) \<and> referral_checks r
          \<and> (rf_status r = RF_QUALIFIED \<longrightarrow> has_attended (rf_referred r) (base w)))
     \<and> (\<forall>l\<in>set (reward_rows (base w)). \<exists>r\<in>set (referrals w). rf_status r = RF_QUALIFIED \<and> pays r l)
     \<and> distinct (map cl_key (reward_rows (base w)))
     \<and> capped p (reward_rows (base w))"

lemma referral_wfD:
  assumes "referral_wf p w"
  shows "referral_policy_of (base w) = p" "distinct (map rf_id (referrals w))" "distinct (map rf_referred (referrals w))"
    "r \<in> set (referrals w) \<Longrightarrow> rf_id r < next_id (base w) \<and> referral_checks r
       \<and> (rf_status r = RF_QUALIFIED \<longrightarrow> has_attended (rf_referred r) (base w))"
    "l \<in> set (reward_rows (base w)) \<Longrightarrow> \<exists>r\<in>set (referrals w). rf_status r = RF_QUALIFIED \<and> pays r l"
    "distinct (map cl_key (reward_rows (base w)))" "capped p (reward_rows (base w))"
  using assms by (simp_all add: referral_wf_def)

lemma capped_append:
  assumes "capped p rows"
    and "0 < rp_reward_cap p \<Longrightarrow> 0 < rp_cap_days p \<Longrightarrow> cl_reason x = REFERRAL_REFERRER_REASON \<Longrightarrow>
      of_nat (invited_since (cl_user x) (reward_since p (cl_created_at x)) rows) < rp_reward_cap p"
  shows "capped p (rows @ [x])"
  using assms unfolding capped_def append_split_iff by blast

section \<open>What leaves referrals and their payments alone\<close>

text \<open>
  \<open>quiet z\<close>: no reward for an invitation is paid, and where \<open>z\<close>, no trust for attending either.
\<close>

definition attendance_rows :: "db \<Rightarrow> trust_ledger_row list" where
  "attendance_rows s = filter (\<lambda>l. tl_type l = T_ATTENDANCE) (trust_ledger s)"

definition quiet :: "bool \<Rightarrow> db \<Rightarrow> db \<Rightarrow> bool" where
  "quiet z s s' \<longleftrightarrow> reward_rows s' = reward_rows s \<and> settings s' = settings s \<and> next_id s \<le> next_id s'
     \<and> app_timezone s' = app_timezone s \<and> (z \<longrightarrow> attendance_rows s' = attendance_rows s)"

lemma quiet_reflp: "reflp (quiet z)" and quiet_transp: "transp (quiet z)"
  by (auto simp: quiet_def reflp_def intro: transpI)

lemma quiet_mono: "quiet True s s' \<Longrightarrow> quiet z s s'"
  by (simp add: quiet_def)

lemma quiet_same:
  "coin_ledger s' = coin_ledger s \<Longrightarrow> trust_ledger s' = trust_ledger s \<Longrightarrow> settings s' = settings s \<Longrightarrow>
   next_id s \<le> next_id s' \<Longrightarrow> app_timezone s' = app_timezone s \<Longrightarrow> quiet z s s'"
  by (simp add: quiet_def reward_rows_def attendance_rows_def)

lemma trust_apply_attendance:
  assumes run: "trust_apply input s = Inr (m, s')"
  obtains "attendance_rows s' = attendance_rows s"
  | b where "attendance_rows s' = attendance_rows s @ [trust_row input b (clock s) (next_id (seeded (ti_user input) s))]"
      "ti_type input = T_ATTENDANCE" "0 \<le> b" "b \<le> 100"
proof -
  have same: "attendance_rows (seeded u s) = attendance_rows s" and now: "clock (seeded u s) = clock s" for u
    by (simp_all add: seeded_def Let_def trust_written_def attendance_rows_def)
  from run show ?thesis
  proof (cases rule: trust_apply_Inr)
    case (replay e)
    then show ?thesis using same that(1) by simp
  next
    case (appended b)
    let ?l = "trust_row input b (clock s) (next_id (seeded (ti_user input) s))"
    have "attendance_rows s' = attendance_rows s @ (if ti_type input = T_ATTENDANCE then [?l] else [])"
      using appended(3) same [of "ti_user input"] now by (simp add: trust_written_def attendance_rows_def)
    then show ?thesis using appended(4,5) that by (auto split: if_splits)
  qed
qed

lemma applyWithin_ledger:
  assumes "applyWithin input pen s = Inr (r, s')"
  shows "coin_ledger s' = coin_ledger s \<or> (\<exists>l. coin_ledger s' = coin_ledger s @ [l] \<and> cl_type l = ci_type input)"
  using applyWithin_applied(2) [OF assms] applyWithin_not_applied(1) [OF assms] by (cases "cp_applied r") (auto simp: coin_row_def)

lemma applyWithin_quiet: "ci_type input \<noteq> REFERRAL_REWARD \<Longrightarrow> tx_rel (quiet z) (applyWithin input pen)"
  by (rule tx_relI) (use applyWithin_ledger applyWithin_frame in \<open>fastforce simp: quiet_def reward_rows_def attendance_rows_def coin_frame_simps\<close>)

lemma coin_apply_quiet: "ci_type input \<noteq> REFERRAL_REWARD \<Longrightarrow> tx_rel (quiet z) (coin_apply input)"
  using applyWithin_quiet [where pen = None] by (auto simp: tx_rel_def coin_apply_Inr)

lemma penalize_quiet: "ci_type input \<noteq> REFERRAL_REWARD \<Longrightarrow> tx_rel (quiet z) (penalizeWithin input)"
  unfolding penalizeWithin_def Let_def
  by (intro tx_rel_rules quiet_reflp quiet_transp applyWithin_quiet) simp

lemma reverse_quiet: "tx_rel (quiet z) (reverseWithin i rc acty ai md)"
  unfolding reverseWithin_def by (intro tx_rel_rules quiet_reflp quiet_transp coin_apply_quiet) simp

lemma trust_apply_quiet: "(z \<Longrightarrow> ti_type input \<noteq> T_ATTENDANCE) \<Longrightarrow> tx_rel (quiet z) (trust_apply input)"
proof (rule tx_relI)
  fix s m s' assume z: "z \<Longrightarrow> ti_type input \<noteq> T_ATTENDANCE" and run: "trust_apply input s = Inr (m, s')"
  have "z \<longrightarrow> attendance_rows s' = attendance_rows s" using run z by (cases rule: trust_apply_attendance) auto
  then show "quiet z s s'"
    using trust_frame_simps(2,3,10,13) [OF trust_apply_frame [OF run]] by (simp add: quiet_def reward_rows_def)
qed

lemma quiet_writes:
  "tx_rel (quiet z) (audit_record acty ai ac tt ti b a)" "tx_rel (quiet z) (outbox_emit agg i et pl)"
  "tx_rel (quiet z) (publicIdOf i)" "tx_rel (quiet z) fresh_id" "tx_rel (quiet z) (participant_update i f)"
  by (auto simp: tx_rel_def tx_simps participant_update_def intro!: quiet_same)

lemmas quiet_rules = tx_rel_rules quiet_reflp quiet_transp quiet_writes
  coin_apply_quiet penalize_quiet reverse_quiet trust_apply_quiet

lemma referral_policy_settings: "settings s' = settings s \<Longrightarrow> referral_policy_of s' = referral_policy_of s"
  by (simp add: referral_policy_of_def getNumber_def setting_read_def)

lemma referral_wf_frame:
  assumes wf: "referral_wf p w" and "referrals w' = referrals w" and un: "quiet z (base w) (base w')"
    and att: "\<And>u. has_attended u (base w) \<Longrightarrow> has_attended u (base w')"
  shows "referral_wf p w'"
proof -
  have "rf_id r < next_id (base w')" if "r \<in> set (referrals w)" for r
    using referral_wfD(4) [OF wf that] un by (simp add: quiet_def)
  moreover have "reward_rows (base w') = reward_rows (base w)" "settings (base w') = settings (base w)"
    using un by (simp_all add: quiet_def)
  moreover have "referral_policy_of (base w') = referral_policy_of (base w)"
    by (rule referral_policy_settings) fact
  ultimately show ?thesis
    using assms(1,2) att unfolding referral_wf_def by simp
qed

lemma has_attended_same: "participants s' = participants s \<Longrightarrow> has_attended u s' = has_attended u s"
  by (simp add: has_attended_def)

lemma on_db_referral_wf:
  assumes "on_db m w = Inr (a, w')" and "tx_rel (quiet z) m" and "\<And>a s'. m (base w) = Inr (a, s') \<Longrightarrow> participants s' = participants (base w)"
    and "referral_wf p w"
  shows "referral_wf p w'"
proof -
  from assms(1) obtain s where s: "m (base w) = Inr (a, s)" "w' = w\<lparr>base := s\<rparr>" by (auto simp: tx_simps)
  show ?thesis
    by (rule referral_wf_frame [OF assms(4)])
       (use s tx_relD [OF assms(2) s(1)] has_attended_same [OF assms(3) [OF s(1)]] in simp_all)
qed

lemma audit_referral_wf: "on_db (audit_record acty ai ac tt ti b a) w = Inr (x, w') \<Longrightarrow> referral_wf p w \<Longrightarrow> referral_wf p w'"
  by (erule on_db_referral_wf) (auto simp: quiet_writes tx_simps)

section \<open>The steps of a qualification\<close>

lemma referral_update_many_Inr:
  "referral_update_many i q f w = Inr (n, w') \<longleftrightarrow>
     n = length (filter (\<lambda>r. rf_id r = i \<and> q r) (referrals w))
     \<and> (\<forall>r\<in>set (referrals w). rf_id r = i \<and> q r \<longrightarrow> referral_checks (f r))
     \<and> w' = w\<lparr>referrals := update_where (\<lambda>r. rf_id r = i \<and> q r) f (referrals w)\<rparr>"
  by (auto simp: referral_update_many_def tx_simps list_all_iff)

lemma referral_update_wf:
  assumes run: "referral_update_many i q f w = Inr (n, w')" and wf: "referral_wf p w"
    and keys: "\<And>r. rf_id (f r) = rf_id r \<and> rf_referrer (f r) = rf_referrer r \<and> rf_referred (f r) = rf_referred r"
    and stays: "\<And>r. rf_status r = RF_QUALIFIED \<Longrightarrow> rf_status (f r) = RF_QUALIFIED"
    and att: "\<And>r. r \<in> set (referrals w) \<Longrightarrow> rf_id r = i \<Longrightarrow> q r \<Longrightarrow> rf_status (f r) = RF_QUALIFIED \<Longrightarrow> has_attended (rf_referred r) (base w)"
  shows "referral_wf p w'"
proof -
  from run have chk: "\<forall>r\<in>set (referrals w). rf_id r = i \<and> q r \<longrightarrow> referral_checks (f r)"
    and w': "w' = w\<lparr>referrals := update_where (\<lambda>r. rf_id r = i \<and> q r) f (referrals w)\<rparr>"
    by (auto simp: referral_update_many_Inr)
  note d = referral_wfD [OF wf]
  have same: "map k (update_where (\<lambda>r. rf_id r = i \<and> q r) f (referrals w)) = map k (referrals w)"
    if "\<And>r. k (f r) = k r" for k :: "referral_row \<Rightarrow> id"
    using that by (simp add: update_where_def)
  have rows: "rf_id r < next_id (base w) \<and> referral_checks r \<and> (rf_status r = RF_QUALIFIED \<longrightarrow> has_attended (rf_referred r) (base w))"
    if r: "r \<in> set (referrals w')" for r
  proof -
    from r consider "r \<in> set (referrals w)" | r0 where "r0 \<in> set (referrals w)" "rf_id r0 = i" "q r0" "r = f r0"
      unfolding w' by (auto simp: set_update_where split: if_splits)
    then show ?thesis
    proof cases
      case 2
      then show ?thesis using chk att [OF 2(1-3)] d(4) [OF 2(1)] keys [of r0] by simp
    qed (rule d(4))
  qed
  have paid: "\<exists>r\<in>set (referrals w'). rf_status r = RF_QUALIFIED \<and> pays r l" if l: "l \<in> set (reward_rows (base w))" for l
  proof -
    from d(5) [OF l] obtain r where r: "r \<in> set (referrals w)" "rf_status r = RF_QUALIFIED" "pays r l" by blast
    let ?r = "if rf_id r = i \<and> q r then f r else r"
    have "?r \<in> set (referrals w')" using r(1) by (auto simp: w' update_where_def)
    moreover have "rf_status (f r) = RF_QUALIFIED \<and> pays (f r) l" using r(2,3) stays [OF r(2)] keys [of r] by (simp add: pays_def)
    then have "rf_status ?r = RF_QUALIFIED \<and> pays ?r l" using r(2,3) by simp
    ultimately show ?thesis by blast
  qed
  show ?thesis
    unfolding referral_wf_def
    using d(1-3,6,7) rows paid same [of rf_id] same [of rf_referred] keys by (simp add: w')
qed

lemma reward_key_new:
  assumes "coin_ledger_by_key k s = None"
  shows "k \<notin> cl_key ` set (reward_rows s)"
  using assms by (auto simp: coin_ledger_by_key_None reward_rows_def)

lemma reward_applied:
  assumes run: "coin_apply input s = Inr (m, s')" and ty: "ci_type input = REFERRAL_REWARD"
  obtains (replayed) "reward_rows s' = reward_rows s"
  | (paid) l where "reward_rows s' = reward_rows s @ [l]" "cl_key l \<notin> cl_key ` set (reward_rows s)" "cl_key l = ci_key input"
      "cl_user l = ci_user input" "cl_reason l = ci_reason input" "cl_ref_id l = ci_ref_id input" "cl_created_at l = clock s"
      "cl_amount l = ci_amount input"
proof -
  from run obtain r i where ap: "applyWithin input None s = Inr (r, s')" by (auto simp: coin_apply_Inr)
  show thesis
  proof (cases "cp_applied r")
    case False
    then show ?thesis using applyWithin_not_applied(1) [OF ap] replayed by (simp add: reward_rows_def)
  next
    case True
    have new: "coin_ledger_by_key (ci_key input) s = None" using ap True by (cases rule: applyWithin_effect) auto
    let ?l = "coin_row input None (balance_of s (ci_user input)) (clock s) (next_id s) (moved_amount input None s)"
    show ?thesis
      by (rule paid [of ?l]) (use applyWithin_applied(2) [OF ap True] reward_key_new [OF new] ty in
          \<open>simp_all add: reward_rows_def coin_row_def moved_amount_def\<close>)
  qed
qed

lemma pay_wf:
  assumes run: "coin_apply input (base w) = Inr (m, s)" and wf: "referral_wf p w"
    and r: "r \<in> set (referrals w)" "rf_status r = RF_QUALIFIED"
    and ty: "ci_type input = REFERRAL_REWARD" and owed: "\<And>l. cl_key l = ci_key input \<Longrightarrow> cl_user l = ci_user input \<Longrightarrow>
      cl_reason l = ci_reason input \<Longrightarrow> cl_ref_id l = ci_ref_id input \<Longrightarrow> pays r l"
    and room: "0 < rp_reward_cap p \<Longrightarrow> 0 < rp_cap_days p \<Longrightarrow> ci_reason input = REFERRAL_REFERRER_REASON \<Longrightarrow>
      of_nat (invited_since (ci_user input) (reward_since p (now_of w)) (reward_rows (base w))) < rp_reward_cap p"
  shows "referral_wf p (w\<lparr>base := s\<rparr>)"
proof -
  note d = referral_wfD [OF wf]
  have frame: "coin_frame (base w) s" by (rule coin_apply_frame [OF run])
  note f = coin_frame_simps(3,8,13) [OF frame]
  have att: "has_attended u s = has_attended u (base w)" for u by (rule has_attended_same) (rule f(2))
  from run ty show ?thesis
  proof (cases rule: reward_applied)
    case replayed
    show ?thesis
      by (rule referral_wf_frame [OF wf, where z = False]) (use f replayed coin_frame_simps(2) [OF frame] in \<open>simp_all add: quiet_def att\<close>)
  next
    case (paid l)
    have "pays r l" using paid owed by simp
    moreover have "capped p (reward_rows (base w) @ [l])"
      by (rule capped_append [OF d(7)]) (use paid room in simp)
    moreover have "rf_id q < next_id s" if "q \<in> set (referrals w)" for q using d(4) [OF that] f by simp
    ultimately show ?thesis
      using wf paid(1,2) r unfolding referral_wf_def
      by (auto simp: att referral_policy_settings [OF f(1)])
  qed
qed

lemma invited_since_earned:
  "snd (earnedSince u t [REFERRAL_REWARD] (Some REFERRAL_REFERRER_REASON) s) = invited_since u t (reward_rows s)"
  unfolding earnedSince_def invited_since_def reward_rows_def count_where_def Let_def snd_conv filter_filter
  by (rule arg_cong [where f = length], rule filter_cong) auto

lemma reward_room:
  assumes "0 < referrerRewardFor u p now s" and "0 < rp_reward_cap p" "0 < rp_cap_days p"
  shows "of_nat (invited_since u (reward_since p now) (reward_rows s)) < rp_reward_cap p"
  using assms by (auto simp: referrerRewardFor_def Let_def invited_since_earned reward_since_def not_le split: if_splits)

lemma pay_referral_Inr:
  "pay_referral coins mk s = Inr (x, s') \<longleftrightarrow>
     (if 0 < coins then isInteger coins \<and> (\<exists>m. coin_apply (mk \<lfloor>coins\<rfloor>) s = Inr (m, s') \<and> x = Some (cm_ledger_id m))
      else x = None \<and> s' = s)"
  by (auto simp: pay_referral_def coin_apply_number_def tx_simps)

text \<open>A payment of what a qualified referral owes, in the account it owes it to.\<close>

lemma pay_referral_wf:
  assumes run: "on_db (pay_referral coins (referral_movement u reason key (rf_id r))) w = Inr (x, w')" and wf: "referral_wf p w"
    and r: "r \<in> set (referrals w)" "rf_status r = RF_QUALIFIED"
    and owed: "(reason, u, key) \<in> {(REFERRAL_REFERRER_REASON, rf_referrer r, referrerRewardKey (rf_id r)),
        (REFERRAL_REFERRED_REASON, rf_referred r, referredRewardKey (rf_id r))}"
    and room: "0 < coins \<Longrightarrow> 0 < rp_reward_cap p \<Longrightarrow> 0 < rp_cap_days p \<Longrightarrow> reason = REFERRAL_REFERRER_REASON \<Longrightarrow>
      of_nat (invited_since u (reward_since p (now_of w)) (reward_rows (base w))) < rp_reward_cap p"
  shows "referral_wf p w'"
proof -
  from run obtain s where s: "pay_referral coins (referral_movement u reason key (rf_id r)) (base w) = Inr (x, s)" "w' = w\<lparr>base := s\<rparr>"
    by (auto simp: on_db_Inr)
  show ?thesis
  proof (cases "0 < coins")
    case True
    with s(1) obtain m where pay: "coin_apply (referral_movement u reason key (rf_id r) \<lfloor>coins\<rfloor>) (base w) = Inr (m, s)"
      by (auto simp: pay_referral_Inr)
    show ?thesis
      unfolding s(2) by (rule pay_wf [OF pay wf r]) (use owed room True in \<open>auto simp: referral_movement_def pays_def\<close>)
  next
    case False
    with s wf show ?thesis by (simp add: pay_referral_Inr)
  qed
qed

lemma on_db_keeps:
  "on_db m w = Inr (x, w') \<Longrightarrow> referrals w' = referrals w"
  by (auto simp: on_db_Inr)

lemma qualified_emit_quiet: "tx_rel (quiet z) (qualified_emit i a b c e)"
  "qualified_emit i a b c e s = Inr (x, s') \<Longrightarrow> participants s' = participants s"
  unfolding qualified_emit_def by (intro quiet_rules) (auto simp: tx_simps)

lemma qualify_pay_wf:
  assumes run: "qualify_pay (rf_id r) (rf_referrer r) (rf_referred r) p (now_of w) w = Inr (b, w')" and wf: "referral_wf p w"
    and r: "r \<in> set (referrals w)" "rf_status r = RF_QUALIFIED"
  shows "referral_wf p w'"
proof -
  let ?c = "referrerRewardFor (rf_referrer r) p (now_of w) (base w)"
  from run obtain x1 s2 x2 s3 x3 w4 x4 s5 x5 s6 where
    p1: "pay_referral ?c (referral_movement (rf_referrer r) REFERRAL_REFERRER_REASON (referrerRewardKey (rf_id r)) (rf_id r)) (base w) = Inr (x1, s2)" and
    p2: "pay_referral (rp_referred_coins p) (referral_movement (rf_referred r) REFERRAL_REFERRED_REASON (referredRewardKey (rf_id r)) (rf_id r))
      (base (w\<lparr>base := s2\<rparr>)) = Inr (x2, s3)" and
    p3: "(case x1 of None \<Rightarrow> tx_return 0 | Some l \<Rightarrow> referral_update_many (rf_id r) (\<lambda>_. True) (\<lambda>r. r\<lparr>rf_reward_ledger_id := Some l\<rparr>))
      (w\<lparr>base := s2, base := s3\<rparr>) = Inr (x3, w4)" and
    p4: "audit_record A_SYSTEM None ''referral.qualified'' ''referral'' (Some (rf_id r))
       (Some (JObj [(''status'', JStr ''PENDING'')]))
       (Some (JObj [(''status'', JStr ''QUALIFIED''), (''referrerCoins'', JNum ?c), (''referredCoins'', JNum (rp_referred_coins p))])) (base w4) = Inr (x4, s5)" and
    p5: "qualified_emit (rf_id r) (rf_referrer r) (rf_referred r) ?c (rp_referred_coins p) (base (w4\<lparr>base := s5\<rparr>)) = Inr (x5, s6)" and
    w': "w' = w4\<lparr>base := s5, base := s6\<rparr>"
    unfolding qualify_pay_def by (elim tx_readE on_dbE tx_bindE tx_returnE) (hypsubst, blast)
  have wf2: "referral_wf p (w\<lparr>base := s2\<rparr>)"
    by (rule pay_referral_wf [OF _ wf r]) (use p1 reward_room [of "rf_referrer r" p "now_of w" "base w"] in \<open>auto simp: on_db_Inr\<close>)
  have wf3: "referral_wf p (w\<lparr>base := s2, base := s3\<rparr>)"
    by (rule pay_referral_wf [OF _ wf2, of "rp_referred_coins p" "rf_referred r" REFERRAL_REFERRED_REASON "referredRewardKey (rf_id r)" r x2])
       (use p2 r in \<open>auto simp: on_db_Inr REFERRAL_REFERRED_REASON_def REFERRAL_REFERRER_REASON_def\<close>)
  have wf4: "referral_wf p w4"
  proof (cases x1)
    case None
    with p3 wf3 show ?thesis by (simp add: tx_simps)
  next
    case (Some l)
    with p3 have "referral_update_many (rf_id r) (\<lambda>_. True) (\<lambda>r. r\<lparr>rf_reward_ledger_id := Some l\<rparr>) (w\<lparr>base := s2, base := s3\<rparr>) = Inr (x3, w4)" by simp
    then show ?thesis
      by (rule referral_update_wf [OF _ wf3]) (use referral_wfD(4) [OF wf3] in auto)
  qed
  have wf5: "referral_wf p (w4\<lparr>base := s5\<rparr>)"
    by (rule audit_referral_wf [OF _ wf4], rule on_db_app, rule p4)
  have "on_db (qualified_emit (rf_id r) (rf_referrer r) (rf_referred r) ?c (rp_referred_coins p)) (w4\<lparr>base := s5\<rparr>) = Inr (x5, w')"
    using p5 by (simp add: on_db_def w')
  then show ?thesis
    by (rule on_db_referral_wf [OF _ qualified_emit_quiet(1) qualified_emit_quiet(2) wf5])
qed

lemma qualify_tx_wf:
  assumes run: "qualify_tx (rf_id r) (rf_referrer r) (rf_referred r) p (now_of w) w = Inr (b, w')" and wf: "referral_wf p w"
    and r: "r \<in> set (referrals w)" and att: "has_attended (rf_referred r) (base w)"
  shows "referral_wf p w'"
proof -
  note d = referral_wfD [OF wf]
  have uniq: "q = r" if "q \<in> set (referrals w)" "rf_id q = rf_id r" for q
    using distinct_key_eq [OF d(2)] that r by blast
  define f :: "referral_row \<Rightarrow> referral_row" where "f = (\<lambda>r. r\<lparr>rf_status := RF_QUALIFIED, rf_qualified_at := Some (now_of w)\<rparr>)"
  let ?q = "\<lambda>x. rf_status x = RF_PENDING"
  from run obtain n w1 where up: "referral_update_many (rf_id r) ?q f w = Inr (n, w1)" and
    rest: "(if n = 0 then tx_return False else qualify_pay (rf_id r) (rf_referrer r) (rf_referred r) p (now_of w)) w1 = Inr (b, w')"
    unfolding qualify_tx_def f_def by (elim tx_bindE) blast
  from up have w1: "w1 = w\<lparr>referrals := update_where (\<lambda>x. rf_id x = rf_id r \<and> ?q x) f (referrals w)\<rparr>"
    and n: "n = length (filter (\<lambda>x. rf_id x = rf_id r \<and> ?q x) (referrals w))" by (simp_all add: referral_update_many_Inr)
  have wf1: "referral_wf p w1"
    by (rule referral_update_wf [OF up wf]) (use uniq att in \<open>auto simp: f_def\<close>)
  show ?thesis
  proof (cases "n = 0")
    case True
    with rest wf1 show ?thesis by (simp add: tx_simps)
  next
    case False
    then obtain r' where "r' \<in> set (referrals w)" "rf_id r' = rf_id r" "?q r'" using n by (auto simp: filter_empty_conv)
    then have "?q r" using uniq by auto
    then have mem: "f r \<in> set (referrals w1)" using r by (auto simp: w1 update_where_def intro!: image_eqI [of _ _ r])
    have "qualify_pay (rf_id (f r)) (rf_referrer (f r)) (rf_referred (f r)) p (now_of w1) w1 = Inr (b, w')"
      using rest False by (simp add: f_def w1)
    then show ?thesis by (rule qualify_pay_wf [OF _ wf1 mem]) (simp add: f_def)
  qed
qed

lemma referral_of_Some: "referral_of u w = Some r \<Longrightarrow> r \<in> set (referrals w) \<and> rf_referred r = u"
  unfolding referral_of_def by (rule find_key_mem)

lemma act_inv_readI: "(\<And>s. P s \<Longrightarrow> P (snd (g (f s) s))) \<Longrightarrow> act_inv P (act_bind (act_read f) g)"
  by (simp add: act_inv_def)

lemma qualify_wf: "act_inv (referral_wf p) (qualifyForAttendance u)"
  unfolding act_inv_def
proof (intro allI impI)
  fix w assume wf: "referral_wf p w"
  show "referral_wf p (snd (qualifyForAttendance u w))"
  proof (cases "referral_of u w")
    case None
    then show ?thesis using wf by (simp add: qualifyForAttendance_def)
  next
    case (Some r)
    note r = referral_of_Some [OF Some]
    show ?thesis
    proof (cases "rf_status r = RF_PENDING \<and> has_attended u (base w)")
      case False
      then show ?thesis using wf Some by (auto simp: qualifyForAttendance_def)
    next
      case True
      have "snd (qualifyForAttendance u w) = snd (in_tx (qualify_tx (rf_id r) (rf_referrer r) (rf_referred r) p (now_of w)) w)"
        using True Some r referral_wfD(1) [OF wf] by (simp add: qualifyForAttendance_def)
      moreover have "referral_wf p (snd (in_tx (qualify_tx (rf_id r) (rf_referrer r) (rf_referred r) p (now_of w)) w))"
        using qualify_tx_wf [of r p w] wf r True by (auto simp: in_tx_def split: sum.split prod.split)
      ultimately show ?thesis by simp
    qed
  qed
qed

lemma referral_create_wf:
  assumes run: "referral_create mk w = Inr (i, w')" and wf: "referral_wf p w"
    and mk: "\<And>i. rf_id (mk i) = i \<and> rf_status (mk i) = RF_PENDING"
  shows "referral_wf p w'"
proof -
  note d = referral_wfD [OF wf]
  let ?n = "next_id (base w)"
  from run have chk: "referral_checks (mk ?n)" and none: "referral_of (rf_referred (mk ?n)) w = None"
    and w': "w' = w\<lparr>base := (base w)\<lparr>next_id := Suc ?n\<rparr>, referrals := referrals w @ [mk ?n]\<rparr>"
    by (auto simp: referral_create_def tx_simps referral_of_def)
  have "?n \<notin> rf_id ` set (referrals w)" using d(4) by fastforce
  moreover have "rf_referred (mk ?n) \<notin> rf_referred ` set (referrals w)"
    using none by (auto simp: referral_of_def find_None_iff)
  moreover have "reward_rows (base w') = reward_rows (base w)" "has_attended u (base w') = has_attended u (base w)" for u
    by (simp_all add: w' reward_rows_def has_attended_def)
  moreover have "referral_policy_of (base w') = p"
    using referral_policy_settings [of "base w'" "base w"] d(1) by (simp add: w')
  moreover have "rf_id r < next_id (base w')" if "r \<in> set (referrals w)" for r using d(4) [OF that] by (simp add: w')
  ultimately show ?thesis
    using d(2-7) chk mk [of ?n] unfolding referral_wf_def by (auto simp: w')
qed

lemma assertClaimWindow_inv: "act_inv P (assertClaimWindow u now)"
  unfolding assertClaimWindow_def by (intro act_inv_rules)

lemma claim_wf: "act_inv (referral_wf p) (claim upper u raw)"
  unfolding claim_def Let_def split_def
  by (intro act_inv_rules assertClaimWindow_inv act_inv_in_tx qualify_wf)
     (auto simp: act_inv_pure act_inv_bind split_def intro: referral_create_wf audit_referral_wf qualify_wf split: option.split)

lemma set_referral_code_wf: "set_referral_code u c w = Inr (x, w') \<Longrightarrow> referral_wf p w \<Longrightarrow> referral_wf p w'"
  by (auto simp: set_referral_code_def tx_simps referral_wf_def)

lemma code_attempts_wf: "act_inv (referral_wf p) (code_attempts n u draws k)"
  by (induction n arbitrary: k)
     (auto simp: Let_def intro!: act_inv_rules act_inv_in_tx intro: set_referral_code_wf)

lemma summary_wf: "act_inv (referral_wf p) (summaryFor u draws)"
  unfolding summaryFor_def codeFor_def by (intro act_inv_rules code_attempts_wf)

end
