(* ===== verification/Notifications.thy ===== *)
theory Notifications
  imports Reviews
begin

text \<open>
  Telling people (\<^verbatim>\<open>packages/domain/src/notifications\<close>, \<^verbatim>\<open>outbox/relay.service.ts\<close>, and the worker's
  \<^verbatim>\<open>relayOutbox\<close> and \<^verbatim>\<open>onSend\<close> in \<^verbatim>\<open>apps/worker/src/queues/processors.service.ts\<close>). A service commits a
  row of the outbox with its change; the relay turns each row into the notifications it plans,
  records them, marks the row, and hands their identifiers to the queue of the sender.

  Every database statement of these calls, every job added and every message sent is a step of its
  own (\<open>call\<close>), and the worker may die before any of them. BullMQ is a list of job identifiers in which
  adding one that is there does nothing, as its manual says; Telegram's answer is an argument of the
  delivery. The message texts are display text: a template is known or not. The wizard's memory of
  its message belongs to the conversations and is left out.
\<close>

section \<open>Templates and categories\<close>

text \<open>The values of \<^verbatim>\<open>TEMPLATES\<close>. Each of them has a case in \<^verbatim>\<open>render\<close>.\<close>

definition TEMPLATES :: "string list" where
  "TEMPLATES = [
    ''participation.requested.host'', ''participation.requested.guest'', ''participation.accepted'',
    ''participation.rejected'', ''participation.cancelled.host'', ''participation.expired'',
    ''waitlist.promoted.guest'', ''waitlist.promoted.host'', ''event.cancelled'', ''review.revealed'',
    ''event.reminder_guest'', ''event.reminder_host'', ''event.attendance_prompt'', ''review.window_open'',
    ''participation.no_show'', ''participation.no_show_dispute_offer'', ''no_show.host_absent_reported'',
    ''no_show.claim_decided'', ''moderation.content_hidden'', ''direct.message_received'', ''direct.message_seen'',
    ''delivery.counterpart_blocked'', ''moderation.content_restored'', ''account.blocked'', ''bot.welcome'',
    ''bot.referral_accepted'', ''referral.qualified.referrer'', ''referral.qualified.referrer_capped'',
    ''referral.qualified.referred'', ''host.settled'', ''economy.comeback_granted'', ''bot.notice'',
    ''profile.gender_request'', ''bot.help'', ''bot.balance'', ''bot.requests'', ''bot.my_events'', ''bot.profile'',
    ''bot.profile_edit'', ''bot.discover'', ''bot.reviews'', ''bot.wizard'', ''bot.event_created'',
    ''bot.consent_accepted'', ''bot.channel_gate'', ''bot.terms_standing'', ''bot.wallet'', ''bot.coin_packages'',
    ''bot.referral'', ''bot.confirm_spend'', ''bot.coins_short'', ''bot.event_detail'', ''bot.suggestion'',
    ''bot.trust'', ''bot.report_reasons'', ''bot.received_reviews'', ''bot.settings'', ''bot.participants'',
    ''bot.admin_cases'', ''bot.menu'', ''bot.event_held'', ''bot.direct_message'']"

datatype notification_category = NC_CHAT | NC_EVENTS | NC_CAMPAIGNS | NC_ESSENTIAL

definition CATEGORY :: "(string \<times> notification_category) list" where
  "CATEGORY = [
    (''participation.requested.host'', NC_EVENTS), (''participation.requested.guest'', NC_EVENTS),
    (''participation.accepted'', NC_EVENTS), (''participation.rejected'', NC_EVENTS),
    (''participation.expired'', NC_EVENTS), (''waitlist.promoted.guest'', NC_EVENTS),
    (''waitlist.promoted.host'', NC_EVENTS), (''event.cancelled'', NC_EVENTS), (''event.reminder_guest'', NC_EVENTS),
    (''event.reminder_host'', NC_EVENTS), (''event.attendance_prompt'', NC_EVENTS),
    (''review.window_open'', NC_EVENTS), (''review.revealed'', NC_EVENTS), (''direct.message_received'', NC_CHAT),
    (''direct.message_seen'', NC_CHAT), (''delivery.counterpart_blocked'', NC_ESSENTIAL),
    (''participation.no_show'', NC_ESSENTIAL), (''participation.no_show_dispute_offer'', NC_ESSENTIAL),
    (''no_show.host_absent_reported'', NC_ESSENTIAL), (''no_show.claim_decided'', NC_ESSENTIAL),
    (''referral.qualified.referrer'', NC_ESSENTIAL), (''referral.qualified.referrer_capped'', NC_ESSENTIAL),
    (''host.settled'', NC_ESSENTIAL), (''economy.comeback_granted'', NC_ESSENTIAL),
    (''referral.qualified.referred'', NC_ESSENTIAL), (''moderation.content_hidden'', NC_ESSENTIAL),
    (''moderation.content_restored'', NC_ESSENTIAL), (''bot.consent_accepted'', NC_ESSENTIAL),
    (''bot.channel_gate'', NC_ESSENTIAL), (''bot.terms_standing'', NC_ESSENTIAL), (''bot.welcome'', NC_ESSENTIAL),
    (''bot.referral_accepted'', NC_ESSENTIAL), (''bot.notice'', NC_ESSENTIAL),
    (''profile.gender_request'', NC_ESSENTIAL), (''bot.help'', NC_ESSENTIAL), (''bot.balance'', NC_ESSENTIAL),
    (''bot.requests'', NC_ESSENTIAL), (''bot.my_events'', NC_ESSENTIAL), (''bot.profile'', NC_ESSENTIAL),
    (''bot.discover'', NC_ESSENTIAL), (''bot.reviews'', NC_ESSENTIAL), (''bot.wizard'', NC_ESSENTIAL),
    (''bot.event_created'', NC_ESSENTIAL), (''bot.wallet'', NC_ESSENTIAL), (''bot.coin_packages'', NC_ESSENTIAL),
    (''bot.referral'', NC_ESSENTIAL), (''bot.confirm_spend'', NC_ESSENTIAL), (''bot.coins_short'', NC_ESSENTIAL),
    (''bot.event_detail'', NC_ESSENTIAL), (''bot.trust'', NC_ESSENTIAL), (''bot.report_reasons'', NC_ESSENTIAL),
    (''bot.received_reviews'', NC_ESSENTIAL), (''bot.direct_message'', NC_ESSENTIAL),
    (''bot.admin_cases'', NC_ESSENTIAL)]"

definition notificationCategory :: "string \<Rightarrow> notification_category" where
  "notificationCategory templateKey = (case map_of CATEGORY templateKey of None \<Rightarrow> NC_ESSENTIAL | Some c \<Rightarrow> c)"

datatype preference_key = NOTIFY_CHAT | NOTIFY_EVENTS | NOTIFY_CAMPAIGNS

fun preferenceKeyFor :: "notification_category \<Rightarrow> preference_key option" where
  "preferenceKeyFor NC_CHAT = Some NOTIFY_CHAT"
| "preferenceKeyFor NC_EVENTS = Some NOTIFY_EVENTS"
| "preferenceKeyFor NC_CAMPAIGNS = Some NOTIFY_CAMPAIGNS"
| "preferenceKeyFor NC_ESSENTIAL = None"

definition renders :: "string \<Rightarrow> bool" where
  "renders templateKey \<longleftrightarrow> List.member TEMPLATES templateKey"

section \<open>Planning\<close>

type_synonym payload = "(string \<times> jval) list"

record planned_notification =
  pl_user_public_id :: id
  pl_template :: string
  pl_key :: string
  pl_payload :: payload

text \<open>
  \<^verbatim>\<open>text\<close> of a key under which a public identifier is written, and \<^verbatim>\<open>number\<close>. A missing or empty text
  is \<open>None\<close>.
\<close>

definition payload_text :: "payload \<Rightarrow> string \<Rightarrow> id option" where
  "payload_text p k = (case map_of p k of Some (JId i) \<Rightarrow> Some i | _ \<Rightarrow> None)"

definition payload_number :: "payload \<Rightarrow> string \<Rightarrow> rat" where
  "payload_number p k = (case map_of p k of Some (JInt i) \<Rightarrow> of_int i | Some (JNum q) \<Rightarrow> q | _ \<Rightarrow> 0)"

text \<open>One recipient: named under a payload key, told by a template, under a suffix of the row's identifier.\<close>

definition addressee :: "outbox_row \<Rightarrow> string \<Rightarrow> string \<Rightarrow> string \<Rightarrow> payload \<Rightarrow> planned_notification list" where
  "addressee row key suffix templateKey p =
     (case payload_text (ob_payload row) key of
        None \<Rightarrow> []
      | Some u \<Rightarrow> [\<lparr>pl_user_public_id = u, pl_template = templateKey,
          pl_key = show_id (ob_id row) @ '':'' @ suffix, pl_payload = p\<rparr>])"

definition recipient :: "outbox_row \<Rightarrow> string \<Rightarrow> string \<Rightarrow> planned_notification list" where
  "recipient row key templateKey = addressee row key key templateKey (ob_payload row)"

text \<open>An entry of the participants an event's cancellation names.\<close>

fun cancelled_guest :: "outbox_row \<Rightarrow> jval \<Rightarrow> planned_notification list" where
  "cancelled_guest row (JObj entry) =
     (case payload_text entry ''userPublicId'' of
        None \<Rightarrow> []
      | Some u \<Rightarrow> [\<lparr>pl_user_public_id = u, pl_template = ''event.cancelled'',
          pl_key = show_id (ob_id row) @ '':'' @ (case payload_text entry ''participantPublicId'' of None \<Rightarrow> [] | Some q \<Rightarrow> show_id q),
          pl_payload = ob_payload row\<rparr>])"
| "cancelled_guest row _ = []"

text \<open>The cases of the switch that are one call of \<^verbatim>\<open>recipient\<close>.\<close>

definition SINGLE_RECIPIENT :: "(string \<times> string \<times> string) list" where
  "SINGLE_RECIPIENT = [
    (''participation.accepted'', ''participantUserPublicId'', ''participation.accepted''),
    (''participation.rejected'', ''participantUserPublicId'', ''participation.rejected''),
    (''participation.no_show'', ''participantUserPublicId'', ''participation.no_show''),
    (''participation.no_show_dispute_offer'', ''participantUserPublicId'', ''participation.no_show_dispute_offer''),
    (''no_show.host_absent_reported'', ''hostUserPublicId'', ''no_show.host_absent_reported''),
    (''no_show.claim_decided'', ''recipientUserPublicId'', ''no_show.claim_decided''),
    (''participation.cancelled'', ''hostUserPublicId'', ''participation.cancelled.host''),
    (''direct.message_sent'', ''recipientUserPublicId'', ''direct.message_received''),
    (''direct.message_seen'', ''senderUserPublicId'', ''direct.message_seen''),
    (''delivery.counterpart_blocked'', ''senderUserPublicId'', ''delivery.counterpart_blocked''),
    (''participation.expired'', ''participantUserPublicId'', ''participation.expired''),
    (''event.reminder_guest'', ''participantUserPublicId'', ''event.reminder_guest''),
    (''event.reminder_host'', ''hostUserPublicId'', ''event.reminder_host''),
    (''event.attendance_prompt'', ''hostUserPublicId'', ''event.attendance_prompt''),
    (''moderation.content_hidden'', ''ownerUserPublicId'', ''moderation.content_hidden''),
    (''moderation.content_restored'', ''ownerUserPublicId'', ''moderation.content_restored''),
    (''user.blocked'', ''userPublicId'', ''account.blocked''),
    (''host.settled'', ''hostUserPublicId'', ''host.settled''),
    (''economy.comeback_granted'', ''userPublicId'', ''economy.comeback_granted''),
    (''profile.gender_requested'', ''userPublicId'', ''profile.gender_request'')]"

definition planNotifications :: "outbox_row \<Rightarrow> planned_notification list" where
  "planNotifications row =
     (let p = ob_payload row; type = ob_event_type row
      in if type = ''participation.requested'' then
           addressee row ''hostUserPublicId'' ''host'' ''participation.requested.host'' p
           @ addressee row ''participantUserPublicId'' ''guest'' ''participation.requested.guest'' p
         else if type = ''waitlist.promoted'' then
           addressee row ''promotedUserPublicId'' ''guest'' ''waitlist.promoted.guest'' p
           @ addressee row ''hostUserPublicId'' ''host'' ''waitlist.promoted.host'' p
         else if type = ''event.cancelled_by_host'' then
           (case map_of p ''participants'' of Some (JArr entries) \<Rightarrow> concat (map (cancelled_guest row) entries) | _ \<Rightarrow> [])
         else if type = ''review.window_open'' then
           addressee row ''hostUserPublicId'' ''hostUserPublicId'' ''review.window_open'' (AList.update ''recipientRole'' (JStr ''HOST'') p)
           @ addressee row ''guestUserPublicId'' ''guestUserPublicId'' ''review.window_open'' (AList.update ''recipientRole'' (JStr ''GUEST'') p)
         else if type = ''review.revealed'' then
           addressee row ''hostUserPublicId'' ''hostUserPublicId'' ''review.revealed'' p
           @ addressee row ''guestUserPublicId'' ''guestUserPublicId'' ''review.revealed'' p
         else if type = ''referral.qualified'' then
           addressee row ''referrerUserPublicId'' ''referrer''
             (if 0 < payload_number p ''referrerCoins'' then ''referral.qualified.referrer'' else ''referral.qualified.referrer_capped'') p
           @ addressee row ''referredUserPublicId'' ''referred'' ''referral.qualified.referred'' p
         else (case map_of SINGLE_RECIPIENT type of None \<Rightarrow> [] | Some (key, t) \<Rightarrow> recipient row key t))"

section \<open>The tables\<close>

datatype notification_status = N_PENDING | N_SENT | N_FAILED | N_UNDELIVERABLE | N_SUPPRESSED

record notification_row =
  nt_id :: id
  nt_user :: id
  nt_template :: string
  nt_payload :: payload
  nt_key :: string
  nt_status :: notification_status
  nt_attempts :: nat
  nt_last_error :: "string option"
  nt_message_id :: "nat option"
  nt_created_at :: instant
  nt_sent_at :: "instant option"

record telegram_account =
  ta_chat :: id
  ta_bot_blocked :: bool

record notification_settings =
  notify_chat :: bool
  notify_events :: bool
  notify_campaigns :: bool

text \<open>
  The notifications and what the sender reads, beside the world of the other services.
  \<open>public_ids\<close> is the unique index over \<^verbatim>\<open>user.public_id\<close>, \<open>message_senders\<close> the sender of each direct message.
  \<open>jobs\<close> is the queue of the sender, \<open>messages\<close> what Telegram accepted: chat and notification.
  \<open>life_left\<close> is how many more steps the worker makes before it dies, when it does.
\<close>

record post =
  office :: world
  notifications :: "notification_row list"
  telegram_accounts :: "(id \<times> telegram_account) list"
  user_settings :: "(id \<times> notification_settings) list"
  public_ids :: "(id \<times> id) list"
  message_senders :: "(id \<times> id) list"
  jobs :: "id list"
  messages :: "(id \<times> id) list"
  life_left :: "nat option"

abbreviation post_db :: "post \<Rightarrow> db" where "post_db p \<equiv> base (office p)"

definition at_office :: "(error, db, 'a) tx \<Rightarrow> (error, post, 'a) tx" where
  "at_office m = (\<lambda>p. case m (post_db p) of Inl e \<Rightarrow> Inl e | Inr (a, s) \<Rightarrow> Inr (a, p\<lparr>office := (office p)\<lparr>base := s\<rparr>\<rparr>))"

text \<open>One statement of the worker.\<close>

definition DIED :: error where "DIED = DbError ''the worker died''"

definition call :: "(error, post, 'a) tx \<Rightarrow> (error, post, 'a) act" where
  "call m = (\<lambda>p. if life_left p = Some 0 then (Inl DIED, p)
     else in_tx m (p\<lparr>life_left := map_option (\<lambda>n. n - 1) (life_left p)\<rparr>))"

section \<open>The notification ledger\<close>

definition notification_by_id :: "id \<Rightarrow> post \<Rightarrow> notification_row option" where
  "notification_by_id i p = find (\<lambda>n. nt_id n = i) (notifications p)"

definition notification_by_key :: "string \<Rightarrow> post \<Rightarrow> notification_row option" where
  "notification_by_key k p = find (\<lambda>n. nt_key n = k) (notifications p)"

definition DUPLICATE_NOTIFICATION :: error where "DUPLICATE_NOTIFICATION = DbError ''unique: notification.dedupe_key''"

definition notification_create :: "id \<Rightarrow> string \<Rightarrow> string \<Rightarrow> payload \<Rightarrow> (error, post, id) tx" where
  "notification_create userId templateKey dedupeKey p =
     tx_bind (at_office fresh_id) (\<lambda>i.
     tx_bind (tx_read (notification_by_key dedupeKey)) (\<lambda>clash.
     tx_bind (tx_guard (clash = None) DUPLICATE_NOTIFICATION) (\<lambda>_.
     tx_bind (tx_modify (\<lambda>q. q\<lparr>notifications := notifications q @
       [\<lparr>nt_id = i, nt_user = userId, nt_template = templateKey, nt_payload = p, nt_key = dedupeKey, nt_status = N_PENDING,
         nt_attempts = 0, nt_last_error = None, nt_message_id = None, nt_created_at = clock (post_db q), nt_sent_at = None\<rparr>]\<rparr>)) (\<lambda>_.
     tx_return i))))"

record queued_notification =
  qn_id :: id
  qn_created :: bool

definition queue_notification :: "id \<Rightarrow> string \<Rightarrow> string \<Rightarrow> payload \<Rightarrow> (error, post, queued_notification) act" where
  "queue_notification userId templateKey dedupeKey p =
     act_catch
       (act_bind (call (notification_create userId templateKey dedupeKey p)) (\<lambda>i. act_return \<lparr>qn_id = i, qn_created = True\<rparr>))
       (\<lambda>e. if e \<noteq> DUPLICATE_NOTIFICATION then act_throw e
            else act_bind (act_read (notification_by_key dedupeKey)) (\<lambda>existing.
              case existing of
                None \<Rightarrow> act_throw (DbError ''notification not found'')
              | Some n \<Rightarrow> act_return \<lparr>qn_id = nt_id n, qn_created = False\<rparr>))"

record notification_to_send =
  ns_id :: id
  ns_user :: id
  ns_template :: string
  ns_payload :: payload
  ns_attempts :: nat
  ns_chat :: "id option"
  ns_bot_blocked :: bool

definition load :: "id \<Rightarrow> post \<Rightarrow> notification_to_send option" where
  "load i p =
     (case notification_by_id i p of
        None \<Rightarrow> None
      | Some n \<Rightarrow>
          if nt_status n = N_SENT \<or> nt_status n = N_UNDELIVERABLE then None
          else (let account = map_of (telegram_accounts p) (nt_user n)
                in Some \<lparr>ns_id = nt_id n, ns_user = nt_user n, ns_template = nt_template n, ns_payload = nt_payload n,
                     ns_attempts = nt_attempts n, ns_chat = map_option ta_chat account,
                     ns_bot_blocked = (case account of None \<Rightarrow> False | Some a \<Rightarrow> ta_bot_blocked a)\<rparr>))"

definition telegramTargetFor :: "id \<Rightarrow> post \<Rightarrow> (id \<times> bool) option" where
  "telegramTargetFor userId p = map_option (\<lambda>a. (ta_chat a, ta_bot_blocked a)) (map_of (telegram_accounts p) userId)"

definition notification_update :: "id \<Rightarrow> (notification_row \<Rightarrow> notification_row) \<Rightarrow> (error, post, notification_row) tx" where
  "notification_update i f =
     tx_bind (tx_read (notification_by_id i)) (\<lambda>n.
     tx_bind (tx_some n (DbError ''notification not found'')) (\<lambda>n.
     tx_bind (tx_modify (\<lambda>p. p\<lparr>notifications := update_where (\<lambda>q. nt_id q = i) f (notifications p)\<rparr>)) (\<lambda>_.
     tx_return (f n))))"

definition markSent :: "id \<Rightarrow> nat \<Rightarrow> (error, post, unit) tx" where
  "markSent i telegramMessageId =
     tx_bind (tx_read (\<lambda>p. clock (post_db p))) (\<lambda>now.
     tx_bind (notification_update i (\<lambda>n. n\<lparr>nt_status := N_SENT, nt_sent_at := Some now,
       nt_message_id := Some telegramMessageId, nt_attempts := nt_attempts n + 1\<rparr>)) (\<lambda>_. tx_return ()))"

definition markFailed :: "id \<Rightarrow> string \<Rightarrow> (error, post, unit) tx" where
  "markFailed i failure =
     tx_bind (notification_update i (\<lambda>n. n\<lparr>nt_status := N_FAILED, nt_last_error := Some (take 500 failure),
       nt_attempts := nt_attempts n + 1\<rparr>)) (\<lambda>_. tx_return ())"

definition markSuppressed :: "id \<Rightarrow> (error, post, unit) tx" where
  "markSuppressed i = tx_bind (notification_update i (\<lambda>n. n\<lparr>nt_status := N_SUPPRESSED\<rparr>)) (\<lambda>_. tx_return ())"

section \<open>Telling the sender of a blocked bot\<close>

definition REASON_BY_TEMPLATE :: "(string \<times> string) list" where
  "REASON_BY_TEMPLATE = [(''participation.requested.host'', ''JOIN_REQUEST''), (''direct.message_received'', ''DIRECT_MESSAGE''),
     (''participation.accepted'', ''ACCEPTED'')]"

definition senderOf :: "string \<Rightarrow> payload \<Rightarrow> id \<Rightarrow> post \<Rightarrow> id option" where
  "senderOf reason p hostUserId q =
     (if reason = ''ACCEPTED'' then Some hostUserId
      else if reason = ''JOIN_REQUEST'' then
        (case payload_text p ''participantUserPublicId'' of None \<Rightarrow> None | Some guest \<Rightarrow> map_of (public_ids q) guest)
      else
        (case payload_text p ''messagePublicId'' of None \<Rightarrow> None | Some message \<Rightarrow> map_of (message_senders q) message))"

definition blocked_notice :: "id \<Rightarrow> string \<Rightarrow> event_row \<Rightarrow> id \<Rightarrow> post \<Rightarrow> payload option" where
  "blocked_notice blockedUserId reason event senderUserId q =
     (case users (post_db q) senderUserId of
        None \<Rightarrow> None
      | Some sender \<Rightarrow>
          if us_is_seed sender then None
          else Some [(''senderUserPublicId'', JId (us_public_id sender)),
                     (''blockedDisplayName'', JStr (display_name (post_db q) blockedUserId)),
                     (''blockedRole'', JStr (if blockedUserId = ev_host event then ''HOST'' else ''GUEST'')),
                     (''reason'', JStr reason), (''eventPublicId'', JId (ev_public_id event)), (''eventTitle'', JStr (ev_title event))])"

definition blockedCounterpartEvent :: "id \<Rightarrow> string \<Rightarrow> payload \<Rightarrow> post \<Rightarrow> payload option" where
  "blockedCounterpartEvent blockedUserId templateKey p q =
     (case map_of REASON_BY_TEMPLATE templateKey of
        None \<Rightarrow> None
      | Some reason \<Rightarrow>
     (case payload_text p ''eventPublicId'' of
        None \<Rightarrow> None
      | Some eventPublicId \<Rightarrow>
     (case event_by_public_id eventPublicId (post_db q) of
        None \<Rightarrow> None
      | Some event \<Rightarrow>
     (case senderOf reason p (ev_host event) q of
        None \<Rightarrow> None
      | Some senderUserId \<Rightarrow>
          if senderUserId = blockedUserId then None else blocked_notice blockedUserId reason event senderUserId q))))"

definition markUndeliverable :: "id \<Rightarrow> id \<Rightarrow> (error, post, unit) tx" where
  "markUndeliverable i userId =
     tx_bind (notification_update i (\<lambda>n. n\<lparr>nt_status := N_UNDELIVERABLE, nt_attempts := nt_attempts n + 1\<rparr>)) (\<lambda>notification.
     tx_bind (tx_read (\<lambda>p. map_of (telegram_accounts p) userId)) (\<lambda>account.
     case account of
       None \<Rightarrow> tx_return ()
     | Some a \<Rightarrow>
         tx_bind (tx_modify (\<lambda>p. p\<lparr>telegram_accounts := AList.update userId (a\<lparr>ta_bot_blocked := True\<rparr>) (telegram_accounts p)\<rparr>)) (\<lambda>_.
         tx_bind (tx_read (blockedCounterpartEvent userId (nt_template notification) (nt_payload notification))) (\<lambda>notice.
         case notice of
           None \<Rightarrow> tx_return ()
         | Some np \<Rightarrow> at_office (outbox_emit ''notification'' i ''delivery.counterpart_blocked'' np)))))"

section \<open>The relay\<close>

definition resolveUserId :: "id \<Rightarrow> post \<Rightarrow> id option" where
  "resolveUserId publicId p =
     (case map_of (public_ids p) publicId of
        None \<Rightarrow> None
      | Some u \<Rightarrow> (case users (post_db p) u of None \<Rightarrow> None | Some r \<Rightarrow> if us_is_seed r then None else Some u))"

record relay_result =
  ry_processed :: nat
  ry_created :: nat
  ry_queued :: "id list"

definition relay_plan :: "planned_notification \<Rightarrow> relay_result \<Rightarrow> (error, post, relay_result) act" where
  "relay_plan plan result =
     act_bind (act_read (resolveUserId (pl_user_public_id plan))) (\<lambda>userId.
     case userId of
       None \<Rightarrow> act_return result
     | Some u \<Rightarrow>
         act_bind (queue_notification u (pl_template plan) (pl_key plan) (pl_payload plan)) (\<lambda>queued.
         act_return (result\<lparr>ry_created := ry_created result + (if qn_created queued then 1 else 0),
           ry_queued := ry_queued result @ [qn_id queued]\<rparr>)))"

definition mark_processed :: "id \<Rightarrow> (error, post, unit) tx" where
  "mark_processed i = at_office (tx_modify (\<lambda>s. s\<lparr>outbox := update_where (\<lambda>r. ob_id r = i)
     (\<lambda>r. r\<lparr>ob_processed_at := Some (clock s), ob_attempts := ob_attempts r + 1\<rparr>) (outbox s)\<rparr>))"

definition relay_row :: "outbox_row \<Rightarrow> relay_result \<Rightarrow> (error, post, relay_result) act" where
  "relay_row row result =
     act_bind (act_fold relay_plan (planNotifications row) result) (\<lambda>result.
     act_bind (call (mark_processed (ob_id row))) (\<lambda>_.
     act_return (result\<lparr>ry_processed := ry_processed result + 1\<rparr>)))"

definition undelivered :: "db \<Rightarrow> outbox_row list" where
  "undelivered s = sort_key ob_created_at (filter (\<lambda>r. ob_processed_at r = None) (outbox s))"

definition drain :: "nat \<Rightarrow> (error, post, relay_result) act" where
  "drain limit =
     act_bind (act_read (\<lambda>p. take limit (undelivered (post_db p)))) (\<lambda>rows.
     act_fold relay_row rows \<lparr>ry_processed = 0, ry_created = 0, ry_queued = []\<rparr>)"

definition backlog :: "db \<Rightarrow> nat \<times> int option" where
  "backlog s = (length (undelivered s),
     case undelivered s of [] \<Rightarrow> None | r # _ \<Rightarrow> Some (max 0 (clock s - ob_created_at r)))"

section \<open>The worker\<close>

definition enqueue :: "id \<Rightarrow> (error, post, unit) tx" where
  "enqueue i = tx_modify (\<lambda>p. if List.member (jobs p) i then p else p\<lparr>jobs := jobs p @ [i]\<rparr>)"

definition relayOutbox :: "(error, post, unit) act" where
  "relayOutbox =
     act_bind (drain 100) (\<lambda>result.
     if ry_processed result = 0 then act_return ()
     else act_fold (\<lambda>i _. call (enqueue i)) (ry_queued result) ())"

definition DEFAULT_NOTIFICATION_SETTINGS :: notification_settings where
  "DEFAULT_NOTIFICATION_SETTINGS = \<lparr>notify_chat = True, notify_events = True, notify_campaigns = True\<rparr>"

definition settings_get :: "id \<Rightarrow> post \<Rightarrow> notification_settings" where
  "settings_get userId p = (case map_of (user_settings p) userId of None \<Rightarrow> DEFAULT_NOTIFICATION_SETTINGS | Some s \<Rightarrow> s)"

definition settings_update :: "id \<Rightarrow> bool option \<Rightarrow> bool option \<Rightarrow> bool option \<Rightarrow> (error, post, notification_settings) tx" where
  "settings_update userId chat evs campaigns =
     tx_bind (tx_read (settings_get userId)) (\<lambda>old.
     (let new = \<lparr>notify_chat = (case chat of None \<Rightarrow> notify_chat old | Some b \<Rightarrow> b),
        notify_events = (case evs of None \<Rightarrow> notify_events old | Some b \<Rightarrow> b),
        notify_campaigns = (case campaigns of None \<Rightarrow> notify_campaigns old | Some b \<Rightarrow> b)\<rparr>
      in tx_bind (tx_modify (\<lambda>p. p\<lparr>user_settings := AList.update userId new (user_settings p)\<rparr>)) (\<lambda>_. tx_return new)))"

fun wants :: "preference_key \<Rightarrow> notification_settings \<Rightarrow> bool" where
  "wants NOTIFY_CHAT s = notify_chat s"
| "wants NOTIFY_EVENTS s = notify_events s"
| "wants NOTIFY_CAMPAIGNS s = notify_campaigns s"

text \<open>What Telegram answers to a message.\<close>

datatype send_outcome = Accepted nat | Bot_Blocked | Retry string | Rate_Limited string

definition telegram_send :: "id \<Rightarrow> id \<Rightarrow> send_outcome \<Rightarrow> (error, post, unit) tx" where
  "telegram_send chat i outcome =
     tx_modify (\<lambda>p. case outcome of Accepted _ \<Rightarrow> p\<lparr>messages := messages p @ [(chat, i)]\<rparr> | _ \<Rightarrow> p)"

definition after_send :: "notification_to_send \<Rightarrow> send_outcome \<Rightarrow> (error, post, unit) act" where
  "after_send n outcome =
     (case outcome of
        Accepted messageId \<Rightarrow> call (markSent (ns_id n) messageId)
      | Bot_Blocked \<Rightarrow> call (markUndeliverable (ns_id n) (ns_user n))
      | Retry reason \<Rightarrow> act_bind (call (markFailed (ns_id n) reason)) (\<lambda>_. act_throw (DbError reason))
      | Rate_Limited reason \<Rightarrow> act_bind (call (markFailed (ns_id n) reason)) (\<lambda>_. act_throw (DbError reason)))"

definition silenced :: "notification_to_send \<Rightarrow> post \<Rightarrow> bool" where
  "silenced n p =
     (case preferenceKeyFor (notificationCategory (ns_template n)) of
        None \<Rightarrow> False
      | Some preference \<Rightarrow> \<not> wants preference (settings_get (ns_user n) p))"

definition onSend :: "id \<Rightarrow> send_outcome \<Rightarrow> (error, post, unit) act" where
  "onSend notificationId outcome =
     act_bind (act_read (load notificationId)) (\<lambda>notification.
     case notification of
       None \<Rightarrow> act_return ()
     | Some n \<Rightarrow>
     (case ns_chat n of
        None \<Rightarrow> call (markUndeliverable (ns_id n) (ns_user n))
      | Some chat \<Rightarrow>
          if ns_bot_blocked n then call (markUndeliverable (ns_id n) (ns_user n))
          else
            act_bind (act_read (silenced n)) (\<lambda>optedOut.
            if optedOut then call (markSuppressed (ns_id n))
            else if \<not> renders (ns_template n) then call (markFailed (ns_id n) (''unknown template '' @ ns_template n))
            else act_bind (call (telegram_send chat (ns_id n) outcome)) (\<lambda>_. after_send n outcome))))"

end
