(* ===== verification/Desk_Writes.thy ===== *)
theory Desk_Writes
  imports Notifications Participation_Invariant
begin

text \<open>
  What the desk writes outside its own rows, once for every relation one may ask it about: the locale
  \<open>desk_writes\<close> has what a relation between databases must allow, its lemmas go through
  \<^verbatim>\<open>participation.service.ts\<close> operation by operation. A row of the outbox is written with the recipients
  its type announces (\<open>tells\<close>), public identifiers read from the users.
\<close>

section \<open>What a row of the outbox has to name\<close>

text \<open>The types of events the modelled services emit, with the payload keys of those to be told.\<close>

definition ANNOUNCED :: "(string \<times> string list) list" where
  "ANNOUNCED = [
    (''participation.requested'', [''hostUserPublicId'', ''participantUserPublicId'']),
    (''participation.accepted'', [''participantUserPublicId'']),
    (''participation.rejected'', [''participantUserPublicId'']),
    (''participation.cancelled'', [''hostUserPublicId'']),
    (''participation.expired'', [''participantUserPublicId'']),
    (''participation.no_show'', [''participantUserPublicId'']),
    (''waitlist.promoted'', [''promotedUserPublicId'', ''hostUserPublicId'']),
    (''event.reminder_guest'', [''participantUserPublicId'']),
    (''event.reminder_host'', [''hostUserPublicId'']),
    (''event.attendance_prompt'', [''hostUserPublicId'']),
    (''review.window_open'', [''hostUserPublicId'', ''guestUserPublicId'']),
    (''review.revealed'', [''hostUserPublicId'', ''guestUserPublicId'']),
    (''referral.qualified'', [''referrerUserPublicId'', ''referredUserPublicId'']),
    (''delivery.counterpart_blocked'', [''senderUserPublicId''])]"

definition tells :: "(id \<Rightarrow> bool) \<Rightarrow> string \<Rightarrow> payload \<Rightarrow> bool" where
  "tells known eventType p \<longleftrightarrow>
     (case map_of ANNOUNCED eventType of
        None \<Rightarrow> True
      | Some keys \<Rightarrow> list_all (\<lambda>k. case payload_text p k of None \<Rightarrow> False | Some i \<Rightarrow> known i) keys)"

lemmas tells_simps = tells_def ANNOUNCED_def payload_text_def promote_payload_def join_payload_def decision_payload_def

section \<open>The desk, operation by operation\<close>

locale desk_writes =
  fixes R :: "db \<Rightarrow> db \<Rightarrow> bool" and live :: "db \<Rightarrow> bool" and known :: "id \<Rightarrow> bool"
  assumes dead: "\<not> live s \<Longrightarrow> R s s'"
    and trans: "transp R"
    and same: "coin_ledger s' = coin_ledger s \<Longrightarrow> trust_ledger s' = trust_ledger s \<Longrightarrow> settings s' = settings s \<Longrightarrow>
      app_timezone s' = app_timezone s \<Longrightarrow> users s' = users s \<Longrightarrow> outbox s' = outbox s \<Longrightarrow> next_id s \<le> next_id s' \<Longrightarrow> R s s'"
    and coins: "ci_type input \<noteq> REFERRAL_REWARD \<Longrightarrow> tx_rel R (coin_apply input)"
    and penalty: "ci_type input \<noteq> REFERRAL_REWARD \<Longrightarrow> tx_rel R (penalizeWithin input)"
    and reversal: "tx_rel R (reverseWithin i rc acty ai md)"
    and trust: "ti_type tinput \<noteq> T_ATTENDANCE \<Longrightarrow> tx_rel R (trust_apply tinput)"
    and emit: "tells known et p \<Longrightarrow> tx_rel R (outbox_emit agg i et p)"
    and public: "live s \<Longrightarrow> publicIdOf i s = Inr (x, s') \<Longrightarrow> known x"
begin

lemma refl: "reflp R"
  by (rule reflpI) (simp add: same)

text \<open>A public identifier read is one that somebody has.\<close>

lemma public_bind:
  assumes "\<And>x. known x \<Longrightarrow> tx_rel R (f x)"
  shows "tx_rel R (tx_bind (publicIdOf i) f)"
proof (rule tx_relI)
  fix s a s' assume run: "tx_bind (publicIdOf i) f s = Inr (a, s')"
  then obtain x where x: "publicIdOf i s = Inr (x, s)" and more: "f x s = Inr (a, s')"
    by (auto simp: tx_bind_Inr publicIdOf_Inr)
  show "R s s'"
  proof (cases "live s")
    case True
    show ?thesis by (rule tx_relD [OF assms [OF public [OF True x]] more])
  qed (rule dead)
qed

lemma read_bind: "(\<And>s. tx_rel R (f (g s))) \<Longrightarrow> tx_rel R (tx_bind (tx_read g) f)"
  by (auto simp: tx_rel_def)

lemma writes:
  "tx_rel R (audit_record acty ai ac tt ti b a)" "tx_rel R fresh_id" "tx_rel R (participant_update i f)"
  "tx_rel R (event_count_update i d)" "tx_rel R (event_request_count_update i)" "tx_rel R (participant_insert mk)"
  "tx_rel R (assertParticipantTransition x y z)" "tx_rel R (assertEventTransition v w z)"
  by (auto simp: tx_rel_def tx_simps participant_update_def event_count_update_def event_request_count_update_def
      participant_insert_def assertParticipantTransition_def assertEventTransition_def assertTransition_Inr
      intro!: same split: if_splits)

lemmas rules = public_bind read_bind tx_rel_rules refl trans writes coins penalty reversal trust emit

lemma refund: "tx_rel R (refundJoinCharge i rc acty ai)"
  unfolding refundJoinCharge_def refund_step_def by (intro rules)

lemma charge: "tx_rel R (chargeParticipant i u b e)"
  unfolding chargeParticipant_def by (intro rules) (simp_all add: participant_penalty_input_def participant_trust_input_def Let_def)

lemma promote: "tx_rel R (promoteNext ev now d nxt)"
  unfolding promoteNext_def by (rule rules | (simp add: tells_simps; fail))+

lemma fill_loop: "tx_rel R (fillLoop ev now d n out)"
proof (induction ev now d n out rule: fillLoop.induct)
  case (1 ev now d n out)
  show ?case
  proof (cases "ev_accepted_count ev + n < ev_capacity ev")
    case True
    have "tx_rel R (fillLoop ev now d (n + 1) (out @ [p]))" for p by (rule 1) (rule True)
    then show ?thesis
      by (subst fillLoop.simps, simp only: True if_True) (intro rules tx_rel_list promote)
  qed (subst fillLoop.simps, simp add: tx_rel_return refl)
qed

lemma fill: "tx_rel R (fillFreedSeats ev now)"
  unfolding fillFreedSeats_def by (intro rules fill_loop)

lemma seat: "tx_rel R (takeSeat ev)" "tx_rel R (releaseIfHeld st ev)"
  unfolding takeSeat_def releaseIfHeld_def releaseSeat_def assertSeatAvailable_def by (intro rules)+

lemma join_charge: "tx_rel R (joinCharge u e i c)"
  unfolding joinCharge_def by (intro rules) simp

lemmas service_rules = rules refund charge fill seat join_charge

lemma join_tx: "tx_rel R (join_tx u e j h b m c)"
  unfolding join_tx_def assertJoinable_def assertEligible_def Let_def
  by (rule service_rules | (simp add: tells_simps; fail))+

lemma joins: "tx_rel R (join g u e)"
  unfolding join_def loadJoiner_def assertAllowed_def Let_def by (intro service_rules join_tx)

lemma decide: "(\<And>ev p. tx_rel R (f ev p)) \<Longrightarrow> tx_rel R (decide h p f)"
  unfolding decide_def readParticipantByPublicId_def by (intro service_rules)

lemma deciding: "tx_rel R (accept h p)" "tx_rel R (reject h p)"
  unfolding accept_def reject_def accept_apply_def reject_apply_def assertSeatAvailable_def
  by (rule decide service_rules | (simp add: tells_simps; fail))+

lemma cancelling: "tx_rel R (cancel u p r)"
  unfolding cancel_def chargeIfAny_def readParticipantByPublicId_def Let_def
  by (rule service_rules | (simp add: tells_simps; fail))+

lemma seeding: "tx_rel R (seatSeedParticipant e u)"
  unfolding seatSeedParticipant_def assertSeatAvailable_def by (intro service_rules)

lemma expiring: "tx_rel R (expireOne p now)" "tx_rel R (expireWaitlistedOne p now)" "tx_rel R (promoteForEvent e)"
  unfolding expireOne_def expireWaitlistedOne_def promoteForEvent_def readParticipantByPublicId_def
  by (rule service_rules | (simp add: tells_simps; fail))+

lemma desk: "tx_rel R (desk_do x)"
proof (cases x)
  case (Time_Passes d)
  show ?thesis by (auto simp: Time_Passes tx_rel_def intro: same)
qed (simp_all add: tx_void_def tx_rel_bind tx_rel_return refl trans
    join_tx joins deciding cancelling seeding expiring)

end

end
