(* ===== verification/Lifecycle.thy ===== *)
theory Lifecycle
  imports Referral Review_Invariant Desk_Writes
begin

text \<open>
  What happens to an event once its time has come
  (\<^verbatim>\<open>packages/domain/src/events/lifecycle.service.ts\<close>): started events are retired, guests and
  hosts reminded, hosts asked about attendance, attendance settled, which is where trust, the
  review window and the referral reward come from, and a no-show is charged.
\<close>

section \<open>The tables\<close>

definition event_update :: "id \<Rightarrow> (event_row \<Rightarrow> event_row) \<Rightarrow> (error, db, unit) tx" where
  "event_update i f =
     tx_bind (tx_read (event_by_id i)) (\<lambda>e.
     tx_bind (tx_some e (DbError ''event not found'')) (\<lambda>e.
     tx_modify (\<lambda>s. s\<lparr>events := update_where (\<lambda>q. ev_id q = i) f (events s)\<rparr>)))"

text \<open>\<^verbatim>\<open>updateMany\<close> of the row with an identifier while one of its columns is null: whether it was.\<close>

definition event_claim :: "id \<Rightarrow> (event_row \<Rightarrow> instant option) \<Rightarrow> (event_row \<Rightarrow> event_row) \<Rightarrow> (error, db, bool) tx" where
  "event_claim i column f =
     tx_bind (tx_read (\<lambda>s. list_ex (\<lambda>q. ev_id q = i \<and> column q = None) (events s))) (\<lambda>hit.
     tx_bind (tx_modify (\<lambda>s. s\<lparr>events := update_where (\<lambda>q. ev_id q = i \<and> column q = None) f (events s)\<rparr>)) (\<lambda>_.
     tx_return hit))"

definition participant_claim ::
  "id \<Rightarrow> (participant_row \<Rightarrow> instant option) \<Rightarrow> (participant_row \<Rightarrow> participant_row) \<Rightarrow> (error, db, bool) tx" where
  "participant_claim i column f =
     tx_bind (tx_read (\<lambda>s. list_ex (\<lambda>q. pt_id q = i \<and> column q = None) (participants s))) (\<lambda>hit.
     tx_bind (tx_modify (\<lambda>s. s\<lparr>participants := update_where (\<lambda>q. pt_id q = i \<and> column q = None) f (participants s)\<rparr>)) (\<lambda>_.
     tx_return hit))"

definition accepted_in :: "id \<Rightarrow> db \<Rightarrow> participant_row list" where
  "accepted_in e s = filter (\<lambda>r. pt_event r = e \<and> pt_status r = P_ACCEPTED) (participants s)"

section \<open>Retiring\<close>

definition ATTENDANCE_REASON :: string where "ATTENDANCE_REASON = ''attendance.completed''"

definition attendanceTrustKey :: "id \<Rightarrow> string" where
  "attendanceTrustKey participantId = ''trust-attendance:'' @ show_id participantId"

record settlement_result =
  sl_completed :: nat
  sl_expired :: nat
  sl_attended :: nat

definition retire_next :: "event_row \<Rightarrow> nat \<Rightarrow> instant \<Rightarrow> event_status" where
  "retire_next event guests now =
     (if ev_status event = E_PUBLISHED \<and> guests = 0 then E_EXPIRED
      else if ev_ends_at event \<le> now then E_COMPLETED else E_ONGOING)"

text \<open>The new status and its line in the trail.\<close>

definition retire_write :: "event_row \<Rightarrow> nat \<Rightarrow> event_status \<Rightarrow> (error, db, event_status option) tx" where
  "retire_write event guests nxt =
     tx_bind (event_update (ev_id event) (\<lambda>e. e\<lparr>ev_status := nxt, ev_version := ev_version e + 1\<rparr>)) (\<lambda>_.
     tx_bind (audit_record A_SYSTEM None ''event.lifecycle'' ''event'' (Some (ev_id event))
       (Some (JObj [(''status'', JStr (event_status_name (ev_status event)))]))
       (Some (JObj [(''status'', JStr (event_status_name nxt)), (''seated'', JInt (int guests))]))) (\<lambda>_.
     tx_return (Some nxt)))"

definition retireOne :: "id \<Rightarrow> instant \<Rightarrow> (error, db, event_status option) tx" where
  "retireOne publicId now =
     tx_bind (tx_read (event_by_public_id publicId)) (\<lambda>locked.
     case locked of
       None \<Rightarrow> tx_return None
     | Some event \<Rightarrow>
         if ev_deleted_at event \<noteq> None then tx_return None
         else if ev_status event \<noteq> E_PUBLISHED \<and> ev_status event \<noteq> E_ONGOING then tx_return None
         else if now < ev_starts_at event then tx_return None
         else
           tx_bind (tx_read (\<lambda>s. length (accepted_in (ev_id event) s))) (\<lambda>guests.
           (let nxt = retire_next event guests now
            in if nxt = ev_status event then tx_return None
               else
                 tx_bind
                   (if nxt = E_COMPLETED \<and> ev_status event = E_PUBLISHED
                    then tx_bind (assertEventTransition (ev_status event) E_ONGOING (Some (ev_id event))) (\<lambda>_.
                         tx_bind (event_update (ev_id event) (\<lambda>e. e\<lparr>ev_status := E_ONGOING\<rparr>)) (\<lambda>_.
                         assertEventTransition E_ONGOING E_COMPLETED (Some (ev_id event))))
                    else assertEventTransition (ev_status event) nxt (Some (ev_id event))) (\<lambda>_.
                 retire_write event guests nxt))))"

definition retire_candidates :: "nat \<Rightarrow> db \<Rightarrow> id list" where
  "retire_candidates limit s = map ev_public_id (take limit (sort_key ev_starts_at
     (filter (\<lambda>e. List.member [E_PUBLISHED, E_ONGOING] (ev_status e) \<and> ev_deleted_at e = None \<and> ev_starts_at e \<le> clock s)
       (events s))))"

definition retire_turn :: "instant \<Rightarrow> id \<Rightarrow> settlement_result \<Rightarrow> (error, world, settlement_result) act" where
  "retire_turn now publicId result =
     act_bind (in_tx (on_db (retireOne publicId now))) (\<lambda>outcome.
     act_return (result\<lparr>sl_completed := sl_completed result + (if outcome = Some E_COMPLETED then 1 else 0),
       sl_expired := sl_expired result + (if outcome = Some E_EXPIRED then 1 else 0)\<rparr>))"

definition retireStarted :: "nat \<Rightarrow> (error, world, settlement_result) act" where
  "retireStarted limit =
     act_bind (act_read now_of) (\<lambda>now.
     act_bind (act_read (\<lambda>w. retire_candidates limit (base w))) (\<lambda>candidates.
     act_fold (retire_turn now) candidates \<lparr>sl_completed = 0, sl_expired = 0, sl_attended = 0\<rparr>))"

section \<open>Reminding\<close>

datatype reminder_wave = WAVE_FIRST | WAVE_SECOND

definition reminderWaveFor :: "instant \<Rightarrow> instant \<Rightarrow> rat \<Rightarrow> reminder_wave" where
  "reminderWaveFor startsAt now secondWindowMs =
     (let untilStart = startsAt - now in if of_int untilStart \<le> secondWindowMs then WAVE_SECOND else WAVE_FIRST)"

fun wave_name :: "reminder_wave \<Rightarrow> string" where
  "wave_name WAVE_FIRST = ''FIRST''"
| "wave_name WAVE_SECOND = ''SECOND''"

fun wave_column :: "reminder_wave \<Rightarrow> participant_row \<Rightarrow> instant option" where
  "wave_column WAVE_FIRST r = pt_reminded_first_at r"
| "wave_column WAVE_SECOND r = pt_reminded_second_at r"

fun wave_mark :: "reminder_wave \<Rightarrow> instant \<Rightarrow> participant_row \<Rightarrow> participant_row" where
  "wave_mark WAVE_FIRST now r = r\<lparr>pt_reminded_first_at := Some now\<rparr>"
| "wave_mark WAVE_SECOND now r = r\<lparr>pt_reminded_second_at := Some now\<rparr>"

definition remindOneGuest :: "id \<Rightarrow> reminder_wave \<Rightarrow> instant \<Rightarrow> (error, db, bool) tx" where
  "remindOneGuest participantId wave now =
     tx_bind (participant_claim participantId (wave_column wave) (wave_mark wave now)) (\<lambda>claimed.
     if \<not> claimed then tx_return False
     else
       tx_bind (tx_read (participant_by_id participantId)) (\<lambda>participant.
       tx_bind (tx_some participant (DbError ''event_participant not found'')) (\<lambda>participant.
       tx_bind (tx_read (event_by_id (pt_event participant))) (\<lambda>event.
       tx_bind (tx_some event (DbError ''event not found'')) (\<lambda>event.
       tx_bind (publicIdOf (pt_user participant)) (\<lambda>userPub.
       tx_bind (outbox_emit ''event_participant'' participantId ''event.reminder_guest''
         [(''eventPublicId'', JId (ev_public_id event)), (''eventTitle'', JStr (ev_title event)),
          (''startsAt'', JInt (ev_starts_at event)), (''wave'', JStr (wave_name wave)),
          (''participantUserPublicId'', JId userPub), (''participantPublicId'', JId (pt_public_id participant))]) (\<lambda>_.
       tx_return True)))))))"

definition remindGuests :: "id \<Rightarrow> reminder_wave \<Rightarrow> instant \<Rightarrow> (error, world, nat) act" where
  "remindGuests eventId wave now =
     act_bind (act_read (\<lambda>w. map pt_id (sort_key pt_id (filter (\<lambda>r. wave_column wave r = None) (accepted_in eventId (base w)))))) (\<lambda>due.
     act_fold (\<lambda>i sent.
       act_bind (in_tx (on_db (remindOneGuest i wave now))) (\<lambda>b. act_return (sent + (if b then 1 else 0)))) due 0)"

definition host_payload :: "event_row \<Rightarrow> id \<Rightarrow> (string \<times> jval) list" where
  "host_payload event hostPub =
     [(''eventPublicId'', JId (ev_public_id event)), (''eventTitle'', JStr (ev_title event)),
      (''startsAt'', JInt (ev_starts_at event)), (''acceptedCount'', JInt (ev_accepted_count event)),
      (''hostUserPublicId'', JId hostPub)]"

definition remindHost :: "id \<Rightarrow> instant \<Rightarrow> (error, db, bool) tx" where
  "remindHost eventId now =
     tx_bind (event_claim eventId ev_host_reminded_at (\<lambda>e. e\<lparr>ev_host_reminded_at := Some now\<rparr>)) (\<lambda>claimed.
     if \<not> claimed then tx_return False
     else
       tx_bind (tx_read (event_by_id eventId)) (\<lambda>event.
       tx_bind (tx_some event (DbError ''event not found'')) (\<lambda>event.
       tx_bind (publicIdOf (ev_host event)) (\<lambda>hostPub.
       tx_bind (outbox_emit ''event'' eventId ''event.reminder_host'' (host_payload event hostPub)) (\<lambda>_.
       tx_return True)))))"

definition remind_candidates :: "nat \<Rightarrow> rat \<Rightarrow> db \<Rightarrow> event_row list" where
  "remind_candidates limit firstMs s = take limit (sort_key ev_starts_at
     (filter (\<lambda>e. List.member [E_PUBLISHED, E_HIDDEN] (ev_status e) \<and> ev_deleted_at e = None
        \<and> clock s < ev_starts_at e \<and> ev_starts_at e \<le> js_date (of_int (clock s) + firstMs)) (events s)))"

definition remindUpcoming :: "nat \<Rightarrow> (error, world, nat \<times> nat) act" where
  "remindUpcoming limit =
     act_bind (act_read now_of) (\<lambda>now.
     act_bind (act_read (\<lambda>w. getNumber ''reminder.first_hours_before'' (base w) * 3600000)) (\<lambda>firstMs.
     act_bind (act_read (\<lambda>w. getNumber ''reminder.second_hours_before'' (base w) * 3600000)) (\<lambda>secondMs.
     act_bind (act_read (\<lambda>w. remind_candidates limit firstMs (base w))) (\<lambda>candidates.
     act_fold (\<lambda>event (guests, hosts).
       (let wave = reminderWaveFor (ev_starts_at event) now secondMs
        in act_bind (remindGuests (ev_id event) wave now) (\<lambda>sent.
           act_bind (if wave = WAVE_FIRST then in_tx (on_db (remindHost (ev_id event) now)) else act_return False) (\<lambda>host.
           act_return (guests + sent, hosts + (if host then 1 else 0)))))) candidates (0, 0)))))"

definition promptOne :: "id \<Rightarrow> int \<Rightarrow> instant \<Rightarrow> (error, db, bool) tx" where
  "promptOne eventId delayMs now =
     tx_bind (event_claim eventId ev_attendance_prompted_at (\<lambda>e. e\<lparr>ev_attendance_prompted_at := Some now\<rparr>)) (\<lambda>claimed.
     if \<not> claimed then tx_return False
     else
       tx_bind (tx_read (event_by_id eventId)) (\<lambda>event.
       tx_bind (tx_some event (DbError ''event not found'')) (\<lambda>event.
       tx_bind (publicIdOf (ev_host event)) (\<lambda>hostPub.
       tx_bind (outbox_emit ''event'' eventId ''event.attendance_prompt''
         [(''eventPublicId'', JId (ev_public_id event)), (''eventTitle'', JStr (ev_title event)),
          (''hostUserPublicId'', JId hostPub), (''acceptedCount'', JInt (ev_accepted_count event)),
          (''settlesAt'', JInt (ev_ends_at event + delayMs))]) (\<lambda>_.
       tx_return True)))))"

definition prompt_candidates :: "nat \<Rightarrow> int \<Rightarrow> db \<Rightarrow> id list" where
  "prompt_candidates limit delayMs s = map ev_id (take limit (sort_key ev_ends_at
     (filter (\<lambda>e. List.member [E_PUBLISHED, E_ONGOING, E_COMPLETED] (ev_status e) \<and> ev_deleted_at e = None
        \<and> ev_attendance_prompted_at e = None \<and> ev_starts_at e \<le> clock s \<and> ev_ends_at e \<le> clock s
        \<and> clock s - delayMs < ev_ends_at e \<and> accepted_in (ev_id e) s \<noteq> []) (events s))))"

definition promptAttendance :: "nat \<Rightarrow> (error, world, nat) act" where
  "promptAttendance limit =
     act_bind (act_read now_of) (\<lambda>now.
     act_bind (act_read (\<lambda>w. getInt ''participation.settlement_delay_hours'' (base w) * 3600000)) (\<lambda>delayMs.
     act_bind (act_read (\<lambda>w. prompt_candidates limit delayMs (base w))) (\<lambda>candidates.
     act_fold (\<lambda>i prompted.
       act_bind (in_tx (on_db (promptOne i delayMs now))) (\<lambda>b. act_return (prompted + (if b then 1 else 0)))) candidates 0)))"

section \<open>Settling\<close>

definition earned_today :: "id \<Rightarrow> instant \<Rightarrow> db \<Rightarrow> int" where
  "earned_today userId now s =
     (let dayStart = startOfDayIn now (app_timezone s)
      in sum_where (\<lambda>l. tl_user l = userId \<and> tl_type l = T_ATTENDANCE \<and> dayStart \<le> tl_created_at l) tl_delta (trust_ledger s))"

definition creditAttendance :: "id \<Rightarrow> id \<Rightarrow> instant \<Rightarrow> (error, db, unit) tx" where
  "creditAttendance userId participantId now =
     tx_bind (tx_read (\<lambda>s. (getInt ''trust.attendance_delta'' s, getInt ''trust.attendance_daily_cap'' s))) (\<lambda>(delta, dailyCap).
     if delta \<le> 0 \<or> dailyCap \<le> 0 then tx_return ()
     else
       tx_bind (tx_read (earned_today userId now)) (\<lambda>earnedToday.
       (let remaining = dailyCap - earnedToday
        in if remaining \<le> 0 then tx_return ()
           else tx_bind (trust_apply
             \<lparr>ti_user = userId, ti_delta = min delta remaining, ti_type = T_ATTENDANCE, ti_reason = ATTENDANCE_REASON,
              ti_key = attendanceTrustKey participantId, ti_actor_type = A_SYSTEM, ti_actor_id = None,
              ti_ref_type = Some ''event_participant'', ti_ref_id = Some participantId, ti_metadata = None\<rparr>) (\<lambda>_. tx_return ()))))"

definition is_seed :: "id \<Rightarrow> db \<Rightarrow> bool" where
  "is_seed u s = (case users s u of None \<Rightarrow> False | Some r \<Rightarrow> us_is_seed r)"

text \<open>One turn of the loop over the attendees, read with their \<open>isSeed\<close> before it starts.\<close>

definition settle_attendee :: "event_row \<Rightarrow> instant \<Rightarrow> participant_row \<times> bool \<Rightarrow> (error, world, unit) tx" where
  "settle_attendee event now = (\<lambda>(attendee, seed).
     tx_bind (assertParticipantTransition (pt_status attendee) P_COMPLETED (Some (pt_id attendee))) (\<lambda>_.
     tx_bind (on_db (participant_update (pt_id attendee)
       (\<lambda>r. r\<lparr>pt_status := P_COMPLETED, pt_attended := Some True, pt_version := pt_version r + 1\<rparr>))) (\<lambda>_.
     tx_bind
       (if seed then tx_return ()
        else tx_bind (on_db (creditAttendance (pt_user attendee) (pt_id attendee) now)) (\<lambda>_.
             openForParticipant (pt_id attendee) (ev_id event) (ev_ends_at event))) (\<lambda>_.
     on_db (audit_record A_SYSTEM None ''participation.completed'' ''event_participant'' (Some (pt_id attendee))
       (Some (JObj [(''status'', JStr ''ACCEPTED'')]))
       (Some (JObj [(''status'', JStr ''COMPLETED''), (''attended'', JBool True)])))))))"

fun settle_loop :: "event_row \<Rightarrow> instant \<Rightarrow> (participant_row \<times> bool) list \<Rightarrow> (error, world, unit) tx" where
  "settle_loop event now [] = tx_return ()"
| "settle_loop event now (a # as) = tx_bind (settle_attendee event now a) (\<lambda>_. settle_loop event now as)"

definition settle_tx :: "id \<Rightarrow> instant \<Rightarrow> (error, world, id list) tx" where
  "settle_tx publicId now =
     tx_bind (tx_read (\<lambda>w. event_by_public_id publicId (base w))) (\<lambda>locked.
     case locked of
       None \<Rightarrow> tx_return []
     | Some event \<Rightarrow>
         if ev_deleted_at event \<noteq> None then tx_return []
         else
           tx_bind (tx_read (\<lambda>w. map (\<lambda>r. (r, is_seed (pt_user r) (base w))) (accepted_in (ev_id event) (base w)))) (\<lambda>attendees.
           tx_bind (settle_loop event now attendees) (\<lambda>_.
           tx_return (map (\<lambda>(r, _). pt_user r) (filter (\<lambda>(_, seed). \<not> seed) attendees)))))"

definition lifecycle_settleOne :: "id \<Rightarrow> instant \<Rightarrow> (error, world, nat) act" where
  "lifecycle_settleOne publicId now =
     act_bind (in_tx (settle_tx publicId now)) (\<lambda>settled.
     act_bind (act_fold (\<lambda>userId _. act_bind (qualifyForAttendance userId) (\<lambda>_. act_return ())) settled ()) (\<lambda>_.
     act_return (length settled)))"

definition settle_candidates :: "nat \<Rightarrow> instant \<Rightarrow> db \<Rightarrow> id list" where
  "settle_candidates limit settledBefore s = map ev_public_id (take limit (sort_key ev_ends_at
     (filter (\<lambda>e. ev_status e = E_COMPLETED \<and> ev_deleted_at e = None \<and> ev_ends_at e \<le> settledBefore
        \<and> accepted_in (ev_id e) s \<noteq> []) (events s))))"

definition settleAttendance :: "nat \<Rightarrow> (error, world, settlement_result) act" where
  "settleAttendance limit =
     act_bind (act_read now_of) (\<lambda>now.
     act_bind (act_read (\<lambda>w. getInt ''participation.settlement_delay_hours'' (base w))) (\<lambda>delayHours.
     act_bind (act_read (\<lambda>w. settle_candidates limit (now - delayHours * 3600000) (base w))) (\<lambda>candidates.
     act_fold (\<lambda>publicId result.
         act_bind (lifecycle_settleOne publicId now) (\<lambda>n. act_return (result\<lparr>sl_attended := sl_attended result + n\<rparr>)))
       candidates \<lparr>sl_completed = 0, sl_expired = 0, sl_attended = 0\<rparr>)))"

section \<open>A no-show\<close>

definition markNoShow :: "id \<Rightarrow> id \<Rightarrow> (error, db, unit) tx" where
  "markNoShow hostUserId participantPublicId =
     tx_bind (tx_read clock) (\<lambda>now.
     tx_bind (tx_read (event_by_participant participantPublicId)) (\<lambda>event.
     tx_bind (tx_some event (app_error ''NOT_FOUND'')) (\<lambda>event.
     tx_bind (tx_guard (ev_host event = hostUserId) (app_error ''NOT_FOUND'')) (\<lambda>_.
     tx_bind (readParticipantByPublicId participantPublicId) (\<lambda>participant.
     tx_bind (publicIdOf (pt_user participant)) (\<lambda>userPub.
     tx_bind (assertParticipantTransition (pt_status participant) P_NO_SHOW (Some (pt_id participant))) (\<lambda>_.
     tx_bind (tx_guard (\<not> now < ev_ends_at event) (app_error ''INVALID_STATE_TRANSITION'')) (\<lambda>_.
     tx_bind (tx_guard (ev_host_absent_at event = None) (app_error ''INVALID_STATE_TRANSITION'')) (\<lambda>_.
     tx_bind (chargeParticipant (pt_id participant) (pt_user participant) B_NO_SHOW (ev_id event)) (\<lambda>penalty.
     tx_bind (participant_update (pt_id participant) (\<lambda>r. r\<lparr>pt_status := P_NO_SHOW, pt_attended := Some False,
       pt_cancellation_bucket := Some B_NO_SHOW, pt_penalty_ledger_id := ch_ledger_id penalty,
       pt_no_show_notified_at := Some now, pt_version := pt_version r + 1\<rparr>)) (\<lambda>_.
     tx_bind (tx_read (getInt ''cancellation.dispute_window_days'')) (\<lambda>disputeDays.
     tx_bind (audit_record A_USER (Some hostUserId) ''participation.no_show'' ''event_participant'' (Some (pt_id participant))
       (Some (JObj [(''status'', JStr (participant_status_name (pt_status participant)))]))
       (Some (JObj [(''status'', JStr ''NO_SHOW''), (''coinsCharged'', JInt (ch_coins penalty)),
                    (''trustApplied'', JInt (ch_trust penalty))]))) (\<lambda>_.
     outbox_emit ''event_participant'' (pt_id participant) ''participation.no_show''
       [(''participantPublicId'', JId participantPublicId), (''eventPublicId'', JId (ev_public_id event)),
        (''eventTitle'', JStr (ev_title event)), (''coinsCharged'', JInt (ch_coins penalty)),
        (''participantUserPublicId'', JId userPub), (''disputeClosesAt'', JInt (now + disputeDays * 86400000))])))))))))))))"

end
