(* ===== verification/Lifecycle_Invariant.thy ===== *)
theory Lifecycle_Invariant
  imports Lifecycle
begin

text \<open>
  What the timed jobs and the desk keep. A step of any of them leaves the rows of referrals and
  attendance alone unless it is the one operation that writes them (\<open>quiet\<close>), moves events and
  participations only along their transition tables without giving or taking a place it does not
  account for (\<open>goes_on\<close>), and keeps attendance trust under its daily cap (\<open>daily_capped\<close>). Together
  these are the invariant \<open>life_wf\<close>; \<open>life_op\<close> and \<open>life_do\<close> are the calls a run consists of, and the
  interpretation at the end gives the invariant of every run.
\<close>

section \<open>The desk leaves referrals alone\<close>

interpretation desk_quiet: desk_writes "quiet z" "\<lambda>_. True" "\<lambda>_. True" for z
  by unfold_locales (simp_all add: quiet_same quiet_transp quiet_writes coin_apply_quiet penalize_quiet reverse_quiet trust_apply_quiet)

lemmas desk_quiet_rules = quiet_rules desk_quiet.writes
lemmas desk_service_rules = desk_quiet_rules desk_quiet.refund desk_quiet.charge desk_quiet.fill desk_quiet.seat desk_quiet.join_charge

section \<open>What the timed jobs keep of the desk\<close>

text \<open>
  Rows stay where they are, move along their tables, and keep their seat; marks may be set.
\<close>

abbreviation leads_to :: "'s transition_table \<Rightarrow> 's \<Rightarrow> 's \<Rightarrow> bool" where
  "leads_to T \<equiv> (\<lambda>a b. b \<in> set (T a))\<^sup>*\<^sup>*"

definition goes_on :: "participant_row \<Rightarrow> participant_row \<Rightarrow> bool" where
  "goes_on r r' \<longleftrightarrow> pt_id r' = pt_id r \<and> pt_public_id r' = pt_public_id r \<and> pt_event r' = pt_event r
     \<and> pt_user r' = pt_user r \<and> pt_requested_at r' = pt_requested_at r
     \<and> leads_to PARTICIPANT_TRANSITIONS (pt_status r) (pt_status r')
     \<and> seated (pt_status r') = seated (pt_status r) \<and> (participant_checks r \<longrightarrow> participant_checks r')"

definition event_goes_on :: "event_row \<Rightarrow> event_row \<Rightarrow> bool" where
  "event_goes_on e e' \<longleftrightarrow> ev_id e' = ev_id e \<and> ev_public_id e' = ev_public_id e \<and> ev_host e' = ev_host e
     \<and> ev_capacity e' = ev_capacity e \<and> ev_accepted_count e' = ev_accepted_count e
     \<and> leads_to EVENT_TRANSITIONS (ev_status e) (ev_status e')"

definition desk_goes_on :: "db \<Rightarrow> db \<Rightarrow> bool" where
  "desk_goes_on s s' \<longleftrightarrow> list_all2 goes_on (participants s) (participants s') \<and> list_all2 event_goes_on (events s) (events s')
     \<and> clock s' = clock s \<and> next_id s \<le> next_id s'"

lemma goes_on_refl: "goes_on r r" and event_goes_on_refl: "event_goes_on e e"
  by (simp_all add: goes_on_def event_goes_on_def)

lemma goes_on_trans: "goes_on a b \<Longrightarrow> goes_on b c \<Longrightarrow> goes_on a c"
  and event_goes_on_trans: "event_goes_on d e \<Longrightarrow> event_goes_on e f \<Longrightarrow> event_goes_on d f"
  unfolding goes_on_def event_goes_on_def by (auto elim: rtranclp_trans)

lemma desk_goes_on_refl: "desk_goes_on s s"
  by (simp add: desk_goes_on_def list_all2_refl goes_on_refl event_goes_on_refl)

lemma desk_goes_on_trans: "desk_goes_on a b \<Longrightarrow> desk_goes_on b c \<Longrightarrow> desk_goes_on a c"
  unfolding desk_goes_on_def
  by (auto intro: list_all2_trans [OF goes_on_trans] list_all2_trans [OF event_goes_on_trans])

lemma desk_goes_on_reflp: "reflp desk_goes_on" and desk_goes_on_transp: "transp desk_goes_on"
  by (auto simp: reflp_def desk_goes_on_refl intro: transpI desk_goes_on_trans)

lemma desk_frame_goes_on: "desk_frame s s' \<Longrightarrow> desk_goes_on s s'"
  by (simp add: desk_frame_def desk_goes_on_def list_all2_refl goes_on_refl event_goes_on_refl)

lemma desk_goes_on_wf:
  assumes "desk_goes_on s s'" and wf: "desk_wf s"
  shows "desk_wf s'"
proof -
  have p: "list_all2 goes_on (participants s) (participants s')" and e: "list_all2 event_goes_on (events s) (events s')"
    and up: "clock s' = clock s" "next_id s \<le> next_id s'" using assms(1) by (simp_all add: desk_goes_on_def)
  have "map pt_id (participants s') = map pt_id (participants s)" "map pt_public_id (participants s') = map pt_public_id (participants s)"
    "map (\<lambda>r. (pt_event r, pt_user r)) (participants s') = map (\<lambda>r. (pt_event r, pt_user r)) (participants s)"
    by (rule list_all2_keys [OF p], simp add: goes_on_def)+
  moreover have "map ev_id (events s') = map ev_id (events s)" "map ev_public_id (events s') = map ev_public_id (events s)"
    by (rule list_all2_keys [OF e], simp add: event_goes_on_def)+
  moreover have "pt_id q < next_id s' \<and> pt_public_id q < next_id s' \<and> participant_checks q \<and> pt_requested_at q \<le> clock s'"
    if "q \<in> set (participants s')" for q
    using list_all2_mem [OF p that] wf up by (force simp: desk_wf_def goes_on_def)
  ultimately show ?thesis using wf by (simp add: desk_wf_def)
qed

lemma desk_goes_on_seats:
  assumes "desk_goes_on s s'" and ok: "seats_ok s"
  shows "seats_ok s'"
proof -
  have p: "list_all2 goes_on (participants s) (participants s')" and e: "list_all2 event_goes_on (events s) (events s')"
    using assms(1) by (simp_all add: desk_goes_on_def)
  have "taken i s' = taken i s" for i
    unfolding taken_def by (rule list_all2_count [OF p]) (simp add: goes_on_def)
  then show ?thesis using ok list_all2_mem [OF e] by (fastforce simp: seats_ok_def event_goes_on_def)
qed

lemma completed_is_final: "leads_to PARTICIPANT_TRANSITIONS P_COMPLETED st \<Longrightarrow> st = P_COMPLETED"
  by (erule converse_rtranclpE) simp_all

lemma desk_goes_on_attended:
  assumes "desk_goes_on s s'" and "has_attended u s"
  shows "has_attended u s'"
proof -
  have rows: "list_all2 goes_on (participants s) (participants s')" using assms(1) by (simp add: desk_goes_on_def)
  from assms(2) obtain r where "r \<in> set (participants s)" "pt_user r = u" "pt_status r = P_COMPLETED" by (auto simp: has_attended_def)
  with list_all2_mem' [OF rows] obtain r' where "r' \<in> set (participants s')" "goes_on r r'" by blast
  with \<open>pt_user r = u\<close> \<open>pt_status r = P_COMPLETED\<close> completed_is_final show ?thesis
    by (auto simp: has_attended_def goes_on_def)
qed

lemma desk_do_attended:
  assumes "desk_do x s = Inr (a, s')" and "desk_wf s" and "has_attended u s"
  shows "has_attended u s'"
  using desk_do_kept [OF assms(1,2)] assms(3) completed_is_final
  unfolding has_attended_def participation_kept_def kept_row_def by metis

section \<open>What attending earns in a day\<close>

definition trust_since :: "id \<Rightarrow> instant \<Rightarrow> trust_ledger_row list \<Rightarrow> int" where
  "trust_since u t rows = sum_where (\<lambda>l. tl_user l = u \<and> t \<le> tl_created_at l) tl_delta rows"

text \<open>With every row, what the day it fell on had earned its owner so far was within the cap.\<close>

definition daily_capped :: "db \<Rightarrow> bool" where
  "daily_capped s \<longleftrightarrow> (\<forall>earlier l later. attendance_rows s = earlier @ l # later \<longrightarrow>
     trust_since (tl_user l) (startOfDayIn (tl_created_at l) (app_timezone s)) (earlier @ [l])
       \<le> getInt ''trust.attendance_daily_cap'' s)"

lemma daily_capped_same:
  assumes "daily_capped s" and "attendance_rows s' = attendance_rows s" "settings s' = settings s" "app_timezone s' = app_timezone s"
  shows "daily_capped s'"
  using assms(1,2,4) getInt_settings [OF assms(3)] by (simp add: daily_capped_def)

lemma daily_capped_quiet: "quiet True s s' \<Longrightarrow> daily_capped s \<Longrightarrow> daily_capped s'"
  by (erule daily_capped_same) (simp_all add: quiet_def)

lemma earned_today_since: "earned_today u now s = trust_since u (startOfDayIn now (app_timezone s)) (attendance_rows s)"
  unfolding earned_today_def trust_since_def attendance_rows_def sum_where_def Let_def filter_filter
  by (rule arg_cong [where f = sum_list], rule arg_cong [where f = "map tl_delta"], rule filter_cong) auto

lemma creditAttendance_capped:
  assumes run: "creditAttendance u i (clock s) s = Inr (x, s')" and cap: "daily_capped s"
  shows "daily_capped s'"
proof (cases "getInt ''trust.attendance_delta'' s \<le> 0 \<or> getInt ''trust.attendance_daily_cap'' s \<le> 0
    \<or> getInt ''trust.attendance_daily_cap'' s - earned_today u (clock s) s \<le> 0")
  case True
  with run have "s' = s" by (auto simp: creditAttendance_def Let_def tx_simps split: if_splits)
  with cap show ?thesis by simp
next
  case False
  let ?left = "getInt ''trust.attendance_daily_cap'' s - earned_today u (clock s) s"
  let ?in = "\<lparr>ti_user = u, ti_delta = min (getInt ''trust.attendance_delta'' s) ?left, ti_type = T_ATTENDANCE,
      ti_reason = ATTENDANCE_REASON, ti_key = attendanceTrustKey i, ti_actor_type = A_SYSTEM, ti_actor_id = None,
      ti_ref_type = Some ''event_participant'', ti_ref_id = Some i, ti_metadata = None\<rparr>"
  from run False obtain m where pay: "trust_apply ?in s = Inr (m, s')"
    by (auto simp: creditAttendance_def Let_def tx_simps)
  note f = trust_frame_simps(2,3) [OF trust_apply_frame [OF pay]]
  from pay show ?thesis
  proof (cases rule: trust_apply_attendance)
    case 1
    then show ?thesis using daily_capped_same [OF cap _ f(2,1)] by simp
  next
    case (2 b)
    let ?l = "trust_row ?in b (clock s) (next_id (seeded (ti_user ?in) s))"
    have "tl_delta ?l \<le> ?left" using 2(3,4) False by (simp add: clampScore_def TRUST_MIN_SCORE_def TRUST_MAX_SCORE_def)
    then have new: "trust_since u (startOfDayIn (clock s) (app_timezone s)) (attendance_rows s @ [?l])
        \<le> getInt ''trust.attendance_daily_cap'' s"
      using False by (simp add: trust_since_def earned_today_since)
    show ?thesis
      unfolding daily_capped_def 2(1) append_split_iff f(1)
      using cap new getInt_settings [OF f(2)] by (auto simp: daily_capped_def)
  qed
qed

text \<open>The whole state of the runs below.\<close>

definition life_wf :: "referral_policy \<Rightarrow> world \<Rightarrow> bool" where
  "life_wf p w \<longleftrightarrow> referral_wf p w \<and> desk_wf (base w) \<and> seats_ok (base w) \<and> daily_capped (base w)"

lemma life_wf_goes_on:
  assumes wf: "life_wf p w" and "referrals w' = referrals w" and "quiet z (base w) (base w')" and "desk_goes_on (base w) (base w')"
    and "daily_capped (base w')"
  shows "life_wf p w'"
  unfolding life_wf_def
proof (intro conjI)
  show "referral_wf p w'"
    by (rule referral_wf_frame [OF _ assms(2,3)]) (use wf desk_goes_on_attended [OF assms(4)] in \<open>simp_all add: life_wf_def\<close>)
  show "desk_wf (base w')" "seats_ok (base w')"
    using wf desk_goes_on_wf [OF assms(4)] desk_goes_on_seats [OF assms(4)] by (simp_all add: life_wf_def)
qed (rule assms(5))

lemma life_in_db:
  assumes "tx_rel (quiet True) m" and "\<And>s a s'. desk_wf s \<Longrightarrow> m s = Inr (a, s') \<Longrightarrow> desk_goes_on s s'"
  shows "act_inv (life_wf p) (in_tx (on_db m))"
proof (rule act_inv_in_tx)
  fix w a w' assume wf: "life_wf p w" and "on_db m w = Inr (a, w')"
  then obtain s where s: "m (base w) = Inr (a, s)" "w' = w\<lparr>base := s\<rparr>" by (auto simp: on_db_Inr)
  have q: "quiet True (base w) s" by (rule tx_relD [OF assms(1) s(1)])
  show "life_wf p w'"
    by (rule life_wf_goes_on [OF wf, where z = True])
       (use s wf assms(2) q daily_capped_quiet [OF q] in \<open>simp_all add: life_wf_def\<close>)
qed

section \<open>The jobs\<close>

lemma goes_on_rules:
  "tx_rel desk_goes_on (audit_record acty ai ac tt ti b a)" "tx_rel desk_goes_on (outbox_emit agg i et pl)"
  "tx_rel desk_goes_on (publicIdOf u)" "tx_rel desk_goes_on (trust_apply input)"
  using audit_desk outbox_desk publicIdOf_desk trust_apply_desk by (blast intro: tx_relI dest: tx_relD desk_frame_goes_on)+

lemma event_claim_goes_on: "(\<And>e. event_goes_on e (f e)) \<Longrightarrow> tx_rel desk_goes_on (event_claim i c f)"
  by (auto simp: tx_rel_def event_claim_def tx_simps desk_goes_on_def list_all2_refl goes_on_refl event_goes_on_refl intro: list_all2_update)

lemma participant_claim_goes_on: "(\<And>r. goes_on r (f r)) \<Longrightarrow> tx_rel desk_goes_on (participant_claim i c f)"
  by (auto simp: tx_rel_def participant_claim_def tx_simps desk_goes_on_def list_all2_refl goes_on_refl event_goes_on_refl intro: list_all2_update)

lemma claims_quiet: "tx_rel (quiet z) (event_claim i c f)" "tx_rel (quiet z) (participant_claim j d g)"
  "tx_rel (quiet z) (event_update i f)"
  by (auto simp: tx_rel_def event_claim_def participant_claim_def event_update_def tx_simps intro!: quiet_same)

lemma wave_mark_goes_on: "goes_on r (wave_mark wave now r)"
  by (cases wave) (simp_all add: goes_on_def participant_checks_def)

lemma remindOneGuest_inv: "act_inv (life_wf p) (in_tx (on_db (remindOneGuest i wave now)))"
proof (rule life_in_db)
  show "tx_rel (quiet True) (remindOneGuest i wave now)"
    unfolding remindOneGuest_def by (intro desk_quiet_rules claims_quiet)
  have "tx_rel desk_goes_on (remindOneGuest i wave now)"
    unfolding remindOneGuest_def
    by (intro tx_rel_rules desk_goes_on_reflp desk_goes_on_transp goes_on_rules participant_claim_goes_on wave_mark_goes_on)
  then show "desk_goes_on s s'" if "remindOneGuest i wave now s = Inr (a, s')" for s a s' using that by (rule tx_relD)
qed

lemma remindHost_inv: "act_inv (life_wf p) (in_tx (on_db (remindHost i now)))"
proof (rule life_in_db)
  show "tx_rel (quiet True) (remindHost i now)"
    unfolding remindHost_def by (intro desk_quiet_rules claims_quiet)
  have "tx_rel desk_goes_on (remindHost i now)"
    unfolding remindHost_def
    by (intro tx_rel_rules desk_goes_on_reflp desk_goes_on_transp goes_on_rules event_claim_goes_on) (simp add: event_goes_on_def)
  then show "desk_goes_on s s'" if "remindHost i now s = Inr (a, s')" for s a s' using that by (rule tx_relD)
qed

lemma promptOne_inv: "act_inv (life_wf p) (in_tx (on_db (promptOne i d now)))"
proof (rule life_in_db)
  show "tx_rel (quiet True) (promptOne i d now)"
    unfolding promptOne_def by (intro desk_quiet_rules claims_quiet)
  have "tx_rel desk_goes_on (promptOne i d now)"
    unfolding promptOne_def
    by (intro tx_rel_rules desk_goes_on_reflp desk_goes_on_transp goes_on_rules event_claim_goes_on) (simp add: event_goes_on_def)
  then show "desk_goes_on s s'" if "promptOne i d now s = Inr (a, s')" for s a s' using that by (rule tx_relD)
qed

section \<open>Retiring one event\<close>

lemma event_update_Inr:
  "event_update i f s = Inr (u, s') \<longleftrightarrow> event_by_id i s \<noteq> None \<and> s' = s\<lparr>events := update_where (\<lambda>q. ev_id q = i) f (events s)\<rparr>"
  by (auto simp: event_update_def tx_simps)

lemma event_by_public_id_Some: "event_by_public_id p s = Some ev \<Longrightarrow> ev \<in> set (events s) \<and> ev_public_id ev = p"
  unfolding event_by_public_id_def by (rule find_key_mem)

text \<open>When an event is due, and the row it becomes.\<close>

definition retires :: "event_row \<Rightarrow> nat \<Rightarrow> instant \<Rightarrow> bool" where
  "retires ev guests now \<longleftrightarrow> ev_deleted_at ev = None \<and> List.member [E_PUBLISHED, E_ONGOING] (ev_status ev)
     \<and> ev_starts_at ev \<le> now \<and> retire_next ev guests now \<noteq> ev_status ev"

definition retired :: "nat \<Rightarrow> instant \<Rightarrow> event_row \<Rightarrow> event_row" where
  "retired guests now ev = ev\<lparr>ev_status := retire_next ev guests now, ev_version := ev_version ev + 1\<rparr>"

lemma retire_next_cases:
  assumes "retires ev g now"
  obtains "ev_status ev = E_PUBLISHED" "retire_next ev g now = E_EXPIRED" "g = 0"
  | "ev_status ev = E_PUBLISHED" "retire_next ev g now = E_COMPLETED" "ev_ends_at ev \<le> now"
  | "ev_status ev = E_PUBLISHED" "retire_next ev g now = E_ONGOING" "now < ev_ends_at ev"
  | "ev_status ev = E_ONGOING" "retire_next ev g now = E_COMPLETED" "ev_ends_at ev \<le> now"
  using assms by (auto simp: retires_def retire_next_def not_le split: if_splits)

lemma retire_leads:
  assumes "retires ev g now"
  shows "leads_to EVENT_TRANSITIONS (ev_status ev) (retire_next ev g now)"
proof -
  have "leads_to EVENT_TRANSITIONS E_PUBLISHED E_COMPLETED"
    by (rule rtranclp.rtrancl_into_rtrancl [of _ _ E_ONGOING]) (auto intro: r_into_rtranclp)
  note long = this
  from assms show ?thesis by (cases rule: retire_next_cases) (use long in \<open>auto intro: r_into_rtranclp\<close>)
qed

lemma assertEvent_app: "b \<in> set (EVENT_TRANSITIONS a) \<Longrightarrow> assertEventTransition a b i = tx_return ()"
  by (simp add: assertEventTransition_def assertTransition_def canTransition_def)

lemma event_update_bind:
  "event_by_id i s = Some e \<Longrightarrow>
   tx_bind (event_update i f) k s = k () (s\<lparr>events := update_where (\<lambda>q. ev_id q = i) f (events s)\<rparr>)"
  by (rule tx_bind_InrI) (simp add: event_update_Inr)

lemma audit_bind:
  "tx_bind (audit_record acty ai ac tt ti b a) k s = k () (s\<lparr>audit_log := audit_log s @
     [\<lparr>au_actor_type = acty, au_actor_id = ai, au_action = ac, au_target_type = tt, au_target_id = ti, au_before = b,
       au_after = a, au_created_at = clock s\<rparr>]\<rparr>)"
  by (rule tx_bind_InrI) (simp add: audit_record_Inr)

definition lifecycle_audit :: "event_row \<Rightarrow> nat \<Rightarrow> event_status \<Rightarrow> instant \<Rightarrow> audit_row" where
  "lifecycle_audit ev g nxt now = \<lparr>au_actor_type = A_SYSTEM, au_actor_id = None, au_action = ''event.lifecycle'',
     au_target_type = ''event'', au_target_id = Some (ev_id ev),
     au_before = Some (JObj [(''status'', JStr (event_status_name (ev_status ev)))]),
     au_after = Some (JObj [(''status'', JStr (event_status_name nxt)), (''seated'', JInt (int g))]), au_created_at = now\<rparr>"

lemma retire_write_app:
  assumes "event_by_id (ev_id ev) s = Some e"
  shows "retire_write ev g nxt s = Inr (Some nxt,
    s\<lparr>events := update_where (\<lambda>q. ev_id q = ev_id ev) (\<lambda>e. e\<lparr>ev_status := nxt, ev_version := ev_version e + 1\<rparr>) (events s),
      audit_log := audit_log s @ [lifecycle_audit ev g nxt (clock s)]\<rparr>)"
  unfolding retire_write_def by (simp add: event_update_bind [OF assms] audit_bind lifecycle_audit_def)

text \<open>The transaction on one event: nothing, or the new row and one line of the trail.\<close>

lemma retireOne_app:
  assumes ev: "event_by_public_id pid s = Some ev" and wf: "desk_wf s"
  defines "g \<equiv> length (accepted_in (ev_id ev) s)"
  shows "retireOne pid now s =
    (if retires ev g now
     then Inr (Some (retire_next ev g now),
       s\<lparr>events := update_where (\<lambda>q. ev_id q = ev_id ev) (\<lambda>_. retired g now ev) (events s),
         audit_log := audit_log s @ [lifecycle_audit ev g (retire_next ev g now) (clock s)]\<rparr>)
     else Inr (None, s))"
proof -
  have id: "event_by_id (ev_id ev) s = Some ev" by (rule event_by_public_id_row [OF wf ev])
  have mem: "ev \<in> set (events s)" using event_by_public_id_Some [OF ev] by simp
  have d: "distinct (map ev_id (events s))" using wf by (simp add: desk_wf_def)
  define f where "f = (\<lambda>e :: event_row. e\<lparr>ev_status := retire_next ev g now, ev_version := ev_version e + 1\<rparr>)"
  let ?on = "s\<lparr>events := update_where (\<lambda>q. ev_id q = ev_id ev) (\<lambda>e. e\<lparr>ev_status := E_ONGOING\<rparr>) (events s)\<rparr>"
  have still: "event_by_id (ev_id ev) ?on = Some (ev\<lparr>ev_status := E_ONGOING\<rparr>)"
    using id by (simp add: event_by_id_def find_update_key)
  have one: "update_where (\<lambda>q. ev_id q = ev_id ev) f (events s) = update_where (\<lambda>q. ev_id q = ev_id ev) (\<lambda>_. retired g now ev) (events s)"
    using update_where_only [OF d mem refl, of f] by (simp add: retired_def f_def)
  have two: "update_where (\<lambda>q. ev_id q = ev_id ev) f (update_where (\<lambda>q. ev_id q = ev_id ev) (\<lambda>e. e\<lparr>ev_status := E_ONGOING\<rparr>) (events s))
      = update_where (\<lambda>q. ev_id q = ev_id ev) f (events s)"
    by (rule update_where_twice) (simp_all add: f_def)
  have gs: "length (accepted_in (ev_id ev) s) = g" by (simp add: g_def)
  let ?fin = "Inr (Some (retire_next ev g now),
       s\<lparr>events := update_where (\<lambda>q. ev_id q = ev_id ev) (\<lambda>_. retired g now ev) (events s),
         audit_log := audit_log s @ [lifecycle_audit ev g (retire_next ev g now) (clock s)]\<rparr>)"
  have direct: "retire_write ev g (retire_next ev g now) s = ?fin"
    using retire_write_app [OF id, of g "retire_next ev g now"] one by (simp add: f_def)
  have through: "retire_write ev g (retire_next ev g now) ?on = ?fin"
    using retire_write_app [OF still, of g "retire_next ev g now"] one two by (simp add: f_def)
  show ?thesis
  proof (cases "retires ev g now")
    case True
    have first: "tx_bind
        (if retire_next ev g now = E_COMPLETED \<and> ev_status ev = E_PUBLISHED
         then tx_bind (assertEventTransition (ev_status ev) E_ONGOING (Some (ev_id ev))) (\<lambda>_.
              tx_bind (event_update (ev_id ev) (\<lambda>e. e\<lparr>ev_status := E_ONGOING\<rparr>)) (\<lambda>_.
              assertEventTransition E_ONGOING E_COMPLETED (Some (ev_id ev))))
         else assertEventTransition (ev_status ev) (retire_next ev g now) (Some (ev_id ev)))
        (\<lambda>_. retire_write ev g (retire_next ev g now)) s = ?fin"
      using True
      by (cases rule: retire_next_cases)
         (use direct through in \<open>simp_all add: assertEvent_app tx_bind_assoc event_update_bind [OF id]\<close>)
    have pre: "\<not> ev_deleted_at ev \<noteq> None" "\<not> (ev_status ev \<noteq> E_PUBLISHED \<and> ev_status ev \<noteq> E_ONGOING)" "\<not> now < ev_starts_at ev"
      "\<not> retire_next ev g now = ev_status ev" using True by (auto simp: retires_def)
    have "retireOne pid now s = ?fin"
      unfolding retireOne_def tx_bind_read ev option.case if_not_P [OF pre(1)] if_not_P [OF pre(2)] if_not_P [OF pre(3)] Let_def
      by (simp only: gs if_not_P [OF pre(4)] first)
    then show ?thesis using True by simp
  next
    case False
    then show ?thesis
      unfolding retireOne_def by (auto simp: ev retires_def Let_def g_def tx_bind_def tx_read_def)
  qed
qed

lemma retireOne_None: "event_by_public_id pid s = None \<Longrightarrow> retireOne pid now s = Inr (None, s)"
  by (simp add: retireOne_def)

lemma retireOne_inv: "act_inv (life_wf p) (in_tx (on_db (retireOne pid now)))"
proof (rule life_in_db)
  show "tx_rel (quiet True) (retireOne pid now)"
    unfolding retireOne_def retire_write_def Let_def by (intro desk_quiet_rules claims_quiet)
  fix s a s' assume wf: "desk_wf s" and run: "retireOne pid now s = Inr (a, s')"
  show "desk_goes_on s s'"
  proof (cases "event_by_public_id pid s")
    case None
    with run show ?thesis by (simp add: retireOne_None desk_goes_on_refl)
  next
    case (Some ev)
    let ?g = "length (accepted_in (ev_id ev) s)"
    have mem: "ev \<in> set (events s)" using event_by_public_id_Some [OF Some] by simp
    have d: "distinct (map ev_id (events s))" using wf by (simp add: desk_wf_def)
    have "list_all2 event_goes_on (events s) (update_where (\<lambda>q. ev_id q = ev_id ev) (\<lambda>_. retired ?g now ev) (events s))" if "retires ev ?g now"
    proof (rule list_all2_update)
      fix q assume "q \<in> set (events s)" "ev_id q = ev_id ev"
      then have "q = ev" using distinct_key_eq [OF d _ mem] by blast
      then show "event_goes_on q (retired ?g now ev)" using retire_leads [OF that] by (simp add: event_goes_on_def retired_def)
    qed (rule event_goes_on_refl)
    then show ?thesis
      using run unfolding retireOne_app [OF Some wf]
      by (auto simp: desk_goes_on_def list_all2_refl goes_on_refl event_goes_on_refl split: if_splits)
  qed
qed

section \<open>Settling one event\<close>

lemma participant_update_Inr:
  "participant_update i f s = Inr (x, s') \<longleftrightarrow> (\<exists>r. participant_by_id i s = Some r \<and> participant_checks (f r) \<and> x = f r
     \<and> s' = s\<lparr>participants := update_where (\<lambda>q. pt_id q = i) (\<lambda>_. f r) (participants s)\<rparr>)"
  by (auto simp: participant_update_def tx_simps)

lemma participant_by_id_mem:
  "distinct (map pt_id (participants s)) \<Longrightarrow> r \<in> set (participants s) \<Longrightarrow> participant_by_id (pt_id r) s = Some r"
  unfolding participant_by_id_def by (rule find_key_unique)

text \<open>A participation that has its place, moved on while keeping it.\<close>

lemma settled_row_goes_on:
  assumes up: "participant_update (pt_id r) f s = Inr (x, s')" and wf: "desk_wf s" and r: "r \<in> set (participants s)"
    and keys: "pt_id (f r) = pt_id r" "pt_public_id (f r) = pt_public_id r" "pt_event (f r) = pt_event r" "pt_user (f r) = pt_user r"
      "pt_requested_at (f r) = pt_requested_at r"
    and st: "pt_status (f r) \<in> set (PARTICIPANT_TRANSITIONS (pt_status r))" "seated (pt_status (f r)) = seated (pt_status r)"
  shows "desk_goes_on s s' \<and> participants s' = update_where (\<lambda>q. pt_id q = pt_id r) (\<lambda>_. f r) (participants s)"
proof -
  have d: "distinct (map pt_id (participants s))" using wf by (simp add: desk_wf_def)
  from up have chk: "participant_checks (f r)"
    and s': "s' = s\<lparr>participants := update_where (\<lambda>q. pt_id q = pt_id r) (\<lambda>_. f r) (participants s)\<rparr>"
    using participant_by_id_mem [OF d r] by (auto simp: participant_update_Inr)
  have "list_all2 goes_on (participants s) (update_where (\<lambda>q. pt_id q = pt_id r) (\<lambda>_. f r) (participants s))"
  proof (rule list_all2_update)
    fix q assume "q \<in> set (participants s)" "pt_id q = pt_id r"
    then have "q = r" using distinct_key_eq [OF d _ r] by blast
    then show "goes_on q (f r)" using keys st chk by (auto simp: goes_on_def)
  qed (rule goes_on_refl)
  then show ?thesis by (simp add: s' desk_goes_on_def list_all2_refl event_goes_on_refl)
qed

text \<open>What a transaction on the world may do: referrals stand, the database goes on, the daily cap holds.\<close>

definition life_frame :: "world \<Rightarrow> world \<Rightarrow> bool" where
  "life_frame w w' \<longleftrightarrow> referrals w' = referrals w \<and> quiet False (base w) (base w') \<and> desk_goes_on (base w) (base w')
     \<and> (daily_capped (base w) \<longrightarrow> daily_capped (base w'))"

lemma life_frame_refl: "life_frame w w"
  by (simp add: life_frame_def quiet_same desk_goes_on_refl)

lemma life_frame_trans: "life_frame a b \<Longrightarrow> life_frame b c \<Longrightarrow> life_frame a c"
  unfolding life_frame_def by (auto intro: desk_goes_on_trans transpD [OF quiet_transp])

lemma on_db_life:
  assumes "on_db m w = Inr (a, w')" and "tx_rel (quiet True) m" and "tx_rel desk_frame m"
  shows "life_frame w w' \<and> participants (base w') = participants (base w)"
proof -
  from assms(1) obtain s where s: "m (base w) = Inr (a, s)" "w' = w\<lparr>base := s\<rparr>" by (auto simp: on_db_Inr)
  have q: "quiet True (base w) s" by (rule tx_relD [OF assms(2) s(1)])
  show ?thesis
    using quiet_mono [OF q, of False] daily_capped_quiet [OF q] tx_relD [OF assms(3) s(1)] desk_frame_goes_on [of "base w" s]
    by (simp add: s(2) life_frame_def desk_frame_def)
qed

lemma creditAttendance_quiet: "tx_rel (quiet False) (creditAttendance u i now)" "tx_rel desk_frame (creditAttendance u i now)"
  unfolding creditAttendance_def Let_def by (intro quiet_rules tx_rel_prod, simp, intro desk_rules tx_rel_prod)

lemma creditAttendance_life:
  assumes "on_db (creditAttendance u i (now_of w)) w = Inr (a, w')"
  shows "life_frame w w' \<and> participants (base w') = participants (base w)"
proof -
  from assms obtain s where s: "creditAttendance u i (now_of w) (base w) = Inr (a, s)" "w' = w\<lparr>base := s\<rparr>" by (auto simp: on_db_Inr)
  show ?thesis
    using tx_relD [OF creditAttendance_quiet(1) s(1)] tx_relD [OF creditAttendance_quiet(2) s(1)] desk_frame_goes_on [of "base w" s]
      creditAttendance_capped [OF s(1)]
    by (simp add: s(2) life_frame_def desk_frame_def)
qed

lemma openForParticipant_life:
  "openForParticipant i e t w = Inr (x, w') \<Longrightarrow> life_frame w w' \<and> participants (base w') = participants (base w)"
  by (auto simp: openForParticipant_def tx_simps Let_def life_frame_def desk_goes_on_def list_all2_refl goes_on_refl event_goes_on_refl
      intro!: quiet_same daily_capped_same [of "base w"] simp: attendance_rows_def split: option.splits)

lemma settle_attendee_life:
  assumes run: "settle_attendee ev (now_of w) (r, seed) w = Inr (x, w')" and wf: "desk_wf (base w)"
    and r: "r \<in> set (participants (base w))" "pt_status r = P_ACCEPTED"
  shows "life_frame w w' \<and> participants (base w') = update_where (\<lambda>q. pt_id q = pt_id r)
    (\<lambda>_. r\<lparr>pt_status := P_COMPLETED, pt_attended := Some True, pt_version := pt_version r + 1\<rparr>) (participants (base w))"
proof -
  define f where "f = (\<lambda>r :: participant_row. r\<lparr>pt_status := P_COMPLETED, pt_attended := Some True, pt_version := pt_version r + 1\<rparr>)"
  from run obtain w0 x1 w1 x2 w2 where
    a: "assertParticipantTransition (pt_status r) P_COMPLETED (Some (pt_id r)) w = Inr ((), w0)" and
    up: "on_db (participant_update (pt_id r) f) w0 = Inr (x1, w1)" and
    mid: "(if seed then tx_return ()
        else tx_bind (on_db (creditAttendance (pt_user r) (pt_id r) (now_of w))) (\<lambda>_.
             openForParticipant (pt_id r) (ev_id ev) (ev_ends_at ev))) w1 = Inr (x2, w2)" and
    aud: "on_db (audit_record A_SYSTEM None ''participation.completed'' ''event_participant'' (Some (pt_id r))
       (Some (JObj [(''status'', JStr ''ACCEPTED'')]))
       (Some (JObj [(''status'', JStr ''COMPLETED''), (''attended'', JBool True)]))) w2 = Inr (x, w')"
    unfolding settle_attendee_def f_def by (auto elim!: tx_bindE)
  have "w0 = w" using a by (auto simp: assertParticipantTransition_def assertTransition_Inr)
  with up obtain s1 where s1: "participant_update (pt_id r) f (base w) = Inr (x1, s1)" "w1 = w\<lparr>base := s1\<rparr>" by (auto simp: on_db_Inr)
  have row: "desk_goes_on (base w) s1 \<and> participants s1 = update_where (\<lambda>q. pt_id q = pt_id r) (\<lambda>_. f r) (participants (base w))"
    by (rule settled_row_goes_on [OF s1(1) wf r(1)]) (simp_all add: f_def r(2))
  have q: "quiet True (base w) s1" by (rule tx_relD [OF quiet_writes(5) s1(1)])
  from row have 1: "life_frame w w1"
    using quiet_mono [OF q, of False] daily_capped_quiet [OF q] by (simp add: life_frame_def s1(2))
  have 2: "life_frame w1 w2 \<and> participants (base w2) = participants (base w1)"
  proof (cases seed)
    case True
    with mid show ?thesis by (simp add: life_frame_refl)
  next
    case False
    from mid [unfolded if_not_P [OF False]] obtain y w3 where
      "on_db (creditAttendance (pt_user r) (pt_id r) (now_of w)) w1 = Inr (y, w3)"
      "openForParticipant (pt_id r) (ev_id ev) (ev_ends_at ev) w3 = Inr (x2, w2)" by (rule tx_bindE)
    moreover have "now_of w1 = now_of w" using 1 by (simp add: life_frame_def desk_goes_on_def)
    ultimately have "on_db (creditAttendance (pt_user r) (pt_id r) (now_of w1)) w1 = Inr (y, w3)"
      "openForParticipant (pt_id r) (ev_id ev) (ev_ends_at ev) w3 = Inr (x2, w2)" by simp_all
    note c = creditAttendance_life [OF this(1)] and op = openForParticipant_life [OF this(2)]
    show ?thesis using life_frame_trans [OF conjunct1 [OF c] conjunct1 [OF op]] c op by simp
  qed
  have 3: "life_frame w2 w' \<and> participants (base w') = participants (base w2)"
    by (rule on_db_life [OF aud quiet_writes(1) audit_desk])
  have "life_frame w w'" by (rule life_frame_trans [OF 1 life_frame_trans [OF conjunct1 [OF 2] conjunct1 [OF 3]]])
  then show ?thesis using 2 3 row by (simp add: s1(2) f_def)
qed

lemma settle_loop_life:
  "settle_loop ev now as w = Inr (x, w') \<Longrightarrow> now = now_of w \<Longrightarrow> desk_wf (base w) \<Longrightarrow> distinct (map (pt_id \<circ> fst) as) \<Longrightarrow>
   (\<forall>a\<in>set as. fst a \<in> set (participants (base w)) \<and> pt_status (fst a) = P_ACCEPTED) \<Longrightarrow> life_frame w w'"
proof (induction "as" arbitrary: w)
  case Nil
  then show ?case by (simp add: tx_simps life_frame_refl)
next
  case (Cons a "as")
  obtain r seed where a: "a = (r, seed)" by (cases a)
  from Cons.prems(1) obtain y w1 where one: "settle_attendee ev (now_of w) (r, seed) w = Inr (y, w1)" and
    rest: "settle_loop ev now as w1 = Inr (x, w')" using Cons.prems(2) by (auto simp: a elim!: tx_bindE)
  have r: "r \<in> set (participants (base w))" "pt_status r = P_ACCEPTED" using Cons.prems(5) by (auto simp: a)
  from settle_attendee_life [OF one Cons.prems(3) r]
  have f: "life_frame w w1" and rows: "participants (base w1) = update_where (\<lambda>q. pt_id q = pt_id r)
    (\<lambda>_. r\<lparr>pt_status := P_COMPLETED, pt_attended := Some True, pt_version := pt_version r + 1\<rparr>) (participants (base w))" by auto
  have "fst b \<in> set (participants (base w1)) \<and> pt_status (fst b) = P_ACCEPTED" if b: "b \<in> set as" for b
  proof -
    have "pt_id (fst b) \<noteq> pt_id r" using Cons.prems(4) b by (force simp: a)
    then show ?thesis using Cons.prems(5) b by (auto simp: rows set_update_where)
  qed
  moreover have "desk_wf (base w1)" using desk_goes_on_wf [OF _ Cons.prems(3)] f by (simp add: life_frame_def)
  moreover have "now = now_of w1" using Cons.prems(2) f by (simp add: life_frame_def desk_goes_on_def)
  ultimately have "life_frame w1 w'" using Cons.IH [OF rest] Cons.prems(4) by simp
  with f show ?case by (rule life_frame_trans)
qed

lemma settle_tx_life:
  assumes "settle_tx pid now w = Inr (x, w')" and now: "now = now_of w" and wf: "desk_wf (base w)"
  shows "life_frame w w'"
proof (cases "event_by_public_id pid (base w)")
  case None
  with assms show ?thesis by (simp add: settle_tx_def tx_simps life_frame_refl)
next
  case (Some ev)
  show ?thesis
  proof (cases "ev_deleted_at ev = None")
    case False
    with assms Some show ?thesis by (simp add: settle_tx_def tx_simps life_frame_refl)
  next
    case True
    let ?as = "map (\<lambda>r. (r, is_seed (pt_user r) (base w))) (accepted_in (ev_id ev) (base w))"
    from assms(1) True Some obtain y w1 where "settle_loop ev now ?as w = Inr (y, w1)" "w' = w1"
      by (auto simp: settle_tx_def elim!: tx_bindE tx_returnE)
    moreover have "distinct (map (pt_id \<circ> fst) ?as)"
      using wf by (simp add: desk_wf_def accepted_in_def comp_def distinct_map_filter)
    ultimately show ?thesis
      using settle_loop_life [OF _ now wf, of ev ?as] by (auto simp: accepted_in_def)
  qed
qed

lemma settle_tx_wf:
  assumes wf: "life_wf p w" and run: "settle_tx pid (now_of w) w = Inr (a, w')"
  shows "life_wf p w'" "now_of w' = now_of w"
proof -
  have f: "life_frame w w'" by (rule settle_tx_life [OF run refl]) (use wf in \<open>simp add: life_wf_def\<close>)
  then show "life_wf p w'" using wf life_wf_goes_on [OF wf, of w' False] by (simp add: life_frame_def life_wf_def)
  show "now_of w' = now_of w" using f by (simp add: life_frame_def desk_goes_on_def)
qed

section \<open>A no-show\<close>

lemma markNoShow_quiet: "tx_rel (quiet z) (markNoShow h p)"
  unfolding markNoShow_def readParticipantByPublicId_def by (intro desk_service_rules)

lemma assertParticipant_Inr:
  "assertParticipantTransition a b i s = Inr (u, s') \<longleftrightarrow> b \<in> set (PARTICIPANT_TRANSITIONS a) \<and> s' = s"
  by (simp add: assertParticipantTransition_def assertTransition_Inr)

lemma to_no_show: "P_NO_SHOW \<in> set (PARTICIPANT_TRANSITIONS st) \<Longrightarrow> st = P_ACCEPTED"
  by (cases st) simp_all

lemma markNoShow_goes_on:
  assumes run: "markNoShow h p s = Inr (x, s')" and wf: "desk_wf s"
  shows "desk_goes_on s s'"
proof -
  from run obtain ev :: event_row and part s0 pub s1 x1 s2 pen s3 row s4 days x5 s5 where
    part: "readParticipantByPublicId p s = Inr (part, s0)" and
    pub: "publicIdOf (pt_user part) s0 = Inr (pub, s1)" and
    st: "assertParticipantTransition (pt_status part) P_NO_SHOW (Some (pt_id part)) s1 = Inr (x1, s2)" and
    pay: "chargeParticipant (pt_id part) (pt_user part) B_NO_SHOW (ev_id ev) s2 = Inr (pen, s3)" and
    up: "participant_update (pt_id part) (\<lambda>r. r\<lparr>pt_status := P_NO_SHOW, pt_attended := Some False,
       pt_cancellation_bucket := Some B_NO_SHOW, pt_penalty_ledger_id := ch_ledger_id pen,
       pt_no_show_notified_at := Some (clock s), pt_version := pt_version r + 1\<rparr>) s3 = Inr (row, s4)" and
    aud: "audit_record A_USER (Some h) ''participation.no_show'' ''event_participant'' (Some (pt_id part))
       (Some (JObj [(''status'', JStr (participant_status_name (pt_status part)))]))
       (Some (JObj [(''status'', JStr ''NO_SHOW''), (''coinsCharged'', JInt (ch_coins pen)),
                    (''trustApplied'', JInt (ch_trust pen))])) s4 = Inr (x5, s5)" and
    out: "outbox_emit ''event_participant'' (pt_id part) ''participation.no_show''
       [(''participantPublicId'', JId p), (''eventPublicId'', JId (ev_public_id ev)),
        (''eventTitle'', JStr (ev_title ev)), (''coinsCharged'', JInt (ch_coins pen)),
        (''participantUserPublicId'', JId pub), (''disputeClosesAt'', JInt (clock s + days * 86400000))] s5 = Inr (x, s')"
    unfolding markNoShow_def
    by (elim tx_readE tx_someE tx_guardE tx_bindE) (rule that, assumption+)
  from part have part: "participant_by_public_id p s = Some part" and "s0 = s"
    by (auto simp: readParticipantByPublicId_def tx_simps)
  from st have "s2 = s1" and acc: "pt_status part = P_ACCEPTED" by (auto simp: assertParticipant_Inr dest: to_no_show)
  with \<open>s0 = s\<close> tx_relD [OF publicIdOf_desk pub] money_desk_frame [OF tx_relD [OF chargeParticipant_frame pay]]
  have f: "desk_frame s s3" by (auto intro: desk_frame_trans)
  have wf3: "desk_wf s3" by (rule frame_wf [OF f wf])
  have mem: "part \<in> set (participants s3)"
    using f find_key_mem [OF part [unfolded participant_by_public_id_def]] by (simp add: desk_frame_def)
  have "desk_goes_on s3 s4"
    by (rule conjunct1 [OF settled_row_goes_on [OF up wf3 mem]]) (simp_all add: acc)
  moreover have "desk_frame s4 s'"
    using tx_relD [OF audit_desk aud] tx_relD [OF outbox_desk out] by (rule desk_frame_trans)
  ultimately show ?thesis using f by (blast intro: desk_goes_on_trans desk_frame_goes_on)
qed

section \<open>Runs\<close>

text \<open>
  The jobs of the worker, hosts reporting no-shows, everything the desk does, invitations being
  claimed and looked at, and movements of coins that are somebody else's business.
\<close>

datatype life_op =
    Retire nat
  | Remind nat
  | Prompt nat
  | Settle nat
  | No_Show id id
  | At_Desk desk_op
  | Claim_Invite "utext \<Rightarrow> utext" id utext
  | See_Invites id "nat \<Rightarrow> nat list"
  | Coins_Elsewhere coin_input

fun life_do :: "life_op \<Rightarrow> (error, world, unit) act" where
  "life_do (Retire n) = act_void (retireStarted n)"
| "life_do (Remind n) = act_void (remindUpcoming n)"
| "life_do (Prompt n) = act_void (promptAttendance n)"
| "life_do (Settle n) = act_void (settleAttendance n)"
| "life_do (No_Show h p) = in_tx (on_db (markNoShow h p))"
| "life_do (At_Desk x) = in_tx (on_db (desk_do x))"
| "life_do (Claim_Invite upper u c) = act_void (claim upper u c)"
| "life_do (See_Invites u draws) = act_void (summaryFor u draws)"
| "life_do (Coins_Elsewhere input) =
     in_tx (on_db (if ci_type input = REFERRAL_REWARD then tx_throw (DbError ''not a movement of another service'')
            else tx_bind (coin_apply input) (\<lambda>_. tx_return ())))"

lemma desk_do_inv: "act_inv (life_wf p) (in_tx (on_db (desk_do x)))"
proof (rule act_inv_in_tx)
  fix w a w' assume wf: "life_wf p w" and "on_db (desk_do x) w = Inr (a, w')"
  then obtain s where s: "desk_do x (base w) = Inr (a, s)" "w' = w\<lparr>base := s\<rparr>" by (auto simp: on_db_Inr)
  have "referral_wf p w'"
    by (rule referral_wf_frame [of _ w])
       (use s wf tx_relD [OF desk_quiet.desk s(1)] desk_do_attended [OF s(1)] in \<open>simp_all add: life_wf_def\<close>)
  then show "life_wf p w'"
    using s wf desk_do_wf [OF s(1)] desk_do_seats [OF s(1)] daily_capped_quiet [OF tx_relD [OF desk_quiet.desk s(1)]]
    by (simp add: life_wf_def)
qed

text \<open>Nothing of the desk, of time, or of the trust for attending.\<close>

definition calm :: "db \<Rightarrow> db \<Rightarrow> bool" where
  "calm s s' \<longleftrightarrow> desk_frame s s' \<and> attendance_rows s' = attendance_rows s \<and> app_timezone s' = app_timezone s"

definition calm_base :: "world \<Rightarrow> world \<Rightarrow> bool" where
  "calm_base w w' \<longleftrightarrow> calm (base w) (base w')"

lemma calm_reflp: "reflp calm" and calm_transp: "transp calm"
  by (auto simp: reflp_def calm_def desk_frame_refl intro!: transpI intro: desk_frame_trans)

lemma calm_base_reflp: "reflp calm_base" and calm_base_transp: "transp calm_base"
  using calm_reflp transpD [OF calm_transp] by (auto simp: reflp_def calm_base_def intro!: transpI)

lemma calm_writes: "tx_rel calm (audit_record acty ai ac tt ti b a)" "tx_rel calm (outbox_emit agg i et pl)" "tx_rel calm (publicIdOf u)"
  by (auto simp: tx_rel_def tx_simps calm_def desk_frame_def attendance_rows_def)

lemma coin_apply_calm: "tx_rel calm (coin_apply input)"
proof (rule tx_relI)
  fix s m s' assume "coin_apply input s = Inr (m, s')"
  note f = coin_apply_frame [OF this]
  show "calm s s'" using coin_desk_frame [OF f] coin_frame_simps(2,10) [OF f] by (simp add: calm_def attendance_rows_def)
qed

lemma on_db_calm: "tx_rel calm m \<Longrightarrow> tx_rel calm_base (on_db m)"
  by (auto simp: tx_rel_def tx_simps calm_base_def)

lemma modify_calm: "(\<And>w. base (f w) = base w) \<Longrightarrow> tx_rel calm_base (tx_modify f)"
  by (auto simp: tx_rel_def calm_base_def calm_def desk_frame_refl)

lemma fresh_calm: "tx_rel calm_base fresh"
  by (auto simp: tx_rel_def tx_simps calm_base_def calm_def desk_frame_def attendance_rows_def)

lemmas calm_rules = tx_rel_rules calm_reflp calm_transp calm_writes coin_apply_calm
lemmas calm_base_rules = tx_rel_rules calm_base_reflp calm_base_transp on_db_calm modify_calm fresh_calm act_rel_rules

lemma pay_referral_calm: "tx_rel calm (pay_referral c mk)"
  unfolding pay_referral_def coin_apply_number_def by (intro calm_rules)

lemma qualified_emit_calm: "tx_rel calm (qualified_emit i a b c e)"
  unfolding qualified_emit_def by (intro calm_rules)

lemma referral_update_calm: "tx_rel calm_base (referral_update_many i q f)"
  unfolding referral_update_many_def by (intro calm_base_rules) simp

lemma qualify_calm: "act_rel calm_base (qualifyForAttendance u)"
  unfolding qualifyForAttendance_def qualify_tx_def qualify_pay_def
  by (intro calm_base_rules referral_update_calm pay_referral_calm qualified_emit_calm calm_writes)

lemma claim_calm: "act_rel calm_base (claim upper u c)"
  unfolding claim_def assertClaimWindow_def referral_create_def Let_def
  by (intro calm_base_rules qualify_calm calm_writes) simp

lemma code_attempts_calm: "act_rel calm_base (code_attempts n u draws k)"
  by (induction n arbitrary: k) (auto simp: Let_def set_referral_code_def intro!: calm_base_rules)

lemma summary_calm: "act_rel calm_base (summaryFor u draws)"
  unfolding summaryFor_def codeFor_def by (intro calm_base_rules code_attempts_calm)

lemma life_from_calm:
  assumes "act_inv (referral_wf p) m" and "act_rel calm_base m" and wf: "life_wf p w"
  shows "life_wf p (snd (m w)) \<and> now_of (snd (m w)) = now_of w"
proof -
  have c: "calm (base w) (base (snd (m w)))" using assms(2) by (simp add: act_rel_def calm_base_def)
  then have f: "desk_frame (base w) (base (snd (m w)))" by (simp add: calm_def)
  have "daily_capped (base (snd (m w)))"
    by (rule daily_capped_same [of "base w"]) (use wf c in \<open>simp_all add: life_wf_def calm_def desk_frame_def\<close>)
  then show ?thesis
    using wf assms(1) frame_wf [OF f] desk_goes_on_seats [OF desk_frame_goes_on [OF f]] f
    by (simp add: life_wf_def act_inv_def desk_frame_def)
qed

lemma life_calm_inv: "act_inv (referral_wf p) m \<Longrightarrow> act_rel calm_base m \<Longrightarrow> act_inv (life_wf p) m"
  using life_from_calm unfolding act_inv_def [of "life_wf p"] by blast

text \<open>The state at one moment; a sweep reads the clock once.\<close>

definition life_at :: "referral_policy \<Rightarrow> instant \<Rightarrow> world \<Rightarrow> bool" where
  "life_at p t w \<longleftrightarrow> life_wf p w \<and> now_of w = t"

lemma qualify_inv: "act_inv (life_at p t) (qualifyForAttendance u)"
  unfolding act_inv_def life_at_def using life_from_calm [OF qualify_wf qualify_calm] by blast

lemma settleOne_inv: "act_inv (life_at p t) (lifecycle_settleOne pid t)"
proof -
  have "act_inv (life_at p t) (in_tx (settle_tx pid t))"
  proof (rule act_inv_in_tx)
    fix w a w' assume "life_at p t w" and run: "settle_tx pid t w = Inr (a, w')"
    then have wf: "life_wf p w" and t: "t = now_of w" by (simp_all add: life_at_def)
    show "life_at p t w'" using settle_tx_wf [OF wf run [unfolded t]] t by (simp add: life_at_def)
  qed
  then show ?thesis
    unfolding lifecycle_settleOne_def by (intro act_inv_rules qualify_inv)
qed

lemma settle_inv: "act_inv (life_wf p) (settleAttendance n)"
  unfolding act_inv_def
proof (intro allI impI)
  fix w assume "life_wf p w"
  then have at_now: "life_at p (now_of w) w" by (simp add: life_at_def)
  have loop: "act_inv (life_at p (now_of w)) (act_fold (\<lambda>publicId result.
         act_bind (lifecycle_settleOne publicId (now_of w)) (\<lambda>n. act_return (result\<lparr>sl_attended := sl_attended result + n\<rparr>))) cs res)"
    for cs res by (intro act_inv_rules settleOne_inv)
  let ?cs = "settle_candidates n (now_of w - getInt ''participation.settlement_delay_hours'' (base w) * 3600000) (base w)"
  from loop [of ?cs "\<lparr>sl_completed = 0, sl_expired = 0, sl_attended = 0\<rparr>"] at_now
  have "life_at p (now_of w) (snd (settleAttendance n w))"
    unfolding act_inv_def by (simp add: settleAttendance_def)
  then show "life_wf p (snd (settleAttendance n w))" by (simp add: life_at_def)
qed

lemma no_show_inv: "act_inv (life_wf p) (in_tx (on_db (markNoShow h q)))"
  by (rule life_in_db [OF markNoShow_quiet markNoShow_goes_on])

lemma coins_elsewhere_inv:
  "act_inv (life_wf p) (in_tx (on_db (if ci_type input = REFERRAL_REWARD then tx_throw e
     else tx_bind (coin_apply input) (\<lambda>_. tx_return ()))))"
proof (cases "ci_type input = REFERRAL_REWARD")
  case True
  then show ?thesis by (auto intro!: act_inv_in_tx simp: on_db_Inr tx_simps)
next
  case False
  have d: "tx_rel desk_frame (tx_bind (coin_apply input) (\<lambda>_. tx_return ()))" by (intro desk_rules)
  show ?thesis
    unfolding if_not_P [OF False]
    by (rule life_in_db) (intro quiet_rules, fact False, rule desk_frame_goes_on, erule tx_relD [OF d])
qed

lemma life_do_inv: "act_inv (life_wf p) (life_do x)"
proof (cases x)
  case (Retire n)
  show ?thesis unfolding Retire life_do.simps retireStarted_def retire_turn_def
    by (intro act_void_inv act_inv_rules retireOne_inv)
next
  case (Remind n)
  show ?thesis unfolding Remind life_do.simps remindUpcoming_def remindGuests_def Let_def
    by (intro act_void_inv act_inv_rules act_inv_prod remindOneGuest_inv remindHost_inv)
next
  case (Prompt n)
  show ?thesis unfolding Prompt life_do.simps promptAttendance_def
    by (intro act_void_inv act_inv_rules promptOne_inv)
next
  case (Settle n)
  show ?thesis unfolding Settle life_do.simps by (intro act_void_inv settle_inv)
next
  case (No_Show h q)
  show ?thesis unfolding No_Show life_do.simps by (rule no_show_inv)
next
  case (At_Desk d)
  show ?thesis unfolding At_Desk life_do.simps by (rule desk_do_inv)
next
  case (Claim_Invite upper u c)
  show ?thesis unfolding Claim_Invite life_do.simps by (rule act_void_inv, rule life_calm_inv [OF claim_wf claim_calm])
next
  case (See_Invites u draws)
  show ?thesis unfolding See_Invites life_do.simps by (rule act_void_inv, rule life_calm_inv [OF summary_wf summary_calm])
next
  case (Coins_Elsewhere input)
  show ?thesis unfolding Coins_Elsewhere life_do.simps by (rule coins_elsewhere_inv)
qed

interpretation life_calls: calls life_do "life_wf p" for p
  by unfold_locales (rule life_do_inv)

end
