(* ===== verification/Lifecycle_Sweep.thy ===== *)
theory Lifecycle_Sweep
  imports Lifecycle_Invariant
begin

text \<open>
  The sweep of started events as a whole: what one turn does to the event it visits does not
  depend on the turns before it, so the fold over the batch is one map over the table.
\<close>

section \<open>A whole sweep of started events\<close>

definition guests_of :: "db \<Rightarrow> event_row \<Rightarrow> nat" where
  "guests_of s e = length (accepted_in (ev_id e) s)"

definition swept :: "instant \<Rightarrow> db \<Rightarrow> event_row \<Rightarrow> event_row" where
  "swept now s e = (if retires e (guests_of s e) now then retired (guests_of s e) now e else e)"

definition swept_to :: "event_status \<Rightarrow> instant \<Rightarrow> db \<Rightarrow> id set \<Rightarrow> nat" where
  "swept_to st now s cs = count_where (\<lambda>e. ev_public_id e \<in> cs \<and> retires e (guests_of s e) now \<and> retire_next e (guests_of s e) now = st) (events s)"

lemma swept_keys [simp]: "ev_public_id (swept now s e) = ev_public_id e" "ev_id (swept now s e) = ev_id e"
  by (simp_all add: swept_def retired_def)

lemma swept_participants: "participants s' = participants s \<Longrightarrow> swept now s' = swept now s"
  by (rule ext) (simp add: swept_def guests_of_def accepted_in_def)

lemma sweep_one:
  assumes wf: "desk_wf s"
  shows "\<exists>trail. retireOne c now s = Inr
     (case event_by_public_id c s of
        None \<Rightarrow> None
      | Some ev \<Rightarrow> if retires ev (guests_of s ev) now then Some (retire_next ev (guests_of s ev) now) else None,
      s\<lparr>events := map (\<lambda>e. if ev_public_id e = c then swept now s e else e) (events s), audit_log := audit_log s @ trail\<rparr>)"
proof (cases "event_by_public_id c s")
  case None
  then have "map (\<lambda>e. if ev_public_id e = c then swept now s e else e) (events s) = events s"
    by (auto simp: event_by_public_id_def find_None_iff intro: map_idI)
  then show ?thesis by (intro exI [of _ "[]"]) (simp add: None retireOne_None)
next
  case (Some ev)
  have mem: "ev \<in> set (events s)" and pub: "ev_public_id ev = c" using event_by_public_id_Some [OF Some] by auto
  have d: "distinct (map ev_id (events s))" "distinct (map ev_public_id (events s))" using wf by (simp_all add: desk_wf_def)
  have only: "e = ev" if "e \<in> set (events s)" "ev_id e = ev_id ev \<or> ev_public_id e = c" for e
    using that distinct_key_eq [OF d(1) that(1) mem] distinct_key_eq [OF d(2) that(1) mem] pub by metis
  let ?g = "guests_of s ev"
  show ?thesis
  proof (cases "retires ev ?g now")
    case True
    have "update_where (\<lambda>q. ev_id q = ev_id ev) (\<lambda>_. retired ?g now ev) (events s)
        = map (\<lambda>e. if ev_public_id e = c then swept now s e else e) (events s)"
      unfolding update_where_def using only True pub by (auto simp: swept_def)
    then show ?thesis
      using retireOne_app [OF Some wf, of now] True
      by (intro exI [of _ "[lifecycle_audit ev ?g (retire_next ev ?g now) (clock s)]"]) (simp add: Some guests_of_def)
  next
    case False
    have "map (\<lambda>e. if ev_public_id e = c then swept now s e else e) (events s) = events s"
      by (rule map_idI) (use only False in \<open>auto simp: swept_def\<close>)
    then show ?thesis
      using retireOne_app [OF Some wf, of now] False by (intro exI [of _ "[]"]) (simp add: Some guests_of_def)
  qed
qed

lemma swept_to_insert:
  assumes wf: "desk_wf s" and new: "c \<notin> cs"
  shows "swept_to st now s (insert c cs) =
    (case event_by_public_id c s of
       None \<Rightarrow> 0
     | Some ev \<Rightarrow> if retires ev (guests_of s ev) now \<and> retire_next ev (guests_of s ev) now = st then 1 else 0) + swept_to st now s cs"
proof -
  let ?q = "\<lambda>e. retires e (guests_of s e) now \<and> retire_next e (guests_of s e) now = st"
  have "swept_to st now s (insert c cs) = count_where (\<lambda>e. ev_public_id e = c \<and> ?q e) (events s) + swept_to st now s cs"
    unfolding swept_to_def by (subst count_where_disj [symmetric]) (use new in \<open>auto intro!: count_where_cong\<close>)
  then show ?thesis
    using wf count_where_find [of ev_public_id "events s" c ?q] by (simp add: desk_wf_def event_by_public_id_def)
qed

lemma swept_to_one:
  assumes "c \<notin> cs" and "participants s' = participants s"
    and "events s' = map (\<lambda>e. if ev_public_id e = c then swept now s e else e) (events s)"
  shows "swept_to st now s' cs = swept_to st now s cs"
proof -
  have g: "guests_of s' = guests_of s" using assms(2) by (simp add: guests_of_def accepted_in_def fun_eq_iff)
  show ?thesis
    unfolding swept_to_def assms(3) count_where_map g by (rule count_where_cong) (use assms(1) in auto)
qed

lemma sweep_fold:
  assumes "distinct cs" and "desk_wf (base w)"
  shows "\<exists>trail. act_fold (retire_turn now) cs res w =
    (Inr (res\<lparr>sl_completed := sl_completed res + swept_to E_COMPLETED now (base w) (set cs),
        sl_expired := sl_expired res + swept_to E_EXPIRED now (base w) (set cs)\<rparr>),
     w\<lparr>base := (base w)\<lparr>events := map (\<lambda>e. if ev_public_id e \<in> set cs then swept now (base w) e else e) (events (base w)),
       audit_log := audit_log (base w) @ trail\<rparr>\<rparr>)"
  using assms
proof (induction cs arbitrary: w res)
  case Nil
  then show ?case by (intro exI [of _ "[]"]) (simp add: swept_to_def count_where_zero)
next
  case (Cons c cs)
  let ?s = "base w"
  obtain trail1 x where one: "retireOne c now ?s = Inr (x, ?s\<lparr>events := map (\<lambda>e. if ev_public_id e = c then swept now ?s e else e) (events ?s),
       audit_log := audit_log ?s @ trail1\<rparr>)"
    and x: "x = (case event_by_public_id c ?s of
        None \<Rightarrow> None
      | Some ev \<Rightarrow> if retires ev (guests_of ?s ev) now then Some (retire_next ev (guests_of ?s ev) now) else None)"
    using sweep_one [OF Cons.prems(2), of c now] by blast
  let ?s1 = "?s\<lparr>events := map (\<lambda>e. if ev_public_id e = c then swept now ?s e else e) (events ?s), audit_log := audit_log ?s @ trail1\<rparr>"
  let ?w1 = "w\<lparr>base := ?s1\<rparr>"
  let ?res = "res\<lparr>sl_completed := sl_completed res + (if x = Some E_COMPLETED then 1 else 0),
      sl_expired := sl_expired res + (if x = Some E_EXPIRED then 1 else 0)\<rparr>"
  have c: "c \<notin> set cs" using Cons.prems(1) by simp
  have "list_all2 event_goes_on (events ?s) (events ?s1)"
    by (simp add: list_all2_map2 list_all2_same swept_def event_goes_on_def retired_def retire_leads)
  then have "desk_goes_on ?s ?s1" by (simp add: desk_goes_on_def list_all2_refl goes_on_refl)
  then have wf1: "desk_wf (base ?w1)" using desk_goes_on_wf [OF _ Cons.prems(2)] by simp
  have sw: "swept now ?s1 = swept now ?s" by (rule swept_participants) simp
  have to: "swept_to st now ?s1 (set cs) = swept_to st now ?s (set cs)" for st
    by (rule swept_to_one [OF c]) simp_all
  have add: "swept_to st now ?s (set (c # cs)) = (if x = Some st then 1 else 0) + swept_to st now ?s (set cs)" for st
    unfolding list.set(2) swept_to_insert [OF Cons.prems(2) c] x by (auto split: option.splits)
  have evs: "map (\<lambda>e. if ev_public_id e \<in> set cs then swept now ?s e else e) (events ?s1)
      = map (\<lambda>e. if ev_public_id e \<in> set (c # cs) then swept now ?s e else e) (events ?s)"
    using c by auto
  from Cons.IH [OF _ wf1, of ?res] Cons.prems(1) obtain trail where
    rest: "act_fold (retire_turn now) cs ?res ?w1 =
      (Inr (?res\<lparr>sl_completed := sl_completed ?res + swept_to E_COMPLETED now (base ?w1) (set cs),
        sl_expired := sl_expired ?res + swept_to E_EXPIRED now (base ?w1) (set cs)\<rparr>),
       ?w1\<lparr>base := (base ?w1)\<lparr>events := map (\<lambda>e. if ev_public_id e \<in> set cs then swept now (base ?w1) e else e) (events (base ?w1)),
         audit_log := audit_log (base ?w1) @ trail\<rparr>\<rparr>)" by fastforce
  have "in_tx (on_db (retireOne c now)) w = (Inr x, ?w1)" by (rule in_tx_Inr, rule on_db_app, rule one)
  then have "retire_turn now c res w = (Inr ?res, ?w1)" by (simp add: retire_turn_def act_bind_def)
  then have step: "act_fold (retire_turn now) (c # cs) res w = act_fold (retire_turn now) cs ?res ?w1"
    by (simp add: act_bind_def)
  have result: "?res\<lparr>sl_completed := sl_completed ?res + swept_to E_COMPLETED now (base ?w1) (set cs),
        sl_expired := sl_expired ?res + swept_to E_EXPIRED now (base ?w1) (set cs)\<rparr>
      = res\<lparr>sl_completed := sl_completed res + swept_to E_COMPLETED now ?s (set (c # cs)),
        sl_expired := sl_expired res + swept_to E_EXPIRED now ?s (set (c # cs))\<rparr>"
    unfolding add using to [of E_COMPLETED] to [of E_EXPIRED] by simp
  have state: "?w1\<lparr>base := (base ?w1)\<lparr>events := map (\<lambda>e. if ev_public_id e \<in> set cs then swept now (base ?w1) e else e) (events (base ?w1)),
         audit_log := audit_log (base ?w1) @ trail\<rparr>\<rparr>
      = w\<lparr>base := ?s\<lparr>events := map (\<lambda>e. if ev_public_id e \<in> set (c # cs) then swept now ?s e else e) (events ?s),
         audit_log := audit_log ?s @ (trail1 @ trail)\<rparr>\<rparr>"
    unfolding evs [symmetric] using sw by simp
  show ?case
    by (rule exI [of _ "trail1 @ trail"]) (simp only: step rest result state)
qed

text \<open>A sweep that finds nothing to change writes nothing.\<close>

lemma idle_sweep:
  assumes "desk_wf (base w)" and "\<And>e. e \<in> set (events (base w)) \<Longrightarrow> \<not> retires e (guests_of (base w) e) now"
  shows "act_fold (retire_turn now) cs res w = (Inr res, w)"
proof (induction cs arbitrary: res)
  case (Cons c cs)
  have "retireOne c now (base w) = Inr (None, base w)"
  proof (cases "event_by_public_id c (base w)")
    case (Some ev)
    then have "\<not> retires ev (length (accepted_in (ev_id ev) (base w))) now"
      using assms(2) event_by_public_id_Some [OF Some] by (simp add: guests_of_def)
    then show ?thesis by (simp add: retireOne_app [OF Some assms(1)])
  qed (rule retireOne_None)
  then have "in_tx (on_db (retireOne c now)) w = (Inr None, w)" by (simp add: in_tx_def on_db_def)
  then have "retire_turn now c res w = (Inr res, w)" by (simp add: retire_turn_def act_bind_def)
  then show ?case using Cons.IH by (simp add: act_bind_def)
qed simp

text \<open>What is still open after a sweep that reached everything due.\<close>

definition due :: "instant \<Rightarrow> event_row \<Rightarrow> bool" where
  "due now e \<longleftrightarrow> List.member [E_PUBLISHED, E_ONGOING] (ev_status e) \<and> ev_deleted_at e = None \<and> ev_starts_at e \<le> now"

definition still_open :: "instant \<Rightarrow> event_row \<Rightarrow> bool" where
  "still_open now e \<longleftrightarrow> ev_status e = E_ONGOING \<and> now < ev_ends_at e"

lemma due_candidates:
  assumes "length (filter (due (clock s)) (events s)) \<le> limit"
  shows "set (retire_candidates limit s) = ev_public_id ` set (filter (due (clock s)) (events s))"
  using assms by (simp add: retire_candidates_def due_def [abs_def])

lemma candidate_iff:
  assumes "desk_wf s" and "length (filter (due (clock s)) (events s)) \<le> limit" and "e \<in> set (events s)"
  shows "ev_public_id e \<in> set (retire_candidates limit s) \<longleftrightarrow> due (clock s) e"
proof -
  have d: "distinct (map ev_public_id (events s))" using assms(1) by (simp add: desk_wf_def)
  have "e1 = e" if "e1 \<in> set (events s)" "ev_public_id e1 = ev_public_id e" for e1
    by (rule distinct_key_eq [OF d that(1) assms(3) that(2)])
  then show ?thesis unfolding due_candidates [OF assms(2)] using assms(3) by (auto simp: image_iff)
qed

lemma distinct_candidates:
  assumes "desk_wf s"
  shows "distinct (retire_candidates limit s)"
proof -
  have "distinct (map ev_public_id (events s))" using assms by (simp add: desk_wf_def)
  then have "distinct (map ev_public_id (sort_key ev_starts_at (filter (\<lambda>e. List.member [E_PUBLISHED, E_ONGOING] (ev_status e)
      \<and> ev_deleted_at e = None \<and> ev_starts_at e \<le> clock s) (events s))))"
    by (simp add: distinct_map inj_on_def)
  then show ?thesis unfolding retire_candidates_def by (simp add: take_map [symmetric] distinct_take)
qed

lemma swept_due:
  assumes "due now e"
  shows "due now (swept now s e) \<longrightarrow> still_open now (swept now s e)"
proof (cases "retires e (guests_of s e) now")
  case True
  then show ?thesis
    by (cases rule: retire_next_cases) (use True in \<open>simp_all add: swept_def retired_def due_def still_open_def\<close>)
next
  case False
  with assms show ?thesis by (auto simp: swept_def due_def still_open_def retires_def retire_next_def split: if_splits)
qed

lemma still_open_rests: "still_open now e \<Longrightarrow> \<not> retires e g now"
  by (simp add: still_open_def retires_def retire_next_def)

end
