(* ===== verification/Lifecycle_Properties.thy ===== *)
theory Lifecycle_Properties
  imports Lifecycle_Sweep Samples
begin

text \<open>
  The properties of what follows an event: who is paid for an invitation, what the sweep of
  started events does, and the bounds the timed jobs keep.
\<close>

text \<open>C34. What the sweep of started events does, exactly. Every event of its batch that is published or
  under way, not deleted and past its start becomes expired when it was published and nobody was
  accepted, completed when it is over, and ongoing otherwise; no other event and nothing but the
  trail is touched, and the answer counts the completed and the expired. When the batch was
  large enough for everything due, nothing is left published past its start or ongoing
  past its end, and running the sweep again at that moment changes nothing.\<close>

theorem started_events_are_retired:
  assumes wf: "desk_wf (base w)"
  shows "\<exists>res w' trail. retireStarted limit w = (Inr res, w')
     \<and> w' = w\<lparr>base := (base w)\<lparr>events := map (\<lambda>e. if ev_public_id e \<in> set (retire_candidates limit (base w))
           then swept (now_of w) (base w) e else e) (events (base w)), audit_log := audit_log (base w) @ trail\<rparr>\<rparr>
     \<and> sl_completed res = swept_to E_COMPLETED (now_of w) (base w) (set (retire_candidates limit (base w)))
     \<and> sl_expired res = swept_to E_EXPIRED (now_of w) (base w) (set (retire_candidates limit (base w)))
     \<and> (length (filter (due (now_of w)) (events (base w))) \<le> limit \<longrightarrow>
          (\<forall>e\<in>set (events (base w')). due (now_of w) e \<longrightarrow> still_open (now_of w) e)
          \<and> retireStarted limit w' = (Inr \<lparr>sl_completed = 0, sl_expired = 0, sl_attended = 0\<rparr>, w'))"
proof -
  let ?s = "base w" and ?now = "now_of w" and ?zero = "\<lparr>sl_completed = 0, sl_expired = 0, sl_attended = 0\<rparr>"
  let ?cs = "retire_candidates limit ?s"
  from sweep_fold [OF distinct_candidates [OF wf, of limit] wf, of ?now ?zero] obtain trail where
    run: "act_fold (retire_turn ?now) ?cs ?zero w = (Inr (?zero\<lparr>sl_completed := swept_to E_COMPLETED ?now ?s (set ?cs),
        sl_expired := swept_to E_EXPIRED ?now ?s (set ?cs)\<rparr>),
     w\<lparr>base := ?s\<lparr>events := map (\<lambda>e. if ev_public_id e \<in> set ?cs then swept ?now ?s e else e) (events ?s),
       audit_log := audit_log ?s @ trail\<rparr>\<rparr>)" (is "_ = (Inr ?res, ?w)")
    by auto
  have open_left: "due ?now e \<longrightarrow> still_open ?now e"
    if lim: "length (filter (due ?now) (events ?s)) \<le> limit" and e: "e \<in> set (events (base ?w))" for e
  proof -
    from e obtain e0 where e0: "e0 \<in> set (events ?s)" "e = (if ev_public_id e0 \<in> set ?cs then swept ?now ?s e0 else e0)" by auto
    show ?thesis
      using candidate_iff [OF wf lim e0(1)] swept_due [of ?now e0 ?s] e0(2) by (cases "due ?now e0") simp_all
  qed
  have wf': "desk_wf (base ?w)"
  proof (rule desk_goes_on_wf [OF _ wf])
    show "desk_goes_on ?s (base ?w)"
      by (simp add: desk_goes_on_def list_all2_refl goes_on_refl list_all2_map2 list_all2_same swept_def event_goes_on_def
          retired_def retire_leads)
  qed
  have again: "retireStarted limit ?w = (Inr ?zero, ?w)" if lim: "length (filter (due ?now) (events ?s)) \<le> limit"
  proof -
    have "\<not> retires e (guests_of (base ?w) e) ?now" if "e \<in> set (events (base ?w))" for e
      using open_left [OF lim that] still_open_rests [of ?now e] by (auto simp: retires_def due_def)
    with idle_sweep [OF wf', of ?now] show ?thesis by (simp add: retireStarted_def)
  qed
  show ?thesis
    by (intro exI [of _ ?res] exI [of _ ?w] exI [of _ trail] conjI impI ballI)
       (use run open_left again in \<open>simp_all add: retireStarted_def\<close>)
qed

section \<open>A sample evening\<close>

text \<open>The day after: 7 hosted, 8 came and had been invited by 7, whose reward is still open.\<close>

definition day_after :: db where
  "day_after = quiet_desk\<lparr>clock := 500000000, events := [sample_event\<lparr>ev_accepted_count := 1\<rparr>],
     participants := [(new_participant 60 160 50 8 P_ACCEPTED 500)\<lparr>pt_accepted_at := Some 600\<rparr>]\<rparr>"

definition evening :: world where
  "evening = empty_world\<lparr>base := day_after, referral_codes := [(7, [65, 66])],
     referrals := [\<lparr>rf_id = 3, rf_referrer = 7, rf_referred = 8, rf_code = [65, 66], rf_status = RF_PENDING, rf_qualified_at = None,
       rf_reward_ledger_id = None, rf_fraud_signals = None, rf_created_at = 400\<rparr>]\<rparr>"

lemma day_after_wf: "desk_wf day_after"
  by (simp add: day_after_def quiet_desk_def sample_desk_def desk_wf_def new_participant_def participant_checks_def sample_event_def)

lemma evening_wf: "life_wf (referral_policy_of day_after) evening"
proof -
  have "reward_rows day_after = []" "attendance_rows day_after = []"
    by (simp_all add: day_after_def reward_rows_def attendance_rows_def)
  moreover have "seats_ok day_after"
    by (simp add: day_after_def seats_ok_def taken_def new_participant_def sample_event_def)
  moreover have "3 < next_id day_after" by (simp add: day_after_def)
  ultimately show ?thesis
    by (simp add: life_wf_def referral_wf_def evening_def empty_world_def day_after_wf capped_def daily_capped_def referral_checks_def)
qed

definition next_day :: world where
  "next_day = run_acts life_do [Retire 10, Settle 10, Settle 10, Claim_Invite id 8 [65, 66], See_Invites 7 (\<lambda>_. []), Remind 5] evening"

section \<open>Referrals\<close>

lemma pays_key:
  "pays r l \<Longrightarrow> cl_reason l = reason \<Longrightarrow> cl_ref_id l = Some i \<Longrightarrow>
   cl_key l = (if reason = REFERRAL_REFERRER_REASON then referrerRewardKey i else referredRewardKey i)"
  by (auto simp: pays_def REFERRAL_REFERRER_REASON_def REFERRAL_REFERRED_REASON_def)

lemma reward_rows_split:
  assumes "coin_ledger s = earlier @ l # later" and "cl_type l = REFERRAL_REWARD"
  shows "reward_rows s = filter (\<lambda>e. cl_type e = REFERRAL_REWARD) earlier @ l # filter (\<lambda>e. cl_type e = REFERRAL_REWARD) later"
  using assms by (simp add: reward_rows_def)



section \<open>The caps the jobs keep\<close>


lemma evening_retired:
  "\<exists>trail. retireStarted 10 evening = (Inr \<lparr>sl_completed = 1, sl_expired = 0, sl_attended = 0\<rparr>,
     evening\<lparr>base := day_after\<lparr>events := [sample_event\<lparr>ev_accepted_count := 1, ev_status := E_COMPLETED, ev_version := 1\<rparr>],
       audit_log := audit_log day_after @ trail\<rparr>\<rparr>)"
proof -
  have base: "base evening = day_after" by (simp add: evening_def)
  have ev: "events day_after = [sample_event\<lparr>ev_accepted_count := 1\<rparr>]" "clock day_after = 500000000" by (simp_all add: day_after_def)
  have cs: "retire_candidates 10 day_after = [150]"
    by (simp add: retire_candidates_def day_after_def sample_event_def)
  have g: "guests_of day_after (sample_event\<lparr>ev_accepted_count := 1\<rparr>) = Suc 0"
    by (simp add: guests_of_def accepted_in_def day_after_def new_participant_def sample_event_def)
  have r: "retires (sample_event\<lparr>ev_accepted_count := 1\<rparr>) (Suc 0) 500000000"
    "retire_next (sample_event\<lparr>ev_accepted_count := 1\<rparr>) (Suc 0) 500000000 = E_COMPLETED"
    by (simp_all add: retires_def retire_next_def sample_event_def)
  have pub: "ev_public_id sample_event = 150" by (simp add: sample_event_def)
  have sw: "swept 500000000 day_after (sample_event\<lparr>ev_accepted_count := 1\<rparr>)
      = sample_event\<lparr>ev_accepted_count := 1, ev_status := E_COMPLETED, ev_version := 1\<rparr>"
    unfolding swept_def retired_def g r(2) if_P [OF r(1)] by (simp add: sample_event_def)
  have to: "swept_to E_COMPLETED 500000000 day_after {150} = 1" "swept_to E_EXPIRED 500000000 day_after {150} = 0"
    using r by (simp_all add: swept_to_def ev(1) g pub)
  have "desk_wf (base evening)" by (simp add: base day_after_wf)
  from sweep_fold [OF _ this, of "[150]" 500000000 "\<lparr>sl_completed = 0, sl_expired = 0, sl_attended = 0\<rparr>"] show ?thesis
    by (simp add: retireStarted_def base ev cs to sw pub)
qed


section \<open>The sweep of started events\<close>

lemma started_events_are_retired_witness:
  "\<exists>res w' trail. retireStarted 10 evening = (Inr res, w') \<and> sl_completed res = 1
     \<and> events (base w') = [sample_event\<lparr>ev_accepted_count := 1, ev_status := E_COMPLETED, ev_version := 1\<rparr>]
     \<and> w' = evening\<lparr>base := (base evening)\<lparr>events := events (base w'), audit_log := audit_log (base evening) @ trail\<rparr>\<rparr>
     \<and> retireStarted 10 w' = (Inr \<lparr>sl_completed = 0, sl_expired = 0, sl_attended = 0\<rparr>, w')"
proof -
  have base: "base evening = day_after" by (simp add: evening_def)
  then have "desk_wf (base evening)" by (simp add: day_after_wf)
  from started_events_are_retired [OF this, of 10] obtain res w' trail where
    run: "retireStarted 10 evening = (Inr res, w')" and w': "\<exists>evs. w' = evening\<lparr>base := (base evening)\<lparr>events := evs, audit_log := audit_log (base evening) @ trail\<rparr>\<rparr>"
    and again: "length (filter (due (now_of evening)) (events (base evening))) \<le> 10 \<Longrightarrow>
      retireStarted 10 w' = (Inr \<lparr>sl_completed = 0, sl_expired = 0, sl_attended = 0\<rparr>, w')" by blast
  have "length (filter (due (now_of evening)) (events (base evening))) \<le> 10" by (simp add: base day_after_def)
  moreover have "sl_completed res = 1" "events (base w') = [sample_event\<lparr>ev_accepted_count := 1, ev_status := E_COMPLETED, ev_version := 1\<rparr>]"
    using evening_retired run by auto
  ultimately show ?thesis using run w' again by (intro exI [of _ res] exI [of _ w'] exI [of _ trail]) auto
qed

end
