(* ===== verification/Notification_Invariant.thy ===== *)
theory Notification_Invariant
  imports Desk_Writes Lifecycle_Invariant
begin

text \<open>
  The ledger of notifications and the outbox. First what any call of the modelled services may do to
  the outbox (\<open>emits\<close>): append rows nobody has processed, whose identifiers are new and which name
  registered people; \<open>desk_writes\<close> is interpreted with it, the jobs over the world follow. Then one pass
  of the relay (\<open>relayOutbox_ok\<close>), statement by statement, with the worker dying before any of them: it
  keeps the ledgers in agreement (\<open>post_wf\<close>) and only goes on from them (\<open>posts_on\<close>).
\<close>

section \<open>What every call leaves in the outbox\<close>

definition registered :: "(id \<rightharpoonup> user_row) \<Rightarrow> id \<Rightarrow> bool" where
  "registered U i \<longleftrightarrow> (\<exists>u r. U u = Some r \<and> us_public_id r = i)"

lemma registeredI: "U u = Some r \<Longrightarrow> registered U (us_public_id r)"
  by (auto simp: registered_def)

definition posted :: "(id \<rightharpoonup> user_row) \<Rightarrow> id \<Rightarrow> id \<Rightarrow> outbox_row \<Rightarrow> bool" where
  "posted U lo hi r \<longleftrightarrow> tells (registered U) (ob_event_type r) (ob_payload r) \<and> ob_processed_at r = None \<and> lo \<le> ob_id r \<and> ob_id r < hi"

definition emits :: "(id \<rightharpoonup> user_row) \<Rightarrow> db \<Rightarrow> db \<Rightarrow> bool" where
  "emits U s s' \<longleftrightarrow> (users s = U \<longrightarrow> users s' = U \<and> next_id s \<le> next_id s'
     \<and> (\<exists>new. outbox s' = outbox s @ new \<and> distinct (map ob_id new) \<and> list_all (posted U (next_id s) (next_id s')) new))"

lemma emits_same: "users s' = users s \<Longrightarrow> outbox s' = outbox s \<Longrightarrow> next_id s \<le> next_id s' \<Longrightarrow> emits U s s'"
  by (simp add: emits_def)

lemma emits_reflp: "reflp (emits U)"
  by (rule reflpI) (simp add: emits_same)

lemma emits_transp: "transp (emits U)"
proof (rule transpI)
  fix r s t assume a: "emits U r s" and b: "emits U s t"
  show "emits U r t"
    unfolding emits_def
  proof
    assume "users r = U"
    with a obtain n where n: "users s = U" "next_id r \<le> next_id s" "outbox s = outbox r @ n" "distinct (map ob_id n)"
        "list_all (posted U (next_id r) (next_id s)) n"
      by (auto simp: emits_def)
    with b obtain m where m: "users t = U" "next_id s \<le> next_id t" "outbox t = outbox s @ m" "distinct (map ob_id m)"
        "list_all (posted U (next_id s) (next_id t)) m"
      by (auto simp: emits_def)
    have "set (map ob_id n) \<inter> set (map ob_id m) = {}"
      using n(5) m(5) by (force simp: list_all_iff posted_def)
    then show "users t = U \<and> next_id r \<le> next_id t \<and> (\<exists>new. outbox t = outbox r @ new \<and> distinct (map ob_id new)
        \<and> list_all (posted U (next_id r) (next_id t)) new)"
      using n m by (intro conjI exI [of _ "n @ m"]) (auto simp: list_all_iff posted_def intro: order_trans less_le_trans)
  qed
qed

lemma emits_coins: "tx_rel (emits U) (coin_apply input)" "tx_rel (emits U) (penalizeWithin input)"
  "tx_rel (emits U) (reverseWithin i rc acty ai md)"
proof -
  have w: "tx_rel (emits U) (applyWithin input pen)" for input pen
    by (rule tx_relI) (use applyWithin_frame in \<open>fastforce simp: coin_frame_simps intro: emits_same\<close>)
  then have c: "tx_rel (emits U) (coin_apply input)" for input
    by (auto simp: tx_rel_def coin_apply_Inr)
  show "tx_rel (emits U) (coin_apply input)" by (rule c)
  show "tx_rel (emits U) (penalizeWithin input)"
    unfolding penalizeWithin_def Let_def by (intro tx_rel_rules emits_reflp emits_transp w)
  show "tx_rel (emits U) (reverseWithin i rc acty ai md)"
    unfolding reverseWithin_def by (intro tx_rel_rules emits_reflp emits_transp c)
qed

lemma emits_trust: "tx_rel (emits U) (trust_apply input)"
  by (rule tx_relI, drule trust_apply_frame) (simp add: trust_frame_simps emits_same)

lemma emits_emit: "tells (registered U) et p \<Longrightarrow> tx_rel (emits U) (outbox_emit agg i et p)"
  by (auto simp: tx_rel_def outbox_emit_Inr emits_def posted_def)

interpretation desk_posts: desk_writes "emits U" "\<lambda>s. users s = U" "registered U" for U
proof unfold_locales
  show "transp (emits U)" by (rule emits_transp)
  show "tx_rel (emits U) (coin_apply input)" "tx_rel (emits U) (penalizeWithin input)" "tx_rel (emits U) (reverseWithin i rc acty ai md)"
    "tx_rel (emits U) (trust_apply tinput)" for input tinput i rc acty ai md
    by (rule emits_coins emits_trust)+
  show "tx_rel (emits U) (outbox_emit agg i et p)" if "tells (registered U) et p" for agg i et p
    using that by (rule emits_emit)
  show "registered U x" if "users s = U" "publicIdOf i s = Inr (x, s')" for s i x s'
    using that by (auto simp: publicIdOf_Inr registered_def)
qed (auto simp: emits_def)

section \<open>The services over the world\<close>

definition world_emits :: "(id \<rightharpoonup> user_row) \<Rightarrow> world \<Rightarrow> world \<Rightarrow> bool" where
  "world_emits U w w' \<longleftrightarrow> emits U (base w) (base w')"

lemma world_emits_reflp: "reflp (world_emits U)" and world_emits_transp: "transp (world_emits U)"
  using emits_reflp [of U] emits_transp [of U] by (auto simp: world_emits_def reflp_def transp_def)

lemma world_on_db: "tx_rel (emits U) m \<Longrightarrow> tx_rel (world_emits U) (on_db m)"
  by (auto simp: tx_rel_def tx_simps world_emits_def)

lemma world_modify: "(\<And>w. base (f w) = base w) \<Longrightarrow> tx_rel (world_emits U) (tx_modify f)"
  by (auto simp: tx_rel_def world_emits_def intro: emits_same)

lemma world_fresh: "tx_rel (world_emits U) fresh"
  unfolding fresh_def by (intro world_on_db desk_posts.writes)

lemma world_assert: "tx_rel (world_emits U) (assertTransition name table a b entity i)"
  by (rule tx_relI) (auto simp: assertTransition_Inr world_emits_def intro: emits_same)

lemmas world_rules = tx_rel_rules tx_rel_prod world_emits_reflp world_emits_transp world_on_db world_fresh world_modify world_assert

lemmas post_rules = emits_coins emits_trust tx_rel_prod desk_posts.service_rules

text \<open>A payload that names those it announces, once their identifiers are read.\<close>

lemma emits_events: "tx_rel (emits U) (event_update i f)" "tx_rel (emits U) (event_claim i c f)" "tx_rel (emits U) (participant_claim j d g)"
  by (auto simp: tx_rel_def tx_simps event_update_def event_claim_def participant_claim_def intro!: emits_same)

lemma emits_jobs: "tx_rel (emits U) (retireOne p now)" "tx_rel (emits U) (remindOneGuest i wave now)"
  "tx_rel (emits U) (remindHost j now)" "tx_rel (emits U) (promptOne k delay now)" "tx_rel (emits U) (creditAttendance u l now)"
  "tx_rel (emits U) (markNoShow h q)"
  unfolding retireOne_def retire_write_def remindOneGuest_def remindHost_def promptOne_def creditAttendance_def markNoShow_def
    readParticipantByPublicId_def Let_def
  by (rule post_rules emits_events | (simp add: tells_simps host_payload_def; fail))+

lemma emits_qualified: "tx_rel (emits U) (qualified_emit i a b c d)" "tx_rel (emits U) (pay_referral e mk)"
  unfolding qualified_emit_def pay_referral_def coin_apply_number_def
  by (rule post_rules | (simp add: tells_simps; fail))+

lemma world_referral: "tx_rel (world_emits U) (qualify_tx i a u p now)" "tx_rel (world_emits U) (referral_create mk)"
  "tx_rel (world_emits U) (set_referral_code u c)"
  unfolding qualify_tx_def qualify_pay_def referral_create_def set_referral_code_def referral_update_many_def
  by (rule world_rules emits_qualified desk_posts.writes | (simp; fail))+

lemma world_reviews: "tx_rel (world_emits U) (review_create mk)" "tx_rel (world_emits U) (review_update i f)" "tx_rel (world_emits U) (pair_update i g)"
  "tx_rel (world_emits U) (openCaseIfAny i sc)" "tx_rel (world_emits U) (openForParticipant p e t)"
  unfolding review_create_def review_update_def pair_update_def openCaseIfAny_def openCase_def openForParticipant_def Let_def
  by (rule world_rules desk_posts.writes | (simp split: option.splits; fail))+

lemma world_settle: "tx_rel (world_emits U) (settle_tx p now)"
proof -
  have turn: "tx_rel (world_emits U) (settle_attendee e now x)" for e x
    unfolding settle_attendee_def assertParticipantTransition_def
    by (rule world_rules world_reviews emits_jobs desk_posts.writes | (simp; fail))+
  have "tx_rel (world_emits U) (settle_loop e now xs)" for e xs
    by (induction xs) (simp_all only: settle_loop.simps, (intro tx_rel_return tx_rel_bind world_emits_reflp world_emits_transp turn; assumption?)+)
  then show ?thesis
    unfolding settle_tx_def by (intro world_rules)
qed

lemma emits_review_news: "tx_rel (emits U) (emitRevealed i p e now out)" "tx_rel (emits U) (emitWindowOpen pr p e now)"
  "tx_rel (emits U) (payReview u i r)" "tx_rel (emits U) (applyRatingTrust rw)"
  unfolding emitRevealed_def emitWindowOpen_def payReview_def applyRatingTrust_def coin_apply_number_def
  by (rule post_rules | (simp add: tells_simps; fail))+

lemma world_reveal: "tx_rel (world_emits U) (revealPair i now out)"
  unfolding revealPair_def revealOne_def assertReviewTransition_def by (intro world_rules world_reviews emits_review_news)

lemma world_review_calls: "tx_rel (world_emits U) (review_submit rt u p input)" "tx_rel (world_emits U) (review_edit rt u p input)"
  "tx_rel (world_emits U) (review_settleOne i now)" "tx_rel (world_emits U) (announceOne i now)" "tx_rel (world_emits U) (open_window j)"
  unfolding review_submit_def review_edit_def afterReview_def review_settleOne_def announceOne_def open_window_def loadWritable_def
    assertReviewPairTransition_def Let_def
  by (rule world_rules world_reviews world_reveal emits_review_news desk_posts.writes | (simp; fail))+

lemmas world_calls = act_rel_rules act_rel_in_tx world_emits_reflp world_emits_transp

lemma world_qualify: "act_rel (world_emits U) (qualifyForAttendance u)"
  unfolding qualifyForAttendance_def by (intro world_calls world_referral)

lemma world_claim: "act_rel (world_emits U) (claim upper u c)" "act_rel (world_emits U) (summaryFor u draws)"
proof -
  show "act_rel (world_emits U) (claim upper u c)"
    unfolding claim_def assertClaimWindow_def Let_def
    by (intro world_calls world_referral world_qualify act_rel_prod world_on_db desk_posts.writes)
  have "act_rel (world_emits U) (code_attempts n u draws k)" for n k
    by (induction n arbitrary: k) (simp_all add: Let_def act_rel_pure act_rel_catch act_rel_bind act_rel_in_tx world_referral
      world_emits_reflp world_emits_transp)
  then show "act_rel (world_emits U) (summaryFor u draws)"
    unfolding summaryFor_def codeFor_def by (intro world_calls)
qed

lemma world_sweeps: "act_rel (world_emits U) (retireStarted n)" "act_rel (world_emits U) (remindUpcoming n)"
  "act_rel (world_emits U) (promptAttendance n)" "act_rel (world_emits U) (settleAttendance n)"
  "act_rel (world_emits U) (settleExpired n)" "act_rel (world_emits U) (announceOpenWindows n)"
  unfolding retireStarted_def retire_turn_def remindUpcoming_def remindGuests_def promptAttendance_def settleAttendance_def
    lifecycle_settleOne_def settleExpired_def announceOpenWindows_def Let_def
  by (intro world_calls act_rel_prod world_settle world_qualify world_review_calls world_on_db emits_jobs)+

lemma world_life: "act_rel (world_emits U) (life_do x)"
proof (cases x)
  case (Coins_Elsewhere input)
  show ?thesis unfolding Coins_Elsewhere life_do.simps
    by (intro world_calls world_on_db tx_rel_if tx_rel_throw tx_rel_bind tx_rel_return emits_coins emits_reflp emits_transp)
next
  case (No_Show h p)
  show ?thesis unfolding No_Show life_do.simps by (intro world_calls world_on_db emits_jobs)
next
  case (At_Desk d)
  show ?thesis unfolding At_Desk life_do.simps by (intro world_calls world_on_db desk_posts.desk)
qed (simp_all add: act_void_def act_rel_bind act_rel_pure world_emits_reflp world_emits_transp world_sweeps world_claim)

lemma world_review: "act_rel (world_emits U) (review_do x)"
proof (cases x)
  case (Desk d)
  show ?thesis unfolding Desk review_do.simps by (intro world_calls world_on_db desk_posts.desk)
qed (simp_all add: act_void_def act_rel_bind act_rel_pure act_rel_in_tx world_emits_reflp world_emits_transp world_sweeps world_review_calls)

section \<open>Keys\<close>

lemma key_of_row: "show_id a @ '':'' @ x = show_id b @ '':'' @ y \<longleftrightarrow> a = b \<and> x = y"
proof -
  have "takeWhile (\<lambda>c. c \<noteq> CHR '':'') (show_id n @ '':'' @ z) = show_id n" for n z
    using show_id_no_colon [of n] by (subst takeWhile_append2) auto
  then show ?thesis by (metis append_same_eq same_append_eq show_id_inj)
qed

lemma addressee_mem: "pl \<in> set (addressee r k sfx t p) \<longleftrightarrow>
    (\<exists>u. payload_text (ob_payload r) k = Some u
      \<and> pl = \<lparr>pl_user_public_id = u, pl_template = t, pl_key = show_id (ob_id r) @ '':'' @ sfx, pl_payload = p\<rparr>)"
  by (auto simp: addressee_def split: option.splits)

lemma cancelled_guest_mem: "pl \<in> set (cancelled_guest r e) \<Longrightarrow> \<exists>sfx. pl_key pl = show_id (ob_id r) @ '':'' @ sfx"
  by (cases "(r, e)" rule: cancelled_guest.cases) (auto split: option.splits)

text \<open>Every planned notification has its row's identifier in its key.\<close>

lemma plan_key: "pl \<in> set (planNotifications r) \<Longrightarrow> \<exists>sfx. pl_key pl = show_id (ob_id r) @ '':'' @ sfx"
  by (auto simp: planNotifications_def Let_def recipient_def addressee_mem split: if_splits option.splits jval.splits
      dest!: cancelled_guest_mem)

lemma plan_key_row: "pl \<in> set (planNotifications r) \<Longrightarrow> ql \<in> set (planNotifications q) \<Longrightarrow> pl_key pl = pl_key ql \<Longrightarrow> ob_id r = ob_id q"
  by (metis plan_key key_of_row)

section \<open>Calls that may fail, with what they establish\<close>

definition act_ok :: "('s \<Rightarrow> bool) \<Rightarrow> ('a \<Rightarrow> 's \<Rightarrow> bool) \<Rightarrow> ('e, 's, 'a) act \<Rightarrow> 's \<Rightarrow> bool" where
  "act_ok E Q m s = (case m s of (Inl e, s') \<Rightarrow> E s' | (Inr a, s') \<Rightarrow> Q a s')"

lemma act_ok_return: "Q a s \<Longrightarrow> act_ok E Q (act_return a) s"
  and act_ok_throw: "E s \<Longrightarrow> act_ok E Q (act_throw e) s"
  and act_ok_read: "Q (f s) s \<Longrightarrow> act_ok E Q (act_read f) s"
  by (simp_all add: act_ok_def)

lemma act_ok_bind: "act_ok E (\<lambda>a. act_ok E Q (f a)) m s \<Longrightarrow> act_ok E Q (act_bind m f) s"
  by (auto simp: act_ok_def act_bind_def split: prod.splits sum.splits)

lemma act_ok_mono: "act_ok E Q m s \<Longrightarrow> (\<And>s'. E s' \<Longrightarrow> E' s') \<Longrightarrow> (\<And>a s'. Q a s' \<Longrightarrow> Q' a s') \<Longrightarrow> act_ok E' Q' m s"
  by (auto simp: act_ok_def split: prod.splits sum.splits)

lemma act_ok_fold:
  assumes start: "I [] b s"
    and turn: "\<And>xs x zs b s. I xs b s \<Longrightarrow> ys = xs @ x # zs \<Longrightarrow> act_ok E (I (xs @ [x])) (f x b) s"
  shows "act_ok E (I ys) (act_fold f ys b) s"
proof -
  have "act_ok E (I ys) (act_fold f zs b) s" if "I xs b s" "ys = xs @ zs" for xs zs b s
    using that
  proof (induction zs arbitrary: xs b s)
    case Nil
    then show ?case by (simp add: act_ok_def)
  next
    case (Cons z zs)
    have "act_ok E (I (xs @ [z])) (f z b) s" by (rule turn [OF Cons.prems])
    then have "act_ok E (\<lambda>b'. act_ok E (I ys) (act_fold f zs b')) (f z b) s"
      by (rule act_ok_mono) (use Cons.IH [of "xs @ [z]"] Cons.prems(2) in auto)
    then show ?case by (simp add: act_ok_bind)
  qed
  from this [of "[]" b s ys] start show ?thesis by simp
qed

section \<open>The ledger and the outbox agree\<close>

text \<open>A notification is the record of a planned one.\<close>

definition records :: "post \<Rightarrow> planned_notification \<Rightarrow> notification_row \<Rightarrow> bool" where
  "records p pl n \<longleftrightarrow> nt_key n = pl_key pl \<and> nt_template n = pl_template pl \<and> nt_payload n = pl_payload pl
     \<and> resolveUserId (pl_user_public_id pl) p = Some (nt_user n)"

definition recorded :: "post \<Rightarrow> planned_notification \<Rightarrow> bool" where
  "recorded p pl \<longleftrightarrow> resolveUserId (pl_user_public_id pl) p = None \<or> (\<exists>n\<in>set (notifications p). nt_key n = pl_key pl)"

definition post_wf :: "post \<Rightarrow> bool" where
  "post_wf p \<longleftrightarrow> distinct (map ob_id (outbox (post_db p))) \<and> (\<forall>r\<in>set (outbox (post_db p)). ob_id r < next_id (post_db p))
     \<and> distinct (map nt_key (notifications p)) \<and> distinct (map nt_id (notifications p))
     \<and> (\<forall>n\<in>set (notifications p). nt_id n < next_id (post_db p))
     \<and> (\<forall>n\<in>set (notifications p). \<exists>r\<in>set (outbox (post_db p)). \<exists>pl\<in>set (planNotifications r). records p pl n)
     \<and> (\<forall>r\<in>set (outbox (post_db p)). ob_processed_at r \<noteq> None \<longrightarrow> (\<forall>pl\<in>set (planNotifications r). recorded p pl))"

lemma post_wfD:
  assumes "post_wf p"
  shows "distinct (map ob_id (outbox (post_db p)))" "\<And>r. r \<in> set (outbox (post_db p)) \<Longrightarrow> ob_id r < next_id (post_db p)"
    "distinct (map nt_key (notifications p))" "distinct (map nt_id (notifications p))"
    "\<And>n. n \<in> set (notifications p) \<Longrightarrow> nt_id n < next_id (post_db p)"
    "\<And>n. n \<in> set (notifications p) \<Longrightarrow> \<exists>r\<in>set (outbox (post_db p)). \<exists>pl\<in>set (planNotifications r). records p pl n"
    "\<And>r pl. r \<in> set (outbox (post_db p)) \<Longrightarrow> ob_processed_at r \<noteq> None \<Longrightarrow> pl \<in> set (planNotifications r) \<Longrightarrow> recorded p pl"
  using assms unfolding post_wf_def by blast+

text \<open>What becomes of a row of the outbox, and of a notification.\<close>

definition carried :: "outbox_row \<Rightarrow> outbox_row \<Rightarrow> bool" where
  "carried r r' \<longleftrightarrow> ob_id r' = ob_id r \<and> ob_event_type r' = ob_event_type r \<and> ob_payload r' = ob_payload r
     \<and> ob_created_at r' = ob_created_at r \<and> (ob_processed_at r \<noteq> None \<longrightarrow> ob_processed_at r' \<noteq> None)"

definition same_notice :: "notification_row \<Rightarrow> notification_row \<Rightarrow> bool" where
  "same_notice n n' \<longleftrightarrow> nt_id n' = nt_id n \<and> nt_user n' = nt_user n \<and> nt_key n' = nt_key n
     \<and> nt_template n' = nt_template n \<and> nt_payload n' = nt_payload n
     \<and> (nt_status n = N_SENT \<or> nt_status n = N_UNDELIVERABLE \<longrightarrow> n' = n)"

lemma carried_refl: "carried r r" and same_notice_refl: "same_notice n n"
  by (simp_all add: carried_def same_notice_def)

lemma carried_trans: "carried a b \<Longrightarrow> carried b c \<Longrightarrow> carried a c"
  and same_notice_trans: "same_notice x y \<Longrightarrow> same_notice y z \<Longrightarrow> same_notice x z"
  unfolding carried_def same_notice_def by auto

lemma plan_carried: "carried r r' \<Longrightarrow> planNotifications r' = planNotifications r"
proof -
  assume c: "carried r r'"
  have a: "addressee r' = addressee r" using c by (intro ext) (simp only: addressee_def carried_def)
  have "cancelled_guest r' e = cancelled_guest r e" for e
    using c by (cases e) (simp_all add: carried_def split: option.splits)
  then have g: "cancelled_guest r' = cancelled_guest r" by (rule ext)
  have f: "ob_event_type r' = ob_event_type r" "ob_payload r' = ob_payload r" using c by (simp_all add: carried_def)
  show ?thesis unfolding planNotifications_def recipient_def a g f ..
qed

text \<open>Everything a call may do to the two ledgers: rows go on, new ones are appended.\<close>

definition posts_on :: "post \<Rightarrow> post \<Rightarrow> bool" where
  "posts_on p q \<longleftrightarrow> public_ids q = public_ids p \<and> users (post_db q) = users (post_db p) \<and> next_id (post_db p) \<le> next_id (post_db q)
     \<and> (\<exists>rs new. outbox (post_db q) = rs @ new \<and> list_all2 carried (outbox (post_db p)) rs
          \<and> list_all (\<lambda>r. next_id (post_db p) \<le> ob_id r) new)
     \<and> (\<exists>ns new. notifications q = ns @ new \<and> list_all2 same_notice (notifications p) ns
          \<and> list_all (\<lambda>n. next_id (post_db p) \<le> nt_id n) new)"

lemma resolve_on: "posts_on p q \<Longrightarrow> resolveUserId u q = resolveUserId u p"
  unfolding posts_on_def resolveUserId_def by metis

lemma posts_on_refl: "posts_on p p"
  unfolding posts_on_def
  by (intro conjI exI [of _ "outbox (post_db p)"] exI [of _ "notifications p"] exI [of _ "[]"])
     (simp_all add: list_all2_refl carried_refl same_notice_refl)

lemma posts_on_mem:
  assumes "posts_on p q"
  shows "n \<in> set (notifications p) \<Longrightarrow> \<exists>m\<in>set (notifications q). same_notice n m"
    "r \<in> set (outbox (post_db p)) \<Longrightarrow> \<exists>t\<in>set (outbox (post_db q)). carried r t"
  using assms by (auto simp: posts_on_def dest!: list_all2_mem')

lemma posts_on_trans:
  assumes a: "posts_on p q" and b: "posts_on q s"
  shows "posts_on p s"
proof -
  from a obtain rs new ns nnew where a': "public_ids q = public_ids p" "users (post_db q) = users (post_db p)" "next_id (post_db p) \<le> next_id (post_db q)"
      "outbox (post_db q) = rs @ new" "list_all2 carried (outbox (post_db p)) rs" "list_all (\<lambda>r. next_id (post_db p) \<le> ob_id r) new"
      "notifications q = ns @ nnew" "list_all2 same_notice (notifications p) ns" "list_all (\<lambda>n. next_id (post_db p) \<le> nt_id n) nnew"
    unfolding posts_on_def by blast
  from b a'(4,7) obtain rs2 new2 ns2 nnew2 where b': "public_ids s = public_ids q" "users (post_db s) = users (post_db q)"
      "next_id (post_db q) \<le> next_id (post_db s)" "outbox (post_db s) = rs2 @ new2" "list_all2 carried (rs @ new) rs2"
      "list_all (\<lambda>r. next_id (post_db q) \<le> ob_id r) new2" "notifications s = ns2 @ nnew2" "list_all2 same_notice (ns @ nnew) ns2"
      "list_all (\<lambda>n. next_id (post_db q) \<le> nt_id n) nnew2"
    unfolding posts_on_def by metis
  obtain r1 r2 where r: "rs2 = r1 @ r2" "list_all2 carried rs r1" "list_all2 carried new r2"
    using b'(5) by (auto simp: list_all2_append1)
  obtain n1 n2 where n: "ns2 = n1 @ n2" "list_all2 same_notice ns n1" "list_all2 same_notice nnew n2"
    using b'(8) by (auto simp: list_all2_append1)
  have "list_all2 carried (outbox (post_db p)) r1" "list_all2 same_notice (notifications p) n1"
    by (rule list_all2_trans [OF _ a'(5) r(2)], erule (1) carried_trans)
       (rule list_all2_trans [OF _ a'(8) n(2)], erule (1) same_notice_trans)
  moreover have "list_all (\<lambda>r. next_id (post_db p) \<le> ob_id r) (r2 @ new2)" "list_all (\<lambda>n. next_id (post_db p) \<le> nt_id n) (n2 @ nnew2)"
    using a'(3,6,9) b'(6,9) list_all2_mem [OF r(3)] list_all2_mem [OF n(3)]
    by (fastforce simp: list_all_iff carried_def same_notice_def)+
  ultimately show ?thesis
    using a'(1-3) b'(1-3) unfolding posts_on_def b'(4) b'(7) r(1) n(1) append_assoc by fastforce
qed

section \<open>One planned notification\<close>

definition new_notice :: "id \<Rightarrow> id \<Rightarrow> planned_notification \<Rightarrow> instant \<Rightarrow> notification_row" where
  "new_notice i u pl now = \<lparr>nt_id = i, nt_user = u, nt_template = pl_template pl, nt_payload = pl_payload pl, nt_key = pl_key pl,
     nt_status = N_PENDING, nt_attempts = 0, nt_last_error = None, nt_message_id = None, nt_created_at = now, nt_sent_at = None\<rparr>"

definition ticked :: "post \<Rightarrow> post" where
  "ticked p = p\<lparr>life_left := map_option (\<lambda>n. n - 1) (life_left p)\<rparr>"

lemma call_app: "call m p = (if life_left p = Some 0 then (Inl DIED, p) else in_tx m (ticked p))"
  by (simp add: call_def ticked_def)

definition noted :: "id \<Rightarrow> planned_notification \<Rightarrow> post \<Rightarrow> post" where
  "noted u pl p = (ticked p)\<lparr>office := (office p)\<lparr>base := (post_db p)\<lparr>next_id := next_id (post_db p) + 1\<rparr>\<rparr>,
     notifications := notifications p @ [new_notice (next_id (post_db p)) u pl (clock (post_db p))]\<rparr>"

lemma relay_plan_app:
  "relay_plan pl res p =
     (case resolveUserId (pl_user_public_id pl) p of
        None \<Rightarrow> (Inr res, p)
      | Some u \<Rightarrow>
          if life_left p = Some 0 then (Inl DIED, p)
          else (case notification_by_key (pl_key pl) p of
              None \<Rightarrow> (Inr (res\<lparr>ry_created := ry_created res + 1, ry_queued := ry_queued res @ [next_id (post_db p)]\<rparr>), noted u pl p)
            | Some n \<Rightarrow> (Inr (res\<lparr>ry_queued := ry_queued res @ [nt_id n]\<rparr>), ticked p)))"
proof -
  have key: "notification_by_key k (ticked q) = notification_by_key k q" for k q
    by (simp add: notification_by_key_def ticked_def)
  have off: "notification_by_key k (q\<lparr>office := w\<rparr>) = notification_by_key k q" for k q w
    by (simp add: notification_by_key_def)
  show ?thesis
  proof (cases "resolveUserId (pl_user_public_id pl) p")
    case None
    then show ?thesis by (simp add: relay_plan_def)
  next
    case (Some u)
    have "call (notification_create u (pl_template pl) (pl_key pl) (pl_payload pl)) p =
        (if life_left p = Some 0 then (Inl DIED, p)
         else if notification_by_key (pl_key pl) p = None then (Inr (next_id (post_db p)), noted u pl p)
         else (Inl DUPLICATE_NOTIFICATION, ticked p))"
      unfolding call_def ticked_def [symmetric] in_tx_def notification_create_def at_office_def
      by (simp add: tx_bind_def tx_guard_def tx_throw_def tx_return_def tx_modify_def tx_read_def key off)
         (simp add: noted_def new_notice_def ticked_def)
    then show ?thesis
      using Some by (auto simp: relay_plan_def queue_notification_def act_bind_def act_catch_def DIED_def DUPLICATE_NOTIFICATION_def key
          split: option.splits)
  qed
qed

lemma ticked_simps [simp]: "office (ticked p) = office p" "notifications (ticked p) = notifications p" "public_ids (ticked p) = public_ids p"
  "jobs (ticked p) = jobs p" "messages (ticked p) = messages p" "life_left p = None \<Longrightarrow> life_left (ticked p) = None"
  "telegram_accounts (ticked p) = telegram_accounts p" "user_settings (ticked p) = user_settings p"
  by (simp_all add: ticked_def)

lemma resolve_cong: "public_ids q = public_ids p \<Longrightarrow> users (post_db q) = users (post_db p) \<Longrightarrow> resolveUserId u q = resolveUserId u p"
  by (simp only: resolveUserId_def)

lemma ticked_resolve [simp]: "resolveUserId u (ticked p) = resolveUserId u p"
  by (rule resolve_cong) simp_all

text \<open>What the ledgers look like decides whether they agree.\<close>

lemma post_wf_cong:
  assumes "post_wf p" "office q = office p" "notifications q = notifications p" "public_ids q = public_ids p"
  shows "post_wf q"
proof -
  have "resolveUserId u q = resolveUserId u p" for u using assms(2,4) by (intro resolve_cong) simp_all
  then have "records q = records p" "recorded q = recorded p"
    using assms(3) by (auto simp: records_def recorded_def fun_eq_iff)
  then show ?thesis using assms unfolding post_wf_def by simp
qed

lemma posts_on_cong:
  assumes "office q = office p" "notifications q = notifications p" "public_ids q = public_ids p"
  shows "posts_on p q"
  using posts_on_refl [of p] assms unfolding posts_on_def by simp

lemma noted_on: "posts_on p (noted u pl p)"
  unfolding posts_on_def
  by (intro conjI exI [of _ "outbox (post_db p)"] exI [of _ "notifications p"] exI [of _ "[]"]
      exI [of _ "[new_notice (next_id (post_db p)) u pl (clock (post_db p))]"])
     (simp_all add: noted_def new_notice_def list_all2_refl carried_refl same_notice_refl)

lemma noted_wf:
  assumes wf: "post_wf p" and r: "r \<in> set (outbox (post_db p))" and pl: "pl \<in> set (planNotifications r)"
    and u: "resolveUserId (pl_user_public_id pl) p = Some u" and new: "notification_by_key (pl_key pl) p = None"
  shows "post_wf (noted u pl p)"
proof -
  let ?n = "new_notice (next_id (post_db p)) u pl (clock (post_db p))" and ?q = "noted u pl p"
  note d = post_wfD [OF wf]
  have ns: "notifications ?q = notifications p @ [?n]" and ob: "outbox (post_db ?q) = outbox (post_db p)"
    and nx: "next_id (post_db ?q) = next_id (post_db p) + 1" by (simp_all add: noted_def)
  have res: "resolveUserId v ?q = resolveUserId v p" for v by (rule resolve_on [OF noted_on])
  have key: "pl_key pl \<notin> nt_key ` set (notifications p)"
    using new by (auto simp: notification_by_key_def find_None_iff)
  have id: "next_id (post_db p) \<notin> nt_id ` set (notifications p)" using d(5) by fastforce
  have rec: "records ?q xl n \<longleftrightarrow> records p xl n" "recorded p xl \<Longrightarrow> recorded ?q xl" for xl n
    by (auto simp: records_def recorded_def res ns)
  have "records ?q pl ?n" using u by (simp add: records_def res new_notice_def)
  then show ?thesis
    unfolding post_wf_def ns ob nx
    using d key id r pl rec by (auto simp: new_notice_def less_Suc_eq)
qed

text \<open>
  \<open>handed\<close>: a planned notification is in the ledger and among the identifiers to be queued, or its
  recipient is gone. \<open>telling\<close>: what telling some of them from \<open>p0\<close> on has come to.
\<close>

definition handed :: "post \<Rightarrow> id list \<Rightarrow> planned_notification \<Rightarrow> bool" where
  "handed q is pl \<longleftrightarrow> resolveUserId (pl_user_public_id pl) q = None
     \<or> (\<exists>n\<in>set (notifications q). nt_key n = pl_key pl \<and> nt_id n \<in> set is)"

definition told_of :: "post \<Rightarrow> planned_notification list \<Rightarrow> id \<Rightarrow> bool" where
  "told_of q pls i \<longleftrightarrow> (\<exists>n\<in>set (notifications q). nt_id n = i \<and> nt_key n \<in> pl_key ` set pls)"

definition telling :: "post \<Rightarrow> planned_notification list \<Rightarrow> id list \<Rightarrow> post \<Rightarrow> bool" where
  "telling p0 pls is q \<longleftrightarrow> post_wf q \<and> posts_on p0 q \<and> messages q = messages p0 \<and> jobs q = jobs p0 \<and> clock (post_db q) = clock (post_db p0)
     \<and> (life_left p0 = None \<longrightarrow> life_left q = None) \<and> (\<forall>pl\<in>set pls. handed q is pl) \<and> (\<forall>i\<in>set is. told_of q pls i)"

definition cut_short :: "post \<Rightarrow> post \<Rightarrow> bool" where
  "cut_short p0 q \<longleftrightarrow> post_wf q \<and> posts_on p0 q \<and> messages q = messages p0 \<and> jobs q = jobs p0 \<and> life_left p0 \<noteq> None"

lemma handed_recorded: "handed q is pl \<Longrightarrow> recorded q pl"
  by (auto simp: handed_def recorded_def)

lemma handed_on:
  assumes "handed p is pl" and on: "posts_on p q" and "set is \<subseteq> set js"
  shows "handed q js pl"
proof (cases "resolveUserId (pl_user_public_id pl) p = None")
  case False
  with assms obtain n where "n \<in> set (notifications p)" "nt_key n = pl_key pl" "nt_id n \<in> set is" by (auto simp: handed_def)
  then show ?thesis using posts_on_mem(1) [OF on] assms(3) unfolding handed_def by (force simp: same_notice_def)
qed (simp add: handed_def resolve_on [OF on])

lemma told_of_mono: "told_of p pls i \<Longrightarrow> set pls \<subseteq> set qls \<Longrightarrow> told_of p qls i"
  by (auto simp: told_of_def)

lemma told_of_on:
  assumes "told_of p pls i" and on: "posts_on p q" and sub: "set pls \<subseteq> set qls"
  shows "told_of q qls i"
proof -
  from assms(1) obtain n where n: "n \<in> set (notifications p)" "nt_id n = i" "nt_key n \<in> pl_key ` set pls" by (auto simp: told_of_def)
  obtain m where m: "m \<in> set (notifications q)" "same_notice n m" using posts_on_mem(1) [OF on n(1)] by blast
  have "nt_id m = i" "nt_key m \<in> pl_key ` set qls" using n m(2) sub by (auto simp: same_notice_def)
  then show ?thesis using m(1) by (auto simp: told_of_def)
qed

lemma telling_step:
  assumes t: "telling p0 pls is q" and r: "r \<in> set (outbox (post_db q))" and pl: "pl \<in> set (planNotifications r)"
    and k: "ry_queued res = is"
  shows "act_ok (cut_short p0) (\<lambda>res' q'. telling p0 (pls @ [pl]) (ry_queued res') q' \<and> outbox (post_db q') = outbox (post_db q)
     \<and> ry_processed res' = ry_processed res) (relay_plan pl res) q"
proof (cases "resolveUserId (pl_user_public_id pl) q")
  case None
  then have "handed q is pl" by (simp add: handed_def)
  then have "telling p0 (pls @ [pl]) is q"
    using t told_of_mono [of q pls _ "pls @ [pl]"] by (auto simp: telling_def)
  then show ?thesis using None k by (simp add: relay_plan_app act_ok_def)
next
  case (Some u)
  have q: "post_wf q" "posts_on p0 q" using t by (simp_all add: telling_def)
  have go: "telling p0 (pls @ [pl]) (is @ [i]) q'"
    if q': "post_wf q'" "posts_on q q'" "messages q' = messages q" "jobs q' = jobs q" "clock (post_db q') = clock (post_db q)"
        "life_left q = None \<Longrightarrow> life_left q' = None"
      and n: "n \<in> set (notifications q')" "nt_key n = pl_key pl" "nt_id n = i" for q' n i
  proof -
    have "handed q' (is @ [i]) x" if "x \<in> set (pls @ [pl])" for x
      using that t n handed_on [OF _ q'(2), of "is" x "is @ [i]"] by (auto simp: telling_def handed_def)
    moreover have "told_of q' (pls @ [pl]) j" if "j \<in> set (is @ [i])" for j
    proof (cases "j \<in> set is")
      case True
      then have "told_of q pls j" using t by (simp add: telling_def)
      then show ?thesis by (rule told_of_on [OF _ q'(2)]) auto
    qed (use that n in \<open>auto simp: told_of_def\<close>)
    ultimately show ?thesis
      using t q' posts_on_trans [OF q(2) q'(2)] by (auto simp: telling_def)
  qed
  show ?thesis
  proof (cases "life_left q = Some 0")
    case True
    then show ?thesis using Some t by (auto simp: relay_plan_app act_ok_def cut_short_def telling_def)
  next
    case False
    show ?thesis
    proof (cases "notification_by_key (pl_key pl) q")
      case None
      have "telling p0 (pls @ [pl]) (is @ [next_id (post_db q)]) (noted u pl q)"
        by (rule go [OF noted_wf [OF q(1) r pl Some None] noted_on]) (auto simp: noted_def new_notice_def ticked_def)
      then show ?thesis using Some False None k by (simp add: relay_plan_app act_ok_def) (simp add: noted_def)
    next
      case (Some n)
      then have n: "n \<in> set (notifications q)" "nt_key n = pl_key pl" by (auto simp: notification_by_key_def find_Some_iff in_set_conv_nth)
      have "telling p0 (pls @ [pl]) (is @ [nt_id n]) (ticked q)"
        by (rule go [OF post_wf_cong [OF q(1)] posts_on_cong]) (use n in \<open>auto simp: ticked_def\<close>)
      then show ?thesis using \<open>resolveUserId _ q = Some u\<close> False Some k by (simp add: relay_plan_app act_ok_def)
    qed
  qed
qed

section \<open>Rows, batches, passes\<close>

definition sent_off :: "instant \<Rightarrow> outbox_row list \<Rightarrow> outbox_row list \<Rightarrow> outbox_row list" where
  "sent_off now rows = map (\<lambda>r. if ob_id r \<in> ob_id ` set rows
     then r\<lparr>ob_processed_at := Some now, ob_attempts := ob_attempts r + 1\<rparr> else r)"

definition drained :: "post \<Rightarrow> outbox_row list \<Rightarrow> relay_result \<Rightarrow> post \<Rightarrow> bool" where
  "drained p0 rows res q \<longleftrightarrow> telling p0 (concat (map planNotifications rows)) (ry_queued res) q
     \<and> outbox (post_db q) = sent_off (clock (post_db p0)) rows (outbox (post_db p0)) \<and> ry_processed res = length rows"

lemma planned_of_row:
  assumes "telling p0 pls (ry_queued res) q" and r: "r \<in> set (outbox (post_db q))"
  shows "act_ok (cut_short p0) (\<lambda>res' q'. telling p0 (pls @ planNotifications r) (ry_queued res') q'
     \<and> outbox (post_db q') = outbox (post_db q) \<and> ry_processed res' = ry_processed res)
     (act_fold relay_plan (planNotifications r) res) q"
proof (rule act_ok_fold [where I = "\<lambda>xs res' q'. telling p0 (pls @ xs) (ry_queued res') q'
     \<and> outbox (post_db q') = outbox (post_db q) \<and> ry_processed res' = ry_processed res"])
  fix xs x zs and b :: relay_result and s
  assume I: "telling p0 (pls @ xs) (ry_queued b) s \<and> outbox (post_db s) = outbox (post_db q) \<and> ry_processed b = ry_processed res"
    and "planNotifications r = xs @ x # zs"
  then have x: "x \<in> set (planNotifications r)" by simp
  have "telling p0 (pls @ xs) (ry_queued b) s" "r \<in> set (outbox (post_db s))" using I r by simp_all
  from telling_step [OF this x refl] show "act_ok (cut_short p0) (\<lambda>res' q'. telling p0 (pls @ xs @ [x]) (ry_queued res') q'
     \<and> outbox (post_db q') = outbox (post_db q) \<and> ry_processed res' = ry_processed res) (relay_plan x b) s"
    by (rule act_ok_mono) (use I in simp_all)
qed (use assms in simp)

lemma cut_shortI: "telling p0 pls is q \<Longrightarrow> life_left q \<noteq> None \<Longrightarrow> cut_short p0 q"
  by (auto simp: telling_def cut_short_def)

lemma marked_wf:
  assumes t: "telling p0 pls is q" and sub: "set (planNotifications r) \<subseteq> set pls"
    and q': "q' = (ticked q)\<lparr>office := (office q)\<lparr>base := (post_db q)\<lparr>outbox := sent_off now [r] (outbox (post_db q))\<rparr>\<rparr>\<rparr>"
    and r: "r \<in> set (outbox (post_db q))"
  shows "telling p0 pls is q'"
proof -
  have wf: "post_wf q" and on: "posts_on p0 q" using t by (simp_all add: telling_def)
  note d = post_wfD [OF wf]
  have ob: "outbox (post_db q') = sent_off now [r] (outbox (post_db q))" and ns: "notifications q' = notifications q" by (simp_all add: q')
  have c: "list_all2 carried (outbox (post_db q)) (outbox (post_db q'))"
    unfolding ob sent_off_def by (auto simp: list_all2_conv_all_nth carried_def)
  have on': "posts_on q q'"
    unfolding posts_on_def using c
    by (intro conjI exI [of _ "outbox (post_db q')"] exI [of _ "notifications q"] exI [of _ "[]"])
       (simp_all add: q' list_all2_refl same_notice_refl)
  have res: "resolveUserId u q' = resolveUserId u q" for u by (rule resolve_on [OF on'])
  have same: "records q' = records q" "recorded q' = recorded q" "handed q' is = handed q is" "told_of q' = told_of q" for "is"
    by (auto simp: records_def recorded_def handed_def told_of_def res ns fun_eq_iff)
  have ids: "map ob_id (outbox (post_db q')) = map ob_id (outbox (post_db q))"
    unfolding ob sent_off_def by simp
  have nx: "next_id (post_db q') = next_id (post_db q)" by (simp add: q')
  have "post_wf q'"
    unfolding post_wf_def ids ns nx same
  proof (intro conjI ballI impI)
    fix x assume "x \<in> set (outbox (post_db q'))"
    then obtain y where "y \<in> set (outbox (post_db q))" "ob_id x = ob_id y" unfolding ob sent_off_def by (auto split: if_splits)
    then show "ob_id x < next_id (post_db q)" using d(2) by simp
  next
    fix n assume "n \<in> set (notifications q)"
    from d(6) [OF this] obtain x pl where x: "x \<in> set (outbox (post_db q))" "pl \<in> set (planNotifications x)" "records q pl n" by blast
    obtain y where y: "y \<in> set (outbox (post_db q'))" "carried x y" using posts_on_mem(2) [OF on' x(1)] by blast
    then show "\<exists>y\<in>set (outbox (post_db q')). \<exists>pl\<in>set (planNotifications y). records q pl n"
      using x plan_carried by metis
  next
    fix y pl assume y: "y \<in> set (outbox (post_db q'))" "ob_processed_at y \<noteq> None" "pl \<in> set (planNotifications y)"
    then obtain x where x: "x \<in> set (outbox (post_db q))" "carried x y"
        "y = (if ob_id x = ob_id r then x\<lparr>ob_processed_at := Some now, ob_attempts := ob_attempts x + 1\<rparr> else x)"
      unfolding ob sent_off_def by (auto simp: carried_def split: if_splits)
    have pl: "pl \<in> set (planNotifications x)" using y(3) plan_carried [OF x(2)] by simp
    show "recorded q pl"
    proof (cases "ob_id x = ob_id r")
      case True
      then have "x = r" using distinct_key_eq [OF d(1) x(1) r] by blast
      then have "handed q is pl" using pl sub t by (auto simp: telling_def)
      then show ?thesis by (rule handed_recorded)
    next
      case False
      then show ?thesis using d(7) [OF x(1) _ pl] x(3) y(2) by simp
    qed
  qed (use d in blast)+
  then show ?thesis
    using t posts_on_trans [OF on on'] same by (auto simp: telling_def q' ticked_def)
qed

lemma mark_processed_app:
  "mark_processed (ob_id r) p = Inr ((), p\<lparr>office := (office p)\<lparr>base := (post_db p)\<lparr>outbox := sent_off (clock (post_db p)) [r] (outbox (post_db p))\<rparr>\<rparr>\<rparr>)"
  by (simp add: mark_processed_def at_office_def tx_modify_def update_where_def sent_off_def)

lemma sent_off_more: "ob_id r \<notin> ob_id ` set rows \<Longrightarrow> sent_off now [r] (sent_off now rows obs) = sent_off now (rows @ [r]) obs"
  by (auto simp: sent_off_def)

lemma relay_row_ok:
  assumes dr: "drained p0 rows res q" and r: "r \<in> set (outbox (post_db p0))" "ob_id r \<notin> ob_id ` set rows"
  shows "act_ok (cut_short p0) (drained p0 (rows @ [r])) (relay_row r res) q"
proof -
  let ?pls = "concat (map planNotifications rows)"
  have t: "telling p0 ?pls (ry_queued res) q" and ob: "outbox (post_db q) = sent_off (clock (post_db p0)) rows (outbox (post_db p0))"
    and n: "ry_processed res = length rows" using dr by (simp_all add: drained_def)
  have mem: "r \<in> set (outbox (post_db q))" using r unfolding ob sent_off_def by (auto intro: rev_image_eqI)
  show ?thesis
    unfolding relay_row_def
  proof (rule act_ok_bind, rule act_ok_mono [OF planned_of_row [OF t mem]])
    fix res' :: relay_result and s :: post
    assume s: "telling p0 (?pls @ planNotifications r) (ry_queued res') s \<and> outbox (post_db s) = outbox (post_db q)
      \<and> ry_processed res' = ry_processed res"
    then have ts: "telling p0 (?pls @ planNotifications r) (ry_queued res') s" by blast
    let ?s = "(ticked s)\<lparr>office := (office s)\<lparr>base := (post_db s)\<lparr>outbox := sent_off (clock (post_db s)) [r] (outbox (post_db s))\<rparr>\<rparr>\<rparr>"
    have "telling p0 (?pls @ planNotifications r) (ry_queued res') ?s"
      by (rule marked_wf [OF ts _ refl]) (use s mem in auto)
    moreover have "clock (post_db s) = clock (post_db p0)" using ts by (simp add: telling_def)
    ultimately have "drained p0 (rows @ [r]) (res'\<lparr>ry_processed := ry_processed res' + 1\<rparr>) ?s"
      using s n ob sent_off_more [OF r(2)] by (simp add: drained_def)
    moreover have "cut_short p0 s" if "life_left s \<noteq> None" by (rule cut_shortI [OF ts that])
    ultimately show "act_ok (cut_short p0) (drained p0 (rows @ [r]))
      (act_bind (call (mark_processed (ob_id r))) (\<lambda>_. act_return (res'\<lparr>ry_processed := ry_processed res' + 1\<rparr>))) s"
      by (auto simp: act_ok_def act_bind_def call_app in_tx_def mark_processed_app)
  qed
qed

lemma undelivered_rows:
  assumes "post_wf p"
  shows "distinct (map ob_id (undelivered (post_db p)))" "set (undelivered (post_db p)) = {r \<in> set (outbox (post_db p)). ob_processed_at r = None}"
proof -
  have "distinct (map ob_id (filter (\<lambda>r. ob_processed_at r = None) (outbox (post_db p))))"
    using post_wfD(1) [OF assms] by (induction "outbox (post_db p)") (auto simp: distinct_map_filter)
  then have "distinct (map ob_id (sort_key ob_created_at (filter (\<lambda>r. ob_processed_at r = None) (outbox (post_db p)))))"
    by (metis distinct_map distinct_sort set_sort)
  then show "distinct (map ob_id (undelivered (post_db p)))" by (simp add: undelivered_def)
  show "set (undelivered (post_db p)) = {r \<in> set (outbox (post_db p)). ob_processed_at r = None}" by (auto simp: undelivered_def)
qed

lemma telling_start: "post_wf p \<Longrightarrow> telling p [] [] p"
  by (simp add: telling_def posts_on_refl)

lemma drain_ok:
  assumes wf: "post_wf p"
  shows "act_ok (cut_short p) (drained p (take limit (undelivered (post_db p)))) (drain limit) p"
proof -
  let ?rows = "take limit (undelivered (post_db p))"
  have "act_ok (cut_short p) (drained p ?rows) (act_fold relay_row ?rows \<lparr>ry_processed = 0, ry_created = 0, ry_queued = []\<rparr>) p"
  proof (rule act_ok_fold [where I = "drained p"])
    show "drained p [] \<lparr>ry_processed = 0, ry_created = 0, ry_queued = []\<rparr> p"
      using telling_start [OF wf] by (simp add: drained_def sent_off_def)
    fix xs x zs b s
    assume "drained p xs b s" and split: "?rows = xs @ x # zs"
    moreover have "x \<in> set (outbox (post_db p))" using split undelivered_rows(2) [OF wf] by (metis (no_types, lifting) in_set_conv_decomp in_set_takeD mem_Collect_eq)
    moreover have "ob_id x \<notin> ob_id ` set xs"
    proof -
      have "distinct (map ob_id ?rows)" using undelivered_rows(1) [OF wf] by (simp add: take_map [symmetric] distinct_take)
      then show ?thesis unfolding split by auto
    qed
    ultimately show "act_ok (cut_short p) (drained p (xs @ [x])) (relay_row x b) s" by (intro relay_row_ok)
  qed
  then show ?thesis by (simp add: drain_def act_ok_def act_bind_def)
qed

text \<open>A pass of the relay that ended, and one that was cut short, while telling of \<open>rows\<close>.\<close>

definition queued_of :: "post \<Rightarrow> outbox_row list \<Rightarrow> post \<Rightarrow> bool" where
  "queued_of p0 rows q \<longleftrightarrow> post_wf q \<and> posts_on p0 q \<and> messages q = messages p0 \<and> set (jobs p0) \<subseteq> set (jobs q)
     \<and> (\<forall>i\<in>set (jobs q) - set (jobs p0). told_of q (concat (map planNotifications rows)) i)"

definition relayed :: "post \<Rightarrow> outbox_row list \<Rightarrow> post \<Rightarrow> bool" where
  "relayed p0 rows q \<longleftrightarrow> queued_of p0 rows q \<and> (life_left p0 = None \<longrightarrow> life_left q = None)
     \<and> clock (post_db q) = clock (post_db p0) \<and> outbox (post_db q) = sent_off (clock (post_db p0)) rows (outbox (post_db p0))
     \<and> (\<forall>r\<in>set rows. \<forall>pl\<in>set (planNotifications r). handed q (jobs q) pl)"

text \<open>The same post office, with more jobs.\<close>

definition requeued :: "post \<Rightarrow> post \<Rightarrow> bool" where
  "requeued q s \<longleftrightarrow> office s = office q \<and> notifications s = notifications q \<and> public_ids s = public_ids q \<and> messages s = messages q
     \<and> set (jobs q) \<subseteq> set (jobs s) \<and> (life_left q = None \<longrightarrow> life_left s = None)"

lemma enqueue_app: "call (enqueue i) p = (if life_left p = Some 0 then (Inl DIED, p)
    else (Inr (), (ticked p)\<lparr>jobs := (if List.member (jobs p) i then jobs p else jobs p @ [i])\<rparr>))"
  by (auto simp: call_app in_tx_def enqueue_def tx_modify_def ticked_def)

lemma enqueue_all:
  "act_ok (\<lambda>s. requeued q s \<and> set (jobs s) \<subseteq> set (jobs q) \<union> set is \<and> life_left q \<noteq> None)
     (\<lambda>_ s. requeued q s \<and> set (jobs s) = set (jobs q) \<union> set is) (act_fold (\<lambda>i _. call (enqueue i)) is ()) q"
proof (rule act_ok_fold [where I = "\<lambda>xs _ s. requeued q s \<and> set (jobs s) = set (jobs q) \<union> set xs"])
  show "requeued q q \<and> set (jobs q) = set (jobs q) \<union> set []" by (simp add: requeued_def)
  fix xs x zs and b :: unit and s
  assume "requeued q s \<and> set (jobs s) = set (jobs q) \<union> set xs" and "is = xs @ x # zs"
  then show "act_ok (\<lambda>s. requeued q s \<and> set (jobs s) \<subseteq> set (jobs q) \<union> set is \<and> life_left q \<noteq> None)
     (\<lambda>_ s. requeued q s \<and> set (jobs s) = set (jobs q) \<union> set (xs @ [x])) (call (enqueue x)) s"
    by (auto simp: enqueue_app act_ok_def requeued_def)
qed

lemma relayOutbox_ok:
  assumes wf: "post_wf p"
  defines "rows \<equiv> take 100 (undelivered (post_db p))"
  shows "act_ok (\<lambda>q. queued_of p rows q \<and> life_left p \<noteq> None) (\<lambda>_. relayed p rows) relayOutbox p"
  unfolding relayOutbox_def
proof (rule act_ok_bind, rule act_ok_mono [OF drain_ok [OF wf, of 100]])
  show "queued_of p rows q \<and> life_left p \<noteq> None" if "cut_short p q" for q
    using that by (simp add: cut_short_def queued_of_def)
next
  fix res :: relay_result and q :: post
  assume "drained p (take 100 (undelivered (post_db p))) res q"
  then have t: "telling p (concat (map planNotifications rows)) (ry_queued res) q"
    and ob: "outbox (post_db q) = sent_off (clock (post_db p)) rows (outbox (post_db p))" and n: "ry_processed res = length rows"
    by (simp_all add: drained_def rows_def)
  have same: "post_wf s \<and> posts_on p s \<and> messages s = messages p \<and> (\<forall>pls i. told_of s pls i = told_of q pls i)
      \<and> (\<forall>is pl. handed s is pl = handed q is pl) \<and> post_db s = post_db q"
    if s: "requeued q s" for s
  proof -
    have o: "office s = office q" "notifications s = notifications q" "public_ids s = public_ids q" "messages s = messages q"
      using s by (simp_all add: requeued_def)
    have "resolveUserId u s = resolveUserId u q" for u using o by (intro resolve_cong) simp_all
    then show ?thesis
      using t o post_wf_cong [of q s] posts_on_trans [OF _ posts_on_cong [of s q], of p]
      by (simp add: telling_def told_of_def handed_def)
  qed
  show "act_ok (\<lambda>q. queued_of p rows q \<and> life_left p \<noteq> None) (\<lambda>_. relayed p rows)
      (if ry_processed res = 0 then act_return () else act_fold (\<lambda>i _. call (enqueue i)) (ry_queued res) ()) q"
  proof (cases "rows = []")
    case True
    then show ?thesis using t ob n by (simp add: act_ok_def relayed_def queued_of_def telling_def)
  next
    case False
    have jq: "jobs q = jobs p" and tell: "\<forall>i\<in>set (ry_queued res). told_of q (concat (map planNotifications rows)) i"
      and hand: "\<forall>pl\<in>set (concat (map planNotifications rows)). handed q (ry_queued res) pl"
      and now: "clock (post_db q) = clock (post_db p)" and live: "life_left p = None \<longrightarrow> life_left q = None"
      using t by (simp_all add: telling_def)
    have "act_ok (\<lambda>q. queued_of p rows q \<and> life_left p \<noteq> None) (\<lambda>_. relayed p rows) (act_fold (\<lambda>i _. call (enqueue i)) (ry_queued res) ()) q"
    proof (rule act_ok_mono [OF enqueue_all])
      fix s assume s: "requeued q s \<and> set (jobs s) \<subseteq> set (jobs q) \<union> set (ry_queued res) \<and> life_left q \<noteq> None"
      then have sm: "requeued q s" by blast
      note f = same [OF sm]
      have "told_of s (concat (map planNotifications rows)) i" if "i \<in> set (jobs s) - set (jobs p)" for i
      proof -
        have "i \<in> set (ry_queued res)" using that s jq by auto
        then show ?thesis using tell f by blast
      qed
      moreover have "set (jobs p) \<subseteq> set (jobs s)" using sm jq by (simp add: requeued_def)
      moreover have "life_left p \<noteq> None" using s live by auto
      ultimately show "queued_of p rows s \<and> life_left p \<noteq> None" using f unfolding queued_of_def by blast
    next
      fix s assume s: "requeued q s \<and> set (jobs s) = set (jobs q) \<union> set (ry_queued res)"
      then have sm: "requeued q s" by blast
      note f = same [OF sm]
      have "told_of s (concat (map planNotifications rows)) i" if "i \<in> set (jobs s) - set (jobs p)" for i
      proof -
        have "i \<in> set (ry_queued res)" using that s jq by auto
        then show ?thesis using tell f by blast
      qed
      moreover have "handed s (jobs s) pl" if "r \<in> set rows" "pl \<in> set (planNotifications r)" for r pl
      proof -
        have "handed s (ry_queued res) pl" using that hand f by auto
        then show ?thesis by (rule handed_on [OF _ posts_on_refl]) (use s in simp)
      qed
      moreover have "set (jobs p) \<subseteq> set (jobs s)" using s jq by simp
      moreover have "life_left p = None \<longrightarrow> life_left s = None" using live sm by (simp add: requeued_def)
      moreover have "clock (post_db s) = clock (post_db p)" "outbox (post_db s) = sent_off (clock (post_db p)) rows (outbox (post_db p))"
        using f now ob by simp_all
      ultimately show "relayed p rows s" using f unfolding relayed_def queued_of_def by blast
    qed
    then show ?thesis using False n by simp
  qed
qed

end
