(* ===== verification/Notification_Runs.thy ===== *)
theory Notification_Runs
  imports Notification_Invariant
begin

text \<open>
  Deliveries, and runs of everything around the post office. A delivery writes to its notification, may
  send one message and may tell one other person (\<open>delivers\<close>); \<open>post_do\<close> is what may happen next, and
  the two interpretations of \<open>calls\<close> at the bottom carry the agreement of the ledgers and the addresses of
  the announcements through every run.
\<close>

section \<open>What other services do\<close>

lemma office_emits:
  assumes wf: "post_wf p" and em: "emits (users (post_db p)) (post_db p) (post_db q)"
    and ns: "notifications q = notifications p" and ids: "public_ids q = public_ids p"
  shows "post_wf q" "posts_on p q"
proof -
  note d = post_wfD [OF wf]
  from em obtain new where u: "users (post_db q) = users (post_db p)" "next_id (post_db p) \<le> next_id (post_db q)"
    and ob: "outbox (post_db q) = outbox (post_db p) @ new" "distinct (map ob_id new)"
    and new: "\<And>r. r \<in> set new \<Longrightarrow> posted (users (post_db p)) (next_id (post_db p)) (next_id (post_db q)) r"
    by (auto simp: emits_def list_all_iff)
  show on: "posts_on p q"
    unfolding posts_on_def using u ns ids ob new
    by (intro conjI exI [of _ "outbox (post_db p)"] exI [of _ "notifications p"] exI [of _ new] exI [of _ "[]"])
       (auto simp: list_all2_refl carried_refl same_notice_refl list_all_iff posted_def)
  have same: "records q = records p" "recorded q = recorded p"
    by (auto simp: records_def recorded_def resolve_on [OF on] ns fun_eq_iff)
  have "set (map ob_id (outbox (post_db p))) \<inter> set (map ob_id new) = {}"
    using d(2) new by (fastforce simp: posted_def)
  moreover have "\<exists>r\<in>set (outbox (post_db p) @ new). \<exists>pl\<in>set (planNotifications r). records p pl n" if "n \<in> set (notifications p)" for n
    using d(6) [OF that] by auto
  moreover have "ob_id r < next_id (post_db q)" if "r \<in> set (outbox (post_db p) @ new)" for r
    using that d(2) [of r] new [of r] u(2) by (auto simp: posted_def)
  moreover have "nt_id n < next_id (post_db q)" if "n \<in> set (notifications p)" for n
    using d(5) [OF that] u(2) by simp
  moreover have "recorded p pl" if "r \<in> set (outbox (post_db p) @ new)" "ob_processed_at r \<noteq> None" "pl \<in> set (planNotifications r)" for r pl
    using that d(7) [of r pl] new [of r] by (auto simp: posted_def)
  moreover have "distinct (map ob_id (outbox (post_db p) @ new))"
    using d(1) ob(2) \<open>set (map ob_id (outbox (post_db p))) \<inter> _ = {}\<close> by simp
  ultimately show "post_wf q"
    unfolding post_wf_def ns same ob(1) using d(3,4) by blast
qed

definition addressed :: "post \<Rightarrow> bool" where
  "addressed p \<longleftrightarrow> (\<forall>r\<in>set (outbox (post_db p)). tells (registered (users (post_db p))) (ob_event_type r) (ob_payload r))"

lemma emits_addressed: "addressed p \<Longrightarrow> emits (users (post_db p)) (post_db p) (post_db q) \<Longrightarrow> addressed q"
  by (auto simp: addressed_def emits_def posted_def list_all_iff)

lemma addressed_cong:
  assumes "addressed p" "users (post_db q) = users (post_db p)" "list_all2 carried (outbox (post_db p)) (outbox (post_db q))"
  shows "addressed q"
  unfolding addressed_def
proof
  fix r assume "r \<in> set (outbox (post_db q))"
  then obtain x where "x \<in> set (outbox (post_db p))" "carried x r" using list_all2_mem [OF assms(3)] by blast
  then show "tells (registered (users (post_db q))) (ob_event_type r) (ob_payload r)"
    using assms(1,2) by (auto simp: addressed_def carried_def)
qed

definition at_world :: "(error, world, 'a) act \<Rightarrow> (error, post, 'a) act" where
  "at_world m = (\<lambda>p. case m (office p) of (r, w) \<Rightarrow> (r, p\<lparr>office := w\<rparr>))"

lemma at_world_emits:
  assumes "\<And>U. act_rel (world_emits U) m"
  shows "emits (users (post_db p)) (post_db p) (post_db (snd (at_world m p)))"
    "notifications (snd (at_world m p)) = notifications p" "public_ids (snd (at_world m p)) = public_ids p"
    "jobs (snd (at_world m p)) = jobs p" "messages (snd (at_world m p)) = messages p"
    "telegram_accounts (snd (at_world m p)) = telegram_accounts p"
proof -
  obtain r w where m: "m (office p) = (r, w)" by force
  have "emits (users (post_db p)) (post_db p) (base w)"
    using assms [of "users (post_db p)"] m unfolding act_rel_def world_emits_def by (metis snd_conv)
  then show "emits (users (post_db p)) (post_db p) (post_db (snd (at_world m p)))"
    "notifications (snd (at_world m p)) = notifications p" "public_ids (snd (at_world m p)) = public_ids p"
    "jobs (snd (at_world m p)) = jobs p" "messages (snd (at_world m p)) = messages p"
    "telegram_accounts (snd (at_world m p)) = telegram_accounts p"
    by (simp_all add: at_world_def m)
qed

section \<open>One delivery\<close>

text \<open>A notification the sender loaded, rewritten.\<close>

lemma touched:
  assumes wf: "post_wf p" and n: "notification_by_id i p = Some n" and f: "same_notice n (f n)"
    and q: "office q = office p" "public_ids q = public_ids p" "notifications q = update_where (\<lambda>m. nt_id m = i) f (notifications p)"
  shows "post_wf q" "posts_on p q"
proof -
  note d = post_wfD [OF wf]
  have nm: "n \<in> set (notifications p)" "nt_id n = i" using n by (auto simp: notification_by_id_def find_Some_iff in_set_conv_nth)
  have c: "list_all2 same_notice (notifications p) (notifications q)"
    unfolding q(3)
  proof (rule list_all2_update)
    fix m assume "m \<in> set (notifications p)" "nt_id m = i"
    then have "m = n" using distinct_key_eq [OF d(4) _ nm(1)] nm(2) by simp
    then show "same_notice m (f m)" using f by simp
  qed (rule same_notice_refl)
  show on: "posts_on p q"
    unfolding posts_on_def using c
    by (intro conjI exI [of _ "outbox (post_db p)"] exI [of _ "notifications q"] exI [of _ "[]"])
       (simp_all add: q(1,2) list_all2_refl carried_refl)
  have keys: "map nt_key (notifications q) = map nt_key (notifications p)" "map nt_id (notifications q) = map nt_id (notifications p)"
    using c by (auto simp: list_all2_conv_all_nth same_notice_def intro: nth_equalityI)
  have rec: "recorded q = recorded p"
    using keys(1) by (auto simp: recorded_def resolve_on [OF on] fun_eq_iff) (metis (no_types, lifting) image_iff image_set)+
  have "\<exists>r\<in>set (outbox (post_db p)). \<exists>pl\<in>set (planNotifications r). records q pl m" if "m \<in> set (notifications q)" for m
  proof -
    obtain x where x: "x \<in> set (notifications p)" "same_notice x m" using list_all2_mem [OF c \<open>m \<in> _\<close>] by blast
    from d(6) [OF x(1)] obtain r pl where "r \<in> set (outbox (post_db p))" "pl \<in> set (planNotifications r)" "records p pl x" by blast
    then show ?thesis using x(2) resolve_on [OF on] by (auto simp: records_def same_notice_def)
  qed
  moreover have "nt_id m < next_id (post_db p)" if "m \<in> set (notifications q)" for m
    using list_all2_mem [OF c that] d(5) by (auto simp: same_notice_def)
  ultimately show "post_wf q"
    unfolding post_wf_def keys rec q(1) using d by blast
qed

lemma notification_update_Inr:
  "notification_update i f p = Inr (m, q) \<longleftrightarrow> (\<exists>n. notification_by_id i p = Some n \<and> m = f n
     \<and> q = p\<lparr>notifications := update_where (\<lambda>m. nt_id m = i) f (notifications p)\<rparr>)"
  by (auto simp: notification_update_def tx_simps)

text \<open>\<open>settles i p q\<close>: the sender's own write about the notification \<open>i\<close>, and at most a notice to somebody else.\<close>

definition settles :: "id \<Rightarrow> post \<Rightarrow> post \<Rightarrow> bool" where
  "settles i p q \<longleftrightarrow> (post_wf p \<longrightarrow> (\<forall>n. notification_by_id i p = Some n \<longrightarrow> nt_status n \<noteq> N_SENT \<longrightarrow> nt_status n \<noteq> N_UNDELIVERABLE \<longrightarrow>
      post_wf q \<and> posts_on p q)) \<and> (addressed p \<longrightarrow> addressed q) \<and> jobs q = jobs p \<and> messages q = messages p
     \<and> map (\<lambda>(u, a). (u, ta_chat a)) (telegram_accounts q) = map (\<lambda>(u, a). (u, ta_chat a)) (telegram_accounts p)"

lemma update_settles:
  assumes "\<And>n. nt_status n \<noteq> N_SENT \<Longrightarrow> nt_status n \<noteq> N_UNDELIVERABLE \<Longrightarrow> same_notice n (f n)"
  shows "tx_rel (settles i) (notification_update i f)"
proof (rule tx_relI)
  fix p m q assume "notification_update i f p = Inr (m, q)"
  then have q: "q = p\<lparr>notifications := update_where (\<lambda>m. nt_id m = i) f (notifications p)\<rparr>" by (auto simp: notification_update_Inr)
  have "post_wf q \<and> posts_on p q"
    if n: "post_wf p" "notification_by_id i p = Some n" "nt_status n \<noteq> N_SENT" "nt_status n \<noteq> N_UNDELIVERABLE" for n
  proof -
    have "office q = office p" "public_ids q = public_ids p" "notifications q = update_where (\<lambda>m. nt_id m = i) f (notifications p)"
      by (simp_all add: q)
    then show ?thesis using touched [of p i n f q, OF n(1,2) assms [OF n(3,4)]] by blast
  qed
  then show "settles i p q" by (simp add: settles_def q addressed_def)
qed

lemma settles_return: "tx_rel (settles i) m \<Longrightarrow> tx_rel (settles i) (tx_bind m (\<lambda>_. tx_return ()))"
  by (auto simp: tx_rel_def tx_simps)

lemma mark_settles: "tx_rel (settles i) (markSent i m)" "tx_rel (settles i) (markFailed i e)" "tx_rel (settles i) (markSuppressed i)"
proof -
  have "tx_rel (settles i) (tx_bind (notification_update i (\<lambda>n. n\<lparr>nt_status := N_SENT, nt_sent_at := Some now,
       nt_message_id := Some m, nt_attempts := nt_attempts n + 1\<rparr>)) (\<lambda>_. tx_return ()))" for now
    by (intro settles_return update_settles) (simp add: same_notice_def)
  then show "tx_rel (settles i) (markSent i m)" unfolding markSent_def by (auto simp: tx_rel_def)
  show "tx_rel (settles i) (markFailed i e)" "tx_rel (settles i) (markSuppressed i)"
    unfolding markFailed_def markSuppressed_def by (intro settles_return update_settles; simp add: same_notice_def)+
qed

lemma chats_update: "map_of xs u = Some a \<Longrightarrow> ta_chat b = ta_chat a \<Longrightarrow>
    map (\<lambda>(u, a). (u, ta_chat a)) (AList.update u b xs) = map (\<lambda>(u, a). (u, ta_chat a)) xs"
  by (induction xs) (auto split: if_splits)

lemma undeliverable_settles: "tx_rel (settles i) (markUndeliverable i u)"
proof (rule tx_relI)
  fix p r q assume run: "markUndeliverable i u p = Inr (r, q)"
  define f where "f = (\<lambda>n :: notification_row. n\<lparr>nt_status := N_UNDELIVERABLE, nt_attempts := nt_attempts n + 1\<rparr>)"
  from run obtain n s where up: "notification_update i f p = Inr (n, s)" and more:
      "(case map_of (telegram_accounts s) u of
          None \<Rightarrow> tx_return ()
        | Some a \<Rightarrow>
            tx_bind (tx_modify (\<lambda>p. p\<lparr>telegram_accounts := AList.update u (a\<lparr>ta_bot_blocked := True\<rparr>) (telegram_accounts p)\<rparr>)) (\<lambda>_.
            tx_bind (tx_read (blockedCounterpartEvent u (nt_template n) (nt_payload n))) (\<lambda>notice.
            case notice of
              None \<Rightarrow> tx_return ()
            | Some np \<Rightarrow> at_office (outbox_emit ''notification'' i ''delivery.counterpart_blocked'' np)))) s = Inr (r, q)"
    unfolding markUndeliverable_def f_def [symmetric] by (elim tx_bindE tx_readE)
  have first: "settles i p s"
    using tx_relD [OF update_settles up] by (simp add: same_notice_def f_def)
  have q: "emits (users (post_db s)) (post_db s) (post_db q) \<and> notifications q = notifications s \<and> public_ids q = public_ids s
      \<and> jobs q = jobs s \<and> messages q = messages s
      \<and> map (\<lambda>(u, a). (u, ta_chat a)) (telegram_accounts q) = map (\<lambda>(u, a). (u, ta_chat a)) (telegram_accounts s)"
  proof (cases "map_of (telegram_accounts s) u")
    case None
    then have "q = s" using more by (simp add: tx_return_Inr)
    then show ?thesis using emits_reflp by (simp add: reflpD)
  next
    case (Some a)
    let ?t = "s\<lparr>telegram_accounts := AList.update u (a\<lparr>ta_bot_blocked := True\<rparr>) (telegram_accounts s)\<rparr>"
    have chats: "map (\<lambda>(u, a). (u, ta_chat a)) (telegram_accounts ?t) = map (\<lambda>(u, a). (u, ta_chat a)) (telegram_accounts s)"
      by simp (rule chats_update [OF Some], simp)
    have n: "(case blockedCounterpartEvent u (nt_template n) (nt_payload n) ?t of None \<Rightarrow> tx_return ()
        | Some np \<Rightarrow> at_office (outbox_emit ''notification'' i ''delivery.counterpart_blocked'' np)) ?t = Inr (r, q)"
      using more Some by (simp add: tx_bind_def tx_modify_def)
    show ?thesis
    proof (cases "blockedCounterpartEvent u (nt_template n) (nt_payload n) ?t")
      case None
      then have "q = ?t" using n by (simp add: tx_return_Inr)
      then show ?thesis using chats emits_reflp by (simp add: reflpD)
    next
      case (Some np)
      then have "tells (registered (users (post_db s))) ''delivery.counterpart_blocked'' np"
        by (auto simp: blockedCounterpartEvent_def blocked_notice_def tells_simps split: option.splits if_splits) (rule registeredI, assumption)+
      from emits_emit [OF this] have "tx_rel (emits (users (post_db s))) (outbox_emit ''notification'' i ''delivery.counterpart_blocked'' np)" .
      then show ?thesis using n Some chats by (auto simp: at_office_def tx_rel_def split: sum.splits)
    qed
  qed
  show "settles i p q"
    unfolding settles_def
  proof (intro conjI impI allI)
    fix n assume "post_wf p" "notification_by_id i p = Some n" "nt_status n \<noteq> N_SENT" "nt_status n \<noteq> N_UNDELIVERABLE"
    then have s: "post_wf s" "posts_on p s" using first by (auto simp: settles_def)
    show "post_wf q" "posts_on p q"
      using office_emits [OF s(1), of q] q posts_on_trans [OF s(2)] by blast+
  next
    assume "addressed p"
    then show "addressed q" using first emits_addressed [of s q] q by (simp add: settles_def)
  qed (use first q in \<open>simp_all add: settles_def\<close>)
qed

text \<open>A delivery: what it may have done to the ledgers, and to what Telegram accepted.\<close>

definition delivers :: "id \<Rightarrow> post \<Rightarrow> post \<Rightarrow> bool" where
  "delivers i p q \<longleftrightarrow> (post_wf p \<longrightarrow> post_wf q \<and> posts_on p q) \<and> (addressed p \<longrightarrow> addressed q) \<and> jobs q = jobs p
     \<and> map (\<lambda>(u, a). (u, ta_chat a)) (telegram_accounts q) = map (\<lambda>(u, a). (u, ta_chat a)) (telegram_accounts p)
     \<and> (messages q = messages p \<or> (\<exists>n a. notification_by_id i p = Some n \<and> nt_status n \<noteq> N_SENT
          \<and> map_of (telegram_accounts p) (nt_user n) = Some a \<and> messages q = messages p @ [(ta_chat a, i)]
          \<and> (life_left p = None \<longrightarrow> (\<exists>m. notification_by_id i q = Some m \<and> nt_status m = N_SENT))))"

lemma call_cases:
  obtains "snd (call m p) = p" | "\<And>e. m (ticked p) \<noteq> Inr e" "snd (call m p) = ticked p"
  | a q where "m (ticked p) = Inr (a, q)" "snd (call m p) = q"
proof (cases "life_left p = Some 0")
  case True
  then show ?thesis using that(1) by (simp add: call_app)
next
  case False
  then show ?thesis using that(2,3) by (cases "m (ticked p)") (auto simp: call_app in_tx_def)
qed

lemma settles_ticked: "settles i (ticked p) q \<longleftrightarrow> settles i p q"
proof -
  have wf: "post_wf (ticked p) \<longleftrightarrow> post_wf p" using post_wf_cong [of p "ticked p"] post_wf_cong [of "ticked p" p] by auto
  have on: "posts_on (ticked p) q \<longleftrightarrow> posts_on p q" by (simp add: posts_on_def)
  show ?thesis by (simp add: settles_def wf on addressed_def notification_by_id_def)
qed

lemma settles_call:
  assumes "tx_rel (settles i) m" and n: "notification_by_id i p = Some n" "nt_status n \<noteq> N_SENT" "nt_status n \<noteq> N_UNDELIVERABLE"
  shows "settles i p (snd (call m p))"
proof -
  have idle: "settles i p p" "settles i p (ticked p)"
    using post_wf_cong [of p "ticked p"] posts_on_refl [of p] posts_on_cong [of "ticked p" p]
    by (simp_all add: settles_def addressed_def)
  show ?thesis
  proof (cases rule: call_cases [of m p])
    case (3 a q)
    then show ?thesis using tx_relD [OF assms(1) 3(1)] by (simp add: settles_ticked)
  qed (use idle in simp_all)
qed

lemma settles_delivers:
  assumes "settles i p q" "notification_by_id i p = Some n" "nt_status n \<noteq> N_SENT" "nt_status n \<noteq> N_UNDELIVERABLE"
  shows "delivers i p q"
  using assms by (auto simp: settles_def delivers_def)

lemma notification_by_id_Some: "notification_by_id i p = Some n \<Longrightarrow> n \<in> set (notifications p) \<and> nt_id n = i"
  by (auto simp: notification_by_id_def find_Some_iff in_set_conv_nth)

lemma onSend_delivers: "delivers i p (snd (onSend i outcome p))"
proof (cases "load i p")
  case None
  then show ?thesis by (simp add: onSend_def delivers_def posts_on_refl)
next
  case (Some s)
  then obtain n where n: "notification_by_id i p = Some n" by (auto simp: load_def split: option.splits)
  with Some have n: "notification_by_id i p = Some n" "nt_status n \<noteq> N_SENT" "nt_status n \<noteq> N_UNDELIVERABLE"
    and s: "ns_id s = i" "ns_user s = nt_user n" "ns_chat s = map_option ta_chat (map_of (telegram_accounts p) (nt_user n))"
    using notification_by_id_Some [OF n] by (auto simp: load_def Let_def split: option.splits if_splits)
  note quick = settles_delivers [OF settles_call [OF _ n] n]
  show ?thesis
  proof (cases "ns_chat s = None \<or> ns_bot_blocked s \<or> silenced s p \<or> \<not> renders (ns_template s)")
    case True
    then show ?thesis
      using Some s quick [OF undeliverable_settles] quick [OF mark_settles(2)] quick [OF mark_settles(3)]
      by (auto simp: onSend_def split: option.splits)
  next
    case False
    then obtain a where a: "map_of (telegram_accounts p) (nt_user n) = Some a" "ns_chat s = Some (ta_chat a)" using s by auto
    let ?m = "telegram_send (ta_chat a) i outcome"
    have run: "onSend i outcome p = act_bind (call ?m) (\<lambda>_. after_send s outcome) p"
      using Some s(1) a False by (simp add: onSend_def)
    show ?thesis
    proof (cases "life_left p = Some 0")
      case True
      then have "snd (onSend i outcome p) = p" unfolding run by (simp add: act_bind_def call_app)
      then show ?thesis by (simp add: delivers_def posts_on_refl)
    next
      case False
      define q where "q = (ticked p)\<lparr>messages := messages p @ (case outcome of Accepted _ \<Rightarrow> [(ta_chat a, i)] | _ \<Rightarrow> [])\<rparr>"
      have sent: "snd (onSend i outcome p) = snd (after_send s outcome q)"
      proof (cases "\<exists>k. outcome = Accepted k")
        case True
        then show ?thesis
          unfolding run using False
          by (auto simp: act_bind_def call_app in_tx_def telegram_send_def tx_modify_def q_def)
      next
        case neg: False
        then have "q = ticked p" unfolding q_def by (cases outcome) (simp_all add: ticked_def)
        then show ?thesis
          unfolding run using False neg
          by (cases outcome) (simp_all add: act_bind_def call_app in_tx_def telegram_send_def)
      qed
      have same: "office q = office p" "notifications q = notifications p" "public_ids q = public_ids p" "jobs q = jobs p"
          "telegram_accounts q = telegram_accounts p" by (simp_all add: q_def)
      have nq: "notification_by_id i q = Some n" using n(1) same(2) by (simp add: notification_by_id_def)
      have e: "snd (after_send s outcome q) = snd (case outcome of Accepted m \<Rightarrow> call (markSent i m) q
          | Bot_Blocked \<Rightarrow> call (markUndeliverable i (nt_user n)) q | Retry r \<Rightarrow> call (markFailed i r) q | Rate_Limited r \<Rightarrow> call (markFailed i r) q)"
        using s by (auto simp: after_send_def act_bind_def split: send_outcome.split sum.split prod.split)
      have st: "settles i q (snd (after_send s outcome q))"
        unfolding e using settles_call [OF _ nq n(2,3)] undeliverable_settles mark_settles by (auto split: send_outcome.split)
      have wf: "post_wf p \<longrightarrow> post_wf q" "posts_on p q" "addressed p \<longrightarrow> addressed q"
        using post_wf_cong [of p q] posts_on_cong [of q p] same by (auto simp: addressed_def)
      have fin: "\<exists>m. notification_by_id i (snd (after_send s outcome q)) = Some m \<and> nt_status m = N_SENT"
        if "outcome = Accepted k" "life_left p = None" for k
      proof -
        have l: "life_left q \<noteq> Some 0" using that by (simp add: q_def ticked_def)
        have up: "notification_update i f (ticked q) = Inr (f n, (ticked q)\<lparr>notifications := update_where (\<lambda>m. nt_id m = i) f (notifications q)\<rparr>)" for f
          using nq by (simp add: notification_update_Inr notification_by_id_def)
        show ?thesis
          unfolding e using that(1) l n(1)
          by (simp add: call_app in_tx_def markSent_def tx_bind_def tx_read_def up tx_return_def notification_by_id_def same find_update_key)
      qed
      show ?thesis
        unfolding sent delivers_def
        using st wf posts_on_trans [OF wf(2)] nq n a same fin
        by (cases outcome) (auto simp: settles_def q_def)
    qed
  qed
qed

section \<open>Runs\<close>

text \<open>
  What happens around the post office: the modelled services, rows other services emit, passes of
  the relay and deliveries of a job, which the worker may not survive, people changing their
  preferences, blocking the bot or letting it in again, and a queue that forgets a job.
\<close>

datatype post_op =
    In_Life life_op
  | In_Reviews review_op
  | Emit_Elsewhere string id string payload
  | Relay "nat option"
  | Deliver "nat option" id send_outcome
  | Prefer id "bool option" "bool option" "bool option"
  | Bot_Marked id bool
  | Forget id

definition worker :: "nat option \<Rightarrow> (error, post, 'a) act \<Rightarrow> (error, post, 'a) act" where
  "worker k m = (\<lambda>p. case m (p\<lparr>life_left := k\<rparr>) of (r, q) \<Rightarrow> (r, q\<lparr>life_left := None\<rparr>))"

text \<open>An account nobody has is left alone. \<^verbatim>\<open>telegram_user_id\<close> is unique.\<close>

definition markBotBlocked :: "id \<Rightarrow> bool \<Rightarrow> (error, post, unit) tx" where
  "markBotBlocked telegramUserId blocked = tx_modify (\<lambda>p. p\<lparr>telegram_accounts :=
     map (\<lambda>(u, a). (u, if ta_chat a = telegramUserId then a\<lparr>ta_bot_blocked := blocked\<rparr> else a)) (telegram_accounts p)\<rparr>)"

fun post_do :: "post_op \<Rightarrow> (error, post, unit) act" where
  "post_do (In_Life x) = at_world (life_do x)"
| "post_do (In_Reviews x) = at_world (review_do x)"
| "post_do (Emit_Elsewhere agg i et pl) =
     in_tx (if map_of ANNOUNCED et = None then at_office (outbox_emit agg i et pl) else tx_throw (DbError ''an event of a modelled service''))"
| "post_do (Relay k) = worker k relayOutbox"
| "post_do (Deliver k i outcome) =
     act_bind (act_read (\<lambda>p. List.member (jobs p) i)) (\<lambda>waiting. if waiting then worker k (onSend i outcome) else act_return ())"
| "post_do (Prefer u c e g) = in_tx (tx_bind (settings_update u c e g) (\<lambda>_. tx_return ()))"
| "post_do (Bot_Marked chat blocked) = in_tx (markBotBlocked chat blocked)"
| "post_do (Forget i) = in_tx (tx_modify (\<lambda>p. p\<lparr>jobs := removeAll i (jobs p)\<rparr>))"

lemma worker_snd: "snd (worker k m p) = (snd (m (p\<lparr>life_left := k\<rparr>)))\<lparr>life_left := None\<rparr>"
  by (simp add: worker_def split: prod.split)

lemma with_life: "post_wf (p\<lparr>life_left := k\<rparr>) \<longleftrightarrow> post_wf p" "posts_on (p\<lparr>life_left := k\<rparr>) q \<longleftrightarrow> posts_on p q"
  "posts_on p (q\<lparr>life_left := k\<rparr>) \<longleftrightarrow> posts_on p q" "addressed (p\<lparr>life_left := k\<rparr>) \<longleftrightarrow> addressed p"
proof -
  show "post_wf (p\<lparr>life_left := k\<rparr>) \<longleftrightarrow> post_wf p"
    using post_wf_cong [of p "p\<lparr>life_left := k\<rparr>"] post_wf_cong [of "p\<lparr>life_left := k\<rparr>" p] by auto
qed (simp_all add: posts_on_def addressed_def)

lemma emit_elsewhere_emits:
  "emits (users (post_db p)) (post_db p) (post_db (snd (post_do (Emit_Elsewhere agg i et pl) p)))"
  "notifications (snd (post_do (Emit_Elsewhere agg i et pl) p)) = notifications p"
  "public_ids (snd (post_do (Emit_Elsewhere agg i et pl) p)) = public_ids p" "jobs (snd (post_do (Emit_Elsewhere agg i et pl) p)) = jobs p"
  "messages (snd (post_do (Emit_Elsewhere agg i et pl) p)) = messages p"
  "telegram_accounts (snd (post_do (Emit_Elsewhere agg i et pl) p)) = telegram_accounts p"
proof -
  have "tells (registered (users (post_db p))) et pl" if "map_of ANNOUNCED et = None" using that by (simp add: tells_def)
  from emits_emit [OF this]
  have em: "emits (users (post_db p)) (post_db p) s" if "map_of ANNOUNCED et = None" "outbox_emit agg i et pl (post_db p) = Inr (u, s)" for u s
    using that by (auto simp: tx_rel_def)
  show "emits (users (post_db p)) (post_db p) (post_db (snd (post_do (Emit_Elsewhere agg i et pl) p)))"
    using em emits_reflp [of "users (post_db p)"]
    by (auto simp: in_tx_def at_office_def tx_throw_def reflpD split: sum.splits prod.splits)
qed (auto simp: in_tx_def at_office_def tx_throw_def split: sum.splits prod.splits)

lemma post_do_wf:
  assumes wf: "post_wf p"
  shows "post_wf (snd (post_do x p)) \<and> posts_on p (snd (post_do x p))"
proof (cases x)
  case (In_Life y)
  show ?thesis unfolding In_Life post_do.simps
    using office_emits [OF wf at_world_emits(1) at_world_emits(2) at_world_emits(3), OF world_life world_life world_life] by blast
next
  case (In_Reviews y)
  show ?thesis unfolding In_Reviews post_do.simps
    using office_emits [OF wf at_world_emits(1) at_world_emits(2) at_world_emits(3), OF world_review world_review world_review] by blast
next
  case (Emit_Elsewhere agg i et pl)
  show ?thesis unfolding Emit_Elsewhere
    using office_emits [OF wf emit_elsewhere_emits(1-3)] by blast
next
  case (Relay k)
  have "post_wf (p\<lparr>life_left := k\<rparr>)" using wf by (simp add: with_life)
  from relayOutbox_ok [OF this] show ?thesis
    unfolding Relay post_do.simps worker_snd with_life act_ok_def
    by (auto simp: relayed_def queued_of_def with_life split: prod.splits sum.splits)
next
  case (Deliver k i outcome)
  show ?thesis
    using onSend_delivers [of i "p\<lparr>life_left := k\<rparr>" outcome] wf posts_on_refl [of p]
    by (auto simp: Deliver worker_snd with_life delivers_def)
next
  case (Prefer u c e g)
  let ?q = "snd (post_do x p)"
  have "office ?q = office p" "notifications ?q = notifications p" "public_ids ?q = public_ids p"
    by (simp_all add: Prefer settings_update_def Let_def in_tx_def tx_bind_def tx_modify_def tx_return_def)
  then show ?thesis using post_wf_cong [OF wf] posts_on_cong by blast
next
  case (Bot_Marked chat blocked)
  let ?q = "snd (post_do x p)"
  have "office ?q = office p" "notifications ?q = notifications p" "public_ids ?q = public_ids p"
    by (simp_all add: Bot_Marked markBotBlocked_def in_tx_def tx_modify_def)
  then show ?thesis using post_wf_cong [OF wf] posts_on_cong by blast
next
  case (Forget i)
  let ?q = "snd (post_do x p)"
  have "office ?q = office p" "notifications ?q = notifications p" "public_ids ?q = public_ids p"
    by (simp_all add: Forget in_tx_def tx_modify_def)
  then show ?thesis using post_wf_cong [OF wf] posts_on_cong by blast
qed

interpretation post_calls: calls post_do "\<lambda>q. post_wf q \<and> posts_on p q" for p
  by unfold_locales (auto simp: act_inv_def intro: posts_on_trans dest: post_do_wf)

text \<open>What each statement of the relay keeps, a pass keeps.\<close>

lemma relay_keeps:
  assumes "\<And>u t k pl. act_inv P (call (notification_create u t k pl))" "\<And>i. act_inv P (call (mark_processed i))"
    "\<And>i. act_inv P (call (enqueue i))"
  shows "act_inv P relayOutbox"
  unfolding relayOutbox_def drain_def relay_row_def relay_plan_def queue_notification_def by (intro act_inv_rules assms)

lemma call_keeps:
  assumes "\<And>p. P p \<Longrightarrow> P (ticked p)" and "\<And>p a q. P p \<Longrightarrow> m p = Inr (a, q) \<Longrightarrow> P q"
  shows "act_inv P (call m)"
  unfolding act_inv_def
proof (intro allI impI)
  fix p assume p: "P p"
  show "P (snd (call m p))" by (cases rule: call_cases [of m p]) (use p assms in auto)
qed

lemma relay_addressed: "addressed p \<Longrightarrow> addressed (snd (relayOutbox p))"
proof -
  have "act_inv addressed relayOutbox"
    by (rule relay_keeps; rule call_keeps)
       (auto simp: notification_create_def mark_processed_def enqueue_def tx_simps at_office_def tx_modify_def addressed_def update_where_def
         split: sum.splits if_splits)
  then show "addressed p \<Longrightarrow> addressed (snd (relayOutbox p))" by (simp add: act_inv_def)
qed

lemma post_do_addressed: "addressed p \<Longrightarrow> addressed (snd (post_do x p))"
proof (cases x)
  case (In_Life y)
  then show "addressed p \<Longrightarrow> ?thesis" using emits_addressed [OF _ at_world_emits(1) [OF world_life]] by simp
next
  case (In_Reviews y)
  then show "addressed p \<Longrightarrow> ?thesis" using emits_addressed [OF _ at_world_emits(1) [OF world_review]] by simp
next
  case (Emit_Elsewhere agg i et pl)
  then show "addressed p \<Longrightarrow> ?thesis" using emits_addressed [OF _ emit_elsewhere_emits(1)] by simp
next
  case (Relay k)
  then show "addressed p \<Longrightarrow> ?thesis" using relay_addressed [of "p\<lparr>life_left := k\<rparr>"] by (simp add: worker_snd with_life)
next
  case (Deliver k i outcome)
  then show "addressed p \<Longrightarrow> ?thesis"
    using onSend_delivers [of i "p\<lparr>life_left := k\<rparr>" outcome] by (simp add: worker_snd with_life delivers_def)
qed (auto simp: settings_update_def Let_def markBotBlocked_def in_tx_def tx_bind_def tx_modify_def tx_return_def addressed_def split: option.split)

interpretation address_calls: calls post_do addressed
  by unfold_locales (simp add: act_inv_def post_do_addressed)

end
