(* ===== verification/Notification_Progress.thy ===== *)
theory Notification_Progress
  imports Notification_Runs
begin

text \<open>
  What runs come to: how often and to whom a notification may be sent (\<open>message_count\<close>, \<open>told_right\<close>), what
  passes that finish do to the backlog (\<open>passes_catch_up\<close>), whom a row of an announced type is planned for
  (\<open>announced_recipients\<close>), and what no pass will ever queue (\<open>forgotten\<close>).
\<close>

section \<open>Deliveries, counted\<close>

definition chats :: "post \<Rightarrow> (id \<times> id) list" where
  "chats p = map (\<lambda>(u, a). (u, ta_chat a)) (telegram_accounts p)"

lemma chats_of: "map_of (chats p) u = map_option ta_chat (map_of (telegram_accounts p) u)"
proof -
  have "map_of (map (\<lambda>(u, a). (u, ta_chat a)) xs) u = map_option ta_chat (map_of xs u)" for xs
    by (induction xs) auto
  then show ?thesis by (simp add: chats_def)
qed

lemma relay_chats: "telegram_accounts (snd (relayOutbox p)) = telegram_accounts p"
proof -
  have "act_inv (\<lambda>q. telegram_accounts q = telegram_accounts p) relayOutbox"
    by (rule relay_keeps; rule call_keeps)
       (auto simp: notification_create_def mark_processed_def enqueue_def tx_simps at_office_def tx_modify_def split: sum.splits if_splits)
  then show ?thesis by (simp add: act_inv_def)
qed

text \<open>What one operation does to the messages, the jobs and the chats.\<close>

lemma post_do_chats: "chats (snd (post_do x p)) = chats p"
proof (cases x)
  case (In_Life y)
  then show ?thesis using at_world_emits(6) [OF world_life, of y p] by (simp add: chats_def)
next
  case (In_Reviews y)
  then show ?thesis using at_world_emits(6) [OF world_review, of y p] by (simp add: chats_def)
next
  case (Emit_Elsewhere agg i et pl)
  then show ?thesis using emit_elsewhere_emits(6) [of agg i et pl p] by (simp add: chats_def)
next
  case (Relay k)
  then show ?thesis using relay_chats [of "p\<lparr>life_left := k\<rparr>"] by (simp add: chats_def worker_snd)
next
  case (Deliver k i outcome)
  then show ?thesis
    using onSend_delivers [of i "p\<lparr>life_left := k\<rparr>" outcome] by (simp add: chats_def worker_snd delivers_def)
next
  case (Bot_Marked chat blocked)
  then show ?thesis
    by (auto simp: chats_def markBotBlocked_def in_tx_def tx_modify_def)
qed (auto simp: chats_def settings_update_def Let_def in_tx_def tx_bind_def tx_modify_def tx_return_def)

definition interrupted :: "id \<Rightarrow> post_op list \<Rightarrow> nat" where
  "interrupted i ops = length (filter (\<lambda>x. case x of Deliver (Some _) j _ \<Rightarrow> j = i | _ \<Rightarrow> False) ops)"

definition messages_about :: "id \<Rightarrow> post \<Rightarrow> nat" where
  "messages_about i p = length (filter (\<lambda>m. snd m = i) (messages p))"

definition told :: "id \<Rightarrow> post \<Rightarrow> bool" where
  "told i p \<longleftrightarrow> (\<exists>n\<in>set (notifications p). nt_id n = i \<and> nt_status n = N_SENT)"

lemma told_on: "posts_on p q \<Longrightarrow> told i p \<Longrightarrow> told i q"
  using posts_on_mem(1) [of p q] unfolding told_def by (force simp: same_notice_def)

lemma others_send_nothing:
  assumes wf: "post_wf p" and no: "\<And>k i outcome. x \<noteq> Deliver k i outcome"
  shows "messages (snd (post_do x p)) = messages p"
proof (cases x)
  case (In_Life y)
  then show ?thesis using at_world_emits(5) [OF world_life, of y p] by simp
next
  case (In_Reviews y)
  then show ?thesis using at_world_emits(5) [OF world_review, of y p] by simp
next
  case (Emit_Elsewhere agg i et pl)
  then show ?thesis using emit_elsewhere_emits(5) [of agg i et pl p] by simp
next
  case (Relay k)
  have "post_wf (p\<lparr>life_left := k\<rparr>)" using wf by (simp add: with_life)
  from relayOutbox_ok [OF this] show ?thesis
    unfolding Relay post_do.simps worker_snd act_ok_def
    by (auto simp: relayed_def queued_of_def split: prod.splits sum.splits)
qed (use no in \<open>auto simp: settings_update_def Let_def markBotBlocked_def in_tx_def tx_bind_def tx_modify_def tx_return_def split: option.split\<close>)

text \<open>One message at most, to the chat of the one it is for; and another only after an interruption.\<close>

lemma deliver_messages:
  assumes wf: "post_wf p" and q_def: "q = snd (post_do (Deliver k i outcome) p)"
  shows "messages q = messages p \<or> (\<exists>n c. n \<in> set (notifications p) \<and> nt_id n = i \<and> map_of (chats p) (nt_user n) = Some c
      \<and> messages q = messages p @ [(c, i)] \<and> \<not> told i p \<and> (k = None \<longrightarrow> told i q))"
proof -
  let ?p = "p\<lparr>life_left := k\<rparr>" and ?r = "snd (onSend i outcome (p\<lparr>life_left := k\<rparr>))"
  show ?thesis
  proof (cases "i \<in> set (jobs p) \<and> messages ?r \<noteq> messages p")
    case False
    then show ?thesis by (auto simp: q_def worker_snd)
  next
    case True
    then have q: "q = ?r\<lparr>life_left := None\<rparr>" by (simp add: q_def worker_snd)
    from True onSend_delivers [of i ?p outcome] obtain n a where n: "notification_by_id i p = Some n" "nt_status n \<noteq> N_SENT"
        "map_of (telegram_accounts p) (nt_user n) = Some a" "messages ?r = messages p @ [(ta_chat a, i)]"
        "k = None \<Longrightarrow> \<exists>m. notification_by_id i ?r = Some m \<and> nt_status m = N_SENT"
      by (auto simp: delivers_def notification_by_id_def)
    note nm = notification_by_id_Some [OF n(1)]
    have "\<not> told i p"
    proof
      assume "told i p"
      then obtain m where "m \<in> set (notifications p)" "nt_id m = i" "nt_status m = N_SENT" by (auto simp: told_def)
      then show False using distinct_key_eq [OF post_wfD(4) [OF wf], of m n] nm n(2) by auto
    qed
    moreover have "k = None \<longrightarrow> told i q" using n(5) notification_by_id_Some [of i ?r] by (auto simp: told_def q)
    ultimately show ?thesis
      using nm n(3,4) chats_of [of p "nt_user n"] by (intro disjI2 exI [of _ n] exI [of _ "ta_chat a"]) (simp add: q)
  qed
qed

lemma message_count:
  assumes wf: "post_wf p"
  shows "messages_about i (run_acts post_do ops p) \<le> messages_about i p + interrupted i ops + (if told i p then 0 else of_bool (told i (run_acts post_do ops p)))"
  using wf
proof (induction ops arbitrary: p)
  case Nil
  then show ?case by (simp add: interrupted_def)
next
  case (Cons x ops)
  let ?q = "snd (post_do x p)"
  have q: "post_wf ?q" "posts_on p ?q" using post_do_wf [OF Cons.prems] by blast+
  note ih = Cons.IH [OF q(1)]
  have on: "told i p \<Longrightarrow> told i ?q" using told_on [OF q(2)] .
  have fin: "told i ?q \<Longrightarrow> told i (run_acts post_do ops ?q)"
    using told_on post_calls.run_inv [of p ?q] q post_calls.run_inv [of ?q ?q ops] posts_on_refl by blast
  have step: "messages_about i ?q \<le> messages_about i p + interrupted i [x] + (if told i p then 0 else of_bool (told i ?q))"
  proof (cases "\<exists>k j outcome. x = Deliver k j outcome")
    case True
    then obtain k j outcome where x: "x = Deliver k j outcome" by blast
    show ?thesis
      using deliver_messages [OF Cons.prems refl, of k j outcome] on
      unfolding x by (cases k) (auto simp: messages_about_def interrupted_def)
  next
    case False
    then have "messages ?q = messages p" using others_send_nothing [OF Cons.prems, of x] by blast
    then show ?thesis by (simp add: messages_about_def)
  qed
  have "interrupted i (x # ops) = interrupted i [x] + interrupted i ops" by (simp add: interrupted_def)
  then show ?case using ih step on fin by (auto split: if_splits)
qed

definition told_right :: "post \<Rightarrow> bool" where
  "told_right p \<longleftrightarrow> (\<forall>(c, i)\<in>set (messages p). \<exists>n\<in>set (notifications p). nt_id n = i \<and> map_of (chats p) (nt_user n) = Some c)"

lemma told_right_on:
  assumes "told_right p" "posts_on p q" "chats q = chats p" and c: "(c, i) \<in> set (messages p)"
  shows "\<exists>n\<in>set (notifications q). nt_id n = i \<and> map_of (chats q) (nt_user n) = Some c"
proof -
  from assms(1) c obtain n where n: "n \<in> set (notifications p)" "nt_id n = i" "map_of (chats p) (nt_user n) = Some c"
    by (auto simp: told_right_def)
  obtain m where m: "m \<in> set (notifications q)" "same_notice n m" using posts_on_mem(1) [OF assms(2) n(1)] by blast
  then show ?thesis using n assms(3) by (intro bexI [of _ m]) (auto simp: same_notice_def)
qed

lemma post_do_told_right:
  assumes wf: "post_wf p" and ok: "told_right p"
  shows "told_right (snd (post_do x p))"
proof -
  let ?q = "snd (post_do x p)"
  have on: "posts_on p ?q" using post_do_wf [OF wf] by blast
  note old = told_right_on [OF ok on post_do_chats]
  have new: "told_right ?q" if "messages ?q = messages p" using old that by (auto simp: told_right_def)
  show ?thesis
  proof (cases "\<exists>k j outcome. x = Deliver k j outcome")
    case True
    then obtain k j outcome where x: "x = Deliver k j outcome" by blast
    from deliver_messages [OF wf refl, of k j outcome] new show ?thesis
    proof (elim disjE exE conjE)
      fix n c assume n: "n \<in> set (notifications p)" "nt_id n = j" "map_of (chats p) (nt_user n) = Some c"
        and m: "messages (snd (post_do (Deliver k j outcome) p)) = messages p @ [(c, j)]"
      obtain n' where "n' \<in> set (notifications ?q)" "same_notice n n'" using posts_on_mem(1) [OF on n(1)] by blast
      then have "\<exists>n'\<in>set (notifications ?q). nt_id n' = j \<and> map_of (chats ?q) (nt_user n') = Some c"
        using n(2,3) unfolding post_do_chats by (auto simp: same_notice_def)
      then show "told_right ?q" using old m unfolding told_right_def x by auto
    qed (simp add: x)
  next
    case False
    then show ?thesis using new others_send_nothing [OF wf, of x] by blast
  qed
qed

interpretation message_calls: calls post_do "\<lambda>q. post_wf q \<and> told_right q"
  by unfold_locales (simp add: act_inv_def post_do_wf post_do_told_right)

section \<open>Passes that finish\<close>

lemma undelivered_after:
  assumes wf: "post_wf p" and rows: "rows = take n (undelivered (post_db p))"
    and ob: "outbox (post_db q) = sent_off now rows (outbox (post_db p))"
  shows "undelivered (post_db q) = drop n (undelivered (post_db p))"
proof -
  have keep: "filter (\<lambda>r. ob_processed_at r = None) (sent_off now rows obs)
      = filter (\<lambda>r. ob_id r \<notin> ob_id ` set rows) (filter (\<lambda>r. ob_processed_at r = None) obs)" for obs
    by (induction obs) (auto simp: sent_off_def)
  have "undelivered (post_db q) = filter (\<lambda>r. ob_id r \<notin> ob_id ` set rows) (undelivered (post_db p))"
    by (simp add: undelivered_def ob keep filter_sort)
  also have "\<dots> = drop n (undelivered (post_db p))"
  proof -
    have u: "undelivered (post_db p) = rows @ drop n (undelivered (post_db p))" by (simp add: rows)
    have "distinct (map ob_id (rows @ drop n (undelivered (post_db p))))"
      using undelivered_rows(1) [OF wf] u by simp
    then have "ob_id r \<notin> ob_id ` set rows" if "r \<in> set (drop n (undelivered (post_db p)))" for r
      using that by (auto simp del: set_drop_subset)
    then have "filter (\<lambda>r. ob_id r \<notin> ob_id ` set rows) (rows @ drop n (undelivered (post_db p))) = drop n (undelivered (post_db p))"
      by (simp add: filter_empty_conv filter_id_conv)
    then show ?thesis using u by simp
  qed
  finally show ?thesis .
qed

lemma pass_catches_up:
  assumes wf: "post_wf p" and q: "q = snd (post_do (Relay None) p)"
  shows "post_wf q" "posts_on p q" "set (jobs p) \<subseteq> set (jobs q)" "undelivered (post_db q) = drop 100 (undelivered (post_db p))"
    "r \<in> set (take 100 (undelivered (post_db p))) \<Longrightarrow> pl \<in> set (planNotifications r) \<Longrightarrow> handed q (jobs q) pl"
proof -
  let ?p = "p\<lparr>life_left := None\<rparr>"
  have wf': "post_wf ?p" using wf by (simp add: with_life)
  obtain s where s: "relayed ?p (take 100 (undelivered (post_db p))) s" "q = s\<lparr>life_left := None\<rparr>"
    using relayOutbox_ok [OF wf'] unfolding q post_do.simps worker_snd act_ok_def by (auto split: prod.splits sum.splits)
  then have "post_wf s" "posts_on ?p s" by (simp_all add: relayed_def queued_of_def)
  then show "post_wf q" "posts_on p q" by (simp_all add: s(2) with_life)
  show "set (jobs p) \<subseteq> set (jobs q)" using s by (simp add: relayed_def queued_of_def)
  show "undelivered (post_db q) = drop 100 (undelivered (post_db p))"
    by (rule undelivered_after [OF wf refl, of _ "clock (post_db p)"]) (use s in \<open>simp add: relayed_def\<close>)
  assume "r \<in> set (take 100 (undelivered (post_db p)))" "pl \<in> set (planNotifications r)"
  then have "handed s (jobs s) pl" using s by (simp add: relayed_def)
  moreover have "resolveUserId u q = resolveUserId u s" for u by (rule resolve_cong) (simp_all add: s(2))
  ultimately show "handed q (jobs q) pl" by (simp add: handed_def) (simp add: s(2))
qed

lemma passes_catch_up:
  assumes "post_wf p" and "q = run_acts post_do (replicate n (Relay None)) p"
  shows "posts_on p q \<and> set (jobs p) \<subseteq> set (jobs q) \<and> undelivered (post_db q) = drop (100 * n) (undelivered (post_db p))
    \<and> (\<forall>r\<in>set (take (100 * n) (undelivered (post_db p))). \<forall>pl\<in>set (planNotifications r). handed q (jobs q) pl)"
  using assms
proof (induction n arbitrary: p)
  case 0
  then show ?case by (simp add: posts_on_refl)
next
  case (Suc n)
  define s where "s = snd (post_do (Relay None) p)"
  note f = pass_catches_up [OF Suc.prems(1) s_def]
  have "q = run_acts post_do (replicate n (Relay None)) s" using Suc.prems(2) by (simp add: s_def)
  note ih = Suc.IH [OF f(1) this]
  have ids: "set (take (100 * Suc n) xs) \<subseteq> set (take 100 xs) \<union> set (take (100 * n) (drop 100 xs))" for xs :: "outbox_row list"
    by (simp add: take_add [of 100 "100 * n", simplified])
  have "handed q (jobs q) pl" if r: "r \<in> set (take (100 * Suc n) (undelivered (post_db p)))" and pl: "pl \<in> set (planNotifications r)" for r pl
  proof -
    from r ids consider "r \<in> set (take 100 (undelivered (post_db p)))" | "r \<in> set (take (100 * n) (undelivered (post_db s)))"
      using f(4) by fastforce
    then show ?thesis
    proof cases
      case 1
      from f(5) [OF this pl] show ?thesis by (rule handed_on) (use ih in blast)+
    qed (use ih pl in blast)
  qed
  moreover have "undelivered (post_db q) = drop (100 * Suc n) (undelivered (post_db p))" using ih f(4) by (simp add: add.commute)
  ultimately show ?case using ih f(2,3) posts_on_trans [OF f(2)] by blast
qed

section \<open>Whom an announcement reaches\<close>

lemma announced_plans:
  "list_all (\<lambda>(et, keys). \<forall>r. ob_event_type r = et \<longrightarrow> list_all (\<lambda>k. \<exists>i. payload_text (ob_payload r) k = Some i) keys \<longrightarrow>
     map (\<lambda>pl. Some (pl_user_public_id pl)) (planNotifications r) = map (payload_text (ob_payload r)) keys) ANNOUNCED"
  apply (simp only: ANNOUNCED_def list.pred_inject prod.case simp_thms)
  apply (intro conjI allI impI; elim conjE exE; simp add: planNotifications_def recipient_def addressee_def SINGLE_RECIPIENT_def)
      apply (simp_all add: Let_def)
  done

lemma announced_recipients:
  assumes "tells known (ob_event_type r) (ob_payload r)" "map_of ANNOUNCED (ob_event_type r) = Some keys"
  shows "map (\<lambda>pl. Some (pl_user_public_id pl)) (planNotifications r) = map (payload_text (ob_payload r)) keys"
    "pl \<in> set (planNotifications r) \<Longrightarrow> known (pl_user_public_id pl)"
proof -
  have all: "list_all (\<lambda>k. \<exists>i. payload_text (ob_payload r) k = Some i \<and> known i) keys"
    using assms by (auto simp: tells_def list_all_iff split: option.splits)
  then have some: "list_all (\<lambda>k. \<exists>i. payload_text (ob_payload r) k = Some i) keys" by (auto simp: list_all_iff)
  have "(ob_event_type r, keys) \<in> set ANNOUNCED" using assms(2) by (rule map_of_SomeD)
  with announced_plans some show eq: "map (\<lambda>pl. Some (pl_user_public_id pl)) (planNotifications r) = map (payload_text (ob_payload r)) keys"
    unfolding list_all_iff by fast
  assume "pl \<in> set (planNotifications r)"
  then have "Some (pl_user_public_id pl) \<in> set (map (payload_text (ob_payload r)) keys)" unfolding eq [symmetric] by simp
  then show "known (pl_user_public_id pl)" using all by (auto simp: list_all_iff)
qed

section \<open>What nobody queues\<close>

text \<open>
  A notification of a row the relay is through with is queued by no later pass: only rows not yet
  processed are read, and a key belongs to one row.
\<close>

definition forgotten :: "id \<Rightarrow> post \<Rightarrow> bool" where
  "forgotten i p \<longleftrightarrow> i \<notin> set (jobs p) \<and> (\<exists>n\<in>set (notifications p). \<exists>r\<in>set (outbox (post_db p)). \<exists>pl\<in>set (planNotifications r).
     nt_id n = i \<and> nt_key n = pl_key pl \<and> ob_processed_at r \<noteq> None)"

lemma forgotten_on:
  assumes "forgotten i p" "posts_on p q" "i \<notin> set (jobs q)"
  shows "forgotten i q"
proof -
  from assms(1) obtain n r pl where f: "n \<in> set (notifications p)" "r \<in> set (outbox (post_db p))" "pl \<in> set (planNotifications r)"
      "nt_id n = i" "nt_key n = pl_key pl" "ob_processed_at r \<noteq> None"
    by (auto simp: forgotten_def)
  obtain m where m: "m \<in> set (notifications q)" "same_notice n m" using posts_on_mem(1) [OF assms(2) f(1)] by blast
  obtain t where t: "t \<in> set (outbox (post_db q))" "carried r t" using posts_on_mem(2) [OF assms(2) f(2)] by blast
  have "pl \<in> set (planNotifications t)" using f(3) plan_carried [OF t(2)] by simp
  then show ?thesis
    unfolding forgotten_def using assms(3) f(4-6) m t by (auto simp: same_notice_def carried_def)
qed

lemma forgotten_not_told:
  assumes wf: "post_wf p" and wf': "post_wf q" and on: "posts_on p q" and f: "forgotten i p"
    and "told_of q (concat (map planNotifications (take n (undelivered (post_db p))))) i"
  shows False
proof -
  from f obtain m r pl where f: "m \<in> set (notifications p)" "r \<in> set (outbox (post_db p))" "pl \<in> set (planNotifications r)"
      "nt_id m = i" "nt_key m = pl_key pl" "ob_processed_at r \<noteq> None"
    by (auto simp: forgotten_def)
  from assms(5) obtain m' t ql where t: "m' \<in> set (notifications q)" "nt_id m' = i" "t \<in> set (take n (undelivered (post_db p)))"
      "ql \<in> set (planNotifications t)" "nt_key m' = pl_key ql"
    by (auto simp: told_of_def)
  obtain m2 where m2: "m2 \<in> set (notifications q)" "same_notice m m2" using posts_on_mem(1) [OF on f(1)] by blast
  have "m2 = m'" using distinct_key_eq [OF post_wfD(4) [OF wf'] m2(1) t(1)] m2(2) f(4) t(2) by (simp add: same_notice_def)
  then have "pl_key pl = pl_key ql" using m2(2) f(5) t(5) by (simp add: same_notice_def)
  then have "ob_id r = ob_id t" by (rule plan_key_row [OF f(3) t(4)])
  moreover have "t \<in> set (outbox (post_db p))" "ob_processed_at t = None"
    using in_set_takeD [OF t(3)] undelivered_rows(2) [OF wf] by auto
  ultimately have "r = t" using distinct_key_eq [OF post_wfD(1) [OF wf] f(2)] by blast
  then show False using f(6) \<open>ob_processed_at t = None\<close> by simp
qed

lemma post_do_forgotten:
  assumes wf: "post_wf p" and f: "forgotten i p"
  shows "forgotten i (snd (post_do x p)) \<and> messages_about i (snd (post_do x p)) = messages_about i p"
proof -
  let ?q = "snd (post_do x p)"
  have q: "post_wf ?q" "posts_on p ?q" using post_do_wf [OF wf] by blast+
  have idle: "i \<notin> set (jobs p)" using f by (simp add: forgotten_def)
  have "i \<notin> set (jobs ?q)"
  proof (cases x)
    case (In_Life y)
    then show ?thesis using at_world_emits(4) [OF world_life, of y p] idle by simp
  next
    case (In_Reviews y)
    then show ?thesis using at_world_emits(4) [OF world_review, of y p] idle by simp
  next
    case (Emit_Elsewhere agg j et pl)
    then show ?thesis using emit_elsewhere_emits(4) [of agg j et pl p] idle by simp
  next
    case (Relay k)
    let ?p = "p\<lparr>life_left := k\<rparr>" and ?s = "snd (relayOutbox (p\<lparr>life_left := k\<rparr>))"
    have wf': "post_wf ?p" and f': "forgotten i ?p" using wf f by (simp_all add: with_life forgotten_def)
    have s: "queued_of ?p (take 100 (undelivered (post_db ?p))) ?s"
      using relayOutbox_ok [OF wf'] by (auto simp: act_ok_def relayed_def split: prod.splits sum.splits)
    then have s': "post_wf ?s" "posts_on ?p ?s" by (simp_all add: queued_of_def)
    show ?thesis
    proof
      assume "i \<in> set (jobs ?q)"
      then have "i \<in> set (jobs ?s) - set (jobs ?p)" using idle by (simp add: Relay worker_snd)
      then have "told_of ?s (concat (map planNotifications (take 100 (undelivered (post_db ?p))))) i"
        using s by (simp add: queued_of_def)
      then show False by (rule forgotten_not_told [OF wf' s' f'])
    qed
  next
    case (Deliver k j outcome)
    then show ?thesis using onSend_delivers [of j "p\<lparr>life_left := k\<rparr>" outcome] idle by (auto simp: worker_snd delivers_def)
  qed (use idle in \<open>auto simp: settings_update_def Let_def markBotBlocked_def in_tx_def tx_bind_def tx_modify_def tx_return_def split: option.split\<close>)
  moreover have "messages_about i ?q = messages_about i p"
  proof (cases "\<exists>k j outcome. x = Deliver k j outcome")
    case True
    then obtain k j outcome where x: "x = Deliver k j outcome" by blast
    show ?thesis
    proof (cases "j = i")
      case True
      then show ?thesis using idle by (simp add: x)
    next
      case False
      then show ?thesis using deliver_messages [OF wf refl, of k j outcome] by (auto simp: x messages_about_def)
    qed
  next
    case False
    then show ?thesis using others_send_nothing [OF wf, of x] by (auto simp: messages_about_def)
  qed
  ultimately show ?thesis using forgotten_on [OF f q(2)] by blast
qed

lemma forgotten_for_good:
  assumes "post_wf p" and "forgotten i p"
  shows "messages_about i (run_acts post_do ops p) = messages_about i p \<and> forgotten i (run_acts post_do ops p)"
  using assms
proof (induction ops arbitrary: p)
  case (Cons x ops)
  have "post_wf (snd (post_do x p))" using post_do_wf [OF Cons.prems(1)] by blast
  then show ?case using Cons.IH post_do_forgotten [OF Cons.prems] by simp
qed simp

end
