(* ===== verification/Notification_Properties.thy ===== *)
theory Notification_Properties
  imports Notification_Progress Samples
begin

text \<open>
  What people are told. The properties of the relay and the sender over any run of \<open>post_do\<close>: the modelled
  services at work, rows other services emit, passes and deliveries the worker may not survive, and
  people changing their settings. The witnesses run on an office with one row to tell: the guest 8 was
  accepted.
\<close>

section \<open>A sample\<close>

definition accepted_row :: outbox_row where
  "accepted_row = \<lparr>ob_id = 900, ob_aggregate_type = ''participation'', ob_aggregate_id = 60, ob_event_type = ''participation.accepted'',
     ob_payload = [(''participantUserPublicId'', JId 108), (''eventPublicId'', JId 150)], ob_processed_at = None, ob_attempts = 0,
     ob_created_at = 950\<rparr>"

definition sample_post :: post where
  "sample_post = \<lparr>office = empty_world\<lparr>base := quiet_desk\<lparr>outbox := [accepted_row]\<rparr>\<rparr>, notifications = [],
     telegram_accounts = [(8, \<lparr>ta_chat = 808, ta_bot_blocked = False\<rparr>)], user_settings = [], public_ids = [(107, 7), (108, 8)],
     message_senders = [], jobs = [], messages = [], life_left = None\<rparr>"

definition accepted_plan :: planned_notification where
  "accepted_plan = \<lparr>pl_user_public_id = 108, pl_template = ''participation.accepted'',
     pl_key = show_id 900 @ '':participantUserPublicId'', pl_payload = ob_payload accepted_row\<rparr>"

lemma accepted_planned: "planNotifications accepted_row = [accepted_plan]"
  by (simp add: planNotifications_def Let_def SINGLE_RECIPIENT_def recipient_def addressee_def payload_text_def accepted_row_def accepted_plan_def)

lemma sample_post_simps [simp]:
  "outbox (post_db sample_post) = [accepted_row]" "notifications sample_post = []" "jobs sample_post = []" "messages sample_post = []"
  "users (post_db sample_post) 8 = Some (sample_user 108)" "next_id (post_db sample_post) = 1000" "clock (post_db sample_post) = 1000"
  "life_left sample_post = None" "resolveUserId 108 sample_post = Some 8" "chats sample_post = [(8, 808)]"
  by (simp_all add: sample_post_def resolveUserId_def sample_user_def chats_def)

lemma sample_post_wf: "post_wf sample_post" and sample_addressed: "addressed sample_post"
  by (auto simp: post_wf_def accepted_row_def addressed_def tells_simps registered_def sample_user_def intro: exI [of _ "8::nat"])

lemma sample_undelivered: "undelivered (post_db sample_post) = [accepted_row]"
  by (simp add: undelivered_def accepted_row_def)

section \<open>The ledger of notifications\<close>



section \<open>Everybody an event concerns\<close>

text \<open>C37. Whatever the desk, the jobs, the reviews and the sender write into the outbox in any run, the relay
  knows whom to tell: for a row of one of the fourteen announced types it plans one notification for each of the keys the
  type has, in their order, and every recipient is the public identifier of a registered user. No
  payload misspells a key or carries an identifier nobody has.\<close>

theorem everyone_concerned_is_told:
  assumes ok: "addressed p" and run: "q = run_acts post_do ops p"
  shows "\<forall>r\<in>set (outbox (post_db q)). \<forall>keys. map_of ANNOUNCED (ob_event_type r) = Some keys \<longrightarrow>
     map (\<lambda>pl. Some (pl_user_public_id pl)) (planNotifications r) = map (payload_text (ob_payload r)) keys
     \<and> (\<forall>pl\<in>set (planNotifications r). \<exists>u row. users (post_db q) u = Some row \<and> us_public_id row = pl_user_public_id pl)"
proof (intro ballI allI impI)
  fix r keys assume r: "r \<in> set (outbox (post_db q))" and keys: "map_of ANNOUNCED (ob_event_type r) = Some keys"
  have "addressed q" unfolding run by (rule address_calls.run_inv [OF ok])
  then have "tells (registered (users (post_db q))) (ob_event_type r) (ob_payload r)" using r by (simp add: addressed_def)
  note plans = announced_recipients [OF this keys]
  show "map (\<lambda>pl. Some (pl_user_public_id pl)) (planNotifications r) = map (payload_text (ob_payload r)) keys
     \<and> (\<forall>pl\<in>set (planNotifications r). \<exists>u row. users (post_db q) u = Some row \<and> us_public_id row = pl_user_public_id pl)"
    using plans unfolding registered_def by blast
qed

lemma everyone_concerned_is_told_witness:
  "map (\<lambda>pl. Some (pl_user_public_id pl)) (planNotifications accepted_row) = [Some 108]"
proof -
  have "map_of ANNOUNCED (ob_event_type accepted_row) = Some [''participantUserPublicId'']" "accepted_row \<in> set (outbox (post_db sample_post))"
    by (simp_all add: ANNOUNCED_def accepted_row_def)
  then show ?thesis
    using everyone_concerned_is_told [OF sample_addressed, of sample_post "[]"] by (simp add: payload_text_def accepted_row_def)
qed

section \<open>The relay catches up\<close>



section \<open>What a delivery may repeat\<close>



section \<open>The gap between the mark and the queue\<close>


lemma died_before_queueing:
  "forgotten 1000 (run_acts post_do [Relay (Some 2)] sample_post)"
proof -
  let ?p = "sample_post\<lparr>life_left := Some 2\<rparr>"
  have r: "resolveUserId 108 ?p = Some 8" by (simp add: resolveUserId_def sample_post_def sample_user_def)
  have k: "notification_by_key (pl_key accepted_plan) ?p = None" by (simp add: notification_by_key_def)
  have plan: "relay_plan accepted_plan res ?p =
      (Inr (res\<lparr>ry_created := ry_created res + 1, ry_queued := ry_queued res @ [1000]\<rparr>), noted 8 accepted_plan ?p)" for res
    using r k by (simp add: relay_plan_app accepted_plan_def)
  let ?q = "noted 8 accepted_plan ?p"
  have alive: "life_left ?q = Some 1" "clock (post_db ?q) = 1000" "jobs ?q = []"
    "outbox (post_db ?q) = [accepted_row]" "notifications ?q = [new_notice 1000 8 accepted_plan 1000]"
    by (simp_all add: noted_def ticked_def sample_post_def)
  let ?s = "(ticked ?q)\<lparr>office := (office ?q)\<lparr>base := (post_db ?q)\<lparr>outbox := [accepted_row\<lparr>ob_processed_at := Some 1000, ob_attempts := 1\<rparr>]\<rparr>\<rparr>\<rparr>"
  have sent: "sent_off 1000 [accepted_row] [accepted_row] = [accepted_row\<lparr>ob_processed_at := Some 1000, ob_attempts := 1\<rparr>]"
    by (simp add: sent_off_def accepted_row_def)
  have mark: "call (mark_processed (ob_id accepted_row)) ?q = (Inr (), ?s)"
    using alive sent by (simp add: call_app in_tx_def mark_processed_app)
  have row: "relay_row accepted_row res ?p =
      (Inr (res\<lparr>ry_created := ry_created res + 1, ry_queued := ry_queued res @ [1000], ry_processed := ry_processed res + 1\<rparr>), ?s)" for res
    by (simp add: relay_row_def act_bind_def accepted_planned plan mark act_return_def)
  have pass: "drain 100 ?p = (Inr \<lparr>ry_processed = 1, ry_created = 1, ry_queued = [1000]\<rparr>, ?s)"
    using row sample_undelivered by (simp add: drain_def act_bind_def act_read_def act_return_def)
  have "life_left ?s = Some 0" using alive by (simp add: ticked_def)
  then have "relayOutbox ?p = (Inl DIED, ?s)"
    unfolding relayOutbox_def act_bind_def pass by (simp add: act_bind_def call_app)
  then have s: "snd (post_do (Relay (Some 2)) sample_post) = ?s\<lparr>life_left := None\<rparr>" by (simp add: worker_snd)
  have "planNotifications (accepted_row\<lparr>ob_processed_at := Some 1000, ob_attempts := 1\<rparr>) = [accepted_plan]"
    using plan_carried [of accepted_row "accepted_row\<lparr>ob_processed_at := Some 1000, ob_attempts := 1\<rparr>"] accepted_planned
    by (simp add: carried_def)
  then show ?thesis
    unfolding run_acts.simps s using alive by (simp add: forgotten_def new_notice_def)
qed


end
