(* ===== verification/Spec2Isabelle.thy ===== *)
theory Spec2Isabelle
  imports Callback_Properties Coin_Properties Trust_Properties Penalty_Properties Channel_Gate_Properties Participation_Properties
    Normalizer_Properties Review_Properties Gift_Code_Properties Lifecycle_Properties Notification_Properties
begin

text \<open>
  Verification of Paayatam: the economy, the participation desk and what hangs on them.

  The program. Paayatam brings strangers together for small gatherings. People ask for a place in
  an event over a Telegram bot; the host accepts or refuses; cancelling late or not turning up
  costs coins and reputation; having been there earns reputation, a review of the other side and
  the reward of whoever invited one. The services are NestJS classes over one PostgreSQL database
  (\<^verbatim>\<open>packages/domain/src\<close>); the bot (\<^verbatim>\<open>apps/api\<close>) and the worker (\<^verbatim>\<open>apps/worker\<close>) call them. A service
  changes state inside \<^verbatim>\<open>prisma.$transaction\<close>, takes row locks first, writes its audit line and its
  outbox row in the same transaction, and throws an \<^verbatim>\<open>AppError\<close> to roll back.

  How code becomes definitions. A transaction is a function from the database to an error or to a
  result and the new database (\<open>tx\<close>, theory Prelude); what is made of several transactions is an \<open>act\<close>
  (World), which may fail and leave what it committed. Tables are lists of records in insertion
  order with the columns the services use (Database, World); a CHECK or UNIQUE constraint is the
  guard of the definition that writes the table, an \<^verbatim>\<open>OrThrow\<close> read a guard of its own. Identifiers are
  natural numbers from one increasing sequence, instants integers in milliseconds, policy numbers
  rationals; names are the source's, with a prefix where a record or an enum needs one.

  Theories, by part of the program.
  \<^item> Prelude, Errors, State_Machine, Calendar, Database, Js_Text: the transaction monad and its rules, the error
    catalogue (\<^verbatim>\<open>shared/src/errors.ts\<close>), the five transition tables (\<^verbatim>\<open>state-machine.ts\<close>), time zones
    (\<^verbatim>\<open>time.ts\<close>, \<^verbatim>\<open>age.ts\<close>), the tables with \<^verbatim>\<open>AuditService\<close>, \<^verbatim>\<open>OutboxService\<close>, \<^verbatim>\<open>SettingsService\<close>, JavaScript strings.
  \<^item> Ledger_Interface, Coins, Trust, Penalty (\<^verbatim>\<open>economy/\<close>): the locale \<open>ledger\<close> and its three kinds of
    provider; movements, penalties and reversals of coins; movements of reputation; prices and charges of a
    cancellation, refunds. Shown in Coin_, Trust_ and Penalty_Properties: no drift, exactly once,
    the outcome of every movement, refunds that give back exactly what was taken.
  \<^item> Channel_Gate (\<^verbatim>\<open>channel/\<close>): required channels and who passes. Shown: the gate stays passable, and refuses on
    a definite answer only.
  \<^item> Participation, with _Invariant and _Money (\<^verbatim>\<open>participation.service.ts\<close>, \<^verbatim>\<open>event-lock.ts\<close>): asking, deciding,
    cancelling, expiring, the waitlist. Each operation decomposes into steps of \<open>desk_step\<close>, of which the
    invariants are proved. Shown: never oversold, nobody waits beside a free place, legal histories,
    first come first served, previews that are true, money that comes back.
  \<^item> Callback_Data, Callback_Roundtrip (\<^verbatim>\<open>telegram/src/callback-data.ts\<close>, \<^verbatim>\<open>wizard/callback.ts\<close>, the dispatch of
    \<^verbatim>\<open>bot.service.ts\<close>): every button encoder and parser. Shown: round trip, well-formedness, disjoint protocols.
  \<^item> Persian_Normalizer, Moderation (\<^verbatim>\<open>moderation/\<close>): the eleven rules of the normaliser, blacklist and verdict.
  \<^item> World, Reviews, Review_Invariant, Review_Progress (\<^verbatim>\<open>reviews/review.service.ts\<close>): double-blind reviews and
    their sweeps. Shown: blindness, permanence, one per party, the outcome of a submission, sweeps that drain.
  \<^item> Gift_Code, Referral (\<^verbatim>\<open>economy/gift-code.service.ts\<close>, \<^verbatim>\<open>economy/referral.service.ts\<close>): redemptions within
    their caps; invitations paid once and within the rolling cap.
  \<^item> Lifecycle, with _Invariant and _Sweep (\<^verbatim>\<open>events/lifecycle.service.ts\<close>): retiring, reminding, settling and
    no-shows. Shown: what the sweep does exactly, and that the jobs keep seats and the daily cap of reputation.
  \<^item> Notifications, Desk_Writes, Notification_Invariant, _Runs and _Progress (\<^verbatim>\<open>notifications/\<close>, \<^verbatim>\<open>outbox/relay.service.ts\<close>,
    \<^verbatim>\<open>identity/user-settings.service.ts\<close>, \<^verbatim>\<open>relayOutbox\<close> and \<^verbatim>\<open>onSend\<close> of \<^verbatim>\<open>apps/worker/src/queues/processors.service.ts\<close>): who is
    told what, the relay and the sender, with a worker that may die before any statement. Shown: nothing is recorded
    twice, every row names registered people to be told, the relay catches up, what a delivery may repeat; and
    that a worker dying between marking a row and queueing its notifications leaves them unsent.
    Users and their public identifiers stay as they are in a run.

  Interfaces. \<open>service\<close> and \<open>monotone_service\<close> (Prelude), \<open>calls\<close> (World), \<open>lifecycle\<close> and \<open>acyclic_lifecycle\<close>
  (State_Machine), \<open>ledger\<close> (Ledger_Interface) and \<open>desk_writes\<close> (Desk_Writes: the desk walked once, interpreted for
  the referral rows it leaves alone and for the outbox rows it adds) are the contracts; each is
  interpreted on the code's definitions in the theory that provides them, and the statements about runs rest
  on the interpretations. A run is any list of operations of its component, failed ones included, with time
  passing between them and what other services do to the shared tables as operations of their own.

  Bounds and fuel. The promotion loop ends because the places left decrease (\<open>fillLoop\<close>, by measure); an invite
  code is drawn five times at most, the source's own bound, and failing them is its error; sweeps take the
  batch limits of their callers and the theorems say what happens when more is due than the batch. Coins are
  integers without wrap-around, as JavaScript numbers are far below their exact range; button payloads
  are bounded by Telegram's 64 bytes and the bound is proved.

  Parameters, each outside the repository: the offset of a time zone, Unicode tables, case mapping and the regular
  expression engine of the runtime, the parser of URLs, Telegram's answers, drawn random numbers. BullMQ is a list of
  job identifiers. Nothing is assumed of any of them but what a theorem states.

  Concurrency. Transactions that touch the same rows take the same locks, so each is one step and runs are
  sequences of them; what a service reads before its transaction is an argument of the transaction's definition
  where staleness matters (\<open>join_tx\<close>), and is read at its start elsewhere.

  Not modelled: authoring and cancelling of events, disputes of no-shows, hosts' rewards, comeback grants and founding
  ranks (further clients of the modelled ledgers); accounts, sessions, consent and profiles (HMAC and Redis);
  administration and its reports; encrypted direct messages; deletion and retention; search (PostgreSQL); invitations and
  campaigns; the wizards' forms; channel posts; all display text; the web applications; HTTP controllers, metrics,
  logging and configuration.
\<close>

end
